(* ===== verification/Prelude.thy ===== *)
theory Prelude
  imports Main
begin

text \<open>
  Shared vocabulary of the development: the model's basic type synonyms (times and
  durations in nanoseconds), the \<^theory_text>\<open>named_theorems\<close> collections the component
  theories add to, the reachable states of a step relation with the locale that turns an
  inductive invariant into a fact about every reachable state, and the generic lemmas on
  lists, association lists and options that several components use.
\<close>

section \<open>Times and durations\<close>

text \<open>
  A \<open>time.Time\<close> is the number of nanoseconds since the Unix epoch; its zero value is
  January 1, year 1 UTC. A \<open>time.Duration\<close> is a number of nanoseconds. The range of
  \<open>int64\<close> durations is written out with \<open>wrap64\<close> where the code multiplies configured
  values, and nowhere else.
\<close>

type_synonym time = int
type_synonym duration = int

definition nsPerSecond :: int where
  "nsPerSecond = 1000000000"

definition timeMillisecond :: duration where
  "timeMillisecond = 1000000"

definition timeSecond :: duration where
  "timeSecond = nsPerSecond"

definition timeMinute :: duration where
  "timeMinute = 60 * nsPerSecond"

definition zeroTime :: time where
  "zeroTime = - 62135596800 * 1000000000"

definition IsZero :: "time \<Rightarrow> bool" where
  "IsZero t \<longleftrightarrow> t = zeroTime"

definition After :: "time \<Rightarrow> time \<Rightarrow> bool" where
  "After t u \<longleftrightarrow> u < t"

definition Before :: "time \<Rightarrow> time \<Rightarrow> bool" where
  "Before t u \<longleftrightarrow> t < u"

definition wrap64 :: "int \<Rightarrow> int" where
  "wrap64 x = (x + 2 ^ 63) mod 2 ^ 64 - 2 ^ 63"

named_theorems time_simps "definitions of the time operations"

lemmas [time_simps] =
  nsPerSecond_def timeMillisecond_def timeSecond_def timeMinute_def IsZero_def After_def Before_def

lemma wrap64_id: "- (2 ^ 63) \<le> x \<Longrightarrow> x < 2 ^ 63 \<Longrightarrow> wrap64 x = x"
  by (simp add: wrap64_def)

lemma wrap64_bounds: "- (2 ^ 63) \<le> wrap64 x \<and> wrap64 x < 2 ^ 63"
  by (simp add: wrap64_def)

section \<open>Reachable states and inductive invariants\<close>

inductive reachable :: "('s \<Rightarrow> bool) \<Rightarrow> ('s \<Rightarrow> 's \<Rightarrow> bool) \<Rightarrow> 's \<Rightarrow> bool"
  for init :: "'s \<Rightarrow> bool" and step :: "'s \<Rightarrow> 's \<Rightarrow> bool" where
  reach_init: "init s \<Longrightarrow> reachable init step s"
| reach_step: "reachable init step s \<Longrightarrow> step s t \<Longrightarrow> reachable init step t"

text \<open>
  The contract a component's invariant has to meet: it holds initially and every step keeps
  it. Each component with a step relation interprets this locale on its own relation.
\<close>

locale inductive_invariant =
  fixes init :: "'s \<Rightarrow> bool"
    and step :: "'s \<Rightarrow> 's \<Rightarrow> bool"
    and inv :: "'s \<Rightarrow> bool"
  assumes inv_init: "init s \<Longrightarrow> inv s"
    and inv_step: "inv s \<Longrightarrow> step s t \<Longrightarrow> inv t"
begin

lemma reachable_inv: "reachable init step s \<Longrightarrow> inv s"
  by (induction rule: reachable.induct) (auto intro: inv_init inv_step)

lemma reachable_step_inv: "reachable init step s \<Longrightarrow> step s t \<Longrightarrow> inv s \<and> inv t"
  by (blast intro: reachable_inv reach_step)

end

section \<open>Lists\<close>

lemma distinct_map_filter: "distinct (map f xs) \<Longrightarrow> distinct (map f (filter P xs))"
  by (induction xs) auto

lemma last_drop_bound: "n \<le> length xs \<Longrightarrow> length (drop (length xs - n) xs) = n"
  by simp

lemma nth_mod_rotate:
  "xs \<noteq> [] \<Longrightarrow> i < length xs \<Longrightarrow> rotate k xs ! i = xs ! ((k + i) mod length xs)"
  by (simp add: nth_rotate)

lemma count_list_filter_split:
  "count_list xs x = count_list (filter P xs) x + count_list (filter (\<lambda>y. \<not> P y) xs) x"
  by (induction xs) auto

section \<open>Association lists\<close>

text \<open>
  Go's maps are association lists with distinct keys: \<open>map_of\<close> reads, \<open>mapPut\<close> writes and
  \<open>mapDelete\<close> is the builtin \<open>delete\<close>. The order of the list stands for the (unspecified)
  iteration order; where the code sorts the keys first, the model sorts them.
\<close>

type_synonym ('k, 'v) gomap = "('k \<times> 'v) list"

definition mapDelete :: "'k \<Rightarrow> ('k, 'v) gomap \<Rightarrow> ('k, 'v) gomap" where
  "mapDelete k m = filter (\<lambda>kv. fst kv \<noteq> k) m"

definition mapPut :: "'k \<Rightarrow> 'v \<Rightarrow> ('k, 'v) gomap \<Rightarrow> ('k, 'v) gomap" where
  "mapPut k v m = (k, v) # mapDelete k m"

lemma map_of_mapDelete: "map_of (mapDelete k m) = (map_of m)(k := None)"
  by (induction m) (auto simp: mapDelete_def)

lemma map_of_mapPut: "map_of (mapPut k v m) = (map_of m)(k \<mapsto> v)"
  by (simp add: mapPut_def map_of_mapDelete)

lemma keys_mapDelete: "fst ` set (mapDelete k m) = fst ` set m - {k}"
  by (force simp: mapDelete_def)

lemma keys_mapPut: "fst ` set (mapPut k v m) = insert k (fst ` set m)"
  by (simp add: mapPut_def keys_mapDelete)

lemma distinct_mapDelete: "distinct (map fst m) \<Longrightarrow> distinct (map fst (mapDelete k m))"
  by (simp add: mapDelete_def distinct_map_filter)

lemma distinct_mapPut: "distinct (map fst m) \<Longrightarrow> distinct (map fst (mapPut k v m))"
  by (auto simp: mapPut_def distinct_mapDelete) (auto simp: mapDelete_def)

lemmas gomap_simps = map_of_mapDelete map_of_mapPut keys_mapDelete keys_mapPut

section \<open>Errors\<close>

text \<open>
  A Go function returning \<open>(T, error)\<close> returns \<open>Inr\<close> of the value or \<open>Inl\<close> of the error.
\<close>

definition isError :: "'e + 'a \<Rightarrow> bool" where
  "isError r = (case r of Inl _ \<Rightarrow> True | Inr _ \<Rightarrow> False)"

lemma isError_simps [simp]: "isError (Inl e)" "\<not> isError (Inr v)"
  by (simp_all add: isError_def)

end
