(* ===== verification/RingBuffer.thy ===== *)
theory RingBuffer
  imports Prelude
begin

text \<open>
  The bounded in-memory line buffer of \<open>internal/process/ring.go\<close>: an array of fixed
  capacity with the index of the oldest line and a count. The contract a reader of logs
  relies on is the locale \<open>line_log\<close>: a push keeps the last \<open>capacity\<close> lines, and reading
  \<open>n\<close> lines gives the most recent \<open>n\<close>, oldest first. The ring buffer is shown to meet it.
\<close>

section \<open>The last lines of a list\<close>

definition lastN :: "nat \<Rightarrow> 'a list \<Rightarrow> 'a list" where
  "lastN n xs = drop (length xs - n) xs"

lemma length_lastN [simp]: "length (lastN n xs) = min n (length xs)"
  by (simp add: lastN_def)

lemma lastN_all: "length xs \<le> n \<Longrightarrow> lastN n xs = xs"
  by (simp add: lastN_def)

lemma lastN_lastN_append: "lastN n (lastN n xs @ ys) = lastN n (xs @ ys)"
  by (cases "n \<le> length xs") (auto simp: lastN_def add.commute)

lemma lastN_lastN: "lastN m (lastN n xs) = lastN (min m n) xs"
  by (cases "n \<le> length xs") (auto simp: lastN_def min_def)

section \<open>The buffer\<close>

record ring =
  rLines :: "string list"
  rStart :: nat
  rCount :: nat

definition newRingBuffer :: "nat \<Rightarrow> ring" where
  "newRingBuffer capacity = \<lparr>rLines = replicate capacity [], rStart = 0, rCount = 0\<rparr>"

definition ringAppend :: "ring \<Rightarrow> string \<Rightarrow> ring" where
  "ringAppend r line =
     (let n = length (rLines r) in
      if rCount r < n
      then r\<lparr>rLines := (rLines r)[(rStart r + rCount r) mod n := line], rCount := rCount r + 1\<rparr>
      else r\<lparr>rLines := (rLines r)[rStart r := line], rStart := (rStart r + 1) mod n\<rparr>)"

definition ringLast :: "ring \<Rightarrow> int \<Rightarrow> string list" where
  "ringLast r n =
     (let k = (if n \<le> 0 \<or> int (rCount r) < n then rCount r else nat n)
      in map (\<lambda>i. rLines r ! ((rStart r + rCount r - k + i) mod length (rLines r))) [0..<k])"

text \<open>The invariant and the abstraction: the buffered lines, oldest first.\<close>

definition ringInv :: "ring \<Rightarrow> bool" where
  "ringInv r \<longleftrightarrow> rLines r \<noteq> [] \<and> rStart r < length (rLines r) \<and> rCount r \<le> length (rLines r)"

definition ringContent :: "ring \<Rightarrow> string list" where
  "ringContent r = map (\<lambda>i. rLines r ! ((rStart r + i) mod length (rLines r))) [0..<rCount r]"

definition ringCapacity :: "ring \<Rightarrow> nat" where
  "ringCapacity r = length (rLines r)"

lemma length_ringContent [simp]: "length (ringContent r) = rCount r"
  by (simp add: ringContent_def)

lemma ringInv_new: "0 < n \<Longrightarrow> ringInv (newRingBuffer n)"
  by (auto simp: ringInv_def newRingBuffer_def)

lemma ringContent_new [simp]: "ringContent (newRingBuffer n) = []"
  by (simp add: ringContent_def newRingBuffer_def)

lemma ringCapacity_new [simp]: "ringCapacity (newRingBuffer n) = n"
  by (simp add: ringCapacity_def newRingBuffer_def)

lemma ringInv_append: "ringInv r \<Longrightarrow> ringInv (ringAppend r x)"
  by (auto simp: ringInv_def ringAppend_def Let_def)

lemma ringCapacity_append [simp]: "ringCapacity (ringAppend r x) = ringCapacity r"
  by (simp add: ringCapacity_def ringAppend_def Let_def)

lemma map_nth_upt_shift:
  "k \<le> n \<Longrightarrow> map f [n - k..<n] = map (\<lambda>i. f (n - k + i)) [0..<k]"
  by (rule nth_equalityI) auto

text \<open>An index below twice the capacity wraps at most once.\<close>

lemma add_mod_once: "s < n \<Longrightarrow> i \<le> n \<Longrightarrow> (s + i) mod n = (if s + i < n then s + i else s + i - n)"
  for s i n :: nat
  by (auto simp: mod_if)

lemma ringContent_append:
  assumes inv: "ringInv r"
  shows "ringContent (ringAppend r x) = lastN (ringCapacity r) (ringContent r @ [x])"
proof (cases "rCount r < length (rLines r)")
  case True
  with inv show ?thesis
    by (intro nth_equalityI)
      (auto simp: ringAppend_def ringContent_def ringCapacity_def lastN_def Let_def ringInv_def
        nth_append nth_list_update add_mod_once less_Suc_eq split: if_splits)
next
  case False
  with inv have full: "rCount r = length (rLines r)" by (simp add: ringInv_def)
  show ?thesis
  proof (rule nth_equalityI)
    show "length (ringContent (ringAppend r x)) =
        length (lastN (ringCapacity r) (ringContent r @ [x]))"
      using full by (simp add: ringAppend_def ringCapacity_def Let_def)
  next
    fix i assume "i < length (ringContent (ringAppend r x))"
    then have i: "i < length (rLines r)" using full by (simp add: ringAppend_def Let_def)
    then show "ringContent (ringAppend r x) ! i = lastN (ringCapacity r) (ringContent r @ [x]) ! i"
      using full inv
      by (cases "Suc (rStart r) = length (rLines r)")
        (auto simp: ringAppend_def ringContent_def ringCapacity_def lastN_def ringInv_def
          nth_append nth_list_update add_mod_once mod_Suc Let_def split: if_splits
          intro!: arg_cong [where f = "(!) (rLines r)"])
  qed
qed

lemma ringLast_lastN:
  assumes "ringInv r"
  shows "ringLast r n = (if n \<le> 0 then ringContent r else lastN (nat n) (ringContent r))"
proof (cases "n \<le> 0 \<or> int (rCount r) < n")
  case True
  then show ?thesis by (auto simp: ringLast_def ringContent_def lastN_def)
next
  case False
  then have n: "nat n \<le> rCount r" "\<not> n \<le> 0" by auto
  then have "rStart r + rCount r - nat n + i = rStart r + (rCount r - nat n + i)" for i by simp
  with n False show ?thesis
    by (simp only: ringLast_def ringContent_def lastN_def drop_map drop_upt Let_def if_False
        length_map length_upt diff_zero add_0 map_nth_upt_shift simp_thms)
qed

section \<open>The contract of a bounded line log\<close>

locale line_log =
  fixes push :: "'r \<Rightarrow> string \<Rightarrow> 'r"
    and recent :: "'r \<Rightarrow> int \<Rightarrow> string list"
    and content :: "'r \<Rightarrow> string list"
    and capacity :: "'r \<Rightarrow> nat"
    and wf :: "'r \<Rightarrow> bool"
  assumes wf_push: "wf r \<Longrightarrow> wf (push r x)"
    and capacity_push: "wf r \<Longrightarrow> capacity (push r x) = capacity r"
    and content_bounded: "wf r \<Longrightarrow> length (content r) \<le> capacity r"
    and content_push: "wf r \<Longrightarrow> content (push r x) = lastN (capacity r) (content r @ [x])"
    and recent_content:
      "wf r \<Longrightarrow> recent r n = (if n \<le> 0 then content r else lastN (nat n) (content r))"
begin

lemma wf_pushes: "wf r \<Longrightarrow> wf (foldl push r xs)"
  by (induction xs arbitrary: r) (auto intro: wf_push)

lemma content_pushes:
  "wf r \<Longrightarrow> content (foldl push r xs) = lastN (capacity r) (content r @ xs)"
proof (induction xs arbitrary: r)
  case Nil
  then show ?case by (simp add: lastN_all content_bounded)
next
  case (Cons x xs)
  then show ?case
    by (simp add: wf_push capacity_push content_push lastN_lastN_append)
qed

lemma recent_pushes:
  assumes "wf r" and "content r = []"
  shows "recent (foldl push r xs) n =
    lastN (if n \<le> 0 then capacity r else min (nat n) (capacity r)) xs"
  using assms by (simp add: recent_content wf_pushes content_pushes lastN_lastN)

lemma recent_suffix: "wf r \<Longrightarrow> \<exists>ys. content r = ys @ recent r n"
  by (auto simp: recent_content lastN_def intro: append_take_drop_id [symmetric])

end

interpretation ring_log: line_log ringAppend ringLast ringContent ringCapacity ringInv
  by unfold_locales
    (auto simp: ringInv_append ringContent_append ringLast_lastN, simp add: ringInv_def ringCapacity_def)

section \<open>Properties\<close>

text \<open>
  A buffer of positive capacity that has been fed any sequence of lines answers a request
  for the last \<open>n\<close> lines with exactly the most recent \<open>min n capacity\<close> of them in order
  (everything buffered for \<open>n \<le> 0\<close>), whatever wrapping around the array the feed caused.
\<close>

theorem ring_returns_most_recent:
  "0 < cap \<Longrightarrow>
    ringLast (foldl ringAppend (newRingBuffer cap) xs) n =
      lastN (if n \<le> 0 then cap else min (nat n) cap) xs"
  using ring_log.recent_pushes [OF ringInv_new ringContent_new] by simp

theorem ring_returns_most_recent_witness:
  "ringLast (foldl ringAppend (newRingBuffer 2) [''a'', ''b'', ''c'']) 5 = [''b'', ''c'']"
  using ring_returns_most_recent [of 2 "[''a'', ''b'', ''c'']" 5] by (simp add: lastN_def)

end
