(* ===== verification/Backoff.thy ===== *)
theory Backoff
  imports Prelude
begin

text \<open>
  The two exponential backoffs: \<open>backoffDelay\<close> of \<open>internal/process/supervisor.go\<close> (automatic
  retries of a failed start) and \<open>resolveBackoff\<close> of \<open>internal/daemon/wildcard.go\<close> (retries of
  a failed label resolution). The loops are modelled as written, with their early exits; both
  are shown equal to the closed form \<open>min (base * 2 ^ (n - 1)) max\<close>. No product here ever
  exceeds twice the cap of 30 seconds, so the \<open>int64\<close> arithmetic does not wrap.
\<close>

definition backoffBase :: duration where
  "backoffBase = timeSecond"

definition backoffMax :: duration where
  "backoffMax = 30 * timeSecond"

text \<open>The loop of \<open>backoffDelay\<close>, with \<open>k\<close> iterations left.\<close>

fun backoffLoop :: "nat \<Rightarrow> duration \<Rightarrow> duration" where
  "backoffLoop 0 d = (if backoffMax < d then backoffMax else d)"
| "backoffLoop (Suc k) d =
     (let d' = d * 2 in if backoffMax \<le> d' then backoffMax else backoffLoop k d')"

definition backoffDelay :: "int \<Rightarrow> duration" where
  "backoffDelay failures =
     (if failures < 1 then 0 else backoffLoop (nat (failures - 1)) backoffBase)"

definition resolveBackoffBase :: duration where
  "resolveBackoffBase = timeSecond"

definition resolveBackoffMax :: duration where
  "resolveBackoffMax = 30 * timeSecond"

text \<open>The loop of \<open>resolveBackoff\<close>: its condition tests the delay before doubling it.\<close>

fun resolveLoop :: "nat \<Rightarrow> duration \<Rightarrow> duration" where
  "resolveLoop 0 d = d"
| "resolveLoop (Suc k) d = (if d < resolveBackoffMax then resolveLoop k (d * 2) else d)"

definition resolveBackoff :: "int \<Rightarrow> duration" where
  "resolveBackoff n = min (resolveLoop (nat (n - 1)) resolveBackoffBase) resolveBackoffMax"

lemmas backoff_consts =
  backoffBase_def backoffMax_def resolveBackoffBase_def resolveBackoffMax_def time_simps

lemma backoffLoop_closed: "0 \<le> d \<Longrightarrow> backoffLoop k d = min (d * 2 ^ k) backoffMax"
proof (induction k arbitrary: d)
  case 0
  then show ?case by auto
next
  case (Suc k)
  show ?case
  proof (cases "backoffMax \<le> d * 2")
    case True
    moreover have "d * 2 \<le> d * 2 * 2 ^ k" using Suc.prems by (simp add: mult_le_cancel_left1)
    ultimately show ?thesis by (simp add: Let_def mult.assoc)
  next
    case False
    with Suc.IH [of "d * 2"] Suc.prems show ?thesis by (simp add: Let_def mult.assoc)
  qed
qed

lemma resolveLoop_closed:
  "0 \<le> d \<Longrightarrow> min (resolveLoop k d) resolveBackoffMax = min (d * 2 ^ k) resolveBackoffMax"
proof (induction k arbitrary: d)
  case 0
  then show ?case by simp
next
  case (Suc k)
  show ?case
  proof (cases "d < resolveBackoffMax")
    case True
    with Suc show ?thesis by (simp add: mult.assoc)
  next
    case False
    moreover have "d * 1 \<le> d * 2 ^ Suc k"
      using Suc.prems by (intro mult_left_mono) (simp_all del: power_Suc)
    ultimately show ?thesis by simp
  qed
qed

lemma backoffDelay_pos: "1 \<le> n \<Longrightarrow> timeSecond \<le> backoffDelay n"
  by (auto simp: backoffDelay_def backoffLoop_closed backoff_consts mult_le_cancel_left1)

lemma backoffDelay_le: "backoffDelay n \<le> backoffMax"
  by (auto simp: backoffDelay_def backoffLoop_closed backoff_consts)

lemma backoffDelay_mono: "m \<le> n \<Longrightarrow> backoffDelay m \<le> backoffDelay n"
  by (auto simp: backoffDelay_def backoffLoop_closed backoff_consts min_le_iff_disj
      intro!: mult_left_mono power_increasing)

text \<open>
  C37. Both backoffs are the documented doubling delay: after \<open>n \<ge> 1\<close> consecutive failures the
  next automatic attempt waits \<open>min (2 ^ (n - 1)) 30\<close> seconds, although one loop returns the cap
  early and the other clamps at the end.
\<close>

theorem backoff_closed_form:
  "1 \<le> n \<Longrightarrow>
    backoffDelay n = min (2 ^ nat (n - 1)) 30 * timeSecond \<and>
    resolveBackoff n = backoffDelay n"
proof -
  assume n: "1 \<le> n"
  have m: "min (timeSecond * 2 ^ k) (30 * timeSecond) = min (2 ^ k) 30 * timeSecond" for k
    by (simp add: min_mult_distrib_right time_simps)
  have b: "backoffDelay n = min (timeSecond * 2 ^ nat (n - 1)) (30 * timeSecond)"
    using n by (simp add: backoffDelay_def backoffLoop_closed backoff_consts)
  have r: "resolveBackoff n = min (timeSecond * 2 ^ nat (n - 1)) (30 * timeSecond)"
    using resolveLoop_closed [of timeSecond "nat (n - 1)"]
    by (simp add: resolveBackoff_def resolveBackoffBase_def resolveBackoffMax_def time_simps)
  from b r show ?thesis by (simp only: m)
qed

theorem backoff_closed_form_witness: "backoffDelay 4 = 8 * timeSecond \<and> resolveBackoff 4 = 8 * timeSecond"
  using backoff_closed_form [of 4] by simp

end
