(* ===== verification/GoLib.thy ===== *)
theory GoLib
  imports Prelude "HOL-Library.List_Lexorder" "HOL-Library.Char_ord"
begin

text \<open>
  The parts of Go's standard library the program's own logic uses, on strings as lists of
  bytes (\<open>char\<close>): \<open>strings\<close>, \<open>strconv\<close>, \<open>path/filepath\<close> for a Unix path separator, and
  the host/port splitting of \<open>net\<close>. \<open>ToLower\<close> and \<open>EqualFold\<close> fold ASCII letters only.
  The lemmas are the ones the component proofs rest on.
\<close>

section \<open>Package strings\<close>

definition hasPrefix :: "string \<Rightarrow> string \<Rightarrow> bool" where
  "hasPrefix s p \<longleftrightarrow> take (length p) s = p"

definition hasSuffix :: "string \<Rightarrow> string \<Rightarrow> bool" where
  "hasSuffix s p \<longleftrightarrow> length p \<le> length s \<and> drop (length s - length p) s = p"

definition cutPrefix :: "string \<Rightarrow> string \<Rightarrow> string option" where
  "cutPrefix s p = (if hasPrefix s p then Some (drop (length p) s) else None)"

definition cutSuffix :: "string \<Rightarrow> string \<Rightarrow> string option" where
  "cutSuffix s p = (if hasSuffix s p then Some (take (length s - length p) s) else None)"

definition trimPrefix :: "string \<Rightarrow> string \<Rightarrow> string" where
  "trimPrefix s p = (case cutPrefix s p of Some r \<Rightarrow> r | None \<Rightarrow> s)"

definition trimSuffix :: "string \<Rightarrow> string \<Rightarrow> string" where
  "trimSuffix s p = (case cutSuffix s p of Some r \<Rightarrow> r | None \<Rightarrow> s)"

text \<open>\<open>strings.Cut\<close> around the first occurrence of a one-byte separator.\<close>

fun cutByte :: "char \<Rightarrow> string \<Rightarrow> (string \<times> string) option" where
  "cutByte c [] = None"
| "cutByte c (x # s) =
     (if x = c then Some ([], s)
      else (case cutByte c s of None \<Rightarrow> None | Some (a, b) \<Rightarrow> Some (x # a, b)))"

text \<open>\<open>strings.Split\<close> at a one-byte separator: never the empty list.\<close>

fun splitByte :: "char \<Rightarrow> string \<Rightarrow> string list" where
  "splitByte c [] = [[]]"
| "splitByte c (x # s) =
     (if x = c then [] # splitByte c s
      else (case splitByte c s of [] \<Rightarrow> [[x]] | p # ps \<Rightarrow> (x # p) # ps))"

fun joinStrings :: "string list \<Rightarrow> string \<Rightarrow> string" where
  "joinStrings [] sep = []"
| "joinStrings [s] sep = s"
| "joinStrings (s # ss) sep = s @ sep @ joinStrings ss sep"

fun containsStr :: "string \<Rightarrow> string \<Rightarrow> bool" where
  "containsStr [] p = (p = [])"
| "containsStr (x # s) p = (hasPrefix (x # s) p \<or> containsStr s p)"

text \<open>\<open>strings.ReplaceAll\<close> for a non-empty pattern.\<close>

function replaceAll :: "string \<Rightarrow> string \<Rightarrow> string \<Rightarrow> string" where
  "replaceAll [] old new = []"
| "replaceAll (x # s) old new =
     (if old \<noteq> [] \<and> hasPrefix (x # s) old
      then new @ replaceAll (drop (length old) (x # s)) old new
      else x # replaceAll s old new)"
  by pat_completeness auto
termination
  by (relation "measure (\<lambda>(s, old, new). length s)") (auto simp: neq_Nil_conv)

subsection \<open>White space\<close>

text \<open>
  \<open>strings.TrimSpace\<close> removes Unicode white space: the six ASCII characters, and the UTF-8
  encodings of U+0085, U+00A0, U+1680, U+2000 to U+200A, U+2028, U+2029, U+202F, U+205F and
  U+3000. \<open>spaceWidth\<close> is the width in bytes of a white-space rune at the front (0: none).
\<close>

definition asciiSpace :: "char \<Rightarrow> bool" where
  "asciiSpace c \<longleftrightarrow> c \<in> set [CHR 0x09, CHR 0x0A, CHR 0x0B, CHR 0x0C, CHR 0x0D, CHR 0x20]"

definition spaceRune3 :: "char \<Rightarrow> char \<Rightarrow> char \<Rightarrow> bool" where
  "spaceRune3 a b c \<longleftrightarrow>
     (a = CHR 0xE1 \<and> b = CHR 0x9A \<and> c = CHR 0x80) \<or>
     (a = CHR 0xE2 \<and> b = CHR 0x80 \<and>
       (of_char c \<in> set [128 ..< 139] \<or> c \<in> set [CHR 0xA8, CHR 0xA9, CHR 0xAF])) \<or>
     (a = CHR 0xE2 \<and> b = CHR 0x81 \<and> c = CHR 0x9F) \<or>
     (a = CHR 0xE3 \<and> b = CHR 0x80 \<and> c = CHR 0x80)"

fun spaceWidth :: "string \<Rightarrow> nat" where
  "spaceWidth [] = 0"
| "spaceWidth (a # s) =
     (if asciiSpace a then 1
      else (case s of
              [] \<Rightarrow> 0
            | b # s' \<Rightarrow>
                if a = CHR 0xC2 \<and> (b = CHR 0x85 \<or> b = CHR 0xA0) then 2
                else (case s' of [] \<Rightarrow> 0 | c # _ \<Rightarrow> if spaceRune3 a b c then 3 else 0)))"

text \<open>The width of a white-space rune at the end.\<close>

definition spaceWidthEnd :: "string \<Rightarrow> nat" where
  "spaceWidthEnd s =
     (if s = [] then 0
      else if asciiSpace (last s) then 1
      else if 2 \<le> length s \<and> spaceWidth (drop (length s - 2) s) = 2 then 2
      else if 3 \<le> length s \<and> spaceWidth (drop (length s - 3) s) = 3 then 3
      else 0)"

lemma drop_spaceWidth_less: "0 < spaceWidth s \<Longrightarrow> length s - spaceWidth s < length s"
  by (cases s) auto

function trimLeftSpace :: "string \<Rightarrow> string" where
  "trimLeftSpace s =
     (if spaceWidth s = 0 then s else trimLeftSpace (drop (spaceWidth s) s))"
  by pat_completeness auto
termination
  by (relation "measure length") (auto simp: drop_spaceWidth_less)

function trimRightSpace :: "string \<Rightarrow> string" where
  "trimRightSpace s =
     (if spaceWidthEnd s = 0 then s
      else trimRightSpace (take (length s - spaceWidthEnd s) s))"
  by pat_completeness auto
termination
  by (relation "measure length") (auto simp: spaceWidthEnd_def split: if_splits)

declare trimLeftSpace.simps [simp del] trimRightSpace.simps [simp del]

definition TrimSpace :: "string \<Rightarrow> string" where
  "TrimSpace s = trimRightSpace (trimLeftSpace s)"

lemma trimLeftSpace_id: "spaceWidth s = 0 \<Longrightarrow> trimLeftSpace s = s"
  by (subst trimLeftSpace.simps) simp

lemma trimRightSpace_id: "spaceWidthEnd s = 0 \<Longrightarrow> trimRightSpace s = s"
  by (subst trimRightSpace.simps) simp

lemma TrimSpace_id: "spaceWidth s = 0 \<Longrightarrow> spaceWidthEnd s = 0 \<Longrightarrow> TrimSpace s = s"
  by (simp add: TrimSpace_def trimLeftSpace_id trimRightSpace_id)

text \<open>A string that begins and ends with a printable ASCII character is trimmed already.\<close>

definition printable :: "char \<Rightarrow> bool" where
  "printable c \<longleftrightarrow> 33 \<le> (of_char c :: nat) \<and> (of_char c :: nat) \<le> 126"

lemma printable_not: "printable c \<Longrightarrow> \<not> asciiSpace c"
  "printable c \<Longrightarrow> c \<noteq> CHR 0xC2 \<and> \<not> spaceRune3 c x y"
  "printable c \<Longrightarrow> c \<noteq> CHR 0x85 \<and> c \<noteq> CHR 0xA0"
  by (auto simp: printable_def asciiSpace_def spaceRune3_def)

lemma spaceWidth_printable: "printable a \<Longrightarrow> spaceWidth (a # s) = 0"
  by (simp add: printable_not split: list.splits)

lemma spaceWidth_pair: "printable b \<Longrightarrow> spaceWidth [a, b] \<noteq> 2"
  by (simp add: printable_not)

lemma spaceWidth_triple: "printable c \<Longrightarrow> spaceWidth [a, b, c] \<noteq> 3"
proof -
  assume "printable c"
  then have "\<not> spaceRune3 a b c"
    by (auto simp: printable_def spaceRune3_def)
  then show ?thesis by simp
qed

lemma spaceWidth_last:
  assumes "printable (last s)" and "length s = n" and "n = 2 \<or> n = 3"
  shows "spaceWidth s \<noteq> n"
  using assms(3)
proof
  assume n: "n = 2"
  with assms(2) obtain a b where "s = [a, b]" by (auto simp: numeral_2_eq_2 length_Suc_conv)
  with assms(1) n show ?thesis by (simp only: last.simps if_True if_False list.distinct) (rule spaceWidth_pair, simp)
next
  assume n: "n = 3"
  with assms(2) obtain a b c where "s = [a, b, c]" by (auto simp: numeral_3_eq_3 length_Suc_conv)
  with assms(1) n show ?thesis by (simp only: last.simps if_True if_False list.distinct) (rule spaceWidth_triple, simp)
qed

lemma spaceWidthEnd_printable: "s \<noteq> [] \<Longrightarrow> printable (last s) \<Longrightarrow> spaceWidthEnd s = 0"
proof -
  assume s: "s \<noteq> []" "printable (last s)"
  have "spaceWidth (drop (length s - n) s) \<noteq> n" if "n \<le> length s" "n = 2 \<or> n = 3" for n
  proof -
    have "drop (length s - n) s \<noteq> []" "last (drop (length s - n) s) = last s"
      "length (drop (length s - n) s) = n"
      using s that by auto
    then show ?thesis using spaceWidth_last [of "drop (length s - n) s" n] s(2) that(2) by simp
  qed
  then show ?thesis using s printable_not(1) by (simp add: spaceWidthEnd_def)
qed

lemma TrimSpace_printable:
  "s \<noteq> [] \<Longrightarrow> printable (hd s) \<Longrightarrow> printable (last s) \<Longrightarrow> TrimSpace s = s"
  by (cases s) (simp_all add: TrimSpace_id spaceWidth_printable spaceWidthEnd_printable del: spaceWidth.simps)

lemma TrimSpace_Nil [simp]: "TrimSpace [] = []"
  by (simp add: TrimSpace_id spaceWidthEnd_def)

lemma spaceWidthEnd_trimRight: "spaceWidthEnd (trimRightSpace s) = 0"
proof (induction s rule: trimRightSpace.induct)
  case (1 s)
  then show ?case by (cases "spaceWidthEnd s = 0") (subst trimRightSpace.simps, simp)+
qed

subsection \<open>Case folding\<close>

definition lowerByte :: "char \<Rightarrow> char" where
  "lowerByte c =
     (if 65 \<le> (of_char c :: nat) \<and> (of_char c :: nat) \<le> 90 then char_of (of_char c + (32::nat)) else c)"

definition ToLower :: "string \<Rightarrow> string" where
  "ToLower s = map lowerByte s"

definition EqualFold :: "string \<Rightarrow> string \<Rightarrow> bool" where
  "EqualFold s t \<longleftrightarrow> ToLower s = ToLower t"

lemma lowerByte_idem [simp]: "lowerByte (lowerByte c) = lowerByte c"
proof (cases "65 \<le> (of_char c :: nat) \<and> (of_char c :: nat) \<le> 90")
  case True
  then have "(of_char (char_of (of_char c + (32::nat)) :: char) :: nat) = of_char c + 32"
    by simp
  with True show ?thesis by (auto simp: lowerByte_def)
qed (auto simp: lowerByte_def)

lemma ToLower_idem [simp]: "ToLower (ToLower s) = ToLower s"
  by (simp add: ToLower_def)

lemma ToLower_append: "ToLower (s @ t) = ToLower s @ ToLower t"
  by (simp add: ToLower_def)

section \<open>Package strconv\<close>

definition digitChar :: "nat \<Rightarrow> char" where
  "digitChar d = char_of (48 + d)"

fun showNat :: "nat \<Rightarrow> string" where
  "showNat n = (if n < 10 then [digitChar n] else showNat (n div 10) @ [digitChar (n mod 10)])"

declare showNat.simps [simp del]

definition Itoa :: "int \<Rightarrow> string" where
  "Itoa i = (if i < 0 then CHR ''-'' # showNat (nat (- i)) else showNat (nat i))"

definition digitVal :: "char \<Rightarrow> nat option" where
  "digitVal c =
     (let n = (of_char c :: nat) in if 48 \<le> n \<and> n \<le> 57 then Some (n - 48) else None)"

fun readDigits :: "nat \<Rightarrow> string \<Rightarrow> nat option" where
  "readDigits acc [] = Some acc"
| "readDigits acc (c # s) =
     (case digitVal c of None \<Rightarrow> None | Some d \<Rightarrow> readDigits (10 * acc + d) s)"

text \<open>\<open>strconv.Atoi\<close>: an optional sign, at least one decimal digit, in the range of \<open>int\<close>.\<close>

definition Atoi :: "string \<Rightarrow> int option" where
  "Atoi s =
     (let (neg, ds) =
        (case s of [] \<Rightarrow> (False, [])
         | c # r \<Rightarrow> if c = CHR ''-'' then (True, r) else if c = CHR ''+'' then (False, r) else (False, s))
      in if ds = [] then None
         else (case readDigits 0 ds of
                 None \<Rightarrow> None
               | Some n \<Rightarrow>
                   let v = (if neg then - int n else int n)
                   in if - (2 ^ 63) \<le> v \<and> v < 2 ^ 63 then Some v else None))"

lemma digitVal_digitChar: "d < 10 \<Longrightarrow> digitVal (digitChar d) = Some d"
  by (simp add: digitVal_def digitChar_def)

lemma readDigits_append:
  "readDigits acc (s @ t) = (case readDigits acc s of None \<Rightarrow> None | Some a \<Rightarrow> readDigits a t)"
  by (induction acc s rule: readDigits.induct) (auto split: option.splits)

lemma readDigits_showNat: "readDigits 0 (showNat n) = Some n"
proof (induction n rule: showNat.induct)
  case (1 n)
  show ?case
  proof (cases "n < 10")
    case True
    then show ?thesis by (subst showNat.simps) (simp add: digitVal_digitChar)
  next
    case False
    with "1.IH" show ?thesis
      by (subst showNat.simps) (simp add: readDigits_append digitVal_digitChar)
  qed
qed

lemma showNat_nonempty [simp]: "showNat n \<noteq> []"
  by (subst showNat.simps) simp

lemma digitChar_not_sign: "d < 10 \<Longrightarrow> digitChar d \<noteq> CHR ''-'' \<and> digitChar d \<noteq> CHR ''+''"
  by (auto simp: digitChar_def dest!: arg_cong [where f = "of_char :: char \<Rightarrow> nat"])

lemma hd_showNat: "\<exists>d < 10. hd (showNat n) = digitChar d"
proof (induction n rule: showNat.induct)
  case (1 n)
  then show ?case
    by (cases "n < 10") (subst showNat.simps, force simp: hd_append)+
qed

lemma Atoi_showNat: "n < 2 ^ 63 \<Longrightarrow> Atoi (showNat n) = Some (int n)"
proof -
  assume n: "n < 2 ^ 63"
  obtain c r where s: "showNat n = c # r" by (cases "showNat n") auto
  with hd_showNat [of n] have "c \<noteq> CHR ''-''" "c \<noteq> CHR ''+''"
    using digitChar_not_sign by auto
  moreover have "int n < 2 ^ 63" using n by (metis of_nat_less_iff of_nat_numeral of_nat_power)
  ultimately show ?thesis
    using readDigits_showNat [of n] s by (simp add: Atoi_def Let_def)
qed

section \<open>Package path/filepath\<close>

definition slash :: char where
  "slash = CHR ''/''"

definition IsAbs :: "string \<Rightarrow> bool" where
  "IsAbs p \<longleftrightarrow> (case p of c # _ \<Rightarrow> c = slash | [] \<Rightarrow> False)"

text \<open>
  \<open>Clean\<close>, over the components of the path: empty and \<open>.\<close> components go away, \<open>..\<close> removes
  the component before it (and is dropped at the root, kept at the start of a relative path).
\<close>

fun cleanStep :: "bool \<Rightarrow> string list \<Rightarrow> string \<Rightarrow> string list" where
  "cleanStep rooted out c =
     (if c = [] \<or> c = ''.'' then out
      else if c = ''..''
      then (case out of
              [] \<Rightarrow> if rooted then [] else [''..'']
            | d # ds \<Rightarrow> if d = ''..'' then ''..'' # out else ds)
      else c # out)"

definition filepathClean :: "string \<Rightarrow> string" where
  "filepathClean p =
     (let rooted = IsAbs p;
          out = rev (foldl (cleanStep rooted) [] (splitByte slash p));
          body = joinStrings out [slash]
      in if rooted then slash # body else if body = [] then ''.'' else body)"

definition filepathJoin :: "string list \<Rightarrow> string" where
  "filepathJoin es =
     (let ne = filter (\<lambda>e. e \<noteq> []) es
      in if ne = [] then [] else filepathClean (joinStrings ne [slash]))"

fun dropTrailing :: "char \<Rightarrow> string \<Rightarrow> string" where
  "dropTrailing c s = rev (dropWhile (\<lambda>x. x = c) (rev s))"

definition filepathBase :: "string \<Rightarrow> string" where
  "filepathBase p =
     (if p = [] then ''.''
      else (let q = dropTrailing slash p
            in if q = [] then [slash] else last (splitByte slash q)))"

definition filepathDir :: "string \<Rightarrow> string" where
  "filepathDir p =
     filepathClean (rev (dropWhile (\<lambda>x. x \<noteq> slash) (rev p)))"

section \<open>Package net\<close>

definition JoinHostPort :: "string \<Rightarrow> string \<Rightarrow> string" where
  "JoinHostPort host port =
     (if CHR '':'' \<in> set host then ''['' @ host @ '']:'' @ port else host @ '':'' @ port)"

fun indexByte :: "char \<Rightarrow> string \<Rightarrow> nat option" where
  "indexByte c [] = None"
| "indexByte c (x # s) = (if x = c then Some 0 else map_option Suc (indexByte c s))"

fun lastIndexByte :: "char \<Rightarrow> string \<Rightarrow> nat option" where
  "lastIndexByte c [] = None"
| "lastIndexByte c (x # s) =
     (case lastIndexByte c s of
        Some i \<Rightarrow> Some (Suc i)
      | None \<Rightarrow> if x = c then Some 0 else None)"

text \<open>\<open>net.SplitHostPort\<close>: \<open>None\<close> is its error.\<close>

definition SplitHostPort :: "string \<Rightarrow> (string \<times> string) option" where
  "SplitHostPort hp =
     (case lastIndexByte (CHR '':'') hp of
        None \<Rightarrow> None
      | Some i \<Rightarrow>
          if hasPrefix hp ''[''
          then (case indexByte (CHR '']'') hp of
                  None \<Rightarrow> None
                | Some e \<Rightarrow>
                    if Suc e = i \<and> CHR ''['' \<notin> set (drop 1 hp) \<and> CHR '']'' \<notin> set (drop (Suc e) hp)
                    then Some (drop 1 (take e hp), drop (Suc i) hp)
                    else None)
          else if CHR '':'' \<in> set (take i hp) \<or> CHR ''['' \<in> set hp \<or> CHR '']'' \<in> set hp
          then None
          else Some (take i hp, drop (Suc i) hp))"

subsection \<open>Lemmas on the string operations\<close>

lemma hasPrefix_append [simp]: "hasPrefix (p @ s) p"
  by (simp add: hasPrefix_def)

lemma hasPrefix_iff: "hasPrefix s p \<longleftrightarrow> (\<exists>r. s = p @ r)"
  by (metis append_take_drop_id hasPrefix_append hasPrefix_def)

lemma hasSuffix_iff: "hasSuffix s p \<longleftrightarrow> (\<exists>r. s = r @ p)"
proof
  assume "hasSuffix s p"
  then show "\<exists>r. s = r @ p" by (metis append_take_drop_id hasSuffix_def)
qed (auto simp: hasSuffix_def)

lemma cutPrefix_append [simp]: "cutPrefix (p @ r) p = Some r"
  by (simp add: cutPrefix_def)

lemma cutPrefix_Some: "cutPrefix s p = Some r \<longleftrightarrow> s = p @ r"
  by (auto simp: cutPrefix_def hasPrefix_iff)

lemma cutSuffix_append [simp]: "cutSuffix (r @ p) p = Some r"
  by (simp add: cutSuffix_def hasSuffix_iff)

lemma cutSuffix_Some: "cutSuffix s p = Some r \<longleftrightarrow> s = r @ p"
  by (auto simp: cutSuffix_def hasSuffix_iff)

lemma cutByte_Some: "cutByte c s = Some (a, b) \<longleftrightarrow> s = a @ c # b \<and> c \<notin> set a"
proof (induction s arbitrary: a)
  case (Cons x s)
  show ?case
  proof (cases a)
    case Nil
    then show ?thesis by (auto split: option.splits)
  next
    case (Cons y a')
    with Cons.IH [of a'] show ?thesis by (cases "cutByte c s") auto
  qed
qed simp

lemma cutByte_None: "cutByte c s = None \<longleftrightarrow> c \<notin> set s"
  by (induction s) (auto split: option.splits)

lemma cutByte_append [simp]: "c \<notin> set a \<Longrightarrow> cutByte c (a @ c # b) = Some (a, b)"
  by (simp add: cutByte_Some)

lemma splitByte_nonempty [simp]: "splitByte c s \<noteq> []"
  by (cases s) (auto split: list.splits)

lemma splitByte_none: "c \<notin> set s \<Longrightarrow> splitByte c s = [s]"
  by (induction s) auto

lemma splitByte_append: "c \<notin> set s \<Longrightarrow> splitByte c (s @ c # t) = s # splitByte c t"
  by (induction s) auto

lemma splitByte_join: "joinStrings (splitByte c s) [c] = s"
proof (induction s)
  case (Cons x s)
  then show ?case
    by (cases "splitByte c s") (auto split: list.splits elim: joinStrings.elims, (metis joinStrings.simps list.exhaust append_Cons)+)
qed simp

lemma splitByte_parts: "p \<in> set (splitByte c s) \<Longrightarrow> c \<notin> set p"
  by (induction s arbitrary: p) (auto split: list.splits if_splits)

lemma JoinHostPort_inj_port:
  "JoinHostPort h p = JoinHostPort h q \<Longrightarrow> p = q"
  by (auto simp: JoinHostPort_def split: if_splits)

end
