(* ===== verification/LogFile.thy ===== *)
theory LogFile
  imports GoLib
begin

text \<open>
  Opening a project's log file with its rotation and retention policy
  (\<open>internal/process/logfile.go\<close>). The file system is a map from paths to modification time
  and size; which removals, renames, directory creations and opens succeed is a parameter, as
  the code ignores the failures of the first two and reports those of the last two. The cutoff
  \<open>time.Now().AddDate(0, 0, -retentionDays)\<close> is computed by calendar arithmetic in the local
  time zone and enters as the parameter \<open>cutoff\<close>.
\<close>

record fileInfo =
  fModTime :: time
  fSize :: int

type_synonym fileSystem = "string \<rightharpoonup> fileInfo"

record logOS =
  osCanRemove :: "string \<Rightarrow> bool"
  osCanRename :: "string \<Rightarrow> bool"
  osMkdirError :: "string option"
  osOpenError :: "string option"

definition maxLogFileBytes :: int where
  "maxLogFileBytes = 10 * 2 ^ 20"

definition osRemove :: "logOS \<Rightarrow> string \<Rightarrow> fileSystem \<Rightarrow> fileSystem" where
  "osRemove os p fs = (if osCanRemove os p then fs(p := None) else fs)"

definition osRename :: "logOS \<Rightarrow> string \<Rightarrow> string \<Rightarrow> fileSystem \<Rightarrow> fileSystem" where
  "osRename os p q fs =
     (case fs p of
        Some i \<Rightarrow> if osCanRename os p then fs(p := None, q \<mapsto> i) else fs
      | None \<Rightarrow> fs)"

definition rotatedPath :: "string \<Rightarrow> string" where
  "rotatedPath p = p @ ''.old''"

definition pruneLogs :: "logOS \<Rightarrow> time \<Rightarrow> string \<Rightarrow> fileSystem \<Rightarrow> fileSystem" where
  "pruneLogs os cutoff path fs =
     (let rotated = rotatedPath path;
          fs1 = (case fs rotated of
                   Some i \<Rightarrow> if Before (fModTime i) cutoff then osRemove os rotated fs else fs
                 | None \<Rightarrow> fs)
      in case fs1 path of
           None \<Rightarrow> fs1
         | Some i \<Rightarrow>
             if Before (fModTime i) cutoff
             then osRemove os rotated (osRemove os path fs1)
             else if maxLogFileBytes < fSize i
             then osRename os path rotated fs1
             else fs1)"

datatype logError = MkdirFailed string | OpenFailed string

text \<open>\<open>O_CREATE|O_APPEND\<close>: an existing file is kept, a missing one is created empty.\<close>

definition openLogFile ::
    "logOS \<Rightarrow> time \<Rightarrow> time \<Rightarrow> string \<Rightarrow> fileSystem \<Rightarrow> (logError + unit) \<times> fileSystem" where
  "openLogFile os now cutoff path fs =
     (case osMkdirError os of
        Some e \<Rightarrow> (Inl (MkdirFailed e), fs)
      | None \<Rightarrow>
          (let fs1 = pruneLogs os cutoff path fs
           in case osOpenError os of
                Some e \<Rightarrow> (Inl (OpenFailed e), fs1)
              | None \<Rightarrow>
                  (Inr (),
                   case fs1 path of
                     Some _ \<Rightarrow> fs1
                   | None \<Rightarrow> fs1(path \<mapsto> \<lparr>fModTime = now, fSize = 0\<rparr>))))"

lemma rotatedPath_neq [simp]: "rotatedPath p \<noteq> p" "p \<noteq> rotatedPath p"
  by (simp_all add: rotatedPath_def)

lemma osRemove_other: "q \<noteq> p \<Longrightarrow> osRemove os p fs q = fs q"
  by (simp add: osRemove_def)

lemma osRename_other: "q \<noteq> p \<Longrightarrow> q \<noteq> r \<Longrightarrow> osRename os p r fs q = fs q"
  by (simp add: osRename_def split: option.splits)

lemma pruneLogs_frame:
  "q \<noteq> path \<Longrightarrow> q \<noteq> rotatedPath path \<Longrightarrow> pruneLogs os cutoff path fs q = fs q"
  by (simp add: pruneLogs_def Let_def osRemove_other osRename_other split: option.splits)

definition canPrune :: "logOS \<Rightarrow> string \<Rightarrow> bool" where
  "canPrune os path \<longleftrightarrow>
     osCanRemove os path \<and> osCanRemove os (rotatedPath path) \<and> osCanRename os path"

lemmas prune_simps = pruneLogs_def Let_def osRemove_def osRename_def canPrune_def time_simps

lemma pruneLogs_small:
  "canPrune os path \<Longrightarrow> pruneLogs os cutoff path fs path = Some i \<Longrightarrow>
     fSize i \<le> maxLogFileBytes \<and> cutoff \<le> fModTime i \<and> fs path = Some i"
  by (auto simp: prune_simps split: option.splits if_splits)

lemma pruneLogs_rotated:
  "canPrune os path \<Longrightarrow> pruneLogs os cutoff path fs (rotatedPath path) = Some i \<Longrightarrow>
     cutoff \<le> fModTime i \<and> (fs path = Some i \<or> fs (rotatedPath path) = Some i)"
  by (auto simp: prune_simps split: option.splits if_splits)

text \<open>
  Opening a log: when the old files can be removed and renamed and the open succeeds, the
  current log is at most 10 MiB, neither it nor the rotation kept beside it was last written
  before the retention cutoff, and no file other than these two is touched.
\<close>

theorem openLogFile_policy:
  assumes "canPrune os path"
    and "openLogFile os now cutoff path fs = (Inr (), fs')"
    and "cutoff \<le> now"
  shows "(\<exists>i. fs' path = Some i \<and> fSize i \<le> maxLogFileBytes \<and> cutoff \<le> fModTime i) \<and>
    (case fs' (rotatedPath path) of None \<Rightarrow> True | Some i \<Rightarrow> cutoff \<le> fModTime i) \<and>
    fs' |` (- {path, rotatedPath path}) = fs |` (- {path, rotatedPath path})"
proof -
  let ?p = "pruneLogs os cutoff path fs"
  from assms(2) have fs': "fs' = (case ?p path of Some _ \<Rightarrow> ?p
      | None \<Rightarrow> ?p(path \<mapsto> \<lparr>fModTime = now, fSize = 0\<rparr>))"
    by (auto simp: openLogFile_def Let_def split: option.splits)
  have "\<exists>i. fs' path = Some i \<and> fSize i \<le> maxLogFileBytes \<and> cutoff \<le> fModTime i"
    using pruneLogs_small [OF assms(1)] assms(3)
    by (auto simp: fs' maxLogFileBytes_def split: option.splits)
  moreover have "case fs' (rotatedPath path) of None \<Rightarrow> True | Some i \<Rightarrow> cutoff \<le> fModTime i"
    using pruneLogs_rotated [OF assms(1)] by (auto simp: fs' split: option.splits)
  moreover have "fs' |` (- {path, rotatedPath path}) = fs |` (- {path, rotatedPath path})"
    by (rule ext) (auto simp: fs' restrict_map_def pruneLogs_frame split: option.splits)
  ultimately show ?thesis by blast
qed

theorem openLogFile_policy_witness:
  "\<exists>fs'. openLogFile \<lparr>osCanRemove = (\<lambda>_. True), osCanRename = (\<lambda>_. True),
      osMkdirError = None, osOpenError = None\<rparr> 100 50 ''a.log''
      [''a.log'' \<mapsto> \<lparr>fModTime = 90, fSize = 20000000\<rparr>] = (Inr (), fs') \<and>
    (case fs' ''a.log'' of Some i \<Rightarrow> fSize i \<le> maxLogFileBytes | None \<Rightarrow> False)"
proof -
  let ?os = "\<lparr>osCanRemove = (\<lambda>_. True), osCanRename = (\<lambda>_. True),
      osMkdirError = None, osOpenError = None\<rparr>"
  let ?fs = "[''a.log'' \<mapsto> \<lparr>fModTime = 90, fSize = 20000000\<rparr>]"
  obtain fs' where open': "openLogFile ?os 100 50 ''a.log'' ?fs = (Inr (), fs')"
    by (simp add: openLogFile_def Let_def)
  have "canPrune ?os ''a.log''" by (simp add: canPrune_def)
  from openLogFile_policy [OF this open'] open' show ?thesis by auto
qed

end
