(* ===== verification/ProjectConfig.thy ===== *)
theory ProjectConfig
  imports GoLib
begin

text \<open>
  One registered project as \<open>internal/config/config.go\<close> and \<open>internal/config/envfiles.go\<close>
  have it: the \<open>Project\<close> struct with every field, the defaults filled in when it is loaded,
  the effective idle timeout, the resolution of its \<open>env_file\<close> entries, and the registration
  equality a reload uses. \<open>home\<close> is the result of \<open>os.UserHomeDir\<close> (\<open>None\<close>: its error).
\<close>

record project =
  pName :: string
  pSource :: string
  pPublicURL :: string
  pSupervisorPort :: int
  pApplicationPort :: int
  pWorkingDirectory :: string
  pCommand :: string
  pReadinessStrategy :: string
  pReadinessURL :: string
  pStartupTimeoutSeconds :: int
  pIdleTimeoutMinutes :: int
  pIdleTimeoutSeconds :: int
  pListenHost :: string
  pAllowNonLoopback :: bool
  pShutdownSignal :: string
  pShutdownTimeoutSeconds :: int
  pWebSocketsKeepAlive :: "bool option"
  pDiagnosticLogs :: "bool option"
  pLogRetentionDays :: int
  pHoldMaxWaitSeconds :: int
  pHoldMaxRequests :: int
  pHost :: string
  pEnv :: "(string, string) gomap"
  pEnvFile :: "string list"
  pNodePath :: string
  pAlwaysOn :: bool
  pRewriteHost :: bool

text \<open>The zero value, \<open>&Project{}\<close>.\<close>

definition emptyProject :: project where
  "emptyProject =
     \<lparr>pName = [], pSource = [], pPublicURL = [], pSupervisorPort = 0, pApplicationPort = 0,
      pWorkingDirectory = [], pCommand = [], pReadinessStrategy = [], pReadinessURL = [],
      pStartupTimeoutSeconds = 0, pIdleTimeoutMinutes = 0, pIdleTimeoutSeconds = 0,
      pListenHost = [], pAllowNonLoopback = False, pShutdownSignal = [],
      pShutdownTimeoutSeconds = 0, pWebSocketsKeepAlive = None, pDiagnosticLogs = None,
      pLogRetentionDays = 0, pHoldMaxWaitSeconds = 0, pHoldMaxRequests = 0, pHost = [],
      pEnv = [], pEnvFile = [], pNodePath = [], pAlwaysOn = False, pRewriteHost = False\<rparr>"

section \<open>Defaults\<close>

definition DefaultListenHost :: string where "DefaultListenHost = ''127.0.0.1''"
definition DefaultStartupTimeoutSeconds :: int where "DefaultStartupTimeoutSeconds = 60"
definition DefaultIdleTimeoutMinutes :: int where "DefaultIdleTimeoutMinutes = 15"
definition ReadinessHTTP :: string where "ReadinessHTTP = ''http''"
definition ReadinessTCP :: string where "ReadinessTCP = ''tcp''"
definition DefaultReadinessStrategy :: string where "DefaultReadinessStrategy = ReadinessHTTP"
definition DefaultShutdownSignal :: string where "DefaultShutdownSignal = ''SIGTERM''"
definition DefaultShutdownTimeoutSeconds :: int where "DefaultShutdownTimeoutSeconds = 10"
definition DefaultLogRetentionDays :: int where "DefaultLogRetentionDays = 7"
definition DefaultHoldMaxRequests :: int where "DefaultHoldMaxRequests = 100"
definition DefaultHoldWaitBufferSeconds :: int where "DefaultHoldWaitBufferSeconds = 5"

lemmas default_consts =
  DefaultListenHost_def DefaultStartupTimeoutSeconds_def DefaultIdleTimeoutMinutes_def
  ReadinessHTTP_def ReadinessTCP_def DefaultReadinessStrategy_def DefaultShutdownSignal_def
  DefaultShutdownTimeoutSeconds_def DefaultLogRetentionDays_def DefaultHoldMaxRequests_def
  DefaultHoldWaitBufferSeconds_def

definition isValidPort :: "int \<Rightarrow> bool" where
  "isValidPort port \<longleftrightarrow> 1 \<le> port \<and> port \<le> 65535"

definition hasHomePrefix :: "string \<Rightarrow> bool" where
  "hasHomePrefix path \<longleftrightarrow> 2 \<le> length path \<and> path ! 0 = CHR ''~'' \<and> path ! 1 = slash"

definition expandHome :: "string option \<Rightarrow> string \<Rightarrow> string" where
  "expandHome home path =
     (if path \<noteq> ''~'' \<and> \<not> hasHomePrefix path then path
      else (case home of
              None \<Rightarrow> path
            | Some h \<Rightarrow> if path = ''~'' then h else filepathJoin [h, drop 2 path]))"

definition applyDefaults :: "string option \<Rightarrow> project \<Rightarrow> project" where
  "applyDefaults home p =
     (let host = ToLower (TrimSpace (pHost p));
          url = (if pPublicURL p = [] \<and> host \<noteq> [] then ''https://'' @ host else pPublicURL p);
          strategy = (if pReadinessStrategy p = [] then DefaultReadinessStrategy
                      else pReadinessStrategy p);
          readiness = (if pReadinessURL p = [] \<and> strategy = ReadinessHTTP \<and>
                          isValidPort (pApplicationPort p)
                       then ''http://127.0.0.1:'' @ Itoa (pApplicationPort p) @ ''/''
                       else pReadinessURL p);
          startup = (if pStartupTimeoutSeconds p = 0 then DefaultStartupTimeoutSeconds
                     else pStartupTimeoutSeconds p)
      in p\<lparr>pWorkingDirectory := expandHome home (pWorkingDirectory p),
           pHost := host,
           pPublicURL := url,
           pListenHost := (if pListenHost p = [] then DefaultListenHost else pListenHost p),
           pReadinessStrategy := strategy,
           pReadinessURL := readiness,
           pStartupTimeoutSeconds := startup,
           pIdleTimeoutMinutes :=
             (if pIdleTimeoutMinutes p = 0 then DefaultIdleTimeoutMinutes
              else pIdleTimeoutMinutes p),
           pShutdownSignal :=
             (if pShutdownSignal p = [] then DefaultShutdownSignal else pShutdownSignal p),
           pShutdownTimeoutSeconds :=
             (if pShutdownTimeoutSeconds p = 0 then DefaultShutdownTimeoutSeconds
              else pShutdownTimeoutSeconds p),
           pWebSocketsKeepAlive :=
             (case pWebSocketsKeepAlive p of None \<Rightarrow> Some True | Some b \<Rightarrow> Some b),
           pDiagnosticLogs := (case pDiagnosticLogs p of None \<Rightarrow> Some True | Some b \<Rightarrow> Some b),
           pEnvFile := map (expandHome home) (pEnvFile p),
           pLogRetentionDays :=
             (if pLogRetentionDays p = 0 then DefaultLogRetentionDays else pLogRetentionDays p),
           pHoldMaxWaitSeconds :=
             (if pHoldMaxWaitSeconds p = 0 then startup + DefaultHoldWaitBufferSeconds
              else pHoldMaxWaitSeconds p),
           pHoldMaxRequests :=
             (if pHoldMaxRequests p = 0 then DefaultHoldMaxRequests else pHoldMaxRequests p)\<rparr>)"

text \<open>
  The effective idle timeout, as a \<open>time.Duration\<close>: the product of two \<open>int64\<close> values wraps.
\<close>

definition IdleTimeout :: "project \<Rightarrow> duration" where
  "IdleTimeout p =
     (if 0 < pIdleTimeoutSeconds p then wrap64 (pIdleTimeoutSeconds p * timeSecond)
      else wrap64 (pIdleTimeoutMinutes p * timeMinute))"

section \<open>Env file references and diagnostics\<close>

record envFileRef =
  refPath :: string
  refOptional :: bool

definition EnvFileRefs :: "project \<Rightarrow> string \<Rightarrow> envFileRef list" where
  "EnvFileRefs p dir =
     map (\<lambda>entry. if IsAbs entry then \<lparr>refPath = entry, refOptional = False\<rparr>
                  else \<lparr>refPath = filepathJoin [dir, entry], refOptional = True\<rparr>)
       (pEnvFile p)"

definition DiagnosticLogsEnabled :: "project \<Rightarrow> bool" where
  "DiagnosticLogsEnabled p = (case pDiagnosticLogs p of None \<Rightarrow> True | Some b \<Rightarrow> b)"

text \<open>Registration equality: every field but \<open>Source\<close> (\<open>Env\<close> as a map).\<close>

definition sameEnv :: "(string, string) gomap \<Rightarrow> (string, string) gomap \<Rightarrow> bool" where
  "sameEnv a b \<longleftrightarrow>
     (\<forall>k \<in> set (map fst a @ map fst b). map_of a k = map_of b k)"

definition projectEquivalent :: "project \<Rightarrow> project \<Rightarrow> bool" where
  "projectEquivalent p q \<longleftrightarrow>
     sameEnv (pEnv p) (pEnv q) \<and>
     p\<lparr>pSource := [], pEnv := []\<rparr> = q\<lparr>pSource := [], pEnv := []\<rparr>"

lemma sameEnv_iff: "sameEnv a b \<longleftrightarrow> map_of a = map_of b"
proof
  assume s: "sameEnv a b"
  show "map_of a = map_of b"
  proof
    fix k
    show "map_of a k = map_of b k"
    proof (cases "k \<in> set (map fst a @ map fst b)")
      case True
      with s show ?thesis by (auto simp: sameEnv_def)
    next
      case False
      then have "map_of a k = None" "map_of b k = None" by (auto simp: map_of_eq_None_iff)
      then show ?thesis by simp
    qed
  qed
qed (simp add: sameEnv_def)

lemma projectEquivalent_refl: "projectEquivalent p p"
  by (simp add: projectEquivalent_def sameEnv_def)

lemma projectEquivalent_sym: "projectEquivalent p q \<Longrightarrow> projectEquivalent q p"
  by (auto simp: projectEquivalent_def sameEnv_iff)

lemma projectEquivalent_source: "projectEquivalent (p\<lparr>pSource := s\<rparr>) p"
  by (simp add: projectEquivalent_def sameEnv_def)

section \<open>Lemmas\<close>

lemma expandHome_id: "path \<noteq> ''~'' \<Longrightarrow> \<not> hasHomePrefix path \<Longrightarrow> expandHome home path = path"
  by (simp add: expandHome_def)

lemma IsAbs_not_home: "IsAbs p \<Longrightarrow> p \<noteq> ''~'' \<and> \<not> hasHomePrefix p"
  by (cases p) (auto simp: IsAbs_def hasHomePrefix_def slash_def)

lemma IsAbs_Clean: "IsAbs p \<Longrightarrow> IsAbs (filepathClean p)"
  by (simp add: filepathClean_def Let_def) (simp add: IsAbs_def)

lemma IsAbs_append: "IsAbs a \<Longrightarrow> IsAbs (a @ b)"
  by (cases a) (auto simp: IsAbs_def)

lemma IsAbs_joinStrings: "IsAbs a \<Longrightarrow> IsAbs (joinStrings (a # es) sep)"
  by (cases es) (simp_all add: IsAbs_append)

lemma IsAbs_Join: "IsAbs a \<Longrightarrow> IsAbs (filepathJoin (a # es))"
proof -
  assume a: "IsAbs a"
  then have "a \<noteq> []" by (auto simp: IsAbs_def)
  with a show ?thesis by (simp add: filepathJoin_def Let_def IsAbs_Clean IsAbs_joinStrings)
qed

lemma expandHome_idem:
  assumes "\<And>h. home = Some h \<Longrightarrow> IsAbs h"
  shows "expandHome home (expandHome home p) = expandHome home p"
proof (cases "(p \<noteq> ''~'' \<and> \<not> hasHomePrefix p) \<or> home = None")
  case True
  then show ?thesis by (auto simp: expandHome_def)
next
  case False
  then obtain h where h: "home = Some h" and p: "p = ''~'' \<or> hasHomePrefix p" by auto
  from assms [OF h] have abs: "IsAbs h" "IsAbs (filepathJoin [h, drop 2 p])"
    by (simp_all add: IsAbs_Join)
  have "IsAbs (expandHome home p)" using abs p h by (auto simp: expandHome_def)
  then show ?thesis by (intro expandHome_id) (simp_all add: IsAbs_not_home)
qed

lemma lowerByte_space [simp]: "asciiSpace (lowerByte c) = asciiSpace c"
proof (cases "65 \<le> (of_char c :: nat) \<and> (of_char c :: nat) \<le> 90")
  case True
  then have "\<not> asciiSpace c" by (auto simp: asciiSpace_def)
  moreover have "(of_char (lowerByte c) :: nat) = of_char c + 32"
    using True by (simp add: lowerByte_def)
  then have "97 \<le> (of_char (lowerByte c) :: nat)" using True by simp
  then have "\<not> asciiSpace (lowerByte c)" by (auto simp: asciiSpace_def)
  ultimately show ?thesis by simp
qed (auto simp: lowerByte_def)

lemma lowerByte_high:
  "(128::nat) \<le> of_char d \<Longrightarrow> lowerByte c = d \<longleftrightarrow> c = d"
proof (cases "65 \<le> (of_char c :: nat) \<and> (of_char c :: nat) \<le> 90")
  case True
  then have "(of_char (lowerByte c) :: nat) \<le> 122" by (simp add: lowerByte_def)
  moreover assume "(128::nat) \<le> of_char d"
  ultimately show ?thesis using True by auto
qed (auto simp: lowerByte_def)

lemma of_char_lowerByte_high:
  "(of_char (lowerByte c) :: nat) = n \<longleftrightarrow> (of_char c :: nat) = n" if "128 \<le> n"
proof (cases "65 \<le> (of_char c :: nat) \<and> (of_char c :: nat) \<le> 90")
  case True
  then have "(of_char (lowerByte c) :: nat) \<le> 122" by (simp add: lowerByte_def)
  with True that show ?thesis by auto
qed (auto simp: lowerByte_def)

lemma spaceRune3_lower:
  "spaceRune3 (lowerByte a) (lowerByte b) (lowerByte c) = spaceRune3 a b c"
proof -
  have "(of_char (lowerByte c) \<in> set [128 ..< 139]) = ((of_char c :: nat) \<in> set [128 ..< 139])"
    using of_char_lowerByte_high [of "of_char c" c] of_char_lowerByte_high [of "of_char (lowerByte c)" c]
    by (auto simp: not_le)
  then show ?thesis
    by (simp add: spaceRune3_def lowerByte_high)
qed

lemma spaceWidth_ToLower [simp]: "spaceWidth (ToLower s) = spaceWidth s"
  by (cases s rule: spaceWidth.cases)
    (auto simp: ToLower_def lowerByte_high spaceRune3_lower split: list.splits)

lemma length_ToLower [simp]: "length (ToLower s) = length s"
  by (simp add: ToLower_def)

lemma drop_ToLower: "drop n (ToLower s) = ToLower (drop n s)"
  by (simp add: ToLower_def drop_map)

lemma spaceWidthEnd_ToLower [simp]: "spaceWidthEnd (ToLower s) = spaceWidthEnd s"
proof (cases "s = []")
  case False
  then have "last (ToLower s) = lowerByte (last s)" by (simp add: ToLower_def last_map)
  with False show ?thesis
    by (simp add: spaceWidthEnd_def drop_ToLower) (simp add: ToLower_def)
qed (simp add: ToLower_def)

lemma spaceWidth_take: "spaceWidth s = 0 \<Longrightarrow> spaceWidth (take n s) = 0"
  by (cases s rule: spaceWidth.cases)
    (auto simp: take_Cons' split: list.splits if_splits)

lemma spaceWidth_trimLeft: "spaceWidth (trimLeftSpace s) = 0"
proof (induction s rule: trimLeftSpace.induct)
  case (1 s)
  then show ?case by (cases "spaceWidth s = 0") (subst trimLeftSpace.simps, simp)+
qed

lemma trimRightSpace_take: "\<exists>n. trimRightSpace s = take n s"
proof (induction s rule: trimRightSpace.induct)
  case (1 s)
  show ?case
  proof (cases "spaceWidthEnd s = 0")
    case True
    then have "trimRightSpace s = take (length s) s" by (simp add: trimRightSpace_id)
    then show ?thesis by blast
  next
    case False
    with 1 obtain n where "trimRightSpace (take (length s - spaceWidthEnd s) s) =
        take n (take (length s - spaceWidthEnd s) s)" by blast
    with False have "trimRightSpace s = take (min n (length s - spaceWidthEnd s)) s"
      by (subst trimRightSpace.simps) (simp add: min_def)
    then show ?thesis by blast
  qed
qed

lemma TrimSpace_clean: "spaceWidth (TrimSpace s) = 0" "spaceWidthEnd (TrimSpace s) = 0"
proof -
  obtain n where "TrimSpace s = take n (trimLeftSpace s)"
    using trimRightSpace_take by (auto simp: TrimSpace_def)
  then show "spaceWidth (TrimSpace s) = 0" by (simp add: spaceWidth_take spaceWidth_trimLeft)
  show "spaceWidthEnd (TrimSpace s) = 0" by (simp add: TrimSpace_def spaceWidthEnd_trimRight)
qed

lemma TrimSpace_idem [simp]: "TrimSpace (TrimSpace s) = TrimSpace s"
  by (simp add: TrimSpace_id TrimSpace_clean)

lemma TrimSpace_ToLower_TrimSpace [simp]:
  "TrimSpace (ToLower (TrimSpace s)) = ToLower (TrimSpace s)"
  by (simp add: TrimSpace_id TrimSpace_clean)

section \<open>Properties\<close>

text \<open>
  Filling in the defaults is stable: on a machine whose home directory is an absolute path
  (or unknown), a project that has been defaulted once is left exactly as it is by defaulting
  it again, so the value the daemon compares on a reload does not depend on how often a
  template or a project passed through \<open>applyDefaults\<close>.
\<close>

theorem applyDefaults_idempotent:
  assumes "case home of None \<Rightarrow> True | Some h \<Rightarrow> IsAbs h"
  shows "applyDefaults home (applyDefaults home p) = applyDefaults home p"
proof -
  have e: "expandHome home (expandHome home q) = expandHome home q" for q
    using assms by (intro expandHome_idem) auto
  show ?thesis
    by (simp add: applyDefaults_def Let_def e default_consts o_def split: option.splits)
qed

theorem applyDefaults_idempotent_witness:
  "let p = applyDefaults (Some ''/home/u'') (emptyProject\<lparr>pHost := '' A.test ''\<rparr>)
   in applyDefaults (Some ''/home/u'') p = p"
  using applyDefaults_idempotent [of "Some ''/home/u''" "emptyProject\<lparr>pHost := '' A.test ''\<rparr>"]
  by (simp add: IsAbs_def slash_def Let_def)

lemma applyDefaults_frame [simp]:
  "pName (applyDefaults home p) = pName p"
  "pSource (applyDefaults home p) = pSource p"
  "pSupervisorPort (applyDefaults home p) = pSupervisorPort p"
  "pApplicationPort (applyDefaults home p) = pApplicationPort p"
  "pCommand (applyDefaults home p) = pCommand p"
  "pEnv (applyDefaults home p) = pEnv p"
  "pAlwaysOn (applyDefaults home p) = pAlwaysOn p"
  "pIdleTimeoutSeconds (applyDefaults home p) = pIdleTimeoutSeconds p"
  "pNodePath (applyDefaults home p) = pNodePath p"
  by (simp_all add: applyDefaults_def Let_def)

text \<open>
  The effective idle timeout is the configured number of seconds (or, without it, minutes)
  exactly as long as the product fits an \<open>int64\<close> number of nanoseconds: seconds up to
  9,223,372,036 and minutes up to 153,722,867. The loader puts no upper bound on either field,
  and one minute more makes the timeout negative.
\<close>

theorem IdleTimeout_exact:
  assumes "0 \<le> pIdleTimeoutSeconds p" and "0 \<le> pIdleTimeoutMinutes p"
    and "pIdleTimeoutSeconds p \<le> 9223372036" and "pIdleTimeoutMinutes p \<le> 153722867"
  shows "IdleTimeout p =
      (if 0 < pIdleTimeoutSeconds p then pIdleTimeoutSeconds p * timeSecond
       else pIdleTimeoutMinutes p * timeMinute) \<and>
    IdleTimeout (p\<lparr>pIdleTimeoutSeconds := 0, pIdleTimeoutMinutes := 153722868\<rparr>) < 0"
proof -
  have w: "wrap64 9223372080000000000 < 0" by (simp add: wrap64_def)
  show ?thesis using assms by (auto simp: IdleTimeout_def wrap64_id w time_simps)
qed

theorem IdleTimeout_exact_witness:
  "IdleTimeout (applyDefaults None emptyProject) = 15 * timeMinute"
  using IdleTimeout_exact [of "applyDefaults None emptyProject"]
  by (simp add: applyDefaults_def Let_def emptyProject_def default_consts)

end
