(* ===== verification/Supervisor.thy ===== *)
theory Supervisor
  imports ProjectConfig RingBuffer Backoff
begin

text \<open>
  The process supervisor of one project (\<open>internal/process/supervisor.go\<close>). A critical section
  of the supervisor's mutex is one function on the supervisor record; what runs in goroutines
  outside the lock (readiness probe, exit handler, stop drain, output pump, delivery of a failed
  startup's outcome) is a step of the relation \<open>supStep\<close>, in any order and number the
  environment allows. Go channels are numbers; the record keeps, next to the fields of the
  struct, the trace of what the code did to the outside: values sent, groups signalled,
  processes spawned and reaped, channels closed. Error messages are constructors that carry the
  values formatted into them.
\<close>

section \<open>Data\<close>

datatype lifecycle = Stopped | Starting | Running | Stopping | Failed

datatype signal = SIGTERM | SIGINT | SIGQUIT | SIGHUP | SIGUSR1 | SIGUSR2 | SIGKILL

definition signalsByName :: "string \<Rightarrow> signal option" where
  "signalsByName =
     [''SIGTERM'' \<mapsto> SIGTERM, ''SIGINT'' \<mapsto> SIGINT, ''SIGQUIT'' \<mapsto> SIGQUIT, ''SIGHUP'' \<mapsto> SIGHUP,
      ''SIGUSR1'' \<mapsto> SIGUSR1, ''SIGUSR2'' \<mapsto> SIGUSR2, ''SIGKILL'' \<mapsto> SIGKILL]"

datatype supError =
    ErrStopping string
  | ErrRetired string
  | ErrSpawnEnv string string
  | ErrSpawnLogFile string string
  | ErrSpawnPipe string string
  | ErrSpawnCommand string string
  | ErrStoppedWhileStarting string
  | ErrExitedDuringStartup string string
  | ErrNotReady string duration
  | ErrExitedUnexpectedly string string
  | BackoffError string time "supError option"

text \<open>What building the environment, opening the log, making the pipe and \<open>cmd.Start\<close> give.\<close>

datatype spawnOutcome =
    EnvFails string | LogFileFails string | PipeFails string | CommandFails string
  | CommandStarts int

type_synonym chan = nat
type_synonym spawnId = nat

text \<open>The goroutine \<open>finishStop\<close>: its group, the spawn whose exit it awaits, its channel.\<close>

record stopper =
  stPgid :: int
  stProc :: "spawnId option"
  stDone :: chan
  stForced :: bool

record supervisor =
  sProject :: project
  sAtomicState :: lifecycle
  sState :: lifecycle
  sCmd :: "spawnId option"
  sPgid :: int
  sSpawnedAt :: time
  sLastExit :: string
  sLastErr :: "supError option"
  sAbortErr :: "supError option"
  sProcDone :: "spawnId option"
  sStopDone :: "chan option"
  sWaiters :: "chan list"
  sConsecutiveFailures :: int
  sNextRetryAt :: time
  sRetired :: bool
  sRing :: ring
  \<comment> \<open>the trace\<close>
  sNextChan :: chan
  sSent :: "(chan \<times> supError option) list"
  sUndelivered :: "(chan list \<times> supError) list"
  sSignals :: "(int \<times> signal) list"
  sSpawns :: "int list"
  sReaped :: "spawnId list"
  sAbandoned :: "spawnId list"
  sStoppers :: "stopper list"
  sNextStop :: chan
  sStopClosed :: "chan list"

definition ringCapacityLines :: nat where
  "ringCapacityLines = 200"

definition NewSupervisor :: "project \<Rightarrow> supervisor" where
  "NewSupervisor p =
     \<lparr>sProject = p, sAtomicState = Stopped, sState = Stopped, sCmd = None, sPgid = 0,
      sSpawnedAt = zeroTime, sLastExit = [], sLastErr = None, sAbortErr = None, sProcDone = None,
      sStopDone = None, sWaiters = [], sConsecutiveFailures = 0, sNextRetryAt = zeroTime,
      sRetired = False, sRing = newRingBuffer ringCapacityLines,
      sNextChan = 0, sSent = [], sUndelivered = [], sSignals = [], sSpawns = [], sReaped = [],
      sAbandoned = [], sStoppers = [], sNextStop = 0, sStopClosed = []\<rparr>"

section \<open>Operations under the lock\<close>

definition setStateLocked :: "lifecycle \<Rightarrow> supervisor \<Rightarrow> supervisor" where
  "setStateLocked st s = s\<lparr>sState := st, sAtomicState := st\<rparr>"

text \<open>The lock-free fast path reads the mirror.\<close>

definition State :: "supervisor \<Rightarrow> lifecycle" where
  "State s = sAtomicState s"

record snapshot =
  snState :: lifecycle
  snPID :: int
  snStartedAt :: time
  snLastExit :: string
  snLastError :: "supError option"
  snNextRetryAt :: time

definition Snapshot :: "supervisor \<Rightarrow> snapshot" where
  "Snapshot s =
     \<lparr>snState = sState s,
      snPID = (case sCmd s of None \<Rightarrow> 0 | Some c \<Rightarrow> sSpawns s ! c),
      snStartedAt = (case sCmd s of None \<Rightarrow> zeroTime | Some c \<Rightarrow> sSpawnedAt s),
      snLastExit = sLastExit s, snLastError = sLastErr s, snNextRetryAt = sNextRetryAt s\<rparr>"

definition Logs :: "supervisor \<Rightarrow> int \<Rightarrow> string list" where
  "Logs s n = ringLast (sRing s) n"

definition signalGroup :: "int \<Rightarrow> signal \<Rightarrow> supervisor \<Rightarrow> supervisor" where
  "signalGroup pgid sig s = (if pgid \<le> 0 then s else s\<lparr>sSignals := sSignals s @ [(pgid, sig)]\<rparr>)"

definition shutdownSignal :: "supervisor \<Rightarrow> signal" where
  "shutdownSignal s =
     (case signalsByName (pShutdownSignal (sProject s)) of Some sig \<Rightarrow> sig | None \<Rightarrow> SIGTERM)"

definition notifyWaitersLocked :: "supError option \<Rightarrow> supervisor \<Rightarrow> supervisor" where
  "notifyWaitersLocked err s =
     s\<lparr>sSent := sSent s @ map (\<lambda>w. (w, err)) (sWaiters s), sWaiters := []\<rparr>"

definition recordStartFailureLocked :: "time \<Rightarrow> supervisor \<Rightarrow> supervisor" where
  "recordStartFailureLocked now s =
     (let n = sConsecutiveFailures s + 1
      in s\<lparr>sConsecutiveFailures := n, sNextRetryAt := now + backoffDelay n\<rparr>)"

text \<open>
  \<open>spawnLocked\<close>: each stage that fails returns its error and leaves the supervisor as it was.
\<close>

fun spawnLocked ::
    "time \<Rightarrow> spawnOutcome \<Rightarrow> supervisor \<Rightarrow> supError option \<times> supervisor" where
  "spawnLocked now (EnvFails e) s = (Some (ErrSpawnEnv (pName (sProject s)) e), s)"
| "spawnLocked now (LogFileFails e) s = (Some (ErrSpawnLogFile (pName (sProject s)) e), s)"
| "spawnLocked now (PipeFails e) s = (Some (ErrSpawnPipe (pName (sProject s)) e), s)"
| "spawnLocked now (CommandFails e) s = (Some (ErrSpawnCommand (pName (sProject s)) e), s)"
| "spawnLocked now (CommandStarts pid) s =
     (None,
      (setStateLocked Starting s)
        \<lparr>sCmd := Some (length (sSpawns s)), sPgid := pid, sSpawnedAt := now,
         sLastErr := None, sLastExit := [], sAbortErr := None,
         sProcDone := Some (length (sSpawns s)), sSpawns := sSpawns s @ [pid]\<rparr>)"

text \<open>A fresh buffered channel, and a send on it.\<close>

definition newChan :: "supervisor \<Rightarrow> chan \<times> supervisor" where
  "newChan s = (sNextChan s, s\<lparr>sNextChan := sNextChan s + 1\<rparr>)"

definition send :: "chan \<Rightarrow> supError option \<Rightarrow> supervisor \<Rightarrow> supervisor" where
  "send ch v s = s\<lparr>sSent := sSent s @ [(ch, v)]\<rparr>"

definition ensureStartedLocked ::
    "time \<Rightarrow> spawnOutcome \<Rightarrow> supervisor \<Rightarrow> chan \<times> supervisor" where
  "ensureStartedLocked now out s0 =
     (let (done, s) = newChan s0 in
      (done,
       case sState s of
         Running \<Rightarrow> send done None s
       | Starting \<Rightarrow> s\<lparr>sWaiters := sWaiters s @ [done]\<rparr>
       | Stopping \<Rightarrow> send done (Some (ErrStopping (pName (sProject s)))) s
       | _ \<Rightarrow>
           if sRetired s then send done (Some (ErrRetired (pName (sProject s)))) s
           else (case spawnLocked now out s of
                   (Some err, s1) \<Rightarrow>
                     send done (Some err)
                       (recordStartFailureLocked now
                         ((setStateLocked Failed s1)\<lparr>sLastErr := Some err\<rparr>))
                 | (None, s1) \<Rightarrow> s1\<lparr>sWaiters := sWaiters s1 @ [done]\<rparr>)))"

definition EnsureStarted :: "time \<Rightarrow> spawnOutcome \<Rightarrow> supervisor \<Rightarrow> chan \<times> supervisor" where
  "EnsureStarted now out s =
     ensureStartedLocked now out (s\<lparr>sConsecutiveFailures := 0, sNextRetryAt := zeroTime\<rparr>)"

definition EnsureStartedOnDemand ::
    "time \<Rightarrow> spawnOutcome \<Rightarrow> supervisor \<Rightarrow> chan \<times> supervisor" where
  "EnsureStartedOnDemand now out s =
     (if sState s = Failed \<and> Before now (sNextRetryAt s)
      then (let (done, s1) = newChan s
            in (done, send done
                  (Some (BackoffError (pName (sProject s)) (sNextRetryAt s) (sLastErr s))) s1))
      else ensureStartedLocked now out s)"

definition Retire :: "supervisor \<Rightarrow> supervisor" where
  "Retire s = s\<lparr>sRetired := True\<rparr>"

text \<open>
  \<open>StopAsync\<close>: \<open>None\<close> is an already closed channel. The owner of the shutdown signals the group
  after releasing the lock and starts \<open>finishStop\<close>.
\<close>

definition StopAsync :: "supervisor \<Rightarrow> chan option \<times> supervisor" where
  "StopAsync s =
     (case sState s of
        Stopped \<Rightarrow> (None, s)
      | Failed \<Rightarrow> (None, s)
      | Stopping \<Rightarrow> (sStopDone s, s)
      | _ \<Rightarrow>
          (let err = ErrStoppedWhileStarting (pName (sProject s));
               s1 = (if sState s = Starting
                     then notifyWaitersLocked (Some err) (s\<lparr>sAbortErr := Some err\<rparr>) else s);
               s2 = setStateLocked Stopping s1;
               d = sNextStop s2;
               s3 = s2\<lparr>sStopDone := Some d, sNextStop := d + 1,
                       sStoppers := sStoppers s2 @
                         [\<lparr>stPgid = sPgid s2, stProc = sProcDone s2, stDone = d, stForced = False\<rparr>]\<rparr>
           in (Some d, signalGroup (sPgid s2) (shutdownSignal s2) s3)))"

section \<open>The goroutines\<close>

definition forceKillNote :: string where
  "forceKillNote = ''process group force-killed''"

text \<open>\<open>finishStop\<close>, when the graceful window has passed: SIGKILL to the group.\<close>

definition finishStopKill :: "stopper \<Rightarrow> supervisor \<Rightarrow> supervisor" where
  "finishStopKill st s =
     signalGroup (stPgid st) SIGKILL
       (s\<lparr>sStoppers := map (\<lambda>x. if x = st then st\<lparr>stForced := True\<rparr> else x) (sStoppers s)\<rparr>)"

text \<open>
  \<open>finishStop\<close>, its end: the group is gone, or the drain after SIGKILL has expired. In the second
  case the direct child may not have been reaped (the trace notes it as abandoned).
\<close>

definition finishStopEnd :: "stopper \<Rightarrow> supervisor \<Rightarrow> supervisor" where
  "finishStopEnd st s =
     (let s1 = (setStateLocked Stopped s)\<lparr>sLastErr := None\<rparr>;
          s2 = (if stForced st
                then s1\<lparr>sLastExit :=
                         (if sLastExit s1 = [] then forceKillNote
                          else sLastExit s1 @ ''; '' @ forceKillNote)\<rparr>
                else s1)
      in s2\<lparr>sStopClosed := sStopClosed s2 @ [stDone st],
            sStoppers := filter (\<lambda>x. x \<noteq> st) (sStoppers s2),
            sAbandoned := sAbandoned s2 @
              (case stProc st of
                 Some c \<Rightarrow> if c \<in> set (sReaped s2) then [] else [c]
               | None \<Rightarrow> [])\<rparr>)"

text \<open>
  \<open>handleExit\<close> for the spawn \<open>c\<close>, with the description of the exit and whether it was clean. The
  outcome of a failed startup is delivered after the lock is released: \<open>sUndelivered\<close>.
\<close>

definition handleExit :: "time \<Rightarrow> spawnId \<Rightarrow> string \<Rightarrow> bool \<Rightarrow> supervisor \<Rightarrow> supervisor" where
  "handleExit now c desc clean s0 =
     (let s = s0\<lparr>sReaped := sReaped s0 @ [c]\<rparr>; name = pName (sProject s) in
      if sCmd s \<noteq> Some c then s
      else
        (let pgid = sPgid s;
             s1 = s\<lparr>sCmd := None, sPgid := 0, sSpawnedAt := zeroTime, sLastExit := desc\<rparr>
         in case sState s of
              Starting \<Rightarrow>
                (let s2 = recordStartFailureLocked now (setStateLocked Failed s1);
                     reason = (case sAbortErr s2 of
                                 Some e \<Rightarrow> e
                               | None \<Rightarrow> ErrExitedDuringStartup name desc)
                 in signalGroup pgid SIGKILL
                      (s2\<lparr>sAbortErr := None, sLastErr := Some reason,
                          sUndelivered := sUndelivered s2 @ [(sWaiters s2, reason)],
                          sWaiters := []\<rparr>))
            | Stopping \<Rightarrow> s1
            | Running \<Rightarrow>
                signalGroup pgid SIGKILL
                  (if clean then (setStateLocked Stopped s1)\<lparr>sLastErr := None\<rparr>
                   else (setStateLocked Failed s1)
                          \<lparr>sLastErr := Some (ErrExitedUnexpectedly name desc)\<rparr>)
            | _ \<Rightarrow> s1))"

text \<open>After the pump has drained (or its bound has passed): the outcome reaches the waiters.\<close>

definition deliverFailed :: "nat \<Rightarrow> supervisor \<Rightarrow> supervisor" where
  "deliverFailed i s =
     s\<lparr>sSent := sSent s @ map (\<lambda>w. (w, Some (snd (sUndelivered s ! i)))) (fst (sUndelivered s ! i)),
       sUndelivered := take i (sUndelivered s) @ drop (Suc i) (sUndelivered s)\<rparr>"

text \<open>\<open>probeReadiness\<close>: a successful probe, and the startup timeout.\<close>

definition probeReady :: "spawnId \<Rightarrow> supervisor \<Rightarrow> supervisor" where
  "probeReady c s =
     (if sState s = Starting \<and> sCmd s = Some c
      then notifyWaitersLocked None
             ((setStateLocked Running s)\<lparr>sConsecutiveFailures := 0, sNextRetryAt := zeroTime\<rparr>)
      else s)"

definition probeTimeout :: "spawnId \<Rightarrow> supervisor \<Rightarrow> supervisor" where
  "probeTimeout c s =
     (if sState s \<noteq> Starting \<or> sCmd s \<noteq> Some c then s
      else signalGroup (sPgid s) SIGKILL
             (s\<lparr>sAbortErr := Some (ErrNotReady (pName (sProject s))
                  (wrap64 (pStartupTimeoutSeconds (sProject s) * timeSecond)))\<rparr>))"

definition pumpLine :: "string \<Rightarrow> supervisor \<Rightarrow> supervisor" where
  "pumpLine line s = s\<lparr>sRing := ringAppend (sRing s) line\<rparr>"

section \<open>Steps\<close>

definition validOutcome :: "spawnOutcome \<Rightarrow> bool" where
  "validOutcome out = (case out of CommandStarts pid \<Rightarrow> 0 < pid | _ \<Rightarrow> True)"

text \<open>The direct child of the stopper's spawn has been reaped: \<open>procDone\<close> is closed.\<close>

definition procDoneClosed :: "stopper \<Rightarrow> supervisor \<Rightarrow> bool" where
  "procDoneClosed st s = (case stProc st of Some c \<Rightarrow> c \<in> set (sReaped s) | None \<Rightarrow> False)"

inductive supStep :: "supervisor \<Rightarrow> supervisor \<Rightarrow> bool" where
  ensure: "validOutcome out \<Longrightarrow> supStep s (snd (EnsureStarted now out s))"
| onDemand: "validOutcome out \<Longrightarrow> supStep s (snd (EnsureStartedOnDemand now out s))"
| retire: "supStep s (Retire s)"
| stop: "supStep s (snd (StopAsync s))"
| kill: "st \<in> set (sStoppers s) \<Longrightarrow> \<not> stForced st \<Longrightarrow> supStep s (finishStopKill st s)"
| finish: "st \<in> set (sStoppers s) \<Longrightarrow> procDoneClosed st s \<or> stForced st \<Longrightarrow>
    supStep s (finishStopEnd st s)"
| exit: "c < length (sSpawns s) \<Longrightarrow> c \<notin> set (sReaped s) \<Longrightarrow>
    supStep s (handleExit now c desc clean s)"
| ready: "c < length (sSpawns s) \<Longrightarrow> supStep s (probeReady c s)"
| timeout: "c < length (sSpawns s) \<Longrightarrow> supStep s (probeTimeout c s)"
| deliver: "i < length (sUndelivered s) \<Longrightarrow> supStep s (deliverFailed i s)"
| pump: "supStep s (pumpLine line s)"

definition supInit :: "supervisor \<Rightarrow> bool" where
  "supInit s \<longleftrightarrow> (\<exists>p. s = NewSupervisor p)"

named_theorems sup_defs "the supervisor's operations, unfolded"

lemmas [sup_defs] =
  setStateLocked_def signalGroup_def notifyWaitersLocked_def recordStartFailureLocked_def
  newChan_def send_def ensureStartedLocked_def EnsureStarted_def EnsureStartedOnDemand_def
  Retire_def StopAsync_def finishStopKill_def finishStopEnd_def handleExit_def deliverFailed_def
  probeReady_def probeTimeout_def pumpLine_def Let_def validOutcome_def procDoneClosed_def

end
