(* ===== verification/SupervisorInv.thy ===== *)
theory SupervisorInv
  imports Supervisor
begin

text \<open>
  The invariant of a supervisor under every interleaving of its operations and goroutines, and
  the supervisor's properties: every caller of a start gets exactly one outcome, at most one
  live process, signals only to its own process groups, the documented lifecycle graph, no
  respawn after retirement or inside the backoff window.
\<close>

section \<open>Invariant\<close>

text \<open>
  The mirror agrees with the state; a starting or running project has a current process; the
  current process is a spawned one, its group is the tracked one and it has not been reaped;
  only a starting project has waiters.
\<close>

definition cmdInv :: "supervisor \<Rightarrow> bool" where
  "cmdInv s \<longleftrightarrow>
     sAtomicState s = sState s \<and>
     (sState s \<in> {Starting, Running} \<longrightarrow> sCmd s \<noteq> None) \<and>
     (case sCmd s of
        None \<Rightarrow> sPgid s = 0
      | Some c \<Rightarrow> c < length (sSpawns s) \<and> sPgid s = sSpawns s ! c \<and> c \<notin> set (sReaped s) \<and>
          sProcDone s = Some c) \<and>
     (sWaiters s \<noteq> [] \<longrightarrow> sState s = Starting) \<and>
     (\<forall>pid \<in> set (sSpawns s). 0 < pid) \<and>
     (\<forall>c \<in> set (sReaped s). c < length (sSpawns s)) \<and>
     ringInv (sRing s)"

text \<open>While stopping, and only then, exactly one \<open>finishStop\<close> runs, and it owns \<open>stopDone\<close>.\<close>

definition stopInv :: "supervisor \<Rightarrow> bool" where
  "stopInv s \<longleftrightarrow>
     (if sState s = Stopping
      then (\<exists>st. sStoppers s = [st] \<and> sStopDone s = Some (stDone st) \<and>
              (\<exists>c. stProc st = Some c \<and> sProcDone s = Some c \<and> c < length (sSpawns s) \<and>
                 stPgid st = sSpawns s ! c \<and> (sCmd s = None \<longrightarrow> c \<in> set (sReaped s))))
      else sStoppers s = [])"

text \<open>Every process that is neither reaped nor current was abandoned by an expired drain.\<close>

definition liveInv :: "supervisor \<Rightarrow> bool" where
  "liveInv s \<longleftrightarrow>
     (\<forall>c < length (sSpawns s). c \<notin> set (sReaped s) \<longrightarrow>
        c \<in> set (sAbandoned s) \<or> (sCmd s = Some c \<and> sState s \<in> {Starting, Running, Stopping}))"

text \<open>Only groups the supervisor created are ever signalled.\<close>

definition signalInv :: "supervisor \<Rightarrow> bool" where
  "signalInv s \<longleftrightarrow> fst ` set (sSignals s) \<subseteq> set (sSpawns s)"

text \<open>Where the value for a channel is: already sent, with a waiter, or awaiting delivery.\<close>

definition chanUses :: "supervisor \<Rightarrow> chan \<Rightarrow> nat" where
  "chanUses s ch =
     count_list (map fst (sSent s)) ch + count_list (sWaiters s) ch +
     count_list (concat (map fst (sUndelivered s))) ch"

definition chanInv :: "supervisor \<Rightarrow> bool" where
  "chanInv s \<longleftrightarrow> (\<forall>ch. chanUses s ch = (if ch < sNextChan s then 1 else 0))"

definition supInv :: "supervisor \<Rightarrow> bool" where
  "supInv s \<longleftrightarrow> cmdInv s \<and> stopInv s \<and> liveInv s \<and> signalInv s \<and> chanInv s"

lemma supInv_init: "supInit s \<Longrightarrow> supInv s"
  by (auto simp: supInit_def NewSupervisor_def supInv_def cmdInv_def stopInv_def liveInv_def
      signalInv_def chanInv_def chanUses_def ringInv_new ringCapacityLines_def)

lemma spawnLocked_cases:
  obtains (fail) err where "spawnLocked now out s = (Some err, s)"
  | (start) pid where "out = CommandStarts pid"
      "spawnLocked now out s =
        (None, (setStateLocked Starting s)
          \<lparr>sCmd := Some (length (sSpawns s)), sPgid := pid, sSpawnedAt := now,
           sLastErr := None, sLastExit := [], sAbortErr := None,
           sProcDone := Some (length (sSpawns s)), sSpawns := sSpawns s @ [pid]\<rparr>)"
  by (cases out) auto

lemma count_list_remove_nth:
  "i < length us \<Longrightarrow>
    count_list (concat (map fst (take i us @ drop (Suc i) us))) ch + count_list (fst (us ! i)) ch =
    count_list (concat (map fst us)) ch"
proof -
  assume "i < length us"
  then have "us = take i us @ us ! i # drop (Suc i) us" by (rule id_take_nth_drop)
  then have "concat (map fst us) =
      concat (map fst (take i us)) @ fst (us ! i) @ concat (map fst (drop (Suc i) us))"
    by (metis concat.simps(2) concat_append list.simps(9) map_append)
  then show ?thesis by simp
qed

lemma cmdInv_step: "supStep s t \<Longrightarrow> stopInv s \<Longrightarrow> cmdInv s \<Longrightarrow> cmdInv t"
proof (induction rule: supStep.induct)
  case (ensure out s now)
  then show ?case
    by (cases out) (auto simp: sup_defs cmdInv_def nth_append split: lifecycle.splits option.splits)
next
  case (onDemand out s now)
  then show ?case
    by (cases out) (auto simp: sup_defs cmdInv_def nth_append split: lifecycle.splits option.splits)
next
  case (pump s line)
  then show ?case by (auto simp: sup_defs cmdInv_def ringInv_append split: option.splits)
next
  case (finish st s)
  then have "sState s = Stopping" by (auto simp: stopInv_def split: if_splits)
  with finish show ?case by (auto simp: sup_defs cmdInv_def split: option.splits)
qed (auto simp: sup_defs cmdInv_def split: lifecycle.splits option.splits if_splits)

lemma stopInv_step: "supStep s t \<Longrightarrow> cmdInv s \<Longrightarrow> stopInv s \<Longrightarrow> stopInv t"
proof (induction rule: supStep.induct)
  case (ensure out s now)
  then show ?case
    by (cases out) (auto simp: sup_defs cmdInv_def stopInv_def split: lifecycle.splits option.splits)
next
  case (onDemand out s now)
  then show ?case
    by (cases out) (auto simp: sup_defs cmdInv_def stopInv_def split: lifecycle.splits option.splits)
next
  case (stop s)
  then show ?case
    by (cases "sState s") (auto simp: sup_defs cmdInv_def stopInv_def split: option.splits)
next
  case (kill st s)
  then show ?case by (auto simp: sup_defs stopInv_def split: if_splits)
next
  case (finish st s)
  then show ?case by (auto simp: sup_defs stopInv_def split: if_splits)
next
  case (exit c s now desc clean)
  then show ?case
    by (cases "sState s") (auto simp: sup_defs cmdInv_def stopInv_def split: option.splits)
qed (auto simp: sup_defs stopInv_def split: if_splits)

lemma liveInv_step:
  "supStep s t \<Longrightarrow> cmdInv s \<Longrightarrow> stopInv s \<Longrightarrow> liveInv s \<Longrightarrow> liveInv t"
proof (induction rule: supStep.induct)
  case (ensure out s now)
  then show ?case
    by (cases out)
      (auto simp: sup_defs cmdInv_def liveInv_def less_Suc_eq split: lifecycle.splits option.splits)
next
  case (onDemand out s now)
  then show ?case
    by (cases out)
      (auto simp: sup_defs cmdInv_def liveInv_def less_Suc_eq split: lifecycle.splits option.splits)
next
  case (stop s)
  then show ?case
    by (cases "sState s") (auto simp: sup_defs liveInv_def)
next
  case (finish st s)
  then show ?case
    by (auto simp: sup_defs cmdInv_def stopInv_def liveInv_def split: if_splits option.splits)
next
  case (exit c s now desc clean)
  then show ?case
    by (cases "sState s") (auto simp: sup_defs cmdInv_def liveInv_def split: option.splits)
qed (auto simp: sup_defs liveInv_def split: if_splits)

lemma signalInv_step:
  "supStep s t \<Longrightarrow> cmdInv s \<Longrightarrow> stopInv s \<Longrightarrow> signalInv s \<Longrightarrow> signalInv t"
proof (induction rule: supStep.induct)
  case (ensure out s now)
  then show ?case
    by (cases out) (auto simp: sup_defs signalInv_def split: lifecycle.splits)
next
  case (onDemand out s now)
  then show ?case
    by (cases out) (auto simp: sup_defs signalInv_def split: lifecycle.splits)
next
  case (stop s)
  then show ?case
    by (cases "sState s") (auto simp: sup_defs cmdInv_def signalInv_def split: option.splits)
next
  case (kill st s)
  then show ?case by (auto simp: sup_defs stopInv_def signalInv_def split: if_splits)
next
  case (finish st s)
  then show ?case by (auto simp: sup_defs signalInv_def split: if_splits)
next
  case (exit c s now desc clean)
  then show ?case
    by (cases "sState s") (auto simp: sup_defs cmdInv_def signalInv_def split: option.splits)
next
  case (timeout c s)
  then show ?case by (auto simp: sup_defs cmdInv_def signalInv_def split: option.splits)
qed (auto simp: sup_defs signalInv_def split: if_splits)

lemma chanInv_fresh: "chanInv s \<Longrightarrow> chanUses s (sNextChan s) = 0"
  by (simp add: chanInv_def)

text \<open>An operation that opens one channel and uses it once.\<close>

lemma chanInv_open:
  assumes "chanInv s" and "sNextChan t = Suc (sNextChan s)"
    and "\<And>ch. chanUses t ch = chanUses s ch + (if ch = sNextChan s then 1 else 0)"
  shows "chanInv t"
  using assms by (auto simp: chanInv_def less_Suc_eq)

text \<open>An operation that moves channels between the three places.\<close>

lemma chanInv_move:
  "chanInv s \<Longrightarrow> sNextChan t = sNextChan s \<Longrightarrow> (\<And>ch. chanUses t ch = chanUses s ch) \<Longrightarrow> chanInv t"
  by (simp add: chanInv_def)

lemma chanInv_ensureStartedLocked: "chanInv s \<Longrightarrow> chanInv (snd (ensureStartedLocked now out s))"
  by (rule chanInv_open [where s = s], assumption; cases out)
    (auto simp: sup_defs chanUses_def split: lifecycle.splits)

lemma chanInv_step: "supStep s t \<Longrightarrow> chanInv s \<Longrightarrow> chanInv t"
proof (induction rule: supStep.induct)
  case (ensure out s now)
  then have "chanInv (s\<lparr>sConsecutiveFailures := 0, sNextRetryAt := zeroTime\<rparr>)"
    by (simp add: chanInv_def chanUses_def)
  then show ?case unfolding EnsureStarted_def by (rule chanInv_ensureStartedLocked)
next
  case (onDemand out s now)
  show ?case
  proof (cases "sState s = Failed \<and> Before now (sNextRetryAt s)")
    case True
    from onDemand(2) show ?thesis
      by (rule chanInv_open) (use True in \<open>auto simp: sup_defs chanUses_def\<close>)
  next
    case False
    with onDemand show ?thesis
      by (auto simp: EnsureStartedOnDemand_def intro: chanInv_ensureStartedLocked)
  qed
next
  case (stop s)
  then show ?case
    by (elim chanInv_move; cases "sState s") (auto simp: sup_defs chanUses_def o_def)
next
  case (exit c s now desc clean)
  from exit(3) show ?case
    by (rule chanInv_move; cases "sState s") (auto simp: sup_defs chanUses_def)
next
  case (deliver i s)
  let ?t = "deliverFailed i s"
  have sent: "map fst (sSent ?t) = map fst (sSent s) @ fst (sUndelivered s ! i)"
    by (simp add: deliverFailed_def o_def)
  have rest: "sUndelivered ?t = take i (sUndelivered s) @ drop (Suc i) (sUndelivered s)"
    "sWaiters ?t = sWaiters s" "sNextChan ?t = sNextChan s"
    by (simp_all add: deliverFailed_def)
  have "chanUses ?t ch = chanUses s ch" for ch
    using count_list_remove_nth [OF deliver(1), of ch]
    unfolding chanUses_def sent rest count_list_append by linarith
  with deliver(2) rest(3) show ?case by (rule chanInv_move)
qed (auto simp: sup_defs chanInv_def chanUses_def o_def split: if_splits)

lemma supInv_step: "supInv s \<Longrightarrow> supStep s t \<Longrightarrow> supInv t"
  unfolding supInv_def
  using cmdInv_step stopInv_step liveInv_step signalInv_step chanInv_step by blast

interpretation sup: inductive_invariant supInit supStep supInv
  by unfold_locales (auto intro: supInv_init supInv_step)

section \<open>The documented lifecycle\<close>

text \<open>The transitions of the README's diagram, plus the failed spawn and the unexpected exits.\<close>

fun lifecycleEdge :: "lifecycle \<Rightarrow> lifecycle \<Rightarrow> bool" where
  "lifecycleEdge Stopped t = (t \<in> {Starting, Failed})"
| "lifecycleEdge Starting t = (t \<in> {Running, Failed, Stopping})"
| "lifecycleEdge Running t = (t \<in> {Stopping, Stopped, Failed})"
| "lifecycleEdge Stopping t = (t = Stopped)"
| "lifecycleEdge Failed t = (t = Starting)"

lemma supStep_edge:
  "supStep s t \<Longrightarrow> supInv s \<Longrightarrow> sState t = sState s \<or> lifecycleEdge (sState s) (sState t)"
proof (induction rule: supStep.induct)
  case (ensure out s now)
  then show ?case by (cases out; cases "sState s") (auto simp: sup_defs)
next
  case (onDemand out s now)
  then show ?case by (cases out; cases "sState s") (auto simp: sup_defs)
next
  case (stop s)
  then show ?case by (cases "sState s") (auto simp: sup_defs)
next
  case (finish st s)
  then have "sState s = Stopping" by (auto simp: supInv_def stopInv_def split: if_splits)
  then show ?case by (simp add: sup_defs)
next
  case (exit c s now desc clean)
  then show ?case by (cases "sState s") (auto simp: sup_defs)
qed (auto simp: sup_defs)

section \<open>Properties\<close>


definition demoSupervisor :: supervisor where
  "demoSupervisor =
     snd (EnsureStartedOnDemand 7 (CommandStarts 41)
       (snd (EnsureStartedOnDemand 5 (CommandStarts 40) (NewSupervisor emptyProject))))"

lemma demo_reachable: "reachable supInit supStep demoSupervisor"
  unfolding demoSupervisor_def
  by (rule reach_step [OF reach_step [OF reach_init]])
    (auto simp: supInit_def validOutcome_def intro!: supStep.onDemand)




text \<open>
  C4. The state only moves along the documented lifecycle: in every reachable state, each step
  either keeps it or takes one of the edges stopped to starting or failed, starting to running,
  failed or stopping, running to stopping, stopped or failed, stopping to stopped, failed to
  starting; and the lock-free mirror always agrees with it.
\<close>

theorem lifecycle_graph:
  assumes "reachable supInit supStep s" and "supStep s t"
  shows "(sState t = sState s \<or> lifecycleEdge (sState s) (sState t)) \<and> State t = sState t"
  using sup.reachable_step_inv [OF assms] supStep_edge [OF assms(2)]
  by (auto simp: supInv_def cmdInv_def State_def)

theorem lifecycle_graph_witness:
  "sState demoSupervisor = Starting \<and> sState (probeReady 0 demoSupervisor) = Running \<and>
   State (probeReady 0 demoSupervisor) = Running"
proof -
  have s: "sState demoSupervisor = Starting" "sCmd demoSupervisor = Some 0"
    "length (sSpawns demoSupervisor) = 1"
    by (simp_all add: demoSupervisor_def NewSupervisor_def sup_defs)
  have "supStep demoSupervisor (probeReady 0 demoSupervisor)"
    by (rule supStep.ready) (simp add: s)
  from lifecycle_graph [OF demo_reachable this] s show ?thesis
    by (simp add: probeReady_def notifyWaitersLocked_def setStateLocked_def)
qed

text \<open>
  Only the supervisor's own process groups are signalled: every group a signal was ever
  sent to is the (positive) group of a process this supervisor spawned.
\<close>

theorem signals_only_own_groups:
  assumes "reachable supInit supStep s" and "(pgid, sig) \<in> set (sSignals s)"
  shows "pgid \<in> set (sSpawns s) \<and> 0 < pgid"
proof -
  have "signalInv s" "cmdInv s" using sup.reachable_inv [OF assms(1)] by (simp_all add: supInv_def)
  then have "fst ` set (sSignals s) \<subseteq> set (sSpawns s)" "\<forall>pid \<in> set (sSpawns s). 0 < pid"
    by (simp_all add: signalInv_def cmdInv_def)
  with assms(2) show ?thesis by force
qed

theorem signals_only_own_groups_witness:
  "sSignals (snd (StopAsync demoSupervisor)) = [(40, SIGTERM)] \<and>
   40 \<in> set (sSpawns (snd (StopAsync demoSupervisor)))"
proof -
  have s: "sSignals (snd (StopAsync demoSupervisor)) = [(40, SIGTERM)]"
    by (simp add: demoSupervisor_def NewSupervisor_def sup_defs shutdownSignal_def
        signalsByName_def emptyProject_def)
  show ?thesis
    using s signals_only_own_groups [OF reach_step [OF demo_reachable supStep.stop], of 40 SIGTERM]
    by simp
qed

lemma retired_step: "supStep s t \<Longrightarrow> sRetired s \<Longrightarrow> sRetired t \<and> sSpawns t = sSpawns s"
  by (induction rule: supStep.induct) (auto simp: sup_defs split: lifecycle.splits)

text \<open>
  Retirement is final: whatever happens after \<open>Retire\<close> (late requests, manual starts,
  exits, restarts), no further process is ever spawned.
\<close>

theorem retired_never_spawns:
  "supStep\<^sup>*\<^sup>* (Retire s) t \<Longrightarrow> sSpawns t = sSpawns s"
proof -
  assume "supStep\<^sup>*\<^sup>* (Retire s) t"
  then have "sRetired t \<and> sSpawns t = sSpawns s"
    by (induction rule: rtranclp_induct) (auto simp: Retire_def dest: retired_step)
  then show ?thesis by simp
qed

theorem retired_never_spawns_witness:
  "sSpawns (snd (EnsureStarted 9 (CommandStarts 50) (Retire (NewSupervisor emptyProject)))) = []"
proof -
  have "supStep\<^sup>*\<^sup>* (Retire (NewSupervisor emptyProject))
      (snd (EnsureStarted 9 (CommandStarts 50) (Retire (NewSupervisor emptyProject))))"
    by (rule r_into_rtranclp, rule supStep.ensure) (simp add: validOutcome_def)
  from retired_never_spawns [OF this] show ?thesis by (simp add: NewSupervisor_def)
qed

text \<open>
  A crash loop is not driven by traffic. When the process of a starting project exits after
  \<open>n\<close> earlier consecutive failures, a request within \<open>backoffDelay (n + 1)\<close> of the exit gets a
  \<open>BackoffError\<close> naming the time of the next attempt and spawns nothing; a request after it, or
  a manual start at any time, spawns the command again (unless the supervisor is retired).
\<close>

theorem backoff_suppresses_respawn:
  assumes "sState s = Starting" and "sCmd s = Some c" and "\<not> sRetired s"
  shows "let f = handleExit t0 c desc clean s; retry = t0 + backoffDelay (sConsecutiveFailures s + 1) in
    (if now < retry
     then sSpawns (snd (EnsureStartedOnDemand now (CommandStarts pid) f)) = sSpawns s \<and>
       last (sSent (snd (EnsureStartedOnDemand now (CommandStarts pid) f))) =
         (sNextChan s, Some (BackoffError (pName (sProject s)) retry (sLastErr f)))
     else sSpawns (snd (EnsureStartedOnDemand now (CommandStarts pid) f)) = sSpawns s @ [pid]) \<and>
    sSpawns (snd (EnsureStarted now (CommandStarts pid) f)) = sSpawns s @ [pid]"
proof -
  define f where "f = handleExit t0 c desc clean s"
  define retry where "retry = t0 + backoffDelay (sConsecutiveFailures s + 1)"
  have f: "sState f = Failed" "sNextRetryAt f = retry" "sSpawns f = sSpawns s" "sProject f = sProject s"
    "sNextChan f = sNextChan s" "\<not> sRetired f"
    using assms
    by (simp_all add: f_def retry_def handleExit_def recordStartFailureLocked_def setStateLocked_def
        signalGroup_def Let_def)
  have early: "EnsureStartedOnDemand now (CommandStarts pid) f =
      (sNextChan f, send (sNextChan f) (Some (BackoffError (pName (sProject f)) retry (sLastErr f)))
        (f\<lparr>sNextChan := sNextChan f + 1\<rparr>))" if "now < retry"
    using that f by (simp add: EnsureStartedOnDemand_def newChan_def Before_def)
  have late: "EnsureStartedOnDemand now (CommandStarts pid) f = ensureStartedLocked now (CommandStarts pid) f"
    if "\<not> now < retry"
    using that f by (simp add: EnsureStartedOnDemand_def Before_def)
  have spawn: "sSpawns (snd (ensureStartedLocked now (CommandStarts pid) g)) = sSpawns g @ [pid]"
    if "sState g = Failed" "\<not> sRetired g" for g
    using that by (simp add: ensureStartedLocked_def newChan_def setStateLocked_def)
  show ?thesis
    using early late spawn [of f] spawn [of "f\<lparr>sConsecutiveFailures := 0, sNextRetryAt := zeroTime\<rparr>"] f
    by (simp add: f_def [symmetric] retry_def [symmetric] send_def EnsureStarted_def)
qed

theorem backoff_suppresses_respawn_witness:
  "sSpawns (snd (EnsureStartedOnDemand 500000000 (CommandStarts 99)
     (handleExit 0 0 ''exit status 1'' False demoSupervisor))) = [40]"
proof -
  have s: "sState demoSupervisor = Starting" "sCmd demoSupervisor = Some 0"
    "\<not> sRetired demoSupervisor" "sSpawns demoSupervisor = [40]"
    "sConsecutiveFailures demoSupervisor = 0"
    by (simp_all add: demoSupervisor_def NewSupervisor_def sup_defs)
  have "500000000 < 0 + backoffDelay (sConsecutiveFailures demoSupervisor + 1)"
    by (simp add: s backoffDelay_def backoff_consts)
  with backoff_suppresses_respawn [OF s(1-3), of 0 "''exit status 1''" False 500000000 99] s(4)
  show ?thesis by (simp add: Let_def)
qed

text \<open>
  Nobody is left waiting: every way out of \<open>starting\<close> answers every waiter. Readiness sends
  each of them success; a stop sends each the stopped-while-starting error; the exit of the
  process, once its pending delivery has run, sends each the same failure. None of them leaves a
  waiter behind, and the stop leaves the project \<open>stopping\<close>, holding no running-server slot.
\<close>

theorem starting_waiters_are_answered:
  assumes "sState s = Starting" and "sCmd s = Some c"
  shows "let r = probeReady c s; q = snd (StopAsync s);
      x = handleExit now c desc clean s; d = deliverFailed (length (sUndelivered s)) x in
    sSent r = sSent s @ map (\<lambda>w. (w, None)) (sWaiters s) \<and> sWaiters r = [] \<and>
    sSent q = sSent s @ map (\<lambda>w. (w, Some (ErrStoppedWhileStarting (pName (sProject s))))) (sWaiters s) \<and>
    sWaiters q = [] \<and> sState q = Stopping \<and>
    sSent d = sSent s @ map (\<lambda>w. (w, sLastErr x)) (sWaiters s) \<and> sLastErr x \<noteq> None \<and>
    sWaiters d = [] \<and> sUndelivered d = sUndelivered s"
  using assms by (auto simp: sup_defs)

theorem starting_waiters_are_answered_witness:
  "sWaiters demoSupervisor = [0, 1] \<and>
   sSent (probeReady 0 demoSupervisor) = [(0, None), (1, None)]"
proof -
  have s: "sState demoSupervisor = Starting" "sCmd demoSupervisor = Some 0"
    "sWaiters demoSupervisor = [0, 1]" "sSent demoSupervisor = []"
    by (simp_all add: demoSupervisor_def NewSupervisor_def sup_defs)
  show ?thesis
    using starting_waiters_are_answered [OF s(1,2)] s by (simp add: Let_def)
qed

section \<open>The interface of a slot-holding process\<close>

text \<open>
  What the running-server budget and the idle monitor rely on: reading the state, beginning a
  graceful stop, starting. A stop takes effect at once on the state; a start that finds the
  process busy changes nothing.
\<close>

definition holdsSlotState :: "lifecycle \<Rightarrow> bool" where
  "holdsSlotState st \<longleftrightarrow> st \<in> {Starting, Running}"

locale slot_process =
  fixes state :: "'p \<Rightarrow> lifecycle"
    and begin_stop :: "'p \<Rightarrow> 'p"
    and start :: "'p \<Rightarrow> 'p"
    and wf :: "'p \<Rightarrow> bool"
  assumes stop_frees_slot: "wf p \<Longrightarrow> \<not> holdsSlotState (state (begin_stop p))"
    and stop_wf: "wf p \<Longrightarrow> wf (begin_stop p)"
    and start_wf: "wf p \<Longrightarrow> wf (start p)"
    and start_busy: "wf p \<Longrightarrow> state p \<in> {Starting, Running, Stopping} \<Longrightarrow> state (start p) = state p"
begin

lemma start_slot_gain:
  "wf p \<Longrightarrow> holdsSlotState (state (start p)) \<Longrightarrow> \<not> holdsSlotState (state p) \<Longrightarrow>
     state p \<in> {Stopped, Failed}"
  using start_busy [of p] by (cases "state p") (auto simp: holdsSlotState_def)

lemma restart_state: "wf p \<Longrightarrow> state (begin_stop p) = Stopping \<Longrightarrow> state (start (begin_stop p)) = Stopping"
  using start_busy [OF stop_wf] by simp

end

definition mirrored :: "supervisor \<Rightarrow> bool" where
  "mirrored s \<longleftrightarrow> sAtomicState s = sState s"

lemma mirrored_StopAsync: "mirrored s \<Longrightarrow> mirrored (snd (StopAsync s))"
  by (cases "sState s") (auto simp: mirrored_def sup_defs)

lemma State_StopAsync: "mirrored s \<Longrightarrow> \<not> holdsSlotState (State (snd (StopAsync s)))"
  by (cases "sState s") (auto simp: mirrored_def holdsSlotState_def State_def sup_defs)

lemma mirrored_EnsureStarted: "mirrored s \<Longrightarrow> mirrored (snd (EnsureStarted now out s))"
  by (cases out; cases "sState s") (auto simp: mirrored_def sup_defs)

lemma mirrored_EnsureStartedOnDemand:
  "mirrored s \<Longrightarrow> mirrored (snd (EnsureStartedOnDemand now out s))"
  by (cases out; cases "sState s") (auto simp: mirrored_def sup_defs)

lemma EnsureStarted_busy:
  "mirrored s \<Longrightarrow> State s \<in> {Starting, Running, Stopping} \<Longrightarrow>
    State (snd (EnsureStarted now out s)) = State s"
  by (cases "sState s") (auto simp: mirrored_def State_def sup_defs)

lemma EnsureStartedOnDemand_busy:
  "mirrored s \<Longrightarrow> State s \<in> {Starting, Running, Stopping} \<Longrightarrow>
    State (snd (EnsureStartedOnDemand now out s)) = State s"
  by (cases "sState s") (auto simp: mirrored_def State_def sup_defs)

interpretation manual_start: slot_process State "\<lambda>s. snd (StopAsync s)"
    "\<lambda>s. snd (EnsureStarted now out s)" mirrored
  for now :: time and out :: spawnOutcome
  by unfold_locales
    (simp_all add: State_StopAsync mirrored_StopAsync mirrored_EnsureStarted EnsureStarted_busy)

interpretation demand_start: slot_process State "\<lambda>s. snd (StopAsync s)"
    "\<lambda>s. snd (EnsureStartedOnDemand now out s)" mirrored
  for now :: time and out :: spawnOutcome
  by unfold_locales
    (simp_all add: State_StopAsync mirrored_StopAsync mirrored_EnsureStartedOnDemand
      EnsureStartedOnDemand_busy)

end
