(* ===== verification/SupervisorStop.thy ===== *)
theory SupervisorStop
  imports SupervisorInv
begin

text \<open>
  A stop ends. The goroutines of a supervisor are run without further calls; a run is bounded by a
  measure of what is still to be done, and where it ends the stop has been completed. The processes the
  kernel lets exit are an argument: a stop ends even when its process never does.
\<close>

section \<open>The goroutines alone\<close>

text \<open>
  The steps of \<open>supStep\<close> that the supervisor's goroutines take by themselves, each as often as the code
  takes it: a probe that has killed its group returns, so the startup timeout fires once.
\<close>

inductive ownStep :: "spawnId set \<Rightarrow> supervisor \<Rightarrow> supervisor \<Rightarrow> bool" for exits :: "spawnId set" where
  kill: "st \<in> set (sStoppers s) \<Longrightarrow> \<not> stForced st \<Longrightarrow> ownStep exits s (finishStopKill st s)"
| finish: "st \<in> set (sStoppers s) \<Longrightarrow> procDoneClosed st s \<or> stForced st \<Longrightarrow> ownStep exits s (finishStopEnd st s)"
| exit: "c \<in> exits \<Longrightarrow> c < length (sSpawns s) \<Longrightarrow> c \<notin> set (sReaped s) \<Longrightarrow> ownStep exits s (handleExit now c desc clean s)"
| ready: "sState s = Starting \<Longrightarrow> sCmd s = Some c \<Longrightarrow> c < length (sSpawns s) \<Longrightarrow> ownStep exits s (probeReady c s)"
| timeout: "sState s = Starting \<Longrightarrow> sCmd s = Some c \<Longrightarrow> sAbortErr s = None \<Longrightarrow> c < length (sSpawns s) \<Longrightarrow>
    ownStep exits s (probeTimeout c s)"
| deliver: "i < length (sUndelivered s) \<Longrightarrow> ownStep exits s (deliverFailed i s)"

lemma ownStep_supStep: "ownStep exits s t \<Longrightarrow> supStep s t"
  by (induction rule: ownStep.induct) (auto intro: supStep.intros)

lemma own_reachable: "(ownStep exits ^^ n) s t \<Longrightarrow> reachable supInit supStep s \<Longrightarrow> reachable supInit supStep t"
  by (induction n arbitrary: t) (auto intro: reach_step ownStep_supStep)

section \<open>The bound\<close>

text \<open>
  What is left to do: two stages of every stop, an exit with the delivery of its outcome for every process,
  the end of the probe and its timeout, and the outcomes on their way.
\<close>

definition stageWeight :: "stopper \<Rightarrow> nat" where
  "stageWeight st = (if stForced st then 1 else 2)"

definition settleBound :: "supervisor \<Rightarrow> nat" where
  "settleBound s =
     sum_list (map stageWeight (sStoppers s)) + 2 * card ({..<length (sSpawns s)} - set (sReaped s)) +
     (if sState s = Starting then (if sAbortErr s = None then 2 else 1) else 0) + length (sUndelivered s)"

lemma sum_list_less:
  "x \<in> set xs \<Longrightarrow> f x < g x \<Longrightarrow> (\<And>y. y \<in> set xs \<Longrightarrow> f y \<le> g y) \<Longrightarrow> sum_list (map f xs) < sum_list (map g xs)"
  for f g :: "'a \<Rightarrow> nat"
proof (induction xs)
  case (Cons y ys)
  have le: "sum_list (map f ys) \<le> sum_list (map g ys)" by (rule sum_list_mono) (simp add: Cons.prems(3))
  show ?case
  proof (cases "x = y")
    case True
    with le Cons.prems(2) show ?thesis by simp
  next
    case False
    with Cons.IH Cons.prems have "sum_list (map f ys) < sum_list (map g ys)" by simp
    with Cons.prems(3)[of y] show ?thesis by simp
  qed
qed simp

lemma weight_forced:
  assumes "st \<in> set xs" "\<not> stForced st"
  shows "sum_list (map (\<lambda>x. stageWeight (if x = st then st\<lparr>stForced := True\<rparr> else x)) xs) < sum_list (map stageWeight xs)"
  by (rule sum_list_less[OF assms(1)]) (use assms(2) in \<open>auto simp: stageWeight_def\<close>)

lemma weight_removed:
  assumes "st \<in> set xs"
  shows "sum_list (map stageWeight (filter (\<lambda>x. x \<noteq> st) xs)) < sum_list (map stageWeight xs)"
proof -
  have "sum_list (map stageWeight (filter P xs)) = sum_list (map (\<lambda>x. if P x then stageWeight x else 0) xs)" for P
    by (rule sum_list_map_filter')
  moreover have "sum_list (map (\<lambda>x. if x \<noteq> st then stageWeight x else 0) xs) < sum_list (map stageWeight xs)"
    by (rule sum_list_less[OF assms]) (auto simp: stageWeight_def)
  ultimately show ?thesis by simp
qed

lemma unreaped_less:
  assumes "c < length xs" "c \<notin> set ys"
  shows "card ({..<length xs} - set (ys @ [c])) < card ({..<length xs} - set ys)"
  using assms by (intro psubset_card_mono) auto

lemma exit_frame:
  "sStoppers (handleExit now c desc clean s) = sStoppers s" "sSpawns (handleExit now c desc clean s) = sSpawns s"
  "sReaped (handleExit now c desc clean s) = sReaped s @ [c]"
  "(if sState (handleExit now c desc clean s) = Starting then (if sAbortErr (handleExit now c desc clean s) = None then 2 else 1) else 0) +
    length (sUndelivered (handleExit now c desc clean s)) \<le>
   (if sState s = Starting then (if sAbortErr s = None then 2 else 1) else 0) + (length (sUndelivered s) + (1::nat))"
  by (cases "sCmd s = Some c"; cases "sState s"; simp add: handleExit_def recordStartFailureLocked_def setStateLocked_def
      signalGroup_def Let_def)+

lemma settle_decreases: "ownStep exits s t \<Longrightarrow> settleBound t < settleBound s"
proof (induction rule: ownStep.induct)
  case (kill st s)
  then show ?case using weight_forced[of st "sStoppers s"] by (simp add: settleBound_def sup_defs comp_def)
next
  case (finish st s)
  then show ?case using weight_removed[of st "sStoppers s"]
    by (simp add: settleBound_def sup_defs)
next
  case (exit c s now desc clean)
  let ?t = "handleExit now c desc clean s"
  note f = exit_frame[of now c desc clean s]
  have "2 * card ({..<length (sSpawns s)} - set (sReaped ?t)) + 2 \<le> 2 * card ({..<length (sSpawns s)} - set (sReaped s))"
    using unreaped_less[OF exit(2,3)] f(3) by simp
  with f show ?case by (simp add: settleBound_def)
next
  case (deliver i s)
  then have "length (take i (sUndelivered s) @ drop (Suc i) (sUndelivered s)) < length (sUndelivered s)" by simp
  then show ?case unfolding settleBound_def deliverFailed_def by (simp del: length_append length_take length_drop)
qed (simp_all add: settleBound_def sup_defs)

lemma settle_bounds: "(ownStep exits ^^ n) s t \<Longrightarrow> n + settleBound t \<le> settleBound s"
proof (induction n arbitrary: t)
  case (Suc n)
  then obtain u where "(ownStep exits ^^ n) s u" "ownStep exits u t" by auto
  with Suc.IH[of u] settle_decreases[of exits u t] show ?case by simp
qed simp

section \<open>Where it ends\<close>

text \<open>The stop with the channel \<open>d\<close> is under way, or over.\<close>

definition stopUnderWay :: "chan option \<Rightarrow> supervisor \<Rightarrow> bool" where
  "stopUnderWay d s \<longleftrightarrow>
     sState s \<in> {Stopping, Stopped, Failed} \<and>
     (\<forall>c. d = Some c \<longrightarrow> (sState s = Stopping \<and> sStopDone s = Some c) \<or> c \<in> set (sStopClosed s))"

lemma stop_begins: "supInv s \<Longrightarrow> StopAsync s = (d, u) \<Longrightarrow> stopUnderWay d u"
  by (auto simp: stopUnderWay_def sup_defs split: lifecycle.splits if_splits)

lemma stop_goes_on: "ownStep exits s t \<Longrightarrow> supInv s \<Longrightarrow> stopUnderWay d s \<Longrightarrow> stopUnderWay d t"
proof (induction rule: ownStep.induct)
  case (finish st s)
  then show ?case by (auto simp: stopUnderWay_def supInv_def stopInv_def sup_defs split: if_splits)
qed (auto simp: stopUnderWay_def sup_defs split: lifecycle.splits option.splits)

lemma stop_goes_on_steps:
  "(ownStep exits ^^ n) u t \<Longrightarrow> reachable supInit supStep u \<Longrightarrow> stopUnderWay d u \<Longrightarrow> stopUnderWay d t"
proof (induction n arbitrary: t)
  case (Suc n)
  then obtain v where v: "(ownStep exits ^^ n) u v" "ownStep exits v t" by auto
  have "supInv v" by (rule sup.reachable_inv[OF own_reachable[OF v(1) Suc.prems(2)]])
  with Suc.IH[OF v(1) Suc.prems(2,3)] v(2) show ?case by (blast intro: stop_goes_on)
qed simp

lemma at_rest:
  assumes "supInv t" "stopUnderWay d t" "\<nexists>v. ownStep exits t v"
  shows "sState t \<in> {Stopped, Failed}" "sStoppers t = []" "sWaiters t = []" "sUndelivered t = []"
proof -
  have u: "sUndelivered t = []" using assms(3) ownStep.deliver[of 0 t exits] by auto
  have n: "sState t \<noteq> Stopping"
  proof
    assume "sState t = Stopping"
    with assms(1) obtain st where "sStoppers t = [st]" by (auto simp: supInv_def stopInv_def)
    with assms(3) show False using ownStep.kill[of st t exits] ownStep.finish[of st t exits] by auto
  qed
  with assms(1,2) u show "sState t \<in> {Stopped, Failed}" "sStoppers t = []" "sWaiters t = []" "sUndelivered t = []"
    by (auto simp: supInv_def stopInv_def cmdInv_def stopUnderWay_def)
qed

text \<open>
  C5. A stop ends, whatever the process does: without further calls the goroutines take at most
  \<open>settleBound\<close> steps after \<open>StopAsync\<close>, whichever processes ever exit; and when none is left the project is
  stopped or failed, no stop is in progress, every caller waiting for a start has its outcome, and the channel
  that \<open>StopAsync\<close> returned is closed.
\<close>

theorem every_stop_ends:
  assumes "reachable supInit supStep s" "StopAsync s = (d, u)" "(ownStep exits ^^ n) u t"
  shows "n \<le> settleBound u \<and>
    ((\<nexists>v. ownStep exits t v) \<longrightarrow>
      State t \<in> {Stopped, Failed} \<and> sStoppers t = [] \<and> sWaiters t = [] \<and> sUndelivered t = [] \<and>
      (\<forall>c. d = Some c \<longrightarrow> c \<in> set (sStopClosed t)))"
proof -
  have r: "reachable supInit supStep u" using reach_step[OF assms(1) supStep.stop[of s]] assms(2) by simp
  have w: "stopUnderWay d t"
    by (rule stop_goes_on_steps[OF assms(3) r stop_begins[OF sup.reachable_inv[OF assms(1)] assms(2)]])
  have i: "supInv t" by (rule sup.reachable_inv[OF own_reachable[OF assms(3) r]])
  have "State t = sState t" using i by (simp add: supInv_def cmdInv_def State_def)
  moreover have "\<forall>c. d = Some c \<longrightarrow> c \<in> set (sStopClosed t)" if "sState t \<in> {Stopped, Failed}"
    using w that by (auto simp: stopUnderWay_def)
  moreover note rest = at_rest[OF i w, where exits = exits]
  ultimately have "State t \<in> {Stopped, Failed} \<and> sStoppers t = [] \<and> sWaiters t = [] \<and> sUndelivered t = [] \<and>
      (\<forall>c. d = Some c \<longrightarrow> c \<in> set (sStopClosed t))" if "\<nexists>v. ownStep exits t v"
    using that by simp
  moreover have "n \<le> settleBound u" using settle_bounds[OF assms(3)] by simp
  ultimately show ?thesis by blast
qed

text \<open>A process that never exits: the group is killed, and the stop gives up on it.\<close>

theorem every_stop_ends_witness:
  "\<exists>t. (ownStep {} ^^ 2) (snd (StopAsync demoSupervisor)) t \<and> State t = Stopped \<and> set (sStopClosed t) = {0}"
proof -
  let ?u = "snd (StopAsync demoSupervisor)"
  let ?st = "\<lparr>stPgid = 40, stProc = Some 0, stDone = 0, stForced = False\<rparr>"
  let ?t = "finishStopEnd (?st\<lparr>stForced := True\<rparr>) (finishStopKill ?st ?u)"
  have p: "StopAsync demoSupervisor = (Some 0, ?u)" "sStoppers ?u = [?st]" "sStopClosed ?u = []" "sUndelivered ?u = []"
    by (simp_all add: demoSupervisor_def NewSupervisor_def sup_defs)
  have k: "ownStep {} ?u (finishStopKill ?st ?u)" by (rule ownStep.kill) (simp_all add: p(2))
  have e: "sStoppers (finishStopKill ?st v) = map (\<lambda>x. if x = ?st then ?st\<lparr>stForced := True\<rparr> else x) (sStoppers v)"
    "sStopClosed (finishStopKill ?st v) = sStopClosed v" "sUndelivered (finishStopKill ?st v) = sUndelivered v" for v
    by (simp_all add: finishStopKill_def signalGroup_def)
  have f: "sStopClosed (finishStopEnd x v) = sStopClosed v @ [stDone x]" "sUndelivered (finishStopEnd x v) = sUndelivered v"
    "sStoppers (finishStopEnd x v) = filter (\<lambda>y. y \<noteq> x) (sStoppers v)" "sState (finishStopEnd x v) = Stopped"
    "sAtomicState (finishStopEnd x v) = Stopped" for x v
    by (simp_all add: finishStopEnd_def setStateLocked_def Let_def)
  have "ownStep {} (finishStopKill ?st ?u) ?t" by (rule ownStep.finish) (simp_all add: e p(2))
  with k have two: "(ownStep {} ^^ 2) ?u ?t" by (auto simp: eval_nat_numeral)
  have c: "sStopClosed ?t = [0]" "sStoppers ?t = []" "sUndelivered ?t = []" "sState ?t = Stopped" "sAtomicState ?t = Stopped"
    by (simp_all add: e f p(2-4))
  have "\<nexists>v. ownStep {} ?t v" using c by (auto elim!: ownStep.cases)
  with every_stop_ends[OF demo_reachable p(1) two] have "State ?t \<in> {Stopped, Failed}" "0 \<in> set (sStopClosed ?t)" by auto
  with two c show ?thesis by (intro exI[of _ ?t]) (auto simp: State_def)
qed

end
