(* ===== verification/ProcessIO.thy ===== *)
theory ProcessIO
  imports Supervisor
begin

text \<open>
  What the goroutines of a supervisor do with the process besides its state (\<open>process/supervisor.go\<close>): the
  pump that cuts its output into lines, one readiness probe, the polling of a stopped group and the text of
  an exit. \<open>ReadLine\<close> is \<open>bufio.Reader.ReadLine\<close> with the pump's buffer on the bytes still to come.
\<close>

section \<open>The pump\<close>

definition lineFeed :: char where "lineFeed = CHR 0x0A"
definition carriageReturn :: char where "carriageReturn = CHR 0x0D"

definition readerBytes :: nat where "readerBytes = 32 * 1024"
definition maxLineBytes :: nat where "maxLineBytes = 64 * 1024"

definition trimReturn :: "string \<Rightarrow> string" where
  "trimReturn line = (if line \<noteq> [] \<and> last line = carriageReturn then butlast line else line)"

text \<open>
  A line with its end cut off; or a full buffer without one, which is a prefix of a line (a carriage return at its
  end stays for the next call); or what is left at the end of the output.
\<close>

definition ReadLine :: "string \<Rightarrow> (string \<times> bool \<times> string) option" where
  "ReadLine input =
     (if input = [] then None
      else case cutByte lineFeed (take readerBytes input) of
        Some (l, _) \<Rightarrow> Some (trimReturn l, False, drop (Suc (length l)) input)
      | None \<Rightarrow>
          if readerBytes \<le> length input
          then (let l = take readerBytes input in
                if last l = carriageReturn then Some (butlast l, True, drop (readerBytes - 1) input)
                else Some (l, True, drop readerBytes input))
          else Some (input, False, []))"

lemma ReadLine_shorter: "ReadLine input = Some (l, isPrefix, rest) \<Longrightarrow> length rest < length input"
  by (auto simp: ReadLine_def Let_def readerBytes_def split: if_splits option.splits)

function pumpLines :: "string \<Rightarrow> string \<Rightarrow> string list" where
  "pumpLines line input =
     (case ReadLine input of
        None \<Rightarrow> if line \<noteq> [] then [line] else []
      | Some (chunk, isPrefix, rest) \<Rightarrow>
          if isPrefix \<and> length (line @ chunk) < maxLineBytes then pumpLines (line @ chunk) rest
          else (line @ chunk) # pumpLines [] rest)"
  by pat_completeness auto

termination
  by (relation "measure (\<lambda>(line, input). length input)") (auto dest: ReadLine_shorter)

declare pumpLines.simps [simp del]

text \<open>The lines reach the ring and the log file.\<close>

definition pump :: "string \<Rightarrow> string \<Rightarrow> supervisor \<Rightarrow> string \<times> supervisor" where
  "pump output log s =
     (let ls = pumpLines [] output in (log @ concat (map (\<lambda>l. l @ [lineFeed]) ls), foldl (\<lambda>t l. pumpLine l t) s ls))"

section \<open>Probes and exits\<close>

text \<open>One probe: whether a dial to the port succeeds, or whether a request to the URL is answered at all.\<close>

definition probeOnce :: "(string \<Rightarrow> bool) \<Rightarrow> (string \<Rightarrow> bool) \<Rightarrow> supervisor \<Rightarrow> bool" where
  "probeOnce dials answers s =
     (if pReadinessStrategy (sProject s) = ReadinessTCP
      then dials (JoinHostPort ''127.0.0.1'' (Itoa (pApplicationPort (sProject s))))
      else answers (pReadinessURL (sProject s)))"

text \<open>
  Waiting for a group: whether the direct child was reaped before the deadline, and what the polls
  of the group until the deadline find.
\<close>

fun pollGroup :: "bool list \<Rightarrow> bool" where
  "pollGroup [] = False"
| "pollGroup (gone # polls) = (if gone then True else pollGroup polls)"

definition awaitGroupExit :: "bool \<Rightarrow> bool list \<Rightarrow> bool" where
  "awaitGroupExit reaped polls = (if reaped then pollGroup polls else False)"

text \<open>The text of an exit: of the process state, of the error of the wait, or neither.\<close>

definition describeExit :: "(string \<times> bool) option \<Rightarrow> string option \<Rightarrow> string \<times> bool" where
  "describeExit ps waitErr =
     (case ps of
        Some state \<Rightarrow> state
      | None \<Rightarrow> (case waitErr of Some e \<Rightarrow> (e, False) | None \<Rightarrow> (''exited'', False)))"

section \<open>What is captured\<close>

lemma ReadLine_line:
  assumes "lineFeed \<notin> set l" "length l < readerBytes"
  shows "ReadLine (l @ lineFeed # rest) = Some (trimReturn l, False, rest)"
proof -
  obtain n where n: "readerBytes - length l = Suc n" using assms(2) by (cases "readerBytes - length l") auto
  then have "take readerBytes (l @ lineFeed # rest) = l @ lineFeed # take n rest"
    using assms(2) by (simp add: take_Cons)
  with assms(1) show ?thesis by (simp add: ReadLine_def)
qed

lemma ReadLine_tail:
  "lineFeed \<notin> set l \<Longrightarrow> length l < readerBytes \<Longrightarrow> l \<noteq> [] \<Longrightarrow> ReadLine l = Some (l, False, [])"
  by (simp add: ReadLine_def cutByte_None[THEN iffD2])

lemma ReadLine_end [simp]: "ReadLine [] = None"
  by (simp add: ReadLine_def)

lemma pumpLines_lines:
  "\<forall>l \<in> set ls. lineFeed \<notin> set l \<and> length l < readerBytes \<Longrightarrow> lineFeed \<notin> set tail \<Longrightarrow> length tail < readerBytes \<Longrightarrow>
    pumpLines [] (concat (map (\<lambda>l. l @ [lineFeed]) ls) @ tail) = map trimReturn ls @ (if tail = [] then [] else [tail])"
proof (induction ls)
  case Nil
  then show ?case by (cases "tail = []") (simp_all add: pumpLines.simps ReadLine_tail)
next
  case (Cons l ls)
  then show ?case by (subst pumpLines.simps) (simp add: ReadLine_line)
qed

lemma cutByte_length: "cutByte c s = Some (a, b) \<Longrightarrow> length a < length s"
  by (auto simp: cutByte_Some)

lemma ReadLine_no_feed:
  assumes "lineFeed \<notin> set (take readerBytes input)" "input \<noteq> []" "last (take readerBytes input) \<noteq> carriageReturn"
  shows "ReadLine input = Some (take readerBytes input, readerBytes \<le> length input, drop readerBytes input)"
  using assms cutByte_None[of lineFeed "take readerBytes input"] by (simp add: ReadLine_def Let_def)

text \<open>No byte is lost, however long the lines are, as long as no carriage return is cut off.\<close>

lemma ReadLine_bytes:
  assumes "ReadLine input = Some (chunk, isPrefix, rest)" "carriageReturn \<notin> set input"
  shows "filter (\<lambda>c. c \<noteq> lineFeed) input = chunk @ filter (\<lambda>c. c \<noteq> lineFeed) rest" "carriageReturn \<notin> set rest"
proof -
  let ?f = "filter (\<lambda>c. c \<noteq> lineFeed)"
  have trim: "trimReturn l = l" if "carriageReturn \<notin> set l" for l
    using that by (metis last_in_set trimReturn_def)
  have "?f input = chunk @ ?f rest \<and> carriageReturn \<notin> set rest"
  proof (cases "cutByte lineFeed (take readerBytes input)")
    case None
    then have n: "lineFeed \<notin> set (take readerBytes input)" by (simp add: cutByte_None)
    then have "?f (take readerBytes input) = take readerBytes input" by (simp add: filter_id_conv) metis
    then have "?f input = take readerBytes input @ ?f (drop readerBytes input)"
      by (metis append_take_drop_id filter_append)
    moreover have "last (take readerBytes input) \<noteq> carriageReturn" if "take readerBytes input \<noteq> []"
      using that assms(2) last_in_set set_take_subset by (metis subsetD)
    moreover have i: "input \<noteq> []" using assms(1) by auto
    moreover have "take readerBytes input \<noteq> []" using i by (simp add: readerBytes_def)
    ultimately show ?thesis using ReadLine_no_feed[OF n] assms by (auto dest: in_set_dropD)
  next
    case (Some p)
    obtain l more where p: "p = (l, more)" by fastforce
    with Some have t: "take readerBytes input = l @ lineFeed # more" "lineFeed \<notin> set l" by (simp_all add: cutByte_Some)
    define r where "r = more @ drop readerBytes input"
    have i: "input = l @ lineFeed # r" using append_take_drop_id[of readerBytes input] t(1) by (simp add: r_def)
    have "?f l = l" using t(2) by (auto simp: filter_id_conv)
    then have "?f input = l @ ?f r" by (simp add: i)
    moreover have "trimReturn l = l" "carriageReturn \<notin> set r" using assms(2) by (auto simp: i intro: trim)
    moreover have "ReadLine input = Some (trimReturn l, False, r)" using Some p by (simp add: ReadLine_def i)
    ultimately show ?thesis using assms(1) by simp
  qed
  then show "?f input = chunk @ ?f rest" "carriageReturn \<notin> set rest" by auto
qed

lemma pumpLines_bytes:
  "carriageReturn \<notin> set input \<Longrightarrow> concat (pumpLines line input) = line @ filter (\<lambda>c. c \<noteq> lineFeed) input"
proof (induction line input rule: pumpLines.induct)
  case (1 line input)
  show ?case
  proof (cases "ReadLine input")
    case None
    then have "input = []" by (auto simp: ReadLine_def Let_def split: if_splits option.splits)
    then show ?thesis by (simp add: pumpLines.simps)
  next
    case (Some p)
    obtain chunk isPrefix rest where p: "p = (chunk, isPrefix, rest)" using prod_cases3 by blast
    note b = ReadLine_bytes[OF Some[unfolded p] "1.prems"]
    show ?thesis
      using "1.IH"(1)[OF Some p[symmetric] refl] "1.IH"(2)[OF Some p[symmetric] refl] Some p b
      by (subst pumpLines.simps) simp
  qed
qed

lemma ReadLine_chunk: "ReadLine input = Some (chunk, isPrefix, rest) \<Longrightarrow> length chunk \<le> readerBytes"
  by (auto simp: ReadLine_def trimReturn_def Let_def split: if_splits option.splits dest!: cutByte_length)

lemma pumpLines_bound:
  "length line < maxLineBytes \<Longrightarrow> l \<in> set (pumpLines line input) \<Longrightarrow> length l < maxLineBytes + readerBytes"
proof (induction line input rule: pumpLines.induct)
  case (1 line input)
  show ?case
  proof (cases "ReadLine input")
    case None
    with "1.prems" show ?thesis by (subst (asm) pumpLines.simps) (simp split: if_splits)
  next
    case (Some p)
    obtain chunk isPrefix rest where p: "p = (chunk, isPrefix, rest)" using prod_cases3 by blast
    have "length chunk \<le> readerBytes" using Some p by (simp add: ReadLine_chunk)
    moreover have "0 < maxLineBytes" by (simp add: maxLineBytes_def)
    ultimately show ?thesis
      using "1.IH"(1)[OF Some p[symmetric] refl] "1.IH"(2)[OF Some p[symmetric] refl] Some p "1.prems"
      by (subst (asm) pumpLines.simps) (auto split: if_splits)
  qed
qed

lemma pumped_lines: "foldl (\<lambda>t l. pumpLine l t) s ls = s\<lparr>sRing := foldl ringAppend (sRing s) ls\<rparr>"
  by (induction ls arbitrary: s) (simp_all add: pumpLine_def)



text \<open>
  The cap is not exact: a line of up to 98303 bytes is kept whole, although longer lines than \<open>maxLineBytes\<close> are
  meant to be split, when a carriage return stands at the end of the first full buffer.
\<close>

lemma ReadLine_full:
  "lineFeed \<notin> set xs \<Longrightarrow> length xs = readerBytes \<Longrightarrow> last xs \<noteq> carriageReturn \<Longrightarrow> ReadLine (xs @ rest) = Some (xs, True, rest)"
  by (auto simp: ReadLine_def cutByte_None[THEN iffD2] readerBytes_def)

lemma ReadLine_straddle:
  assumes "lineFeed \<notin> set xs" "Suc (length xs) = readerBytes"
  shows "ReadLine (xs @ carriageReturn # rest) = Some (xs, True, carriageReturn # rest)"
proof -
  have "take readerBytes (xs @ carriageReturn # rest) = xs @ [carriageReturn]" unfolding assms(2)[symmetric] by simp
  moreover have "lineFeed \<notin> set (xs @ [carriageReturn])" using assms(1) by (simp add: lineFeed_def carriageReturn_def)
  moreover have "readerBytes - 1 = length xs" using assms(2) by simp
  ultimately show ?thesis using assms by (simp add: ReadLine_def cutByte_None[THEN iffD2])
qed

theorem overlong_line_is_kept:
  fixes x :: char
  assumes "x \<noteq> lineFeed" "x \<noteq> carriageReturn" "Suc n = readerBytes"
  shows "\<exists>l. pumpLines [] l = [l] \<and> length l = 98303"
proof -
  let ?a = "replicate n x" and ?b = "carriageReturn # replicate n x" and ?c = "replicate (Suc n) x"
  have no: "lineFeed \<notin> set ?a" "lineFeed \<notin> set ?b" "lineFeed \<notin> set ?c" "n \<noteq> 0"
    using assms by (auto simp: lineFeed_def carriageReturn_def readerBytes_def)
  have r: "ReadLine (?a @ ?b @ ?c) = Some (?a, True, ?b @ ?c)" "ReadLine (?b @ ?c) = Some (?b, True, ?c)"
    "ReadLine ?c = Some (?c, True, [])"
    using ReadLine_straddle[of ?a "replicate n x @ ?c"] ReadLine_full[of ?b ?c] ReadLine_full[of ?c "[]"] no assms
    by (simp_all del: replicate_Suc) 
  have m: "n < maxLineBytes" "Suc (n + n) < maxLineBytes" "\<not> Suc (Suc (n + n + n)) < maxLineBytes"
    using assms(3) no(4) by (simp_all add: maxLineBytes_def readerBytes_def)
  have "pumpLines [] (?a @ ?b @ ?c) = pumpLines ?a (?b @ ?c)"
    by (subst pumpLines.simps) (simp only: r option.case prod.case append_Nil length_replicate m simp_thms if_True)
  also have "\<dots> = pumpLines (?a @ ?b) ?c"
    by (subst pumpLines.simps) (simp only: r option.case prod.case length_append length_replicate length_Cons add_Suc_right m simp_thms if_True)
  also have "\<dots> = [(?a @ ?b) @ ?c]"
    by (subst pumpLines.simps, simp only: r option.case prod.case length_append length_replicate length_Cons add_Suc_right add_Suc m
        simp_thms if_False) (simp add: pumpLines.simps)
  finally show ?thesis using assms(3) by (intro exI[of _ "?a @ ?b @ ?c"]) (simp add: readerBytes_def pumpLines.simps)
qed

end
