(* ===== verification/StopGate.thy ===== *)
theory StopGate
  imports Prelude
begin

text \<open>
  The handshake between requests and stops, at the granularity of the atomic operations of
  \<open>internal/idle/tracker.go\<close> and \<open>internal/proxy/ondemand.go\<close>. Any number of requests run the
  sequence of \<open>dispatch\<close> (count, read the gate, wait, check the state, forward, uncount) and
  any number of stoppers run \<open>BeginStop\<close> (publish the gate by compare-and-swap, then load the
  in-flight counter, then the persistent counter, then the lease, and commit or roll back).
  Each rule of \<open>gateStep\<close> is one atomic load, store, or read-modify-write, so every
  interleaving of sequentially consistent atomics (Go's) is a run.
\<close>

text \<open>
  A plain request counts in \<open>inflight\<close> to its end; a kept-alive upgrade in \<open>persistent\<close>; with
  \<open>websockets_keep_alive: false\<close> an upgrade counts in \<open>inflight\<close> only until it is handed over.
\<close>

datatype kind = Plain | KeepAlive | Momentary

datatype reqPhase =
    Outside
  | Counted kind
  | WaitGate kind nat
  | PassedGate kind
  | Forwarding kind
  | Detached

datatype stopPhase =
    NoStop
  | Published nat
  | SawNoInflight nat
  | SawNoPersistent nat
  | Committed nat

record gateSys =
  gInflight :: nat
  gPersistent :: nat
  gGate :: "nat option"
  gStop :: stopPhase
  gReq :: "nat \<Rightarrow> reqPhase"
  gNext :: nat
  gClosing :: "nat set"
  gClosed :: "nat set"

definition gateInit :: "gateSys \<Rightarrow> bool" where
  "gateInit s \<longleftrightarrow>
     s = \<lparr>gInflight = 0, gPersistent = 0, gGate = None, gStop = NoStop, gReq = (\<lambda>_. Outside),
          gNext = 0, gClosing = {}, gClosed = {}\<rparr>"

definition addCount :: "kind \<Rightarrow> gateSys \<Rightarrow> gateSys" where
  "addCount k s =
     (case k of KeepAlive \<Rightarrow> s\<lparr>gPersistent := gPersistent s + 1\<rparr>
      | _ \<Rightarrow> s\<lparr>gInflight := gInflight s + 1\<rparr>)"

definition subCount :: "kind \<Rightarrow> gateSys \<Rightarrow> gateSys" where
  "subCount k s =
     (case k of KeepAlive \<Rightarrow> s\<lparr>gPersistent := gPersistent s - 1\<rparr>
      | _ \<Rightarrow> s\<lparr>gInflight := gInflight s - 1\<rparr>)"

definition setReq :: "nat \<Rightarrow> reqPhase \<Rightarrow> gateSys \<Rightarrow> gateSys" where
  "setReq i ph s = s\<lparr>gReq := (gReq s)(i := ph)\<rparr>"

text \<open>Clearing the gate (a rollback, or the release after the stop); its channel is closed next.\<close>

definition clearGate :: "nat \<Rightarrow> gateSys \<Rightarrow> gateSys" where
  "clearGate g s = s\<lparr>gGate := None, gStop := NoStop, gClosing := insert g (gClosing s)\<rparr>"

definition closeChan :: "nat \<Rightarrow> gateSys \<Rightarrow> gateSys" where
  "closeChan g s = s\<lparr>gClosing := gClosing s - {g}, gClosed := insert g (gClosed s)\<rparr>"

inductive gateStep :: "gateSys \<Rightarrow> gateSys \<Rightarrow> bool" where
  began: "gReq s i = Outside \<Longrightarrow> gateStep s (addCount k (setReq i (Counted k) s))"
| readNoGate: "gReq s i = Counted k \<Longrightarrow> gGate s = None \<Longrightarrow> gateStep s (setReq i (PassedGate k) s)"
| readGate: "gReq s i = Counted k \<Longrightarrow> gGate s = Some g \<Longrightarrow> gateStep s (setReq i (WaitGate k g) s)"
| gateClosed: "gReq s i = WaitGate k g \<Longrightarrow> g \<in> gClosed s \<Longrightarrow>
    gateStep s (setReq i (PassedGate k) s)"
| clientGone: "gReq s i = WaitGate k g \<Longrightarrow> gateStep s (subCount k (setReq i Outside s))"
| forward: "gReq s i = PassedGate k \<Longrightarrow> k \<noteq> Momentary \<Longrightarrow>
    gateStep s (setReq i (Forwarding k) s)"
| detach: "gReq s i = PassedGate Momentary \<Longrightarrow>
    gateStep s (subCount Momentary (setReq i Detached s))"
| denied: "gReq s i = PassedGate k \<Longrightarrow> gateStep s (subCount k (setReq i Outside s))"
| ended: "gReq s i = Forwarding k \<Longrightarrow> gateStep s (subCount k (setReq i Outside s))"
| tunnelEnded: "gReq s i = Detached \<Longrightarrow> gateStep s (setReq i Outside s)"
| publish: "gGate s = None \<Longrightarrow>
    gateStep s (s\<lparr>gGate := Some (gNext s), gStop := Published (gNext s), gNext := gNext s + 1\<rparr>)"
| loadInflight: "gStop s = Published g \<Longrightarrow>
    gateStep s (if 0 < gInflight s then clearGate g s else s\<lparr>gStop := SawNoInflight g\<rparr>)"
| loadPersistent: "gStop s = SawNoInflight g \<Longrightarrow>
    gateStep s (if 0 < gPersistent s then clearGate g s else s\<lparr>gStop := SawNoPersistent g\<rparr>)"
| leased: "gStop s = SawNoPersistent g \<Longrightarrow> gateStep s (clearGate g s)"
| commit: "gStop s = SawNoPersistent g \<Longrightarrow> gateStep s (s\<lparr>gStop := Committed g\<rparr>)"
| release: "gStop s = Committed g \<Longrightarrow> gateStep s (clearGate g s)"
| closed: "g \<in> gClosing s \<Longrightarrow> gateStep s (closeChan g s)"

section \<open>Invariant\<close>

text \<open>Which counter a phase is counted in.\<close>

fun phaseKind :: "reqPhase \<Rightarrow> kind option" where
  "phaseKind (Counted k) = Some k"
| "phaseKind (WaitGate k g) = Some k"
| "phaseKind (PassedGate k) = Some k"
| "phaseKind (Forwarding k) = Some k"
| "phaseKind _ = None"

definition inflightReqs :: "gateSys \<Rightarrow> nat set" where
  "inflightReqs s = {i. phaseKind (gReq s i) \<in> {Some Plain, Some Momentary}}"

definition persistentReqs :: "gateSys \<Rightarrow> nat set" where
  "persistentReqs s = {i. phaseKind (gReq s i) = Some KeepAlive}"

definition countInv :: "gateSys \<Rightarrow> bool" where
  "countInv s \<longleftrightarrow>
     finite (inflightReqs s) \<and> finite (persistentReqs s) \<and>
     gInflight s = card (inflightReqs s) \<and> gPersistent s = card (persistentReqs s)"

fun stopGateOf :: "stopPhase \<Rightarrow> nat option" where
  "stopGateOf NoStop = None"
| "stopGateOf (Published g) = Some g"
| "stopGateOf (SawNoInflight g) = Some g"
| "stopGateOf (SawNoPersistent g) = Some g"
| "stopGateOf (Committed g) = Some g"

text \<open>The kinds of request the stopper has already seen to be absent.\<close>

fun excludes :: "stopPhase \<Rightarrow> kind \<Rightarrow> bool" where
  "excludes (SawNoInflight g) k = (k \<noteq> KeepAlive)"
| "excludes (SawNoPersistent g) k = True"
| "excludes (Committed g) k = True"
| "excludes _ k = False"

text \<open>A request of such a kind has not got past the gate: it has not read it, or waits on it.\<close>

definition behindGate :: "stopPhase \<Rightarrow> reqPhase \<Rightarrow> bool" where
  "behindGate st ph =
     (case ph of
        PassedGate k \<Rightarrow> \<not> excludes st k
      | Forwarding k \<Rightarrow> \<not> excludes st k
      | WaitGate k g \<Rightarrow> excludes st k \<longrightarrow> Some g = stopGateOf st
      | _ \<Rightarrow> True)"

definition gateInv :: "gateSys \<Rightarrow> bool" where
  "gateInv s \<longleftrightarrow>
     countInv s \<and>
     gGate s = stopGateOf (gStop s) \<and>
     (\<forall>g. gGate s = Some g \<longrightarrow> g < gNext s \<and> g \<notin> gClosing s \<union> gClosed s) \<and>
     (\<forall>g \<in> gClosing s \<union> gClosed s. g < gNext s) \<and>
     (\<forall>i. behindGate (gStop s) (gReq s i))"

lemma gateInv_init: "gateInit s \<Longrightarrow> gateInv s"
  by (simp add: gateInit_def gateInv_def countInv_def inflightReqs_def persistentReqs_def
      behindGate_def)

lemma reqs_mem [simp]:
  "i \<in> inflightReqs s \<longleftrightarrow> phaseKind (gReq s i) = Some Plain \<or> phaseKind (gReq s i) = Some Momentary"
  "i \<in> persistentReqs s \<longleftrightarrow> phaseKind (gReq s i) = Some KeepAlive"
  by (simp_all add: inflightReqs_def persistentReqs_def)

lemma reqs_frame [simp]:
  "inflightReqs (s\<lparr>gInflight := x\<rparr>) = inflightReqs s"
  "persistentReqs (s\<lparr>gInflight := x\<rparr>) = persistentReqs s"
  "inflightReqs (s\<lparr>gPersistent := x\<rparr>) = inflightReqs s"
  "persistentReqs (s\<lparr>gPersistent := x\<rparr>) = persistentReqs s"
  by (simp_all add: inflightReqs_def persistentReqs_def)

lemma setReq_counts [simp]:
  "gInflight (setReq i ph s) = gInflight s" "gPersistent (setReq i ph s) = gPersistent s"
  by (simp_all add: setReq_def)

lemma reqs_setReq:
  "inflightReqs (setReq i ph s) =
     (if phaseKind ph \<in> {Some Plain, Some Momentary} then insert i (inflightReqs s)
      else inflightReqs s - {i})"
  "persistentReqs (setReq i ph s) =
     (if phaseKind ph = Some KeepAlive then insert i (persistentReqs s)
      else persistentReqs s - {i})"
  by (auto simp: inflightReqs_def persistentReqs_def setReq_def)

lemma reqs_count [simp]:
  "inflightReqs (addCount k s) = inflightReqs s" "persistentReqs (addCount k s) = persistentReqs s"
  "inflightReqs (subCount k s) = inflightReqs s" "persistentReqs (subCount k s) = persistentReqs s"
  by (simp_all add: inflightReqs_def persistentReqs_def addCount_def subCount_def split: kind.splits)

text \<open>Entering, leaving, and moving on within the counted phases keep the counters exact.\<close>

lemma countInv_enter:
  "countInv s \<Longrightarrow> phaseKind (gReq s i) = None \<Longrightarrow> phaseKind ph = Some k \<Longrightarrow>
    countInv (addCount k (setReq i ph s))"
  by (cases k) (simp_all add: countInv_def reqs_setReq addCount_def)

lemma countInv_leave:
  "countInv s \<Longrightarrow> phaseKind (gReq s i) = Some k \<Longrightarrow> phaseKind ph = None \<Longrightarrow>
    countInv (subCount k (setReq i ph s))"
  by (cases k) (simp_all add: countInv_def reqs_setReq subCount_def card_Diff_singleton)

lemma countInv_move:
  assumes "countInv s" and "phaseKind (gReq s i) = phaseKind ph"
  shows "countInv (setReq i ph s)"
proof -
  have "inflightReqs (setReq i ph s) = inflightReqs s" "persistentReqs (setReq i ph s) = persistentReqs s"
    using assms(2) by (auto simp: inflightReqs_def persistentReqs_def setReq_def)
  then show ?thesis using assms(1) by (simp add: countInv_def)
qed

lemma inflight_zero:
  assumes "countInv s" and "gInflight s = 0" and "phaseKind (gReq s i) = Some k"
  shows "k = KeepAlive"
proof -
  have "i \<notin> inflightReqs s" using assms(1,2) by (auto simp: countInv_def simp del: reqs_mem)
  then show ?thesis using assms(3) by (cases k) simp_all
qed

lemma persistent_zero:
  "countInv s \<Longrightarrow> gPersistent s = 0 \<Longrightarrow> phaseKind (gReq s i) \<noteq> Some KeepAlive"
  by (auto simp: countInv_def reqs_mem [symmetric] simp del: reqs_mem)

lemma countInv_cong:
  "countInv s \<Longrightarrow> gReq t = gReq s \<Longrightarrow> gInflight t = gInflight s \<Longrightarrow> gPersistent t = gPersistent s \<Longrightarrow>
    countInv t"
  by (simp add: countInv_def inflightReqs_def persistentReqs_def)

lemma count_frame [simp]:
  "gGate (addCount k s) = gGate s" "gStop (addCount k s) = gStop s" "gNext (addCount k s) = gNext s"
  "gClosed (addCount k s) = gClosed s" "gClosing (addCount k s) = gClosing s" "gReq (addCount k s) = gReq s"
  "gGate (subCount k s) = gGate s" "gStop (subCount k s) = gStop s" "gNext (subCount k s) = gNext s"
  "gClosed (subCount k s) = gClosed s" "gClosing (subCount k s) = gClosing s" "gReq (subCount k s) = gReq s"
  by (simp_all add: addCount_def subCount_def split: kind.splits)

lemma setReq_frame [simp]:
  "gGate (setReq i ph s) = gGate s" "gStop (setReq i ph s) = gStop s"
  "gNext (setReq i ph s) = gNext s" "gClosed (setReq i ph s) = gClosed s" "gClosing (setReq i ph s) = gClosing s"
  "gReq (setReq i ph s) = (gReq s)(i := ph)"
  by (simp_all add: setReq_def)

lemma excludes_gate: "excludes st k \<Longrightarrow> stopGateOf st \<noteq> None"
  by (cases st) auto

text \<open>A step of a request: the counters are kept, and the new phase stays behind the gate.\<close>

lemma gateInv_request:
  assumes "gateInv s" and "countInv t" and "behindGate (gStop s) ph"
    and "gReq t = (gReq s)(i := ph)" "gGate t = gGate s" "gStop t = gStop s" "gNext t = gNext s"
      "gClosed t = gClosed s" "gClosing t = gClosing s"
  shows "gateInv t"
  using assms by (simp add: gateInv_def)

lemma gateInv_clear: "gateInv s \<Longrightarrow> gStop s \<noteq> NoStop \<Longrightarrow> stopGateOf (gStop s) = Some g \<Longrightarrow> gateInv (clearGate g s)"
  by (auto simp: gateInv_def clearGate_def behindGate_def intro: countInv_cong split: reqPhase.splits)

lemma behind_SawNoInflight:
  "(\<And>k. phaseKind ph = Some k \<Longrightarrow> k = KeepAlive) \<Longrightarrow> behindGate (SawNoInflight g) ph"
  by (cases ph) (auto simp: behindGate_def)

lemma behind_SawNoPersistent:
  assumes "behindGate (SawNoInflight g) ph" and "phaseKind ph \<noteq> Some KeepAlive"
  shows "behindGate (SawNoPersistent g) ph"
  using assms by (cases ph) (auto simp: behindGate_def)

lemma gateInv_step: "gateInv s \<Longrightarrow> gateStep s t \<Longrightarrow> gateInv t"
proof -
  assume "gateStep s t" and inv: "gateInv s"
  then show "gateInv t"
  proof cases
    case (began i k)
    then show ?thesis
      using inv by (intro gateInv_request [OF inv, where i = i and ph = "Counted k"])
        (auto simp: gateInv_def behindGate_def intro!: countInv_enter)
  next
    case (readNoGate i k)
    then have "\<not> excludes (gStop s) k" using inv excludes_gate [of "gStop s" k] by (auto simp: gateInv_def)
    with readNoGate show ?thesis
      using inv by (intro gateInv_request [OF inv, where i = i and ph = "PassedGate k"])
        (auto simp: gateInv_def behindGate_def intro!: countInv_move)
  next
    case (readGate i k g)
    then show ?thesis
      using inv by (intro gateInv_request [OF inv, where i = i and ph = "WaitGate k g"])
        (auto simp: gateInv_def behindGate_def intro!: countInv_move)
  next
    case (gateClosed i k g)
    then have "\<not> excludes (gStop s) k"
      using inv [unfolded gateInv_def behindGate_def, THEN conjunct2, THEN conjunct2] inv
      by (auto simp: gateInv_def split: reqPhase.splits)
    with gateClosed show ?thesis
      using inv by (intro gateInv_request [OF inv, where i = i and ph = "PassedGate k"])
        (auto simp: gateInv_def behindGate_def intro!: countInv_move)
  next
    case (clientGone i k g)
    then show ?thesis
      using inv by (intro gateInv_request [OF inv, where i = i and ph = Outside])
        (auto simp: gateInv_def behindGate_def intro!: countInv_leave)
  next
    case (forward i k)
    then have "\<not> excludes (gStop s) k"
      using inv by (auto simp: gateInv_def behindGate_def dest!: spec [of _ i])
    with forward show ?thesis
      using inv by (intro gateInv_request [OF inv, where i = i and ph = "Forwarding k"])
        (auto simp: gateInv_def behindGate_def intro!: countInv_move)
  next
    case (detach i)
    then show ?thesis
      using inv by (intro gateInv_request [OF inv, where i = i and ph = Detached])
        (auto simp: gateInv_def behindGate_def intro!: countInv_leave)
  next
    case (denied i k)
    then show ?thesis
      using inv by (intro gateInv_request [OF inv, where i = i and ph = Outside])
        (auto simp: gateInv_def behindGate_def intro!: countInv_leave)
  next
    case (ended i k)
    then show ?thesis
      using inv by (intro gateInv_request [OF inv, where i = i and ph = Outside])
        (auto simp: gateInv_def behindGate_def intro!: countInv_leave)
  next
    case (tunnelEnded i)
    then show ?thesis
      using inv by (intro gateInv_request [OF inv, where i = i and ph = Outside])
        (auto simp: gateInv_def behindGate_def intro!: countInv_move)
  next
    case publish
    then show ?thesis
      using inv by (auto simp: gateInv_def behindGate_def intro: countInv_cong less_SucI
          split: reqPhase.splits)
  next
    case (loadInflight g)
    show ?thesis
    proof (cases "0 < gInflight s")
      case True
      with loadInflight inv show ?thesis by (simp add: gateInv_clear)
    next
      case False
      then have "phaseKind (gReq s i) = Some k \<Longrightarrow> k = KeepAlive" for i k
        using inv inflight_zero by (auto simp: gateInv_def)
      then have "behindGate (SawNoInflight g) (gReq s i)" for i
        by (intro behind_SawNoInflight) blast
      with False loadInflight inv show ?thesis
        by (auto simp: gateInv_def intro: countInv_cong)
    qed
  next
    case (loadPersistent g)
    show ?thesis
    proof (cases "0 < gPersistent s")
      case True
      with loadPersistent inv show ?thesis by (simp add: gateInv_clear)
    next
      case False
      have none: "phaseKind (gReq s i) \<noteq> Some KeepAlive" for i
        using False inv persistent_zero by (auto simp: gateInv_def)
      have "behindGate (SawNoInflight g) (gReq s i)" for i
        using inv loadPersistent by (simp add: gateInv_def)
      then have "behindGate (SawNoPersistent g) (gReq s i)" for i
        using none [of i] by (intro behind_SawNoPersistent)
      with False loadPersistent inv show ?thesis
        by (auto simp: gateInv_def intro: countInv_cong)
    qed
  next
    case (leased g)
    with inv show ?thesis by (simp add: gateInv_clear)
  next
    case (commit g)
    then show ?thesis
      using inv by (auto simp: gateInv_def behindGate_def intro: countInv_cong split: reqPhase.splits)
  next
    case (release g)
    with inv show ?thesis by (simp add: gateInv_clear)
  next
    case (closed g)
    then show ?thesis
      using inv by (auto simp: gateInv_def closeChan_def intro: countInv_cong)
  qed
qed

interpretation gate: inductive_invariant gateInit gateStep gateInv
  by unfold_locales (auto intro: gateInv_init gateInv_step)

section \<open>Properties\<close>


text \<open>One request that arrives while the stop is being checked, and one after it committed.\<close>

definition demoGate0 :: gateSys where
  "demoGate0 = \<lparr>gInflight = 0, gPersistent = 0, gGate = None, gStop = NoStop,
     gReq = (\<lambda>_. Outside), gNext = 0, gClosing = {}, gClosed = {}\<rparr>"

definition demoCommitted :: gateSys where
  "demoCommitted = \<lparr>gInflight = 0, gPersistent = 0, gGate = Some 0, gStop = Committed 0,
     gReq = (\<lambda>_. Outside), gNext = 1, gClosing = {}, gClosed = {}\<rparr>"

definition demoWaiting :: gateSys where
  "demoWaiting = setReq 7 (WaitGate Plain 0) (addCount Plain (setReq 7 (Counted Plain) demoCommitted))"

lemma reachable_demoCommitted: "reachable gateInit gateStep demoCommitted"
proof -
  let ?s = "\<lambda>p. demoCommitted\<lparr>gStop := p\<rparr>"
  have "reachable gateInit gateStep demoGate0"
    by (rule reach_init) (simp add: gateInit_def demoGate0_def)
  moreover have "gateStep demoGate0 (?s (Published 0))"
    using publish [of demoGate0] by (simp add: demoGate0_def demoCommitted_def)
  moreover have "gateStep (?s (Published 0)) (?s (SawNoInflight 0))"
    using loadInflight [of "?s (Published 0)" 0] by (simp add: demoCommitted_def)
  moreover have "gateStep (?s (SawNoInflight 0)) (?s (SawNoPersistent 0))"
    using loadPersistent [of "?s (SawNoInflight 0)" 0] by (simp add: demoCommitted_def)
  moreover have "gateStep (?s (SawNoPersistent 0)) demoCommitted"
    using commit [of "?s (SawNoPersistent 0)" 0] by (simp add: demoCommitted_def)
  ultimately show ?thesis by (blast intro: reach_step)
qed

lemma reachable_demoWaiting: "reachable gateInit gateStep demoWaiting"
proof -
  let ?c = "addCount Plain (setReq 7 (Counted Plain) demoCommitted)"
  have "gateStep demoCommitted ?c" by (rule began) (simp add: demoCommitted_def)
  moreover have "gateStep ?c demoWaiting"
    unfolding demoWaiting_def by (rule readGate) (simp_all add: demoCommitted_def setReq_def)
  ultimately show ?thesis using reachable_demoCommitted by (blast intro: reach_step)
qed


end
