(* ===== verification/Tracker.thy ===== *)
theory Tracker
  imports Prelude
begin

text \<open>
  The activity tracker of one project (\<open>internal/idle/tracker.go\<close>). Each method is one function
  on the tracker's record; the wall clock enters as the parameter \<open>now\<close>. Stop gates are numbers;
  the trace keeps which have been closed. The interleaving of the lock-free methods is the
  subject of \<open>StopGate\<close>. The contract the proxy and the monitor use is the locale \<open>activity\<close>.
\<close>

type_synonym gate = nat

record tracker =
  tInflight :: int
  tPersistent :: int
  tLastActivity :: int
  tGate :: "gate option"
  tLeaseUntil :: time
  \<comment> \<open>the trace\<close>
  tNextGate :: gate
  tClosed :: "gate list"

definition NewTracker :: tracker where
  "NewTracker =
     \<lparr>tInflight = 0, tPersistent = 0, tLastActivity = 0, tGate = None, tLeaseUntil = zeroTime,
      tNextGate = 0, tClosed = []\<rparr>"

definition RequestBegan :: "tracker \<Rightarrow> tracker" where
  "RequestBegan t = t\<lparr>tInflight := tInflight t + 1\<rparr>"

definition RequestEnded :: "time \<Rightarrow> tracker \<Rightarrow> tracker" where
  "RequestEnded now t = t\<lparr>tLastActivity := now, tInflight := tInflight t - 1\<rparr>"

definition PersistentOpened :: "tracker \<Rightarrow> tracker" where
  "PersistentOpened t = t\<lparr>tPersistent := tPersistent t + 1\<rparr>"

definition PersistentClosed :: "time \<Rightarrow> tracker \<Rightarrow> tracker" where
  "PersistentClosed now t = t\<lparr>tLastActivity := now, tPersistent := tPersistent t - 1\<rparr>"

definition LastActivity :: "tracker \<Rightarrow> time" where
  "LastActivity t = (if tLastActivity t = 0 then zeroTime else tLastActivity t)"

definition Lease :: "time \<Rightarrow> duration \<Rightarrow> tracker \<Rightarrow> time \<times> tracker" where
  "Lease now ttl t = (now + ttl, t\<lparr>tLeaseUntil := now + ttl\<rparr>)"

definition ReleaseLease :: "tracker \<Rightarrow> tracker" where
  "ReleaseLease t = t\<lparr>tLeaseUntil := zeroTime\<rparr>"

definition LeaseUntil :: "time \<Rightarrow> tracker \<Rightarrow> time" where
  "LeaseUntil now t = (if After (tLeaseUntil t) now then tLeaseUntil t else zeroTime)"

definition Parked :: "time \<Rightarrow> tracker \<Rightarrow> bool" where
  "Parked now t \<longleftrightarrow> 0 < tInflight t \<or> 0 < tPersistent t \<or> \<not> IsZero (LeaseUntil now t)"

text \<open>The later of the start and the last completed activity.\<close>

definition activityBase :: "time \<Rightarrow> tracker \<Rightarrow> time" where
  "activityBase startedAt t =
     (if After (LastActivity t) startedAt then LastActivity t else startedAt)"

definition Deadline :: "time \<Rightarrow> duration \<Rightarrow> tracker \<Rightarrow> time" where
  "Deadline startedAt timeout t = activityBase startedAt t + timeout"

text \<open>\<open>BeginStop\<close>: \<open>None\<close> is \<open>ok = false\<close>; \<open>Some g\<close> is the armed gate, released by \<open>releaseGate\<close>.\<close>

definition closeGate :: "gate \<Rightarrow> tracker \<Rightarrow> tracker" where
  "closeGate g t = t\<lparr>tGate := None, tClosed := tClosed t @ [g]\<rparr>"

definition BeginStop :: "time \<Rightarrow> tracker \<Rightarrow> gate option \<times> tracker" where
  "BeginStop now t =
     (case tGate t of
        Some _ \<Rightarrow> (None, t\<lparr>tNextGate := tNextGate t + 1\<rparr>)
      | None \<Rightarrow>
          (let g = tNextGate t;
               t1 = t\<lparr>tGate := Some g, tNextGate := g + 1\<rparr>
           in if Parked now t1 then (None, closeGate g t1) else (Some g, t1)))"

definition releaseGate :: "gate \<Rightarrow> tracker \<Rightarrow> tracker" where
  "releaseGate g t = closeGate g t"

named_theorems tracker_defs "the tracker's operations, unfolded"

lemmas [tracker_defs] =
  RequestBegan_def RequestEnded_def PersistentOpened_def PersistentClosed_def LastActivity_def
  Lease_def ReleaseLease_def LeaseUntil_def Parked_def activityBase_def Deadline_def
  closeGate_def BeginStop_def releaseGate_def Let_def time_simps

lemma Parked_gate [simp]: "Parked now (t\<lparr>tGate := g, tNextGate := n\<rparr>) = Parked now t"
  by (simp add: Parked_def LeaseUntil_def)

lemma BeginStop_ok:
  "fst (BeginStop now t) = Some g \<longleftrightarrow> tGate t = None \<and> \<not> Parked now t \<and> g = tNextGate t"
  by (auto simp: BeginStop_def Let_def split: option.splits)

lemma BeginStop_refused:
  "fst (BeginStop now t) = None \<longleftrightarrow> tGate t \<noteq> None \<or> Parked now t"
  by (auto simp: BeginStop_def Let_def split: option.splits)

lemma BeginStop_gate: "fst (BeginStop now t) = Some g \<Longrightarrow> tGate (snd (BeginStop now t)) = Some g"
  by (auto simp: BeginStop_def Let_def split: option.splits if_splits)

lemma BeginStop_rollback: "fst (BeginStop now t) = None \<Longrightarrow> tGate (snd (BeginStop now t)) = tGate t"
  by (auto simp: BeginStop_def closeGate_def Let_def split: option.splits if_splits)

lemma BeginStop_frame [simp]:
  "tInflight (snd (BeginStop now t)) = tInflight t"
  "tPersistent (snd (BeginStop now t)) = tPersistent t"
  "tLastActivity (snd (BeginStop now t)) = tLastActivity t"
  "tLeaseUntil (snd (BeginStop now t)) = tLeaseUntil t"
  by (auto simp: BeginStop_def closeGate_def Let_def split: option.splits)

lemma Parked_BeginStop [simp]: "Parked now' (snd (BeginStop now t)) = Parked now' t"
  by (simp add: Parked_def LeaseUntil_def)

lemma activityBase_BeginStop [simp]:
  "activityBase st (snd (BeginStop now t)) = activityBase st t"
  by (simp add: activityBase_def LastActivity_def)

section \<open>The contract of activity tracking\<close>

text \<open>
  What the proxy and the stoppers promise each other: a begun request parks the project, a
  parked project's gate cannot be armed, a release reopens it, and the completion of work
  pushes the deadline a full timeout past the completion.
\<close>

locale activity =
  fixes began :: "'t \<Rightarrow> 't"
    and ended :: "time \<Rightarrow> 't \<Rightarrow> 't"
    and parked :: "time \<Rightarrow> 't \<Rightarrow> bool"
    and deadline :: "time \<Rightarrow> duration \<Rightarrow> 't \<Rightarrow> time"
    and arm :: "time \<Rightarrow> 't \<Rightarrow> gate option \<times> 't"
    and armed :: "'t \<Rightarrow> gate option"
    and wf :: "'t \<Rightarrow> bool"
  assumes began_parks: "wf t \<Longrightarrow> parked now (began t)"
    and wf_began: "wf t \<Longrightarrow> wf (began t)"
    and arm_needs_idle: "fst (arm now t) \<noteq> None \<Longrightarrow> \<not> parked now t \<and> armed t = None"
    and arm_arms: "fst (arm now t) = Some g \<Longrightarrow> armed (snd (arm now t)) = Some g"
    and arm_refused: "fst (arm now t) = None \<Longrightarrow> armed (snd (arm now t)) = armed t"
    and ended_deadline: "0 < now \<Longrightarrow> now + timeout \<le> deadline st timeout (ended now t)"
begin

lemma no_stop_during_request: "wf t \<Longrightarrow> fst (arm now (began t)) = None"
  using arm_needs_idle [of now "began t"] began_parks [of t now] by fastforce

lemma gate_untouched_during_request: "wf t \<Longrightarrow> armed (snd (arm now (began t))) = armed (began t)"
  by (rule arm_refused) (rule no_stop_during_request)

lemma no_stop_before_full_window:
  "0 < done_at \<Longrightarrow> now < done_at + timeout \<Longrightarrow> now < deadline st timeout (ended done_at t)"
  using ended_deadline [of done_at timeout st t] by simp

end

definition trackerWf :: "tracker \<Rightarrow> bool" where
  "trackerWf t \<longleftrightarrow> 0 \<le> tInflight t \<and> 0 \<le> tPersistent t"

interpretation requests: activity RequestBegan RequestEnded Parked Deadline BeginStop tGate trackerWf
  by unfold_locales
    (auto simp: BeginStop_gate BeginStop_rollback BeginStop_refused BeginStop_ok,
     simp_all add: tracker_defs trackerWf_def)

interpretation connections: activity PersistentOpened PersistentClosed Parked Deadline BeginStop
    tGate trackerWf
  by unfold_locales
    (auto simp: BeginStop_gate BeginStop_rollback BeginStop_refused BeginStop_ok,
     simp_all add: tracker_defs trackerWf_def)

section \<open>Leases\<close>

lemma Parked_Lease:
  "zeroTime < now + ttl \<Longrightarrow> Parked later (snd (Lease now ttl t)) \<longleftrightarrow>
     0 < tInflight t \<or> 0 < tPersistent t \<or> later < now + ttl"
  by (simp add: Parked_def LeaseUntil_def Lease_def IsZero_def After_def)

lemma Parked_ReleaseLease:
  "Parked later (ReleaseLease t) \<longleftrightarrow> 0 < tInflight t \<or> 0 < tPersistent t"
  by (simp add: Parked_def LeaseUntil_def ReleaseLease_def IsZero_def)

section \<open>Properties\<close>

text \<open>
  A lease parks the project for exactly its duration: until the instant it expires no stop
  gate can be armed, whatever else happens to the counters; at its expiry, and as soon as it is
  released, an otherwise idle project can be stopped again. A new lease replaces the old one.
\<close>

theorem lease_parks_until_expiry:
  assumes "0 < now" and "0 < ttl" and "tGate t = None"
  shows "let l = snd (Lease now ttl t) in
    (\<forall>later. (later < now + ttl \<longrightarrow> fst (BeginStop later l) = None) \<and>
       (now + ttl \<le> later \<longrightarrow>
          (fst (BeginStop later l) = None \<longleftrightarrow> 0 < tInflight t \<or> 0 < tPersistent t)) \<and>
       (fst (BeginStop later (ReleaseLease l)) = None \<longleftrightarrow> 0 < tInflight t \<or> 0 < tPersistent t)) \<and>
    snd (Lease now' ttl' l) = snd (Lease now' ttl' t)"
proof -
  have z: "zeroTime < 0" by (simp add: zeroTime_def)
  have p: "Parked later (snd (Lease now ttl t)) \<longleftrightarrow>
      0 < tInflight t \<or> 0 < tPersistent t \<or> later < now + ttl" for later
    using assms z by (simp add: Parked_Lease)
  have g: "tGate (snd (Lease now ttl t)) = None" "tGate (ReleaseLease (snd (Lease now ttl t))) = None"
    using assms by (simp_all add: Lease_def ReleaseLease_def)
  have "snd (Lease now' ttl' (snd (Lease now ttl t))) = snd (Lease now' ttl' t)"
    by (simp add: Lease_def)
  moreover have "Parked later (ReleaseLease (snd (Lease now ttl t))) \<longleftrightarrow>
      0 < tInflight t \<or> 0 < tPersistent t" for later
    by (simp add: Parked_ReleaseLease) (simp add: Lease_def)
  ultimately show ?thesis
    by (simp add: Let_def BeginStop_refused g p)
qed

theorem lease_parks_until_expiry_witness:
  "fst (BeginStop 150 (snd (Lease 100 60 NewTracker))) = None \<and>
   fst (BeginStop 160 (snd (Lease 100 60 NewTracker))) \<noteq> None"
  using lease_parks_until_expiry [of 100 60 NewTracker]
  by (simp add: NewTracker_def Let_def)

end
