(* ===== verification/Monitor.thy ===== *)
theory Monitor
  imports Tracker SupervisorInv
begin

text \<open>
  The idle monitor of one project (\<open>internal/idle/monitor.go\<close>). A tick observes the world up to
  three times: before deciding, when it arms the stop gate, and again under the armed gate; other
  goroutines may have changed everything in between, so each observation is a parameter of its
  own. \<open>Process\<close>, the interface the monitor has on a supervisor, is the record of its methods.
\<close>

definition minPollInterval :: duration where
  "minPollInterval = 25 * timeMillisecond"

definition maxPollInterval :: duration where
  "maxPollInterval = 5 * timeSecond"

definition wakeSlack :: duration where
  "wakeSlack = 10 * timeMillisecond"

lemmas monitor_consts = minPollInterval_def maxPollInterval_def wakeSlack_def

record monitor =
  mTimeout :: duration
  mInterval :: duration

text \<open>Go's integer division truncates; a negative timeout ends up at the lower clamp either way.\<close>

definition truncDiv :: "int \<Rightarrow> int \<Rightarrow> int" where
  "truncDiv a b = (if a < 0 then - ((- a) div b) else a div b)"

definition NewMonitor :: "duration \<Rightarrow> monitor" where
  "NewMonitor timeout =
     (let i0 = truncDiv timeout 10;
          i1 = (if i0 < minPollInterval then minPollInterval else i0);
          i2 = (if i1 > maxPollInterval then maxPollInterval else i1)
      in \<lparr>mTimeout = timeout, mInterval = i2\<rparr>)"

text \<open>The interface \<open>Process\<close>: \<open>Stop\<close> is the operation that begins the graceful stop.\<close>

record 'p process_view =
  pvState :: "'p \<Rightarrow> lifecycle"
  pvSnapshot :: "'p \<Rightarrow> snapshot"
  pvStop :: "'p \<Rightarrow> 'p"

record 'p observation =
  oNow :: time
  oProc :: 'p
  oTracker :: tracker

text \<open>
  What a tick does: how long it sleeps, the process it stopped (if it did) and the tracker it
  leaves (the deferred \<open>release\<close> included).
\<close>

record 'p tickResult =
  rSleep :: duration
  rStopped :: "'p option"
  rTracker :: tracker

definition notStoppable :: "snapshot \<Rightarrow> bool" where
  "notStoppable snap \<longleftrightarrow> snState snap \<noteq> Running \<or> IsZero (snStartedAt snap)"

text \<open>Under the armed gate \<open>g\<close>; the gate is released on every path.\<close>

definition tickArmed ::
    "'p process_view \<Rightarrow> monitor \<Rightarrow> gate \<Rightarrow> 'p observation \<Rightarrow> 'p tickResult" where
  "tickArmed pv m g o2 =
     (let snap = pvSnapshot pv (oProc o2);
          deadline = Deadline (snStartedAt snap) (mTimeout m) (oTracker o2);
          released = releaseGate g (oTracker o2)
      in if notStoppable snap
         then \<lparr>rSleep = mInterval m, rStopped = None, rTracker = released\<rparr>
         else if After deadline (oNow o2)
         then \<lparr>rSleep = deadline - oNow o2 + wakeSlack, rStopped = None, rTracker = released\<rparr>
         else \<lparr>rSleep = mInterval m, rStopped = Some (pvStop pv (oProc o2)), rTracker = released\<rparr>)"

text \<open>
  \<open>o1\<close> is what the first checks see, \<open>ob\<close> the tracker and time of \<open>BeginStop\<close>, and \<open>after\<close> what
  the world has become, given the armed tracker, when it is observed again.
\<close>

definition tick ::
    "'p process_view \<Rightarrow> monitor \<Rightarrow> 'p observation \<Rightarrow> 'p observation \<Rightarrow>
      (tracker \<Rightarrow> 'p observation) \<Rightarrow> 'p tickResult" where
  "tick pv m o1 ob after =
     (let idle = \<lparr>rSleep = mInterval m, rStopped = None, rTracker = oTracker o1\<rparr> in
      if pvState pv (oProc o1) \<noteq> Running then idle
      else if Parked (oNow o1) (oTracker o1) then idle
      else let snap = pvSnapshot pv (oProc o1) in
      if notStoppable snap then idle
      else let wait = Deadline (snStartedAt snap) (mTimeout m) (oTracker o1) - oNow o1 in
      if wait > 0 then \<lparr>rSleep = wait + wakeSlack, rStopped = None, rTracker = oTracker o1\<rparr>
      else (case BeginStop (oNow ob) (oTracker ob) of
              (None, t) \<Rightarrow> \<lparr>rSleep = mInterval m, rStopped = None, rTracker = t\<rparr>
            | (Some g, t) \<Rightarrow> tickArmed pv m g (after t)))"

definition idleFor :: "time \<Rightarrow> time \<Rightarrow> tracker \<Rightarrow> duration" where
  "idleFor startedAt now t =
     (let d = now - activityBase startedAt t; r = 100 * timeMillisecond
      in if d < 0 then - (((- d) + r div 2) div r * r) else (d + r div 2) div r * r)"

text \<open>The supervisor as the monitor's process.\<close>

definition supervisorView :: "supervisor process_view" where
  "supervisorView = \<lparr>pvState = State, pvSnapshot = Snapshot, pvStop = (\<lambda>s. snd (StopAsync s))\<rparr>"

section \<open>Facts about a tick\<close>

lemma interval_bounds:
  "minPollInterval \<le> mInterval (NewMonitor timeout) \<and>
   mInterval (NewMonitor timeout) \<le> maxPollInterval"
  by (simp add: NewMonitor_def Let_def monitor_consts time_simps)

lemma NewMonitor_timeout [simp]: "mTimeout (NewMonitor timeout) = timeout"
  by (simp add: NewMonitor_def Let_def)

lemma tick_stops_iff:
  "rStopped (tick pv m o1 ob after) = Some q \<longleftrightarrow>
     pvState pv (oProc o1) = Running \<and> \<not> Parked (oNow o1) (oTracker o1) \<and>
     \<not> notStoppable (pvSnapshot pv (oProc o1)) \<and>
     Deadline (snStartedAt (pvSnapshot pv (oProc o1))) (mTimeout m) (oTracker o1) \<le> oNow o1 \<and>
     (\<exists>g. fst (BeginStop (oNow ob) (oTracker ob)) = Some g \<and>
       (let o2 = after (snd (BeginStop (oNow ob) (oTracker ob))); snap = pvSnapshot pv (oProc o2)
        in \<not> notStoppable snap \<and>
           Deadline (snStartedAt snap) (mTimeout m) (oTracker o2) \<le> oNow o2 \<and>
           q = pvStop pv (oProc o2)))"
  by (cases "BeginStop (oNow ob) (oTracker ob)")
    (auto simp: tick_def tickArmed_def Let_def After_def split: option.splits)

lemma tick_sleep:
  "rSleep (tick pv m o1 ob after) = mInterval m \<or>
   (\<exists>ob' \<in> {o1} \<union> range after.
      rSleep (tick pv m o1 ob after) =
        Deadline (snStartedAt (pvSnapshot pv (oProc ob'))) (mTimeout m) (oTracker ob') - oNow ob' +
          wakeSlack \<and>
      oNow ob' < Deadline (snStartedAt (pvSnapshot pv (oProc ob'))) (mTimeout m) (oTracker ob'))"
  by (cases "BeginStop (oNow ob) (oTracker ob)")
    (auto simp: tick_def tickArmed_def Let_def After_def split: option.splits)

lemma activityBase_ge: "st \<le> activityBase st t \<and> (tLastActivity t \<noteq> 0 \<longrightarrow> tLastActivity t \<le> activityBase st t)"
  by (auto simp: activityBase_def LastActivity_def After_def)

section \<open>Properties\<close>


text \<open>A project started at second 1, unused since, looked at after its timeout of ten seconds.\<close>

definition demoRunning :: supervisor where
  "demoRunning =
     probeReady 0 (snd (EnsureStartedOnDemand 1000000000 (CommandStarts 40)
       (NewSupervisor emptyProject)))"

definition demoObservation :: "time \<Rightarrow> tracker \<Rightarrow> supervisor observation" where
  "demoObservation now t = \<lparr>oNow = now, oProc = demoRunning, oTracker = t\<rparr>"

lemma demoRunning_facts:
  "State demoRunning = Running" "sState demoRunning = Running" "sCmd demoRunning = Some 0"
  "sSpawnedAt demoRunning = 1000000000"
  by (simp_all add: demoRunning_def NewSupervisor_def State_def sup_defs)

lemma demo_tick_stops:
  "rStopped (tick supervisorView (NewMonitor (10 * timeSecond))
      (demoObservation 12000000000 NewTracker) (demoObservation 12000000000 NewTracker)
      (demoObservation 12000000001)) = Some (snd (StopAsync demoRunning))"
  unfolding tick_stops_iff
  by (auto simp: supervisorView_def demoObservation_def demoRunning_facts Parked_def NewTracker_def
      LeaseUntil_def notStoppable_def Snapshot_def BeginStop_ok Deadline_def activityBase_def
      LastActivity_def time_simps zeroTime_def Let_def BeginStop_def)


text \<open>
  Idle projects are stopped, and monitors neither spin nor oversleep. If nothing interferes,
  a tick on a running project that is not parked and whose deadline has passed stops it; every
  tick sleeps at least 10 ms; and it sleeps at most the longer of five seconds and the idle
  timeout plus the 10 ms slack, provided the clocks it read are not behind the recorded times.
\<close>

theorem monitor_progress:
  assumes "0 \<le> timeout"
    and "\<And>ob'. ob' \<in> {o1} \<union> range after \<Longrightarrow>
      activityBase (snStartedAt (Snapshot (oProc ob'))) (oTracker ob') \<le> oNow ob'"
  shows "wakeSlack \<le> rSleep (tick supervisorView (NewMonitor timeout) o1 ob after) \<and>
    rSleep (tick supervisorView (NewMonitor timeout) o1 ob after)
      \<le> max maxPollInterval (timeout + wakeSlack) \<and>
    (State (oProc o1) = Running \<and> \<not> notStoppable (Snapshot (oProc o1)) \<and>
     \<not> Parked (oNow o1) (oTracker o1) \<and> tGate (oTracker o1) = None \<and>
     Deadline (snStartedAt (Snapshot (oProc o1))) timeout (oTracker o1) \<le> oNow o1 \<and>
     ob = o1 \<and> after = (\<lambda>t. o1\<lparr>oTracker := t\<rparr>) \<longrightarrow>
     rStopped (tick supervisorView (NewMonitor timeout) o1 ob after) \<noteq> None)"
proof -
  let ?r = "tick supervisorView (NewMonitor timeout) o1 ob after"
  consider "rSleep ?r = mInterval (NewMonitor timeout)"
    | ob' where "ob' \<in> {o1} \<union> range after"
      "rSleep ?r = Deadline (snStartedAt (Snapshot (oProc ob'))) timeout (oTracker ob') - oNow ob' +
          wakeSlack"
      "oNow ob' < Deadline (snStartedAt (Snapshot (oProc ob'))) timeout (oTracker ob')"
    using tick_sleep [of supervisorView "NewMonitor timeout" o1 ob after]
    by (auto simp: supervisorView_def)
  then have "wakeSlack \<le> rSleep ?r \<and> rSleep ?r \<le> max maxPollInterval (timeout + wakeSlack)"
  proof cases
    case 1
    then show ?thesis using interval_bounds [of timeout]
      by (auto simp: monitor_consts time_simps intro: max.coboundedI1)
  next
    case 2
    then show ?thesis using assms(2) [OF 2(1)] by (simp add: Deadline_def)
  qed
  moreover have "rStopped ?r = Some (snd (StopAsync (oProc o1)))"
    if "State (oProc o1) = Running \<and> \<not> notStoppable (Snapshot (oProc o1)) \<and>
     \<not> Parked (oNow o1) (oTracker o1) \<and> tGate (oTracker o1) = None \<and>
     Deadline (snStartedAt (Snapshot (oProc o1))) timeout (oTracker o1) \<le> oNow o1 \<and>
     ob = o1 \<and> after = (\<lambda>t. o1\<lparr>oTracker := t\<rparr>)"
    unfolding tick_stops_iff using that
    by (auto simp: supervisorView_def BeginStop_ok Let_def Deadline_def)
  ultimately show ?thesis by blast
qed

theorem monitor_progress_witness:
  "rSleep (tick supervisorView (NewMonitor (10 * timeSecond))
      (demoObservation 5000000000 NewTracker) (demoObservation 5000000000 NewTracker)
      (\<lambda>_. demoObservation 5000000000 NewTracker)) \<le> 10 * timeSecond + wakeSlack"
proof -
  let ?o = "demoObservation 5000000000 NewTracker"
  have "activityBase (snStartedAt (Snapshot (oProc ob'))) (oTracker ob') \<le> oNow ob'"
    if "ob' \<in> {?o} \<union> range (\<lambda>t :: tracker. ?o)" for ob'
    using that
    by (auto simp: demoObservation_def Snapshot_def demoRunning_facts activityBase_def
        LastActivity_def NewTracker_def After_def zeroTime_def)
  then show ?thesis
    using monitor_progress [of "10 * timeSecond" ?o "\<lambda>_. ?o" ?o]
    by (simp add: monitor_consts time_simps)
qed

end
