(* ===== verification/Validation.thy ===== *)
theory Validation
  imports ProjectConfig
begin

text \<open>
  The validation of one project (\<open>(*Project).validate\<close> in \<open>internal/config/config.go\<close>) with the
  hostname syntax of \<open>internal/config/discovery.go\<close>. What the code asks of the operating system
  and of the URL, IP and glob parsers is the record \<open>osView\<close>. A validation error keeps its scope,
  name and field; its message is a constructor with the values formatted into it.
\<close>

section \<open>The outside\<close>

datatype fileKind = Directory | RegularFile | OtherFile

text \<open>
  \<open>osStat\<close>: \<open>None\<close> is an error of \<open>os.Stat\<close>. \<open>osURL\<close>: scheme and host of \<open>url.Parse\<close>.
  \<open>osReadDir\<close>: \<open>None\<close> is \<open>ErrNotExist\<close>; an entry is its name and whether it is a directory.
  \<open>osGlob\<close>: \<open>path.Match\<close>, \<open>None\<close> for a malformed pattern.
\<close>

record osView =
  osHome :: "string option"
  osCwd :: string
  osStat :: "string \<Rightarrow> fileKind option"
  osReadDir :: "string \<Rightarrow> (string + (string \<times> bool) list) option"
  osReadFile :: "string \<Rightarrow> string option"
  osURL :: "string \<Rightarrow> (string \<times> string) option"
  osLoopbackIP :: "string \<Rightarrow> bool"
  osGlob :: "string \<Rightarrow> string \<Rightarrow> bool option"

section \<open>Errors\<close>

datatype scope = ScopeProject | ScopeDiscovery

datatype problem =
    Required
  | EmptyValue
  | EmptyEntry
  | InvalidURL string
  | InvalidHostname string
  | InvalidPort int
  | SameAsSupervisorPort int
  | NoSuchDirectory string
  | NotADirectory string
  | NoSuchFile string
  | NotARegularFile string
  | RequiredForStrategy string
  | InvalidStrategy string
  | NotLoopback string
  | Negative int
  | UnknownSignal string
  | DefinedTwice string string
  | HostTaken string string
  | PortTaken int string string
  | SharedPortNeedsHosts int string
  | ListenHostDiffers string string string int
  | WildcardPortTaken int string string
  | NameTakenBy nat
  | InvalidDNSLabel string
  | UnknownMode string
  | NotARepository string
  | MustBeRelative string
  | InvalidDomain string
  | NotUsedInWildcard
  | OnlyInWildcard
  | TemplateLacksName string
  | NotAllowedInTemplate
  | InvalidPattern string
  | RangeWrongLength nat
  | RangeBadPorts int int
  | RangeReversed int int

datatype configError =
    FieldError (feScope: scope) (feProject: string) (feField: string) (feProblem: problem)
  | MaxRunningNegative int
  | MaxRunningBelowAlwaysOn int "string list"
  | DiscoveryInFragment string

section \<open>Hostnames and URLs\<close>

definition labelChar :: "char \<Rightarrow> bool" where
  "labelChar c \<longleftrightarrow>
     (97 \<le> (of_char c :: nat) \<and> (of_char c :: nat) \<le> 122) \<or>
     (48 \<le> (of_char c :: nat) \<and> (of_char c :: nat) \<le> 57)"

text \<open>The regular expression \<open>^[a-z0-9]([a-z0-9-]{0,61}[a-z0-9])?$\<close>.\<close>

definition IsDNSLabel :: "string \<Rightarrow> bool" where
  "IsDNSLabel name \<longleftrightarrow>
     name \<noteq> [] \<and> length name \<le> 63 \<and> labelChar (hd name) \<and> labelChar (last name) \<and>
     list_all (\<lambda>c. labelChar c \<or> c = CHR ''-'') name"

definition IsHostname :: "string \<Rightarrow> bool" where
  "IsHostname host \<longleftrightarrow>
     host \<noteq> [] \<and> length host \<le> 253 \<and> list_all IsDNSLabel (splitByte (CHR ''.'') host)"

definition checkHTTPURL :: "osView \<Rightarrow> string \<Rightarrow> bool" where
  "checkHTTPURL os raw =
     (case osURL os raw of
        None \<Rightarrow> False
      | Some (sch, host) \<Rightarrow> (sch = ''http'' \<or> sch = ''https'') \<and> host \<noteq> [])"

definition isLoopbackHost :: "osView \<Rightarrow> string \<Rightarrow> bool" where
  "isLoopbackHost os host \<longleftrightarrow> host = ''localhost'' \<or> osLoopbackIP os host"

definition validShutdownSignals :: "string list" where
  "validShutdownSignals =
     [''SIGTERM'', ''SIGINT'', ''SIGQUIT'', ''SIGHUP'', ''SIGUSR1'', ''SIGUSR2'', ''SIGKILL'']"

section \<open>A project\<close>

definition checkPublicURL :: "osView \<Rightarrow> project \<Rightarrow> (string \<times> problem) list" where
  "checkPublicURL os p =
     (if pPublicURL p = [] then [(''public_url'', Required)]
      else if \<not> checkHTTPURL os (pPublicURL p) then [(''public_url'', InvalidURL (pPublicURL p))]
      else []) @
     (if pHost p \<noteq> [] \<and> \<not> IsHostname (pHost p) then [(''host'', InvalidHostname (pHost p))] else [])"

definition checkPort :: "string \<Rightarrow> int \<Rightarrow> (string \<times> problem) list" where
  "checkPort field port =
     (if port = 0 then [(field, Required)]
      else if \<not> isValidPort port then [(field, InvalidPort port)]
      else [])"

definition checkPorts :: "project \<Rightarrow> (string \<times> problem) list" where
  "checkPorts p =
     checkPort ''supervisor_port'' (pSupervisorPort p) @
     checkPort ''application_port'' (pApplicationPort p) @
     (if isValidPort (pSupervisorPort p) \<and> pSupervisorPort p = pApplicationPort p
      then [(''application_port'', SameAsSupervisorPort (pApplicationPort p))] else [])"

definition checkWorkingDirectory :: "osView \<Rightarrow> bool \<Rightarrow> project \<Rightarrow> (string \<times> problem) list" where
  "checkWorkingDirectory os skip p =
     (if pWorkingDirectory p = [] then [(''working_directory'', Required)]
      else (case osStat os (pWorkingDirectory p) of
              None \<Rightarrow> if \<not> skip then [(''working_directory'', NoSuchDirectory (pWorkingDirectory p))] else []
            | Some k \<Rightarrow> if k \<noteq> Directory
                then [(''working_directory'', NotADirectory (pWorkingDirectory p))] else []))"

definition checkEnvFile :: "osView \<Rightarrow> string \<Rightarrow> (string \<times> problem) list" where
  "checkEnvFile os file =
     (if TrimSpace file = [] then [(''env_file'', EmptyEntry)]
      else if \<not> IsAbs file then []
      else (case osStat os file of
              None \<Rightarrow> [(''env_file'', NoSuchFile file)]
            | Some k \<Rightarrow> if k \<noteq> RegularFile then [(''env_file'', NotARegularFile file)] else []))"

definition checkReadiness :: "osView \<Rightarrow> project \<Rightarrow> (string \<times> problem) list" where
  "checkReadiness os p =
     (if pReadinessStrategy p = ReadinessHTTP
      then (if pReadinessURL p = [] then [(''readiness_url'', RequiredForStrategy ReadinessHTTP)] else [])
      else if pReadinessStrategy p = ReadinessTCP then []
      else [(''readiness_strategy'', InvalidStrategy (pReadinessStrategy p))]) @
     (if pReadinessURL p \<noteq> [] \<and> \<not> checkHTTPURL os (pReadinessURL p)
      then [(''readiness_url'', InvalidURL (pReadinessURL p))] else [])"

definition checkNonNegative :: "project \<Rightarrow> (string \<times> problem) list" where
  "checkNonNegative p =
     concat (map (\<lambda>(field, v). if v < 0 then [(field, Negative v)] else [])
       [(''startup_timeout_seconds'', pStartupTimeoutSeconds p),
        (''idle_timeout_minutes'', pIdleTimeoutMinutes p),
        (''idle_timeout_seconds'', pIdleTimeoutSeconds p),
        (''shutdown_timeout_seconds'', pShutdownTimeoutSeconds p),
        (''log_retention_days'', pLogRetentionDays p),
        (''hold_max_wait_seconds'', pHoldMaxWaitSeconds p),
        (''hold_max_requests'', pHoldMaxRequests p)])"

definition projectProblems :: "osView \<Rightarrow> bool \<Rightarrow> project \<Rightarrow> (string \<times> problem) list" where
  "projectProblems os skip p =
     checkPublicURL os p @ checkPorts p @ checkWorkingDirectory os skip p @
     concat (map (checkEnvFile os) (pEnvFile p)) @
     (if TrimSpace (pCommand p) = [] then [(''command'', Required)] else []) @
     checkReadiness os p @
     (if \<not> isLoopbackHost os (pListenHost p) \<and> \<not> pAllowNonLoopback p
      then [(''listen_host'', NotLoopback (pListenHost p))] else []) @
     checkNonNegative p @
     (if pShutdownSignal p \<notin> set validShutdownSignals
      then [(''shutdown_signal'', UnknownSignal (pShutdownSignal p))] else [])"

definition projectValidate :: "osView \<Rightarrow> bool \<Rightarrow> project \<Rightarrow> configError list" where
  "projectValidate os skip p =
     map (\<lambda>(field, pr). FieldError ScopeProject (pName p) field pr) (projectProblems os skip p)"

named_theorems validate_defs "the checks of one project, unfolded"

lemmas [validate_defs] =
  checkPublicURL_def checkPort_def checkPorts_def checkWorkingDirectory_def checkEnvFile_def
  checkReadiness_def checkNonNegative_def projectProblems_def

section \<open>What a valid project satisfies\<close>

definition projectOk :: "osView \<Rightarrow> bool \<Rightarrow> project \<Rightarrow> bool" where
  "projectOk os skip p \<longleftrightarrow>
     checkHTTPURL os (pPublicURL p) \<and> pPublicURL p \<noteq> [] \<and> (pHost p = [] \<or> IsHostname (pHost p)) \<and>
     isValidPort (pSupervisorPort p) \<and> isValidPort (pApplicationPort p) \<and>
     pSupervisorPort p \<noteq> pApplicationPort p \<and>
     pWorkingDirectory p \<noteq> [] \<and>
     (osStat os (pWorkingDirectory p) = Some Directory \<or>
        skip \<and> osStat os (pWorkingDirectory p) = None) \<and>
     (\<forall>f \<in> set (pEnvFile p). TrimSpace f \<noteq> [] \<and> (IsAbs f \<longrightarrow> osStat os f = Some RegularFile)) \<and>
     TrimSpace (pCommand p) \<noteq> [] \<and>
     (pReadinessStrategy p = ReadinessTCP \<or>
        pReadinessStrategy p = ReadinessHTTP \<and> pReadinessURL p \<noteq> []) \<and>
     (pReadinessURL p = [] \<or> checkHTTPURL os (pReadinessURL p)) \<and>
     (isLoopbackHost os (pListenHost p) \<or> pAllowNonLoopback p) \<and>
     0 \<le> pStartupTimeoutSeconds p \<and> 0 \<le> pIdleTimeoutMinutes p \<and> 0 \<le> pIdleTimeoutSeconds p \<and>
     0 \<le> pShutdownTimeoutSeconds p \<and> 0 \<le> pLogRetentionDays p \<and> 0 \<le> pHoldMaxWaitSeconds p \<and>
     0 \<le> pHoldMaxRequests p \<and>
     pShutdownSignal p \<in> set validShutdownSignals"

lemma checkPublicURL_ok:
  "checkPublicURL os p = [] \<longleftrightarrow>
     pPublicURL p \<noteq> [] \<and> checkHTTPURL os (pPublicURL p) \<and> (pHost p = [] \<or> IsHostname (pHost p))"
  by (auto simp: checkPublicURL_def)

lemma isValidPort_zero [simp]: "\<not> isValidPort 0"
  by (simp add: isValidPort_def)

lemma checkPorts_ok:
  "checkPorts p = [] \<longleftrightarrow>
     isValidPort (pSupervisorPort p) \<and> isValidPort (pApplicationPort p) \<and>
     pSupervisorPort p \<noteq> pApplicationPort p"
  by (auto simp: checkPorts_def checkPort_def)

lemma checkWorkingDirectory_ok:
  "checkWorkingDirectory os skip p = [] \<longleftrightarrow>
     pWorkingDirectory p \<noteq> [] \<and>
     (osStat os (pWorkingDirectory p) = Some Directory \<or>
        skip \<and> osStat os (pWorkingDirectory p) = None)"
  by (auto simp: checkWorkingDirectory_def split: option.splits)

lemma checkEnvFile_ok:
  "checkEnvFile os f = [] \<longleftrightarrow> TrimSpace f \<noteq> [] \<and> (IsAbs f \<longrightarrow> osStat os f = Some RegularFile)"
  by (auto simp: checkEnvFile_def split: option.splits)

lemma checkReadiness_ok:
  "checkReadiness os p = [] \<longleftrightarrow>
     (pReadinessStrategy p = ReadinessTCP \<or>
        pReadinessStrategy p = ReadinessHTTP \<and> pReadinessURL p \<noteq> []) \<and>
     (pReadinessURL p = [] \<or> checkHTTPURL os (pReadinessURL p))"
  by (auto simp: checkReadiness_def ReadinessHTTP_def ReadinessTCP_def)

lemma checkNonNegative_ok:
  "checkNonNegative p = [] \<longleftrightarrow>
     0 \<le> pStartupTimeoutSeconds p \<and> 0 \<le> pIdleTimeoutMinutes p \<and> 0 \<le> pIdleTimeoutSeconds p \<and>
     0 \<le> pShutdownTimeoutSeconds p \<and> 0 \<le> pLogRetentionDays p \<and> 0 \<le> pHoldMaxWaitSeconds p \<and>
     0 \<le> pHoldMaxRequests p"
  by (simp add: checkNonNegative_def not_less)

lemma projectProblems_ok: "projectProblems os skip p = [] \<longleftrightarrow> projectOk os skip p"
  by (auto simp: projectProblems_def projectOk_def checkPublicURL_ok checkPorts_ok
      checkWorkingDirectory_ok checkEnvFile_ok checkReadiness_ok checkNonNegative_ok)

lemma projectValidate_ok: "projectValidate os skip p = [] \<longleftrightarrow> projectOk os skip p"
  by (simp add: projectValidate_def projectProblems_ok)

section \<open>Facts about labels\<close>

lemma labelChar_not: "labelChar c \<Longrightarrow> c \<noteq> CHR ''.'' \<and> c \<noteq> CHR ''/'' \<and> c \<noteq> CHR '':'' \<and> c \<noteq> CHR ''~''"
  by (auto simp: labelChar_def)

lemma IsDNSLabel_chars:
  assumes "IsDNSLabel name"
  shows "CHR ''.'' \<notin> set name" "CHR ''/'' \<notin> set name" "CHR '':'' \<notin> set name" "name \<noteq> []"
  using assms labelChar_not by (fastforce simp: IsDNSLabel_def list_all_iff)+

lemma lowerByte_label: "labelChar c \<or> c = CHR ''-'' \<Longrightarrow> lowerByte c = c"
  by (auto simp: labelChar_def lowerByte_def)

lemma IsDNSLabel_lower: "IsDNSLabel name \<Longrightarrow> ToLower name = name"
  unfolding IsDNSLabel_def ToLower_def
  by (auto simp: list_all_iff lowerByte_label intro: map_idI)

end
