(* ===== verification/DiscoveryConfig.thy ===== *)
theory DiscoveryConfig
  imports Validation
begin

text \<open>
  One worktree-discovery entry (\<open>internal/config/discovery.go\<close>): the \<open>Discovery\<close> struct, the names
  and URLs derived from it, the label a request host carries on a wildcard entry's listener, the
  project a label is materialised as, its defaults and its validation.
\<close>

definition ModeProxy :: string where "ModeProxy = ''proxy''"
definition ModeWildcard :: string where "ModeWildcard = ''wildcard''"
definition DefaultURLTemplate :: string where "DefaultURLTemplate = ''https://{name}.test''"
definition URLTemplateName :: string where "URLTemplateName = ''{name}''"
definition DefaultBaseDomainSuffix :: string where "DefaultBaseDomainSuffix = ''.test''"
definition DynamicSourcePrefix :: string where "DynamicSourcePrefix = ''discovery:''"
definition LabelPlaceholder :: string where "LabelPlaceholder = ''<label>''"
definition DefaultExclude :: "string list" where "DefaultExclude = [''.*'']"
definition ProjectsDirName :: string where "ProjectsDirName = ''projects.d''"

lemmas discovery_consts =
  ModeProxy_def ModeWildcard_def DefaultURLTemplate_def URLTemplateName_def
  DefaultBaseDomainSuffix_def DynamicSourcePrefix_def LabelPlaceholder_def DefaultExclude_def
  ProjectsDirName_def

record discovery =
  dName :: string
  dMode :: string
  dBaseDomain :: string
  dDirectory :: string
  dRepository :: string
  dRequireFiles :: "string list"
  dURLTemplate :: string
  dPortCommand :: string
  dApplicationPortRange :: "int list"
  dSupervisorPortRange :: "int list"
  dHerd :: "bool option"
  dExclude :: "string list option"
  dMaxRunning :: int
  dTemplate :: project

definition emptyDiscovery :: discovery where
  "emptyDiscovery =
     \<lparr>dName = [], dMode = [], dBaseDomain = [], dDirectory = [], dRepository = [],
      dRequireFiles = [], dURLTemplate = [], dPortCommand = [], dApplicationPortRange = [],
      dSupervisorPortRange = [], dHerd = None, dExclude = None, dMaxRunning = 0,
      dTemplate = emptyProject\<rparr>"

section \<open>Derived names\<close>

definition Wildcard :: "discovery \<Rightarrow> bool" where
  "Wildcard d \<longleftrightarrow> dMode d = ModeWildcard"

definition SupervisorPort :: "discovery \<Rightarrow> int" where
  "SupervisorPort d = (if \<not> Wildcard d then 0 else pSupervisorPort (dTemplate d))"

definition ListenHost :: "discovery \<Rightarrow> string" where
  "ListenHost d =
     (if pListenHost (dTemplate d) = [] then DefaultListenHost else pListenHost (dTemplate d))"

definition FileName :: "discovery \<Rightarrow> string" where
  "FileName d = dName d @ ''.yaml''"

definition SourceOf :: "discovery \<Rightarrow> string" where
  "SourceOf d = ProjectsDirName @ ''/'' @ FileName d"

definition DynamicSource :: "discovery \<Rightarrow> string" where
  "DynamicSource d = DynamicSourcePrefix @ dName d"

definition ProjectsDir :: "string \<Rightarrow> string" where
  "ProjectsDir configPath = filepathJoin [filepathDir configPath, ProjectsDirName]"

definition ManagedPath :: "string \<Rightarrow> discovery \<Rightarrow> string" where
  "ManagedPath configPath d = filepathJoin [ProjectsDir configPath, FileName d]"

definition HostOf :: "discovery \<Rightarrow> string \<Rightarrow> string" where
  "HostOf d label = label @ ''.'' @ dBaseDomain d"

definition PublicURL :: "discovery \<Rightarrow> string \<Rightarrow> string" where
  "PublicURL d label =
     (if Wildcard d then ''https://'' @ HostOf d label
      else replaceAll (dURLTemplate d) URLTemplateName label)"

definition URLPattern :: "discovery \<Rightarrow> string" where
  "URLPattern d = ''https://'' @ LabelPlaceholder @ ''.'' @ dBaseDomain d"

definition Label :: "discovery \<Rightarrow> string \<Rightarrow> string option" where
  "Label d host =
     (case cutSuffix host (''.'' @ dBaseDomain d) of
        None \<Rightarrow> None
      | Some label \<Rightarrow> if \<not> IsDNSLabel label then None else Some label)"

definition HerdEnabled :: "discovery \<Rightarrow> bool" where
  "HerdEnabled d = (case dHerd d of None \<Rightarrow> True | Some b \<Rightarrow> b)"

definition Excluded :: "osView \<Rightarrow> discovery \<Rightarrow> string \<Rightarrow> bool" where
  "Excluded os d name =
     list_ex (\<lambda>pattern. osGlob os pattern name = Some True)
       (case dExclude d of None \<Rightarrow> [] | Some ps \<Rightarrow> ps)"

text \<open>The project a wildcard entry serves for a label.\<close>

definition ProjectFor :: "string option \<Rightarrow> discovery \<Rightarrow> string \<Rightarrow> string \<Rightarrow> int \<Rightarrow> project" where
  "ProjectFor home d label dir applicationPort =
     applyDefaults home
       ((dTemplate d)
          \<lparr>pName := label,
           pSource := DynamicSource d,
           pHost := HostOf d label,
           pPublicURL := PublicURL d label,
           pWorkingDirectory := dir,
           pSupervisorPort := SupervisorPort d,
           pApplicationPort := applicationPort\<rparr>)"

text \<open>Entry equality: every field but \<open>MaxRunning\<close> (the template's \<open>Env\<close> as a map).\<close>

definition discoveryEquivalent :: "discovery \<Rightarrow> discovery \<Rightarrow> bool" where
  "discoveryEquivalent d e \<longleftrightarrow>
     sameEnv (pEnv (dTemplate d)) (pEnv (dTemplate e)) \<and>
     d\<lparr>dMaxRunning := 0, dTemplate := (dTemplate d)\<lparr>pEnv := []\<rparr>\<rparr> =
     e\<lparr>dMaxRunning := 0, dTemplate := (dTemplate e)\<lparr>pEnv := []\<rparr>\<rparr>"

definition discoveryDefaults :: "string option \<Rightarrow> discovery \<Rightarrow> discovery" where
  "discoveryDefaults home d0 =
     (let d1 = d0\<lparr>dDirectory := expandHome home (dDirectory d0),
                  dRepository := expandHome home (dRepository d0),
                  dMode := (if dMode d0 = [] then ModeProxy else dMode d0)\<rparr>;
          d2 = (if Wildcard d1
                then (let b = (if dBaseDomain d1 = [] \<and> dName d1 \<noteq> []
                               then dName d1 @ DefaultBaseDomainSuffix else dBaseDomain d1)
                      in d1\<lparr>dBaseDomain := ToLower (TrimSpace b)\<rparr>)
                else if dURLTemplate d1 = [] then d1\<lparr>dURLTemplate := DefaultURLTemplate\<rparr>
                else d1)
      in d2\<lparr>dExclude := (case dExclude d2 of None \<Rightarrow> Some DefaultExclude | Some ps \<Rightarrow> Some ps)\<rparr>)"

section \<open>Validation\<close>

definition validateRange :: "string \<Rightarrow> int list \<Rightarrow> bool \<Rightarrow> (string \<times> problem) list" where
  "validateRange field r required =
     (if r = [] then (if required then [(field, Required)] else [])
      else if length r \<noteq> 2 then [(field, RangeWrongLength (length r))]
      else if \<not> isValidPort (r ! 0) \<or> \<not> isValidPort (r ! 1)
      then [(field, RangeBadPorts (r ! 0) (r ! 1))]
      else if r ! 0 > r ! 1 then [(field, RangeReversed (r ! 0) (r ! 1))]
      else [])"

definition checkEntryName :: "discovery \<Rightarrow> (string \<times> problem) list" where
  "checkEntryName d =
     (if dName d = [] then [(''name'', Required)]
      else if \<not> IsDNSLabel (dName d) then [(''name'', InvalidDNSLabel (dName d))] else [])"

definition checkMode :: "discovery \<Rightarrow> (string \<times> problem) list" where
  "checkMode d =
     (if dMode d = ModeProxy \<or> dMode d = ModeWildcard then []
      else [(''mode'', UnknownMode (dMode d))])"

definition checkDirectory :: "osView \<Rightarrow> discovery \<Rightarrow> (string \<times> problem) list" where
  "checkDirectory os d =
     (if dDirectory d = [] then [(''directory'', Required)]
      else (case osStat os (dDirectory d) of
              None \<Rightarrow> [(''directory'', NoSuchDirectory (dDirectory d))]
            | Some k \<Rightarrow> if k \<noteq> Directory then [(''directory'', NotADirectory (dDirectory d))] else []))"

definition checkRepository :: "osView \<Rightarrow> discovery \<Rightarrow> (string \<times> problem) list" where
  "checkRepository os d =
     (if dRepository d = [] then []
      else (case osStat os (dRepository d) of
              None \<Rightarrow> [(''repository'', NoSuchDirectory (dRepository d))]
            | Some k \<Rightarrow>
                if k \<noteq> Directory then [(''repository'', NotADirectory (dRepository d))]
                else if osStat os (filepathJoin [dRepository d, ''.git'']) = None
                then [(''repository'', NotARepository (dRepository d))]
                else []))"

definition checkRequireFile :: "string \<Rightarrow> (string \<times> problem) list" where
  "checkRequireFile file =
     (if TrimSpace file = [] then [(''require_files'', EmptyEntry)]
      else if IsAbs file then [(''require_files'', MustBeRelative file)] else [])"

definition checkWildcardEntry :: "discovery \<Rightarrow> (string \<times> problem) list" where
  "checkWildcardEntry d =
     (if dBaseDomain d = [] then [(''base_domain'', Required)]
      else if \<not> IsHostname (dBaseDomain d) \<or> \<not> containsStr (dBaseDomain d) ''.''
      then [(''base_domain'', InvalidDomain (dBaseDomain d))] else []) @
     (if dURLTemplate d \<noteq> [] then [(''url_template'', NotUsedInWildcard)] else []) @
     (if dSupervisorPortRange d \<noteq> [] then [(''supervisor_port_range'', NotUsedInWildcard)] else []) @
     checkPort ''supervisor_port'' (pSupervisorPort (dTemplate d))"

definition checkProxyEntry :: "osView \<Rightarrow> discovery \<Rightarrow> (string \<times> problem) list" where
  "checkProxyEntry os d =
     (if dBaseDomain d \<noteq> [] then [(''base_domain'', OnlyInWildcard)] else []) @
     (if dMaxRunning d \<noteq> 0 then [(''max_running'', OnlyInWildcard)] else []) @
     (if \<not> containsStr (dURLTemplate d) URLTemplateName
      then [(''url_template'', TemplateLacksName (dURLTemplate d))]
      else if \<not> checkHTTPURL os (PublicURL d ''example'')
      then [(''url_template'', InvalidURL (dURLTemplate d))] else []) @
     validateRange ''supervisor_port_range'' (dSupervisorPortRange d) True @
     (if pSupervisorPort (dTemplate d) \<noteq> 0 then [(''supervisor_port'', NotAllowedInTemplate)] else [])"

definition checkGenerated :: "project \<Rightarrow> (string \<times> problem) list" where
  "checkGenerated t =
     (if pPublicURL t \<noteq> [] then [(''public_url'', NotAllowedInTemplate)] else []) @
     (if pHost t \<noteq> [] then [(''host'', NotAllowedInTemplate)] else []) @
     (if pApplicationPort t \<noteq> 0 then [(''application_port'', NotAllowedInTemplate)] else []) @
     (if pWorkingDirectory t \<noteq> [] then [(''working_directory'', NotAllowedInTemplate)] else [])"

definition generatedFields :: "string list" where
  "generatedFields =
     [''public_url'', ''host'', ''supervisor_port'', ''application_port'', ''working_directory'',
      ''readiness_url'']"

text \<open>The probe: the template with valid generated fields.\<close>

definition templateProbe :: "osView \<Rightarrow> string \<Rightarrow> discovery \<Rightarrow> project" where
  "templateProbe os label d =
     applyDefaults (osHome os)
       ((dTemplate d)
          \<lparr>pName := label, pPublicURL := ''https://example.test'', pHost := [],
           pSupervisorPort := 1, pApplicationPort := 2, pWorkingDirectory := dDirectory d\<rparr>)"

definition entryProblems :: "osView \<Rightarrow> string \<Rightarrow> discovery \<Rightarrow> (string \<times> problem) list" where
  "entryProblems os label d =
     checkEntryName d @ checkMode d @ checkDirectory os d @ checkRepository os d @
     concat (map checkRequireFile (dRequireFiles d)) @
     (if Wildcard d then checkWildcardEntry d else checkProxyEntry os d) @
     validateRange ''application_port_range'' (dApplicationPortRange d) (dPortCommand d = []) @
     (if dMaxRunning d < 0 then [(''max_running'', Negative (dMaxRunning d))] else []) @
     concat (map (\<lambda>pattern. if osGlob os pattern [] = None
                            then [(''exclude'', InvalidPattern pattern)] else [])
       (case dExclude d of None \<Rightarrow> [] | Some ps \<Rightarrow> ps)) @
     checkGenerated (dTemplate d) @
     filter (\<lambda>(field, _). field \<notin> set generatedFields)
       (projectProblems os True (templateProbe os label d))"

definition discoveryValidate :: "osView \<Rightarrow> string \<Rightarrow> discovery \<Rightarrow> configError list" where
  "discoveryValidate os label d =
     map (\<lambda>(field, pr). FieldError ScopeDiscovery label field pr) (entryProblems os label d)"

section \<open>Labels and hosts\<close>

lemma Label_Some:
  "Label d host = Some l \<longleftrightarrow> host = HostOf d l \<and> IsDNSLabel l"
  by (cases "cutSuffix host (''.'' @ dBaseDomain d)")
    (auto simp: Label_def HostOf_def cutSuffix_Some)

lemma filepathClean_child:
  assumes "filepathClean dir = dir" and "IsAbs dir" and "dir \<noteq> [slash]"
    and "l \<noteq> []" "l \<noteq> ''.''" "l \<noteq> ''..''" "slash \<notin> set l"
  shows "filepathClean (dir @ slash # l) = dir @ slash # l"
proof -
  let ?out = "foldl (cleanStep True) [] (splitByte slash dir)"
  have split: "splitByte slash (s @ slash # l) = splitByte slash s @ [l]" for s
    using assms(7) by (induction s) (auto simp: splitByte_none split: list.splits)
  have body: "dir = slash # joinStrings (rev ?out) [slash]"
    using assms(1,2) by (simp add: filepathClean_def Let_def)
  have ne: "?out \<noteq> []"
  proof
    assume "?out = []"
    with body have "dir = [slash]" by simp
    with assms(3) show False by simp
  qed
  have join: "joinStrings (xs @ [l]) [slash] = joinStrings xs [slash] @ slash # l" if "xs \<noteq> []" for xs
    using that by (induction xs "[slash]" rule: joinStrings.induct) auto
  have abs: "IsAbs (dir @ slash # l)" using assms(2) by (rule IsAbs_append)
  have "filepathClean (dir @ slash # l) = slash # joinStrings (rev (l # ?out)) [slash]"
    unfolding filepathClean_def Let_def split using abs assms(4-6) by simp
  also have "\<dots> = (slash # joinStrings (rev ?out) [slash]) @ slash # l"
    using ne by (simp add: join)
  also have "\<dots> = dir @ slash # l" using body by simp
  finally show ?thesis .
qed

section \<open>Properties\<close>

text \<open>
  C35. A wildcard entry serves exactly the hosts it advertises. The label of a request host is
  \<open>Some l\<close> precisely when the host is the one the entry renders for \<open>l\<close> and \<open>l\<close> is a DNS label, so
  the base domain itself, deeper names and foreign domains are refused; the host and URL of the
  project materialised for \<open>l\<close> lead back to \<open>l\<close>; and the worktree path of \<open>l\<close> is a direct child
  of the entry's directory, whatever the client put in the Host header.
\<close>

theorem label_roundtrip_confined:
  assumes "Wildcard d" and "filepathClean (dDirectory d) = dDirectory d"
    and "IsAbs (dDirectory d)" and "dDirectory d \<noteq> [slash]"
  shows "(Label d host = Some l \<longleftrightarrow> host = HostOf d l \<and> IsDNSLabel l) \<and>
    Label d (dBaseDomain d) = None \<and>
    (IsDNSLabel l \<longrightarrow> Label d (''www.'' @ HostOf d l) = None) \<and>
    (Label d host = Some l \<longrightarrow>
       PublicURL d l = ''https://'' @ host \<and>
       filepathJoin [dDirectory d, l] = dDirectory d @ slash # l \<and>
       CHR ''/'' \<notin> set l \<and> l \<noteq> ''.'' \<and> l \<noteq> ''..'')"
proof -
  have base: "Label d (dBaseDomain d) = None"
    by (cases "Label d (dBaseDomain d)") (auto simp: Label_Some HostOf_def dest: arg_cong [where f = length])
  have www: "Label d (''www.'' @ HostOf d l) = None"
  proof (cases "Label d (''www.'' @ HostOf d l)")
    case (Some m)
    then have "IsDNSLabel m" and "''www.'' @ HostOf d l = HostOf d m" by (simp_all add: Label_Some)
    then have "m = ''www.'' @ l" by (simp add: HostOf_def)
    with \<open>IsDNSLabel m\<close> show ?thesis using IsDNSLabel_chars(1) [of m] by simp
  qed
  have child: "filepathJoin [dDirectory d, l] = dDirectory d @ slash # l \<and> CHR ''/'' \<notin> set l \<and>
      l \<noteq> ''.'' \<and> l \<noteq> ''..''" if "IsDNSLabel l"
  proof -
    have l: "l \<noteq> []" "slash \<notin> set l" "l \<noteq> ''.''" "l \<noteq> ''..''" "CHR ''/'' \<notin> set l"
      using IsDNSLabel_chars [OF that] by (auto simp: slash_def)
    have "dDirectory d \<noteq> []" using assms(3) by (auto simp: IsAbs_def)
    then have "filepathJoin [dDirectory d, l] = filepathClean (dDirectory d @ slash # l)"
      using l(1) by (simp add: filepathJoin_def Let_def)
    then show ?thesis using filepathClean_child [OF assms(2-4)] l by simp
  qed
  show ?thesis using base www child assms(1) by (auto simp: Label_Some PublicURL_def)
qed

definition demoEntry :: discovery where
  "demoEntry = emptyDiscovery\<lparr>dName := ''web'', dMode := ''wildcard'', dBaseDomain := ''web.test'',
     dDirectory := ''/w''\<rparr>"

theorem label_roundtrip_confined_witness:
  "Label demoEntry ''feat.web.test'' = Some ''feat'' \<and>
   filepathJoin [dDirectory demoEntry, ''feat''] = ''/w/feat'' \<and>
   Label demoEntry ''web.test'' = None"
proof -
  have e: "Wildcard demoEntry" "filepathClean (dDirectory demoEntry) = dDirectory demoEntry"
    "IsAbs (dDirectory demoEntry)" "dDirectory demoEntry \<noteq> [slash]"
    by (simp_all add: demoEntry_def emptyDiscovery_def Wildcard_def ModeWildcard_def filepathClean_def
        IsAbs_def slash_def Let_def)
  have l: "IsDNSLabel ''feat''" by (simp add: IsDNSLabel_def labelChar_def)
  have h: "HostOf demoEntry ''feat'' = ''feat.web.test''" "dBaseDomain demoEntry = ''web.test''"
    "dDirectory demoEntry = ''/w''"
    by (simp_all add: HostOf_def demoEntry_def emptyDiscovery_def)
  show ?thesis using label_roundtrip_confined [OF e, of "''feat.web.test''" "''feat''"] l h
    by (auto simp: slash_def)
qed

end
