(* ===== verification/ConfigFile.thy ===== *)
theory ConfigFile
  imports DiscoveryConfig
begin

text \<open>
  The configuration as a whole (\<open>internal/config/config.go\<close>): the \<open>Config\<close> struct, its validation
  across projects and discovery entries (host and port claims, the running-server budget), and
  loading: the main file merged with the fragments of \<open>projects.d\<close>. Strict YAML decoding is the
  parameter \<open>decode\<close>, from a path to a decoded file or an error.
\<close>

record config =
  cProjects :: "(string, project) gomap"
  cMaxRunning :: int
  cDiscovery :: "discovery option list"
  cPath :: string

text \<open>A decoded file: a project or an entry may be a YAML null.\<close>

record rawConfig =
  rcProjects :: "(string, project option) gomap"
  rcMaxRunning :: int
  rcDiscovery :: "discovery option list"

definition ProjectNames :: "('v) config_scheme \<Rightarrow> string list" where
  "ProjectNames c = sort (map fst (cProjects c))"

definition projectOf :: "('v) config_scheme \<Rightarrow> string \<Rightarrow> project" where
  "projectOf c name = the (map_of (cProjects c) name)"

section \<open>Port and host claims\<close>

record portClaim =
  pcProject :: string
  pcField :: string
  pcHost :: string
  pcListenHost :: string

definition supField :: string where "supField = ''supervisor_port''"
definition appField :: string where "appField = ''application_port''"

text \<open>One iteration of the loop over a project's two ports.\<close>

definition claimPort ::
    "string \<Rightarrow> project \<Rightarrow> string \<times> int \<Rightarrow> (int, portClaim) gomap \<Rightarrow>
      (int, portClaim) gomap \<times> configError list" where
  "claimPort name p = (\<lambda>(field, port) claimed.
     if \<not> isValidPort port then (claimed, [])
     else (case map_of claimed port of
        None \<Rightarrow>
          (mapPut port \<lparr>pcProject = name, pcField = field, pcHost = pHost p,
                        pcListenHost = pListenHost p\<rparr> claimed, [])
      | Some prev \<Rightarrow>
          (claimed,
           if field \<noteq> supField \<or> pcField prev \<noteq> supField
           then [FieldError ScopeProject name field (PortTaken port (pcProject prev) (pcField prev))]
           else if pHost p = [] \<or> pcHost prev = []
           then [FieldError ScopeProject name field (SharedPortNeedsHosts port (pcProject prev))]
           else if pListenHost p \<noteq> pcListenHost prev
           then [FieldError ScopeProject name ''listen_host''
                   (ListenHostDiffers (pListenHost p) (pcProject prev) (pcListenHost prev) port)]
           else [])))"

text \<open>The body of the loop over the projects; the state is the claims, the hosts, the errors.\<close>

type_synonym claimState = "(int, portClaim) gomap \<times> (string, string) gomap \<times> configError list"

definition validateProject ::
    "osView \<Rightarrow> bool \<Rightarrow> config \<Rightarrow> string \<Rightarrow> claimState \<Rightarrow> claimState" where
  "validateProject os skip c name = (\<lambda>(claimed, hosts, errs).
     let p = projectOf c name;
         e1 = (if TrimSpace name = [] then [FieldError ScopeProject name ''name'' EmptyValue] else []);
         e2 = projectValidate os skip p;
         (hosts', e3) =
           (if pHost p = [] then (hosts, [])
            else (case map_of hosts (pHost p) of
                    Some prev \<Rightarrow> (hosts, [FieldError ScopeProject name ''host'' (HostTaken (pHost p) prev)])
                  | None \<Rightarrow> (mapPut (pHost p) name hosts, [])));
         (claimed1, e4) = claimPort name p (supField, pSupervisorPort p) claimed;
         (claimed2, e5) = claimPort name p (appField, pApplicationPort p) claimed1
     in (claimed2, hosts', errs @ e1 @ e2 @ e3 @ e4 @ e5))"

definition validateBudget :: "config \<Rightarrow> configError list" where
  "validateBudget c =
     (if cMaxRunning c < 0 then [MaxRunningNegative (cMaxRunning c)]
      else if cMaxRunning c = 0 then []
      else (let alwaysOn = filter (\<lambda>n. pAlwaysOn (projectOf c n)) (ProjectNames c)
            in if int (length alwaysOn) > cMaxRunning c
               then [MaxRunningBelowAlwaysOn (cMaxRunning c) alwaysOn] else []))"

definition entryLabel :: "nat \<Rightarrow> string \<Rightarrow> string" where
  "entryLabel i name = (if name = [] then CHR ''#'' # Itoa (int i + 1) else name)"

text \<open>\<open>seen\<close> maps a name to the index of the last entry that had it.\<close>

fun validateEntries ::
    "osView \<Rightarrow> nat \<Rightarrow> (string, nat) gomap \<Rightarrow> discovery option list \<Rightarrow> configError list" where
  "validateEntries os i seen [] = []"
| "validateEntries os i seen (None # ds) =
     FieldError ScopeDiscovery (CHR ''#'' # Itoa (int i + 1)) ''name'' EmptyEntry #
     validateEntries os (Suc i) seen ds"
| "validateEntries os i seen (Some d # ds) =
     (case map_of seen (dName d) of
        Some prev \<Rightarrow>
          if dName d \<noteq> [] then [FieldError ScopeDiscovery (entryLabel i (dName d)) ''name'' (NameTakenBy prev)]
          else []
      | None \<Rightarrow> []) @
     discoveryValidate os (entryLabel i (dName d)) d @
     validateEntries os (Suc i) (mapPut (dName d) i seen) ds"

definition validateDiscovery :: "osView \<Rightarrow> config \<Rightarrow> configError list" where
  "validateDiscovery os c = validateEntries os 0 [] (cDiscovery c)"

text \<open>The shared listener of each wildcard entry claims its port.\<close>

fun claimWildcards ::
    "(int, portClaim) gomap \<Rightarrow> discovery option list \<Rightarrow> configError list" where
  "claimWildcards claimed [] = []"
| "claimWildcards claimed (None # ds) = claimWildcards claimed ds"
| "claimWildcards claimed (Some d # ds) =
     (if \<not> Wildcard d \<or> \<not> isValidPort (SupervisorPort d) then claimWildcards claimed ds
      else (case map_of claimed (SupervisorPort d) of
              Some prev \<Rightarrow>
                FieldError ScopeDiscovery (dName d) supField
                  (WildcardPortTaken (SupervisorPort d) (pcProject prev) (pcField prev)) #
                claimWildcards claimed ds
            | None \<Rightarrow>
                claimWildcards
                  (mapPut (SupervisorPort d)
                    \<lparr>pcProject = ''discovery:'' @ dName d, pcField = supField, pcHost = [],
                     pcListenHost = []\<rparr> claimed) ds))"

definition describeClaim :: "string \<Rightarrow> string \<Rightarrow> bool \<times> string \<times> string" where
  "describeClaim proj field =
     (case cutPrefix proj ''discovery:'' of
        Some entry \<Rightarrow> (True, entry, [])
      | None \<Rightarrow> (False, proj, field))"

definition configValidate :: "osView \<Rightarrow> bool \<Rightarrow> config \<Rightarrow> configError list" where
  "configValidate os skip c =
     (let (claimed, hosts, errs) = fold (validateProject os skip c) (ProjectNames c) ([], [], [])
      in errs @ validateBudget c @ validateDiscovery os c @ claimWildcards claimed (cDiscovery c))"

section \<open>Loading\<close>

datatype loadError =
    ReadOrParseError string
  | ReadDirError string
  | NilEntryPanic
  | InvalidConfig "configError list"

definition listProjectFiles :: "osView \<Rightarrow> string \<Rightarrow> loadError + string list" where
  "listProjectFiles os dir =
     (case osReadDir os dir of
        None \<Rightarrow> Inr []
      | Some (Inl e) \<Rightarrow> Inl (ReadDirError e)
      | Some (Inr entries) \<Rightarrow>
          Inr (sort (map (\<lambda>(name, _). filepathJoin [dir, name])
            (filter (\<lambda>(name, isdir). \<not> (isdir \<or> hasPrefix name ''.'' \<or> \<not> hasSuffix name ''.yaml''))
              entries))))"

definition loadProject :: "osView \<Rightarrow> string \<Rightarrow> string \<Rightarrow> project option \<Rightarrow> project" where
  "loadProject os source name po =
     applyDefaults (osHome os)
       ((case po of None \<Rightarrow> emptyProject | Some p \<Rightarrow> p)\<lparr>pName := name, pSource := source\<rparr>)"

text \<open>One project of a fragment: a name that is taken is an error and keeps the first.\<close>

definition mergeProject ::
    "osView \<Rightarrow> string \<Rightarrow> rawConfig \<Rightarrow> string \<Rightarrow>
      (string, project) gomap \<times> configError list \<Rightarrow> (string, project) gomap \<times> configError list" where
  "mergeProject os source frag name = (\<lambda>(projects, errs).
     case map_of projects name of
       Some prev \<Rightarrow>
         (projects, errs @ [FieldError ScopeProject name ''name'' (DefinedTwice (pSource prev) source)])
     | None \<Rightarrow>
         (mapPut name (loadProject os source name (the (map_of (rcProjects frag) name))) projects, errs))"

definition fragmentSource :: "string \<Rightarrow> string" where
  "fragmentSource file = ProjectsDirName @ ''/'' @ filepathBase file"

definition mergeFragment ::
    "osView \<Rightarrow> string \<Rightarrow> rawConfig \<Rightarrow>
      (string, project) gomap \<times> configError list \<Rightarrow> (string, project) gomap \<times> configError list" where
  "mergeFragment os file frag = (\<lambda>(projects, errs).
     fold (mergeProject os (fragmentSource file) frag) (sort (map fst (rcProjects frag)))
       (projects, errs @
         (if rcDiscovery frag \<noteq> [] then [DiscoveryInFragment (fragmentSource file)] else [])))"

fun mergeFragments ::
    "osView \<Rightarrow> (string \<Rightarrow> string + rawConfig) \<Rightarrow> string list \<Rightarrow>
      (string, project) gomap \<times> configError list \<Rightarrow>
      loadError + (string, project) gomap \<times> configError list" where
  "mergeFragments os decode [] acc = Inr acc"
| "mergeFragments os decode (file # files) acc =
     (case decode file of
        Inl e \<Rightarrow> Inl (ReadOrParseError e)
      | Inr frag \<Rightarrow> mergeFragments os decode files (mergeFragment os file frag acc))"

definition absPath :: "osView \<Rightarrow> string \<Rightarrow> string" where
  "absPath os path = (if IsAbs path then filepathClean path else filepathJoin [osCwd os, path])"

text \<open>
  \<open>LoadWithOptions\<close>. The loop that defaults the discovery entries dereferences each of them, so
  a null entry panics (before the validation that has an error for it).
\<close>

definition LoadWithOptions ::
    "osView \<Rightarrow> (string \<Rightarrow> string + rawConfig) \<Rightarrow> bool \<Rightarrow> string \<Rightarrow> loadError + config" where
  "LoadWithOptions os decode skip path0 =
     (case decode path0 of
        Inl e \<Rightarrow> Inl (ReadOrParseError e)
      | Inr raw \<Rightarrow>
          let path = absPath os path0;
              mainSource = filepathBase path;
              projects = map (\<lambda>(name, po). (name, loadProject os mainSource name po)) (rcProjects raw)
          in if None \<in> set (rcDiscovery raw) then Inl NilEntryPanic
          else (case listProjectFiles os (ProjectsDir path) of
                  Inl e \<Rightarrow> Inl e
                | Inr files \<Rightarrow>
                    (case mergeFragments os decode files (projects, []) of
                       Inl e \<Rightarrow> Inl e
                     | Inr (merged, errs) \<Rightarrow>
                         let c = \<lparr>cProjects = merged, cMaxRunning = rcMaxRunning raw,
                                  cDiscovery = map (map_option (discoveryDefaults (osHome os)))
                                    (rcDiscovery raw),
                                  cPath = path\<rparr>;
                             all_errs = errs @ configValidate os skip c
                         in if all_errs = [] then Inr c else Inl (InvalidConfig all_errs))))"

text \<open>\<open>DecodeFragment\<close>: a fragment as it is written.\<close>

definition DecodeFragment ::
    "(string \<Rightarrow> string + rawConfig) \<Rightarrow> string \<Rightarrow> configError + (string, project) gomap" where
  "DecodeFragment decode path =
     (case decode path of
        Inl e \<Rightarrow> Inl (FieldError ScopeProject path e EmptyValue)
      | Inr frag \<Rightarrow>
          if rcDiscovery frag \<noteq> [] then Inl (DiscoveryInFragment path)
          else Inr (map (\<lambda>(name, po).
                 (name, (case po of None \<Rightarrow> emptyProject | Some p \<Rightarrow> p)\<lparr>pName := name\<rparr>))
               (rcProjects frag)))"

section \<open>The claims, as a fold over single ports\<close>

record portUse =
  puName :: string
  puField :: string
  puPort :: int
  puHost :: string
  puListen :: string

definition compatible :: "portUse \<Rightarrow> portUse \<Rightarrow> bool" where
  "compatible u v \<longleftrightarrow>
     puPort u \<noteq> puPort v \<or>
     (puField u = supField \<and> puField v = supField \<and> puHost u \<noteq> [] \<and> puHost v \<noteq> [] \<and>
      puListen u = puListen v)"

definition usesOf :: "string \<Rightarrow> project \<Rightarrow> portUse list" where
  "usesOf name p =
     [\<lparr>puName = name, puField = supField, puPort = pSupervisorPort p, puHost = pHost p,
       puListen = pListenHost p\<rparr>,
      \<lparr>puName = name, puField = appField, puPort = pApplicationPort p, puHost = pHost p,
       puListen = pListenHost p\<rparr>]"

lemma compatible_sym: "compatible u v = compatible v u"
  by (auto simp: compatible_def)

lemma compatible_trans_port:
  "compatible u v \<Longrightarrow> compatible u w \<Longrightarrow> puPort u = puPort v \<Longrightarrow> puPort u = puPort w \<Longrightarrow> compatible v w"
  by (auto simp: compatible_def)

text \<open>
  What the claims map stands for: the port of every use seen so far is claimed, by one of them
  that is compatible with all of them; and nothing else is claimed.
\<close>

definition claimUse :: "int \<Rightarrow> portClaim \<Rightarrow> portUse" where
  "claimUse port cl =
     \<lparr>puName = pcProject cl, puField = pcField cl, puPort = port, puHost = pcHost cl,
      puListen = pcListenHost cl\<rparr>"

definition claimsFor :: "portUse set \<Rightarrow> (int, portClaim) gomap \<Rightarrow> bool" where
  "claimsFor us claimed \<longleftrightarrow>
     (\<forall>u \<in> us. \<exists>cl. map_of claimed (puPort u) = Some cl \<and>
        (claimUse (puPort u) cl = u \<or> compatible (claimUse (puPort u) cl) u)) \<and>
     (\<forall>port. map_of claimed port \<noteq> None \<longrightarrow> port \<in> puPort ` us)"

lemma claimPort_ok:
  assumes "claimsFor us claimed" and "isValidPort (puPort u)"
    and "u = \<lparr>puName = name, puField = field, puPort = port, puHost = pHost p, puListen = pListenHost p\<rparr>"
    and "claimPort name p (field, port) claimed = (claimed', [])"
  shows "claimsFor (insert u us) claimed' \<and> (\<forall>v \<in> us. compatible v u \<or> v = u)"
proof (cases "map_of claimed port")
  case None
  with assms(2-4) have c: "claimed' = mapPut port \<lparr>pcProject = name, pcField = field, pcHost = pHost p,
      pcListenHost = pListenHost p\<rparr> claimed" by (simp add: claimPort_def)
  have fresh: "puPort v \<noteq> port" if "v \<in> us" for v
    using assms(1) None that by (auto simp: claimsFor_def)
  show ?thesis
    using assms(1,3) fresh unfolding c
    by (auto simp: claimsFor_def gomap_simps claimUse_def compatible_def)
next
  case (Some prev)
  with assms(2-4) have c: "claimed' = claimed" and u: "compatible (claimUse port prev) u"
    by (auto simp: claimPort_def compatible_def claimUse_def split: if_splits)
  have "compatible v u \<or> v = u" if "v \<in> us" for v
  proof (cases "puPort v = port")
    case True
    then have "claimUse port prev = v \<or> compatible (claimUse port prev) v"
      using assms(1) Some that by (auto simp: claimsFor_def)
    then show ?thesis using u compatible_trans_port [OF _ u, of v] True assms(3)
      by (auto simp: claimUse_def)
  next
    case False
    then show ?thesis using assms(3) by (simp add: compatible_def)
  qed
  then show ?thesis using assms(1,3) Some u unfolding c by (auto simp: claimsFor_def)
qed

section \<open>The invariant of the loop over the projects\<close>

definition usesAll :: "config \<Rightarrow> string set \<Rightarrow> portUse set" where
  "usesAll c ns = (\<Union>n \<in> ns. set (usesOf n (projectOf c n)))"

definition claimInv :: "osView \<Rightarrow> bool \<Rightarrow> config \<Rightarrow> string set \<Rightarrow> claimState \<Rightarrow> bool" where
  "claimInv os skip c ns = (\<lambda>(claimed, hosts, errs). errs = [] \<longrightarrow>
     claimsFor (usesAll c ns) claimed \<and>
     (\<forall>u \<in> usesAll c ns. \<forall>v \<in> usesAll c ns. compatible u v \<or> u = v) \<and>
     (\<forall>n \<in> ns. projectOk os skip (projectOf c n) \<and> TrimSpace n \<noteq> []) \<and>
     (\<forall>n \<in> ns. pHost (projectOf c n) \<noteq> [] \<longrightarrow> map_of hosts (pHost (projectOf c n)) = Some n))"

lemma claimInv_empty: "claimInv os skip c {} ([], [], [])"
  by (simp add: claimInv_def claimsFor_def usesAll_def)

lemma usesAll_insert: "usesAll c (insert n ns) = insert (usesOf n (projectOf c n) ! 1)
    (insert (usesOf n (projectOf c n) ! 0) (usesAll c ns))"
  by (auto simp: usesAll_def usesOf_def)

lemma claims_of_project:
  assumes "claimsFor us claimed" and "isValidPort (pSupervisorPort p)" "isValidPort (pApplicationPort p)"
    and "claimPort name p (supField, pSupervisorPort p) claimed = (c1, [])"
    and "claimPort name p (appField, pApplicationPort p) c1 = (c2, [])"
  shows "claimsFor (insert (usesOf name p ! 1) (insert (usesOf name p ! 0) us)) c2"
    and "\<forall>v \<in> us. compatible v (usesOf name p ! 0) \<or> v = usesOf name p ! 0"
    and "\<forall>v \<in> insert (usesOf name p ! 0) us. compatible v (usesOf name p ! 1) \<or> v = usesOf name p ! 1"
proof -
  have 1: "claimsFor (insert (usesOf name p ! 0) us) c1 \<and>
      (\<forall>v \<in> us. compatible v (usesOf name p ! 0) \<or> v = usesOf name p ! 0)"
    by (rule claimPort_ok [OF assms(1) _ _ assms(4)]) (simp_all add: usesOf_def assms)
  then have 2: "claimsFor (insert (usesOf name p ! 1) (insert (usesOf name p ! 0) us)) c2 \<and>
      (\<forall>v \<in> insert (usesOf name p ! 0) us. compatible v (usesOf name p ! 1) \<or> v = usesOf name p ! 1)"
    by (intro claimPort_ok [OF _ _ _ assms(5)]) (simp_all add: usesOf_def assms)
  from 1 2 show "claimsFor (insert (usesOf name p ! 1) (insert (usesOf name p ! 0) us)) c2"
    "\<forall>v \<in> us. compatible v (usesOf name p ! 0) \<or> v = usesOf name p ! 0"
    "\<forall>v \<in> insert (usesOf name p ! 0) us. compatible v (usesOf name p ! 1) \<or> v = usesOf name p ! 1"
    by blast+
qed

lemma validateProject_empty:
  assumes "validateProject os skip c name (claimed, hosts, errs) = (claimed', hosts', [])"
  shows "errs = []" and "TrimSpace name \<noteq> []" and "projectOk os skip (projectOf c name)"
    and "pHost (projectOf c name) \<noteq> [] \<Longrightarrow>
      map_of hosts (pHost (projectOf c name)) = None \<and>
      hosts' = mapPut (pHost (projectOf c name)) name hosts"
    and "pHost (projectOf c name) = [] \<Longrightarrow> hosts' = hosts"
    and "\<exists>c1. claimPort name (projectOf c name) (supField, pSupervisorPort (projectOf c name)) claimed = (c1, []) \<and>
      claimPort name (projectOf c name) (appField, pApplicationPort (projectOf c name)) c1 = (claimed', [])"
proof -
  let ?p = "projectOf c name"
  obtain c1 e4 where 4: "claimPort name ?p (supField, pSupervisorPort ?p) claimed = (c1, e4)"
    by (cases "claimPort name ?p (supField, pSupervisorPort ?p) claimed")
  obtain c2 e5 where 5: "claimPort name ?p (appField, pApplicationPort ?p) c1 = (c2, e5)"
    by (cases "claimPort name ?p (appField, pApplicationPort ?p) c1")
  note a = assms [unfolded validateProject_def Let_def split_def, simplified 4 5 prod.case split_def]
  show "errs = []" using a by (simp add: 4 5)
  show "TrimSpace name \<noteq> []" using a by (simp add: 4 5 split: if_splits)
  show "projectOk os skip ?p" using a by (simp add: 4 5 projectValidate_ok)
  show "pHost ?p = [] \<Longrightarrow> hosts' = hosts" using a by (simp add: 4 5)
  show "pHost ?p \<noteq> [] \<Longrightarrow> map_of hosts (pHost ?p) = None \<and> hosts' = mapPut (pHost ?p) name hosts"
    using a by (auto simp: 4 5 split: option.splits)
  have "e4 = []" "e5 = []" "c2 = claimed'" using a by (simp_all add: 4 5)
  with 4 5 show "\<exists>c1. claimPort name ?p (supField, pSupervisorPort ?p) claimed = (c1, []) \<and>
      claimPort name ?p (appField, pApplicationPort ?p) c1 = (claimed', [])" by blast
qed

lemma claimInv_step:
  assumes "claimInv os skip c ns st"
  shows "claimInv os skip c (insert name ns) (validateProject os skip c name st)"
proof -
  obtain claimed hosts errs where st: "st = (claimed, hosts, errs)" by (cases st)
  obtain claimed' hosts' errs' where r: "validateProject os skip c name st = (claimed', hosts', errs')"
    by (cases "validateProject os skip c name st")
  let ?p = "projectOf c name"
  show ?thesis
  proof (cases "errs' = []")
    case True
    note v = validateProject_empty [of os skip c name claimed hosts errs claimed' hosts',
        OF r [unfolded st True]]
    from v(6) obtain c1 where c1: "claimPort name ?p (supField, pSupervisorPort ?p) claimed = (c1, [])"
      "claimPort name ?p (appField, pApplicationPort ?p) c1 = (claimed', [])" by blast
    have inv: "claimsFor (usesAll c ns) claimed"
      "\<forall>u \<in> usesAll c ns. \<forall>v \<in> usesAll c ns. compatible u v \<or> u = v"
      "\<forall>n \<in> ns. projectOk os skip (projectOf c n) \<and> TrimSpace n \<noteq> []"
      "\<forall>n \<in> ns. pHost (projectOf c n) \<noteq> [] \<longrightarrow> map_of hosts (pHost (projectOf c n)) = Some n"
      using assms v(1) by (simp_all add: claimInv_def st)
    have ports: "isValidPort (pSupervisorPort ?p)" "isValidPort (pApplicationPort ?p)"
      using v(3) by (simp_all add: projectOk_def)
    note cl = claims_of_project [OF inv(1) ports c1]
    have pair: "\<forall>u \<in> usesAll c (insert name ns). \<forall>v \<in> usesAll c (insert name ns). compatible u v \<or> u = v"
      unfolding usesAll_insert using cl(2,3) inv(2) compatible_sym by (metis insert_iff)
    have hosts: "\<forall>n \<in> insert name ns. pHost (projectOf c n) \<noteq> [] \<longrightarrow>
        map_of hosts' (pHost (projectOf c n)) = Some n"
    proof (cases "pHost ?p = []")
      case True
      then show ?thesis using v(5) inv(4) by simp
    next
      case False
      note h = v(4) [OF False]
      have "pHost (projectOf c n) \<noteq> pHost ?p" if "n \<in> ns" "pHost (projectOf c n) \<noteq> []" for n
        using h inv(4) that by (metis option.distinct(1))
      then show ?thesis using h inv(4) by (auto simp: gomap_simps)
    qed
    show ?thesis
      using cl(1) pair hosts inv(3) v(2,3) unfolding r claimInv_def usesAll_insert by simp
  next
    case False
    then show ?thesis by (simp add: r claimInv_def)
  qed
qed

lemma claimInv_fold:
  "claimInv os skip c ns st \<Longrightarrow>
    claimInv os skip c (set names \<union> ns) (fold (validateProject os skip c) names st)"
proof (induction names arbitrary: ns st)
  case (Cons n names)
  then show ?case using claimInv_step [of os skip c ns st n] by fastforce
qed simp

section \<open>Discovery entries\<close>

lemma validateEntries_ok:
  "validateEntries os i seen ds = [] \<Longrightarrow>
     None \<notin> set ds \<and> (\<forall>d. Some d \<in> set ds \<longrightarrow> (\<exists>l. entryProblems os l d = []))"
  by (induction os i seen ds rule: validateEntries.induct)
    (auto simp: discoveryValidate_def)

lemma entryProblems_wildcard:
  "entryProblems os l d = [] \<Longrightarrow> Wildcard d \<Longrightarrow> isValidPort (SupervisorPort d)"
  by (auto simp: entryProblems_def checkWildcardEntry_def checkPort_def SupervisorPort_def
      split: if_splits)

definition portsOf :: "discovery option list \<Rightarrow> int list" where
  "portsOf ds = [SupervisorPort d. Some d \<leftarrow> ds, Wildcard d]"

lemma portsOf_simps [simp]:
  "portsOf [] = []" "portsOf (None # ds) = portsOf ds"
  "portsOf (Some d # ds) = (if Wildcard d then SupervisorPort d # portsOf ds else portsOf ds)"
  by (simp_all add: portsOf_def)

lemma claimWildcards_ok:
  "claimWildcards claimed ds = [] \<Longrightarrow> \<forall>d. Some d \<in> set ds \<and> Wildcard d \<longrightarrow> isValidPort (SupervisorPort d) \<Longrightarrow>
     distinct (portsOf ds) \<and> (\<forall>port \<in> set (portsOf ds). map_of claimed port = None)"
proof (induction claimed ds rule: claimWildcards.induct)
  case (3 claimed d ds)
  show ?case
  proof (cases "Wildcard d")
    case True
    then have v: "isValidPort (SupervisorPort d)" using "3.prems"(2) by simp
    with True "3.prems"(1) have none: "map_of claimed (SupervisorPort d) = None"
      by (simp split: option.splits)
    let ?cl = "\<lparr>pcProject = ''discovery:'' @ dName d, pcField = supField, pcHost = [], pcListenHost = []\<rparr>"
    have c: "claimWildcards (mapPut (SupervisorPort d) ?cl claimed) ds = []"
      using "3.prems"(1) True v none by simp
    have "distinct (portsOf ds) \<and>
        (\<forall>port \<in> set (portsOf ds). map_of (mapPut (SupervisorPort d) ?cl claimed) port = None)"
      using "3.prems"(2) True v by (intro "3.IH"(2) [OF _ none c]) auto
    then show ?thesis using True none by (auto simp: gomap_simps split: if_splits)
  next
    case False
    with "3.IH" "3.prems" show ?thesis by simp
  qed
qed auto

section \<open>Properties\<close>


text \<open>A machine where every path is a directory, and two projects sharing a port by host.\<close>

definition demoOS :: osView where
  "demoOS = \<lparr>osHome = None, osCwd = ''/'', osStat = (\<lambda>_. Some Directory), osReadDir = (\<lambda>_. Some (Inr [(''b.yaml'', False), (''.x.yaml'', False)])),
     osReadFile = (\<lambda>_. None), osURL = (\<lambda>_. Some (''https'', ''h'')),
     osLoopbackIP = (\<lambda>h. h = ''127.0.0.1''), osGlob = (\<lambda>_ _. Some False)\<rparr>"

definition demoProject :: "string \<Rightarrow> string \<Rightarrow> string \<Rightarrow> int \<Rightarrow> int \<Rightarrow> project" where
  "demoProject name source host sport aport =
     applyDefaults None (emptyProject\<lparr>pName := name, pSource := source, pHost := host, pSupervisorPort := sport,
       pApplicationPort := aport, pWorkingDirectory := ''/p'', pCommand := ''run''\<rparr>)"

definition demoConfig :: config where
  "demoConfig = \<lparr>cProjects = [(''b'', demoProject ''b'' ''projects.d/b.yaml'' ''b.test'' 41000 5174),
       (''a'', demoProject ''a'' ''c.yaml'' ''a.test'' 41000 5173)],
     cMaxRunning = 1, cDiscovery = [], cPath = ''/c.yaml''\<rparr>"

lemma ToLower_Nil_iff [simp]: "ToLower s = [] \<longleftrightarrow> s = []"
  by (simp add: ToLower_def)

lemma demoProject_simps:
  "TrimSpace host = host \<Longrightarrow> isValidPort aport \<Longrightarrow>
   demoProject name source host sport aport =
     emptyProject\<lparr>pName := name, pSource := source, pHost := ToLower host, pSupervisorPort := sport,
       pApplicationPort := aport, pWorkingDirectory := ''/p'', pCommand := ''run'',
       pPublicURL := (if host = [] then [] else ''https://'' @ ToLower host),
       pListenHost := ''127.0.0.1'', pReadinessStrategy := ''http'',
       pReadinessURL := ''http://127.0.0.1:'' @ Itoa aport @ ''/'', pStartupTimeoutSeconds := 60,
       pIdleTimeoutMinutes := 15, pShutdownSignal := ''SIGTERM'', pShutdownTimeoutSeconds := 10,
       pWebSocketsKeepAlive := Some True, pDiagnosticLogs := Some True, pLogRetentionDays := 7,
       pHoldMaxWaitSeconds := 65, pHoldMaxRequests := 100\<rparr>"
  by (simp add: demoProject_def applyDefaults_def Let_def emptyProject_def default_consts TrimSpace_id
      expandHome_def hasHomePrefix_def slash_def ToLower_Nil_iff)

lemma demo_trim: "TrimSpace ''a.test'' = ''a.test''" "TrimSpace ''b.test'' = ''b.test''"
  "TrimSpace ''run'' = ''run''" "TrimSpace ''a'' = ''a''" "TrimSpace ''b'' = ''b''"
  by (simp_all add: TrimSpace_printable printable_def)

lemma demo_syntax: "isValidPort 5173" "isValidPort 5174" "isValidPort 41000"
  "ToLower ''a.test'' = ''a.test''" "ToLower ''b.test'' = ''b.test''"
  "IsHostname ''a.test''" "IsHostname ''b.test''"
  by (simp_all add: isValidPort_def ToLower_def lowerByte_def IsHostname_def IsDNSLabel_def labelChar_def)

lemma demoProjects_ok:
  "projectOk demoOS False (demoProject ''a'' ''c.yaml'' ''a.test'' 41000 5173)"
  "projectOk demoOS False (demoProject ''b'' ''projects.d/b.yaml'' ''b.test'' 41000 5174)"
  by (simp_all add: demoProject_simps demo_trim demo_syntax projectOk_def demoOS_def checkHTTPURL_def
      isLoopbackHost_def emptyProject_def ReadinessHTTP_def validShutdownSignals_def)

lemma demo_fields:
  "pHost (demoProject ''a'' ''c.yaml'' ''a.test'' 41000 5173) = ''a.test''"
  "pHost (demoProject ''b'' ''projects.d/b.yaml'' ''b.test'' 41000 5174) = ''b.test''"
  "pListenHost (demoProject ''a'' ''c.yaml'' ''a.test'' 41000 5173) = ''127.0.0.1''"
  "pListenHost (demoProject ''b'' ''projects.d/b.yaml'' ''b.test'' 41000 5174) = ''127.0.0.1''"
  "pSupervisorPort (demoProject name source host sport aport) = sport"
  "pApplicationPort (demoProject name source host sport aport) = aport"
  "pAlwaysOn (demoProject name source host sport aport) = False"
  by (simp_all add: demoProject_simps demo_trim demo_syntax)
    (simp_all add: demoProject_def emptyProject_def)

lemma demoConfig_valid: "configValidate demoOS False demoConfig = []"
proof -
  have n: "ProjectNames demoConfig = [''a'', ''b'']"
    by (simp add: ProjectNames_def demoConfig_def less_eq_char_def less_char_def)
  have p: "projectOf demoConfig ''a'' = demoProject ''a'' ''c.yaml'' ''a.test'' 41000 5173"
    "projectOf demoConfig ''b'' = demoProject ''b'' ''projects.d/b.yaml'' ''b.test'' 41000 5174"
    by (simp_all add: demoConfig_def projectOf_def)
  have v: "projectValidate demoOS False (demoProject ''a'' ''c.yaml'' ''a.test'' 41000 5173) = []"
    "projectValidate demoOS False (demoProject ''b'' ''projects.d/b.yaml'' ''b.test'' 41000 5174) = []"
    by (simp_all add: projectValidate_ok demoProjects_ok)
  have e: "snd (snd (fold (validateProject demoOS False demoConfig) (ProjectNames demoConfig) ([], [], []))) = []"
    by (simp add: n validateProject_def Let_def v demo_trim demo_syntax p demo_fields claimPort_def
        mapPut_def mapDelete_def supField_def appField_def)
  have b: "validateBudget demoConfig = []"
    by (simp add: validateBudget_def n p demo_fields) (simp add: demoConfig_def)
  have d: "cDiscovery demoConfig = []" by (simp add: demoConfig_def)
  show ?thesis unfolding configValidate_def Let_def split_def e b validateDiscovery_def d by simp
qed


lemma map_of_map_key: "map_of (map (\<lambda>(k, v). (k, f k v)) xs) k = map_option (f k) (map_of xs k)"
  by (induction xs) auto

lemma mergeProject_fresh:
  "map_of P n = None \<Longrightarrow> mergeProject os src frag n (P, errs) =
     (mapPut n (loadProject os src n (the (map_of (rcProjects frag) n))) P, errs)"
  by (simp add: mergeProject_def)

lemma mergeProject_taken:
  "map_of P n = Some prev \<Longrightarrow> mergeProject os src frag n (P, errs) =
     (P, errs @ [FieldError ScopeProject n ''name'' (DefinedTwice (pSource prev) src)])"
  by (simp add: mergeProject_def)

lemma mergeProjects_ok:
  "fold (mergeProject os src frag) names (P, errs) = (P', []) \<Longrightarrow>
     errs = [] \<and> (\<forall>n \<in> set names. map_of P n = None) \<and>
     map_of P' = (\<lambda>n. if n \<in> set names
       then Some (loadProject os src n (the (map_of (rcProjects frag) n))) else map_of P n)"
proof (induction names arbitrary: P errs)
  case (Cons n names)
  show ?case
  proof (cases "map_of P n")
    case None
    then have "fold (mergeProject os src frag) names
        (mapPut n (loadProject os src n (the (map_of (rcProjects frag) n))) P, errs) = (P', [])"
      using Cons.prems by (simp add: mergeProject_fresh)
    from Cons.IH [OF this] None show ?thesis by (auto simp: gomap_simps split: if_splits)
  next
    case (Some prev)
    then have "fold (mergeProject os src frag) names
        (P, errs @ [FieldError ScopeProject n ''name'' (DefinedTwice (pSource prev) src)]) = (P', [])"
      using Cons.prems by (simp add: mergeProject_taken)
    from Cons.IH [OF this] show ?thesis by simp
  qed
qed simp

definition inFragments :: "(string \<Rightarrow> string + rawConfig) \<Rightarrow> string list \<Rightarrow> string \<Rightarrow> bool" where
  "inFragments decode files n \<longleftrightarrow>
     (\<exists>file \<in> set files. \<exists>frag. decode file = Inr frag \<and> map_of (rcProjects frag) n \<noteq> None)"

lemma mergeFragments_ok:
  "mergeFragments os decode files (P, errs) = Inr (P', []) \<Longrightarrow>
     errs = [] \<and>
     (\<forall>file \<in> set files. \<exists>frag. decode file = Inr frag \<and> rcDiscovery frag = [] \<and>
        (\<forall>n po. map_of (rcProjects frag) n = Some po \<longrightarrow>
           map_of P n = None \<and> map_of P' n = Some (loadProject os (fragmentSource file) n po))) \<and>
     (\<forall>n. map_of P n \<noteq> None \<longrightarrow> map_of P' n = map_of P n) \<and>
     (\<forall>n. map_of P' n \<noteq> None \<longrightarrow> map_of P n \<noteq> None \<or> inFragments decode files n)"
proof (induction files arbitrary: P errs)
  case Nil
  then show ?case by simp
next
  case (Cons fl files)
  then obtain frag where d: "decode fl = Inr frag" by (cases "decode fl") auto
  obtain P1 e1 where m: "mergeFragment os fl frag (P, errs) = (P1, e1)"
    by (cases "mergeFragment os fl frag (P, errs)")
  have rest: "mergeFragments os decode files (P1, e1) = Inr (P', [])" using Cons.prems d m by simp
  note ih = Cons.IH [OF rest]
  have names: "n \<in> set (sort (map fst (rcProjects frag))) \<longleftrightarrow> map_of (rcProjects frag) n \<noteq> None" for n
    by (simp add: map_of_eq_None_iff)
  have e1: "e1 = []" using ih by simp
  have "fold (mergeProject os (fragmentSource fl) frag) (sort (map fst (rcProjects frag)))
      (P, errs @ (if rcDiscovery frag \<noteq> [] then [DiscoveryInFragment (fragmentSource fl)] else [])) = (P1, [])"
    using m unfolding mergeFragment_def e1 by simp
  note mp = mergeProjects_ok [OF this]
  have one: "errs = []" "rcDiscovery frag = []"
    using mp by (simp_all split: if_splits)
  have fresh: "map_of P n = None" if "map_of (rcProjects frag) n \<noteq> None" for n
    using mp names that by blast
  have P1: "map_of P1 = (\<lambda>n. if map_of (rcProjects frag) n \<noteq> None
       then Some (loadProject os (fragmentSource fl) n (the (map_of (rcProjects frag) n))) else map_of P n)"
    using mp unfolding names by blast
  have new: "map_of P' n = Some (loadProject os (fragmentSource fl) n po) \<and> map_of P n = None"
    if "map_of (rcProjects frag) n = Some po" for n po
    using ih P1 fresh that by simp
  have mono: "map_of P n = None" if "map_of P1 n = None" for n
    using P1 that by (simp split: if_splits)
  have keep: "map_of P' n = map_of P n" if "map_of P n \<noteq> None" for n
  proof -
    have "map_of P1 n = map_of P n" using P1 fresh [of n] that by (cases "map_of (rcProjects frag) n") auto
    then show ?thesis using ih that by simp
  qed
  have only: "map_of P n \<noteq> None \<or> inFragments decode (fl # files) n" if "map_of P' n \<noteq> None" for n
  proof -
    have "map_of P1 n \<noteq> None \<or> inFragments decode files n" using ih that by blast
    then show ?thesis
      using P1 d unfolding inFragments_def by (cases "map_of (rcProjects frag) n = None") auto
  qed
  have "\<exists>frag. decode f = Inr frag \<and> rcDiscovery frag = [] \<and>
        (\<forall>n po. map_of (rcProjects frag) n = Some po \<longrightarrow>
           map_of P n = None \<and> map_of P' n = Some (loadProject os (fragmentSource f) n po))"
    if "f \<in> set (fl # files)" for f
  proof (cases "f = fl")
    case True
    then show ?thesis using d one new by auto
  next
    case False
    then have "f \<in> set files" using that by simp
    then show ?thesis using ih mono by meson
  qed
  then show ?case using one(1) keep only by blast
qed

lemma load_merges:
  assumes "LoadWithOptions os decode skip path0 = Inr c" and "decode path0 = Inr raw"
    and "listProjectFiles os (ProjectsDir (absPath os path0)) = Inr files"
  shows "configValidate os skip c = [] \<and>
    (\<forall>n po. map_of (rcProjects raw) n = Some po \<longrightarrow>
       map_of (cProjects c) n = Some (loadProject os (filepathBase (absPath os path0)) n po) \<and>
       \<not> inFragments decode files n) \<and>
    (\<forall>file frag n po. file \<in> set files \<and> decode file = Inr frag \<and>
       map_of (rcProjects frag) n = Some po \<longrightarrow>
       map_of (cProjects c) n = Some (loadProject os (fragmentSource file) n po)) \<and>
    (\<forall>n. map_of (cProjects c) n \<noteq> None \<longrightarrow>
       map_of (rcProjects raw) n \<noteq> None \<or> inFragments decode files n) \<and>
    (\<forall>file \<in> set files. \<exists>frag. decode file = Inr frag \<and> rcDiscovery frag = [])"
proof -
  let ?main = "map (\<lambda>(name, po). (name, loadProject os (filepathBase (absPath os path0)) name po)) (rcProjects raw)"
  have main: "map_of ?main n = map_option (loadProject os (filepathBase (absPath os path0)) n) (map_of (rcProjects raw) n)" for n
    by (rule map_of_map_key)
  obtain merged errs where m: "mergeFragments os decode files (?main, []) = Inr (merged, errs)"
    using assms by (auto simp: LoadWithOptions_def Let_def split: if_splits sum.splits)
  have c: "errs = []" "configValidate os skip c = []" "cProjects c = merged"
    using assms m by (auto simp: LoadWithOptions_def Let_def split: if_splits)
  note ok = mergeFragments_ok [OF m [unfolded c(1)], unfolded main]
  show ?thesis
    unfolding c(2,3)
  proof (intro conjI allI impI)
    fix n po assume "map_of (rcProjects raw) n = Some po"
    then show "map_of merged n = Some (loadProject os (filepathBase (absPath os path0)) n po)"
      and "\<not> inFragments decode files n"
      using ok by (auto simp: inFragments_def) fastforce+
  next
    fix fl frag n po
    assume "fl \<in> set files \<and> decode fl = Inr frag \<and> map_of (rcProjects frag) n = Some po"
    then show "map_of merged n = Some (loadProject os (fragmentSource fl) n po)" using ok by fastforce
  next
    fix n assume "map_of merged n \<noteq> None"
    then show "map_of (rcProjects raw) n \<noteq> None \<or> inFragments decode files n" using ok by fastforce
  next
    show "\<forall>file \<in> set files. \<exists>frag. decode file = Inr frag \<and> rcDiscovery frag = []" using ok by fastforce
  qed simp
qed

text \<open>
  C34. Loading merges the main file and the fragments of \<open>projects.d\<close> exactly. When a load
  succeeds the result is valid; every project of the main file and of every fragment is in it,
  named after its key, with its file as source and the defaults filled in; nothing else is; no
  name is defined twice, in particular none both in the main file and in a fragment; and no
  fragment carries discovery entries.
\<close>

theorem load_merges_exactly:
  assumes "LoadWithOptions os decode skip path0 = Inr c" and "decode path0 = Inr raw"
    and "listProjectFiles os (ProjectsDir (absPath os path0)) = Inr files"
  shows "configValidate os skip c = [] \<and>
    (\<forall>n po. map_of (rcProjects raw) n = Some po \<longrightarrow>
       map_of (cProjects c) n = Some (loadProject os (filepathBase (absPath os path0)) n po) \<and>
       \<not> inFragments decode files n) \<and>
    (\<forall>file frag n po. file \<in> set files \<and> decode file = Inr frag \<and>
       map_of (rcProjects frag) n = Some po \<longrightarrow>
       map_of (cProjects c) n = Some (loadProject os (fragmentSource file) n po)) \<and>
    (\<forall>n. map_of (cProjects c) n \<noteq> None \<longrightarrow>
       map_of (rcProjects raw) n \<noteq> None \<or> inFragments decode files n) \<and>
    (\<forall>file \<in> set files. \<exists>frag. decode file = Inr frag \<and> rcDiscovery frag = [])"
  using assms by (rule load_merges)

text \<open>A main file with one project and a fragment with another.\<close>

definition demoRaw :: "string \<Rightarrow> int \<Rightarrow> int \<Rightarrow> int \<Rightarrow> rawConfig" where
  "demoRaw name cap sport aport = \<lparr>rcProjects = [(name, Some (emptyProject\<lparr>pHost := name @ ''.test'',
       pSupervisorPort := sport, pApplicationPort := aport, pWorkingDirectory := ''/p'', pCommand := ''run''\<rparr>))],
     rcMaxRunning = cap, rcDiscovery = []\<rparr>"

definition demoDecode :: "string \<Rightarrow> string + rawConfig" where
  "demoDecode path =
     Inr (if path = ''/c.yaml'' then demoRaw ''a'' 1 41000 5173 else demoRaw ''b'' 0 41000 5174)"

lemma demo_paths:
  "absPath demoOS ''/c.yaml'' = ''/c.yaml''" "filepathBase ''/c.yaml'' = ''c.yaml''"
  "ProjectsDir ''/c.yaml'' = ''/projects.d''"
  "fragmentSource ''/projects.d/b.yaml'' = ''projects.d/b.yaml''"
  "filepathJoin [''/projects.d'', ''b.yaml''] = ''/projects.d/b.yaml''"
  by (simp_all add: absPath_def IsAbs_def slash_def filepathClean_def filepathBase_def ProjectsDir_def
      filepathDir_def filepathJoin_def fragmentSource_def ProjectsDirName_def Let_def)

lemma demo_files: "listProjectFiles demoOS ''/projects.d'' = Inr [''/projects.d/b.yaml'']"
  by (simp add: listProjectFiles_def demoOS_def hasPrefix_def hasSuffix_def demo_paths)

lemma demoLoad: "LoadWithOptions demoOS demoDecode False ''/c.yaml'' = Inr demoConfig"
proof -
  have "osHome demoOS = None" by (simp add: demoOS_def)
  then have p: "loadProject demoOS ''c.yaml'' ''a'' (the (map_of (rcProjects (demoRaw ''a'' 1 41000 5173)) ''a'')) =
      demoProject ''a'' ''c.yaml'' ''a.test'' 41000 5173"
    "loadProject demoOS ''projects.d/b.yaml'' ''b'' (the (map_of (rcProjects (demoRaw ''b'' 0 41000 5174)) ''b'')) =
      demoProject ''b'' ''projects.d/b.yaml'' ''b.test'' 41000 5174"
    by (simp_all add: loadProject_def demoRaw_def demoProject_def emptyProject_def)
  have main: "map (\<lambda>(name, po). (name, loadProject demoOS ''c.yaml'' name po)) (rcProjects (demoRaw ''a'' 1 41000 5173)) =
      [(''a'', demoProject ''a'' ''c.yaml'' ''a.test'' 41000 5173)]"
    using p(1) by (simp add: demoRaw_def)
  have "mergeFragments demoOS demoDecode [''/projects.d/b.yaml'']
      ([(''a'', demoProject ''a'' ''c.yaml'' ''a.test'' 41000 5173)], []) = Inr (cProjects demoConfig, [])"
    using p(2) by (simp add: demoDecode_def mergeFragment_def demo_paths mergeProject_fresh demoConfig_def
        mapPut_def mapDelete_def) (simp add: demoRaw_def mergeProject_fresh mapPut_def mapDelete_def)
  moreover have "demoDecode ''/c.yaml'' = Inr (demoRaw ''a'' 1 41000 5173)"
    "rcDiscovery (demoRaw ''a'' 1 41000 5173) = []" "rcMaxRunning (demoRaw ''a'' 1 41000 5173) = 1"
    by (simp_all add: demoDecode_def demoRaw_def)
  moreover have "\<lparr>cProjects = cProjects demoConfig, cMaxRunning = 1, cDiscovery = [], cPath = ''/c.yaml''\<rparr> = demoConfig"
    by (simp add: demoConfig_def)
  ultimately show ?thesis
    by (simp add: LoadWithOptions_def Let_def demo_paths demo_files main demoConfig_valid)
qed

theorem load_merges_exactly_witness:
  "\<exists>po. map_of (cProjects demoConfig) ''b'' = Some (loadProject demoOS ''projects.d/b.yaml'' ''b'' (Some po)) \<and>
     pApplicationPort po = 5174"
proof -
  have d: "demoDecode ''/c.yaml'' = Inr (demoRaw ''a'' 1 41000 5173)"
    "demoDecode ''/projects.d/b.yaml'' = Inr (demoRaw ''b'' 0 41000 5174)"
    by (simp_all add: demoDecode_def)
  have f: "listProjectFiles demoOS (ProjectsDir (absPath demoOS ''/c.yaml'')) = Inr [''/projects.d/b.yaml'']"
    by (simp add: demo_paths demo_files)
  obtain po where po: "map_of (rcProjects (demoRaw ''b'' 0 41000 5174)) ''b'' = Some (Some po)"
    "pApplicationPort po = 5174"
    by (simp add: demoRaw_def)
  show ?thesis
    using load_merges_exactly [OF demoLoad d(1) f] d(2) po by (auto simp: demo_paths)
qed

text \<open>
  An empty (null) discovery entry crashes the load. The validation has an error for such an
  entry, but the loader dereferences every entry to fill in its defaults before it validates, so
  whatever else the configuration holds the load ends in a nil dereference.
\<close>

theorem null_discovery_entry_panics:
  assumes "decode path0 = Inr raw" and "None \<in> set (rcDiscovery raw)"
  shows "LoadWithOptions os decode skip path0 = Inl NilEntryPanic \<and>
    (\<forall>c. None \<in> set (cDiscovery c) \<longrightarrow> validateDiscovery os c \<noteq> [])"
  using assms validateEntries_ok [of os 0 "[]"]
  by (auto simp: LoadWithOptions_def validateDiscovery_def Let_def)

theorem null_discovery_entry_panics_witness:
  "LoadWithOptions demoOS (\<lambda>_. Inr ((demoRaw ''a'' 0 41000 5173)\<lparr>rcDiscovery := [None]\<rparr>)) False ''/c.yaml''
     = Inl NilEntryPanic"
  using null_discovery_entry_panics
    [of "\<lambda>_. Inr ((demoRaw ''a'' 0 41000 5173)\<lparr>rcDiscovery := [None]\<rparr>)" "''/c.yaml''"
      "(demoRaw ''a'' 0 41000 5173)\<lparr>rcDiscovery := [None]\<rparr>" demoOS False]
  by simp

end
