(* ===== verification/EnvFile.thy ===== *)
theory EnvFile
  imports ProjectConfig
begin

text \<open>
  Env files and the environment of a child process (\<open>internal/envfile/envfile.go\<close>): the dotenv
  parser, loading several files with the later one winning, the precedence in which the daemon's
  environment, \<open>node_path\<close>, the env files and the inline \<open>env\<close> map are combined, and the rule that
  masks sensitive names. Strings are bytes; the case-insensitive match of \<open>Sensitive\<close> folds ASCII.
\<close>

unbundle bit_operations_syntax

record envVar =
  vName :: string
  vValue :: string

datatype lineError =
    NoEquals
  | NotAnIdentifier
  | UnterminatedSingle
  | UnterminatedDouble
  | TrailingText

datatype envError =
    ParseError string nat lineError
  | EnvReadError string string

section \<open>Parsing\<close>

definition letterOrUnderscore :: "char \<Rightarrow> bool" where
  "letterOrUnderscore c \<longleftrightarrow>
     (let n = (of_char c :: nat) in (65 \<le> n \<and> n \<le> 90) \<or> (97 \<le> n \<and> n \<le> 122) \<or> n = 95)"

definition decimalDigit :: "char \<Rightarrow> bool" where
  "decimalDigit c \<longleftrightarrow> (let n = (of_char c :: nat) in 48 \<le> n \<and> n \<le> 57)"

definition validName :: "string \<Rightarrow> bool" where
  "validName s \<longleftrightarrow>
     (case s of [] \<Rightarrow> False
      | c # r \<Rightarrow> letterOrUnderscore c \<and> list_all (\<lambda>d. letterOrUnderscore d \<or> decimalDigit d) r)"

definition cutExport :: "string \<Rightarrow> string option" where
  "cutExport line =
     (case cutPrefix line ''export'' of
        None \<Rightarrow> None
      | Some rest \<Rightarrow>
          if rest = [] \<or> (hd rest \<noteq> CHR '' '' \<and> hd rest \<noteq> CHR 0x09) then None
          else Some (dropWhile (\<lambda>c. c = CHR '' '' \<or> c = CHR 0x09) rest))"

definition quote :: char where "quote = CHR 0x22"
definition backslash :: char where "backslash = CHR 0x5C"
definition squote :: char where "squote = CHR 0x27"
definition newline :: char where "newline = CHR 0x0A"
definition equalsSign :: char where "equalsSign = CHR ''=''"

fun parseDoubleQuoted :: "string \<Rightarrow> lineError + string" where
  "parseDoubleQuoted [] = Inl UnterminatedDouble"
| "parseDoubleQuoted (c # rest) =
     (if c = quote then (if TrimSpace rest \<noteq> [] then Inl TrailingText else Inr [])
      else if c = backslash
      then (case rest of
              [] \<Rightarrow> Inl UnterminatedDouble
            | d # rest' \<Rightarrow>
                map_sum id
                  (\<lambda>b. (if d = CHR ''n'' then [newline]
                        else if d = quote then [quote]
                        else if d = backslash then [backslash]
                        else [backslash, d]) @ b)
                  (parseDoubleQuoted rest'))
      else map_sum id (\<lambda>b. c # b) (parseDoubleQuoted rest))"

definition parseValue :: "string \<Rightarrow> lineError + string" where
  "parseValue value =
     (case value of
        [] \<Rightarrow> Inr []
      | c # r \<Rightarrow>
          if c = squote
          then (case cutByte squote r of
                  None \<Rightarrow> Inl UnterminatedSingle
                | Some (body, rest) \<Rightarrow> if TrimSpace rest \<noteq> [] then Inl TrailingText else Inr body)
          else if c = quote then parseDoubleQuoted r
          else Inr value)"

definition parseLine :: "string \<Rightarrow> lineError + envVar" where
  "parseLine line0 =
     (let line = (case cutExport line0 of Some rest \<Rightarrow> rest | None \<Rightarrow> line0) in
      case cutByte equalsSign line of
        None \<Rightarrow> Inl NoEquals
      | Some (name0, value) \<Rightarrow>
          let name = TrimSpace name0 in
          if \<not> validName name then Inl NotAnIdentifier
          else map_sum id (\<lambda>parsed. \<lparr>vName = name, vValue = parsed\<rparr>) (parseValue (TrimSpace value)))"

text \<open>The first earlier variable of the same name goes; the new one is appended.\<close>

fun dropName :: "string \<Rightarrow> envVar list \<Rightarrow> envVar list" where
  "dropName n [] = []"
| "dropName n (w # ws) = (if vName w = n then ws else w # dropName n ws)"

definition override :: "envVar list \<Rightarrow> envVar \<Rightarrow> envVar list" where
  "override vars v = dropName (vName v) vars @ [v]"

fun parseLines :: "nat \<Rightarrow> envVar list \<Rightarrow> string list \<Rightarrow> nat \<times> lineError + envVar list" where
  "parseLines lineNo vars [] = Inr vars"
| "parseLines lineNo vars (raw # raws) =
     (let trimmed = TrimSpace (trimSuffix raw [CHR 0x0D]) in
      if trimmed = [] \<or> hasPrefix trimmed ''#'' then parseLines (Suc lineNo) vars raws
      else (case parseLine trimmed of
              Inl e \<Rightarrow> Inl (lineNo, e)
            | Inr v \<Rightarrow> parseLines (Suc lineNo) (override vars v) raws))"

definition utf8BOM :: string where
  "utf8BOM = [CHR 0xEF, CHR 0xBB, CHR 0xBF]"

definition Parse :: "string \<Rightarrow> nat \<times> lineError + envVar list" where
  "Parse data = parseLines 1 [] (splitByte newline (trimPrefix data utf8BOM))"

section \<open>Loading\<close>

datatype readResult = FileData string | NotExist | ReadFailed string

text \<open>\<open>eoMode\<close> is the permission bits of \<open>os.Stat\<close> (\<open>None\<close>: it fails).\<close>

record envOS =
  eoRead :: "string \<Rightarrow> readResult"
  eoMode :: "string \<Rightarrow> int option"
  eoIsDir :: "string \<Rightarrow> bool"
  eoEnviron :: "string list"
  eoPATH :: string

definition permissionWarning :: "envOS \<Rightarrow> string \<Rightarrow> (string \<times> int) option" where
  "permissionWarning os path =
     (case eoMode os path of
        None \<Rightarrow> None
      | Some perm \<Rightarrow> if perm AND 36 = 0 then None else Some (path, perm))"

text \<open>The result carries the warnings alongside an error, as the code does.\<close>

type_synonym warnings = "(string \<times> int) list"

fun loadRefs ::
    "envOS \<Rightarrow> envFileRef list \<Rightarrow> envVar list \<Rightarrow> warnings \<Rightarrow>
      (envError + envVar list) \<times> warnings" where
  "loadRefs os [] vars ws = (Inr vars, ws)"
| "loadRefs os (ref # refs) vars ws =
     (case eoRead os (refPath ref) of
        NotExist \<Rightarrow>
          if refOptional ref then loadRefs os refs vars ws
          else (Inl (EnvReadError (refPath ref) ''not exist''), ws)
      | ReadFailed e \<Rightarrow> (Inl (EnvReadError (refPath ref) e), ws)
      | FileData data \<Rightarrow>
          (let ws' = (case permissionWarning os (refPath ref) of None \<Rightarrow> ws | Some w \<Rightarrow> ws @ [w]) in
           case Parse data of
             Inl (n, e) \<Rightarrow> (Inl (ParseError (refPath ref) n e), ws')
           | Inr parsed \<Rightarrow> loadRefs os refs (foldl override vars parsed) ws'))"

definition Load :: "envOS \<Rightarrow> envFileRef list \<Rightarrow> (envError + envVar list) \<times> warnings" where
  "Load os refs = loadRefs os refs [] []"

definition envEntry :: "string \<Rightarrow> string \<Rightarrow> string" where
  "envEntry name value = name @ equalsSign # value"

definition nodePathEntry :: "envOS \<Rightarrow> project \<Rightarrow> string list" where
  "nodePathEntry os p =
     (if pNodePath p = [] then []
      else [envEntry ''PATH''
              ((if eoIsDir os (pNodePath p) then pNodePath p else filepathDir (pNodePath p)) @
               '':'' @ eoPATH os)])"

definition ChildEnv ::
    "envOS \<Rightarrow> project \<Rightarrow> string \<Rightarrow> (envError + string list) \<times> warnings" where
  "ChildEnv os p dir =
     (case Load os (EnvFileRefs p dir) of
        (Inl e, ws) \<Rightarrow> (Inl e, ws)
      | (Inr vars, ws) \<Rightarrow>
          (Inr (eoEnviron os @ nodePathEntry os p @
                map (\<lambda>v. envEntry (vName v) (vValue v)) vars @
                map (\<lambda>k. envEntry k (the (map_of (pEnv p) k))) (sort (map fst (pEnv p)))),
           ws))"

section \<open>Sensitive names\<close>

definition sensitiveWords :: "string list" where
  "sensitiveWords =
     [''password'', ''secret'', ''token'', ''key'', ''login'', ''dsn'', ''url'']"

definition Sensitive :: "string \<Rightarrow> bool" where
  "Sensitive name \<longleftrightarrow> list_ex (containsStr (ToLower name)) sensitiveWords"

definition Redacted :: string where
  "Redacted = ''[redacted]''"

definition Display :: "string \<Rightarrow> string \<Rightarrow> string" where
  "Display name value = (if Sensitive name then Redacted else value)"

section \<open>One entry per name, the last wins\<close>

definition varsOf :: "envVar list \<Rightarrow> string \<Rightarrow> string option" where
  "varsOf vars = map_of (map (\<lambda>v. (vName v, vValue v)) vars)"

definition oneEach :: "envVar list \<Rightarrow> bool" where
  "oneEach vars \<longleftrightarrow> distinct (map vName vars)"

lemma varsOf_Nil [simp]: "varsOf [] = Map.empty"
  by (simp add: varsOf_def)

lemma dropName_absent: "n \<notin> vName ` set vars \<Longrightarrow> dropName n vars = vars"
  by (induction vars) auto

lemma dropName_filter: "oneEach vars \<Longrightarrow> dropName n vars = filter (\<lambda>v. vName v \<noteq> n) vars"
proof (induction vars)
  case (Cons w ws)
  have "vName w' \<noteq> vName w" if "w' \<in> set ws" for w'
    using Cons.prems that by (simp add: oneEach_def) (metis imageI)
  then have "vName w = n \<Longrightarrow> filter (\<lambda>v. vName v \<noteq> n) ws = ws" by (auto simp: filter_id_conv)
  with Cons show ?case by (auto simp: oneEach_def)
qed simp

lemma dropName_names: "oneEach vars \<Longrightarrow>
    set (map vName (dropName n vars)) = set (map vName vars) - {n} \<and> oneEach (dropName n vars)"
  by (auto simp: dropName_filter) (simp add: oneEach_def distinct_map_filter)

lemma dropName_varsOf: "oneEach vars \<Longrightarrow> varsOf (dropName n vars) = (varsOf vars)(n := None)"
  by (induction vars) (auto simp: oneEach_def varsOf_def map_of_eq_None_iff image_image intro!: ext)

lemma override_oneEach: "oneEach vars \<Longrightarrow> oneEach (override vars v)"
  using dropName_names [of vars "vName v"] by (auto simp: oneEach_def override_def)

lemma override_varsOf: "oneEach vars \<Longrightarrow> varsOf (override vars v) = (varsOf vars)(vName v \<mapsto> vValue v)"
  using dropName_varsOf [of vars "vName v"] dropName_names [of vars "vName v"]
  by (auto simp: varsOf_def override_def map_add_def split: option.splits intro!: ext)

lemma foldl_override:
  "oneEach vars \<Longrightarrow> oneEach (foldl override vars vs) \<and>
     varsOf (foldl override vars vs) = varsOf vars ++ varsOf (rev vs)"
proof (induction vs rule: rev_induct)
  case Nil
  then show ?case by (simp add: varsOf_def)
next
  case (snoc v vs)
  have "varsOf (rev (vs @ [v])) = (varsOf (rev vs))(vName v \<mapsto> vValue v)" by (simp add: varsOf_def)
  with snoc show ?case by (simp add: override_oneEach override_varsOf map_add_def fun_eq_iff)
qed

lemma override_names: "set (map vName (override vars v)) \<subseteq> set (map vName vars) \<union> {vName v}"
proof -
  have "set (map vName (dropName n vars)) \<subseteq> set (map vName vars)" for n
    by (induction vars) auto
  then show ?thesis by (auto simp: override_def)
qed

lemma parseLine_valid: "parseLine l = Inr v \<Longrightarrow> validName (vName v)"
proof -
  assume a: "parseLine l = Inr v"
  define ln where "ln = (case cutExport l of Some rest \<Rightarrow> rest | None \<Rightarrow> l)"
  from a obtain name0 val where c: "cutByte equalsSign ln = Some (name0, val)"
    by (auto simp: parseLine_def ln_def [symmetric] split: option.splits)
  with a have "validName (TrimSpace name0)"
    by (simp add: parseLine_def ln_def [symmetric] Let_def split: if_splits)
  moreover from a c this have "vName v = TrimSpace name0"
    by (cases "parseValue (TrimSpace val)") (auto simp: parseLine_def ln_def [symmetric] Let_def)
  ultimately show ?thesis by simp
qed

lemma override_valid:
  "list_all (\<lambda>v. validName (vName v)) vars \<Longrightarrow> validName (vName v) \<Longrightarrow>
    list_all (\<lambda>v. validName (vName v)) (override vars v)"
  using override_names [of vars v] by (fastforce simp: list_all_iff)

lemma foldl_override_valid:
  "list_all (\<lambda>v. validName (vName v)) vars \<Longrightarrow> list_all (\<lambda>v. validName (vName v)) vs \<Longrightarrow>
    list_all (\<lambda>v. validName (vName v)) (foldl override vars vs)"
  by (induction vs arbitrary: vars) (auto simp: override_valid)

lemma parseLines_ok:
  "parseLines n vars raws = Inr vs \<Longrightarrow> oneEach vars \<Longrightarrow> list_all (\<lambda>v. validName (vName v)) vars \<Longrightarrow>
    oneEach vs \<and> list_all (\<lambda>v. validName (vName v)) vs"
proof (induction n vars raws rule: parseLines.induct)
  case (2 lineNo vars raw raws)
  then show ?case
    by (auto simp: Let_def parseLine_valid override_oneEach override_valid split: if_splits sum.splits)
qed simp

lemma Parse_ok: "Parse data = Inr vs \<Longrightarrow> oneEach vs \<and> list_all (\<lambda>v. validName (vName v)) vs"
  unfolding Parse_def by (erule parseLines_ok) (simp_all add: oneEach_def)

section \<open>What a list of files defines\<close>

text \<open>The variables of one readable file, and of the files in order, the last one winning.\<close>

definition fileVars :: "envOS \<Rightarrow> envFileRef \<Rightarrow> string \<Rightarrow> string option" where
  "fileVars os ref =
     (case eoRead os (refPath ref) of
        FileData data \<Rightarrow> (case Parse data of Inr vs \<Rightarrow> varsOf vs | Inl _ \<Rightarrow> Map.empty)
      | _ \<Rightarrow> Map.empty)"

definition readable :: "envOS \<Rightarrow> envFileRef \<Rightarrow> bool" where
  "readable os ref \<longleftrightarrow>
     (case eoRead os (refPath ref) of
        FileData data \<Rightarrow> \<not> isError (Parse data)
      | NotExist \<Rightarrow> refOptional ref
      | ReadFailed _ \<Rightarrow> False)"

lemma oneEach_rev: "oneEach vs \<Longrightarrow> varsOf (rev vs) = varsOf vs"
proof (induction vs)
  case (Cons v vs)
  then have "varsOf vs (vName v) = None" "varsOf (rev vs) = varsOf vs"
    by (auto simp: oneEach_def varsOf_def map_of_eq_None_iff)
  moreover have "varsOf (rev (v # vs)) = [vName v \<mapsto> vValue v] ++ varsOf (rev vs)"
    by (simp add: varsOf_def)
  moreover have "varsOf (v # vs) = (varsOf vs)(vName v \<mapsto> vValue v)" by (simp add: varsOf_def)
  ultimately show ?case by (auto simp: map_add_def fun_eq_iff split: option.splits)
qed simp

lemma loadRefs_spec:
  "oneEach vars \<Longrightarrow> list_all (\<lambda>v. validName (vName v)) vars \<Longrightarrow>
     (case fst (loadRefs os refs vars ws) of
        Inl e \<Rightarrow> \<not> list_all (readable os) refs
      | Inr vs \<Rightarrow> list_all (readable os) refs \<and> oneEach vs \<and> list_all (\<lambda>v. validName (vName v)) vs \<and>
          varsOf vs = foldl (++) (varsOf vars) (map (fileVars os) refs))"
proof (induction os refs vars ws rule: loadRefs.induct)
  case (1 os vars ws)
  then show ?case by simp
next
  case (2 os ref refs vars ws)
  show ?case
  proof (cases "eoRead os (refPath ref)")
    case NotExist
    then have "fileVars os ref = Map.empty" by (simp add: fileVars_def)
    with NotExist 2 show ?thesis by (auto simp: readable_def split: sum.splits)
  next
    case (ReadFailed e)
    then show ?thesis by (simp add: readable_def)
  next
    case (FileData data)
    show ?thesis
    proof (cases "Parse data")
      case (Inl e)
      then show ?thesis using FileData by (cases e) (simp add: readable_def Let_def)
    next
      case (Inr parsed)
      note p = Parse_ok [OF Inr]
      have f: "fileVars os ref = varsOf parsed" using FileData Inr by (simp add: fileVars_def)
      have o: "oneEach (foldl override vars parsed)"
        "list_all (\<lambda>v. validName (vName v)) (foldl override vars parsed)"
        "varsOf (foldl override vars parsed) = varsOf vars ++ varsOf parsed"
        using foldl_override [OF 2(3), of parsed] foldl_override_valid [OF 2(4), of parsed] p oneEach_rev
        by auto
      have r: "readable os ref" using FileData Inr by (simp add: readable_def)
      have "case fst (loadRefs os refs (foldl override vars parsed)
            (case permissionWarning os (refPath ref) of None \<Rightarrow> ws | Some w \<Rightarrow> ws @ [w])) of
          Inl e \<Rightarrow> \<not> list_all (readable os) refs
        | Inr vs \<Rightarrow> list_all (readable os) refs \<and> oneEach vs \<and> list_all (\<lambda>v. validName (vName v)) vs \<and>
            varsOf vs = foldl (++) (varsOf (foldl override vars parsed)) (map (fileVars os) refs)"
        using "2.IH" o(1,2) FileData Inr by simp
      then show ?thesis using FileData Inr r by (simp add: Let_def f o(3) split: sum.splits)
    qed
  qed
qed

lemma Load_spec:
  "case fst (Load os refs) of
     Inl e \<Rightarrow> \<not> list_all (readable os) refs
   | Inr vs \<Rightarrow> list_all (readable os) refs \<and> oneEach vs \<and> list_all (\<lambda>v. validName (vName v)) vs \<and>
       varsOf vs = foldl (++) Map.empty (map (fileVars os) refs)"
  using loadRefs_spec [of "[]" os refs "[]"] by (simp add: Load_def oneEach_def split: sum.splits)

section \<open>Reading an environment\<close>

text \<open>\<open>os/exec\<close> keeps the last entry of a name.\<close>

definition lookupEnv :: "string list \<Rightarrow> string \<Rightarrow> string option" where
  "lookupEnv env name =
     foldl (\<lambda>r e. case cutPrefix e (name @ [equalsSign]) of Some v \<Rightarrow> Some v | None \<Rightarrow> r) None env"

lemma lookupEnv_foldl:
  "foldl (\<lambda>r e. case cutPrefix e (name @ [equalsSign]) of Some v \<Rightarrow> Some v | None \<Rightarrow> r) r0 env =
     (case lookupEnv env name of Some v \<Rightarrow> Some v | None \<Rightarrow> r0)"
  unfolding lookupEnv_def
  by (induction env rule: rev_induct) (auto split: option.splits)

lemma lookupEnv_append:
  "lookupEnv (a @ b) name = (case lookupEnv b name of Some v \<Rightarrow> Some v | None \<Rightarrow> lookupEnv a name)"
  using lookupEnv_foldl [of name "lookupEnv a name" b] by (simp add: lookupEnv_def)

lemma lookupEnv_simps [simp]: "lookupEnv [] name = None"
  by (simp add: lookupEnv_def)

lemma cutPrefix_entry:
  assumes "equalsSign \<notin> set name" and "equalsSign \<notin> set n"
  shows "cutPrefix (envEntry n v) (name @ [equalsSign]) = (if n = name then Some v else None)"
proof (cases "cutPrefix (envEntry n v) (name @ [equalsSign])")
  case None
  then show ?thesis using cutPrefix_Some [of "envEntry n v" "name @ [equalsSign]" v]
    by (auto simp: envEntry_def)
next
  case (Some r)
  then have "n @ equalsSign # v = name @ equalsSign # r" by (simp add: cutPrefix_Some envEntry_def)
  then have "cutByte equalsSign (n @ equalsSign # v) = cutByte equalsSign (name @ equalsSign # r)" by simp
  then have "n = name" "v = r" using assms by simp_all
  with Some show ?thesis by simp
qed

lemma lookupEnv_entries:
  assumes "equalsSign \<notin> set name" and "\<forall>(n, v) \<in> set kvs. equalsSign \<notin> set n"
    and "distinct (map fst kvs)"
  shows "lookupEnv (map (\<lambda>(n, v). envEntry n v) kvs) name = map_of kvs name"
  using assms(2,3)
proof (induction kvs)
  case (Cons kv kvs)
  obtain n v where kv: "kv = (n, v)" by (cases kv)
  have "lookupEnv [envEntry n v] name = (if n = name then Some v else None)"
    using cutPrefix_entry [of name n v] assms(1) Cons.prems kv by (simp add: lookupEnv_def)
  moreover have "map_of kvs n = None" using Cons.prems kv by (simp add: map_of_eq_None_iff)
  moreover have "lookupEnv (map (\<lambda>(n, v). envEntry n v) kvs) name = map_of kvs name"
    using Cons kv by simp
  ultimately show ?case
    using lookupEnv_append [of "[envEntry n v]" "map (\<lambda>(n, v). envEntry n v) kvs" name]
    by (cases "n = name") (simp_all add: kv split: option.splits)
qed simp

lemma validName_no_equals: "validName n \<Longrightarrow> equalsSign \<notin> set n"
  by (auto simp: validName_def equalsSign_def letterOrUnderscore_def decimalDigit_def Let_def
      list_all_iff split: list.splits)

section \<open>Properties\<close>

text \<open>
  C32. The environment of a child process has the documented precedence. \<open>ChildEnv\<close> succeeds
  exactly when every env file that is absolute exists, every file that exists can be read, and
  all of them parse; then a variable has the value the inline \<open>env\<close> map gives it, else the one of
  the last env file that defines it, else (for \<open>PATH\<close> under \<open>node_path\<close>) the prepended path, else
  the daemon's own.
\<close>

theorem child_env_precedence:
  assumes "distinct (map fst (pEnv p))" and "\<forall>k \<in> fst ` set (pEnv p). equalsSign \<notin> set k"
    and "equalsSign \<notin> set name"
  shows "case fst (ChildEnv os p dir) of
      Inl e \<Rightarrow> \<not> list_all (readable os) (EnvFileRefs p dir)
    | Inr env \<Rightarrow> list_all (readable os) (EnvFileRefs p dir) \<and>
        lookupEnv env name =
          (case map_of (pEnv p) name of
             Some v \<Rightarrow> Some v
           | None \<Rightarrow>
               (case foldl (++) Map.empty (map (fileVars os) (EnvFileRefs p dir)) name of
                  Some v \<Rightarrow> Some v
                | None \<Rightarrow>
                    if name = ''PATH'' \<and> pNodePath p \<noteq> []
                    then Some ((if eoIsDir os (pNodePath p) then pNodePath p
                                else filepathDir (pNodePath p)) @ '':'' @ eoPATH os)
                    else lookupEnv (eoEnviron os) name))"
proof (cases "Load os (EnvFileRefs p dir)")
  case (Pair r ws)
  show ?thesis
  proof (cases r)
    case (Inl e)
    then show ?thesis using Load_spec [of os "EnvFileRefs p dir"] by (simp add: ChildEnv_def Pair)
  next
    case (Inr vars)
    note l = Load_spec [of os "EnvFileRefs p dir", unfolded Pair Inr, simplified]
    let ?inline = "map (\<lambda>k. (k, the (map_of (pEnv p) k))) (sort (map fst (pEnv p)))"
    have "name \<in> set (map fst (pEnv p)) \<longleftrightarrow> map_of (pEnv p) name \<noteq> None"
      by (simp add: map_of_eq_None_iff)
    then have mi: "map_of ?inline name = map_of (pEnv p) name"
      by (cases "map_of (pEnv p) name") (simp_all add: map_of_map_restrict restrict_map_def)
    have inline: "lookupEnv (map (\<lambda>k. envEntry k (the (map_of (pEnv p) k))) (sort (map fst (pEnv p)))) name =
        map_of (pEnv p) name"
      using lookupEnv_entries [OF assms(3), of ?inline] assms(1,2) mi by (simp add: o_def)
    have fl: "lookupEnv (map (\<lambda>v. envEntry (vName v) (vValue v)) vars) name = varsOf vars name"
      using lookupEnv_entries [OF assms(3), of "map (\<lambda>v. (vName v, vValue v)) vars"] l validName_no_equals
      by (auto simp: o_def varsOf_def oneEach_def list_all_iff)
    have node: "lookupEnv (nodePathEntry os p) name =
        (if name = ''PATH'' \<and> pNodePath p \<noteq> []
         then Some ((if eoIsDir os (pNodePath p) then pNodePath p else filepathDir (pNodePath p)) @
           '':'' @ eoPATH os) else None)"
      using cutPrefix_entry [OF assms(3), of "''PATH''"]
      by (auto simp: nodePathEntry_def lookupEnv_def equalsSign_def)
    have v: "foldl (++) Map.empty (map (fileVars os) (EnvFileRefs p dir)) name = varsOf vars name"
      using l by simp
    show ?thesis
      unfolding ChildEnv_def Pair Inr prod.case sum.case fst_conv lookupEnv_append inline fl node v
      using l by (cases "map_of (pEnv p) name"; cases "varsOf vars name") simp_all
  qed
qed

definition demoEnvOS :: envOS where
  "demoEnvOS = \<lparr>eoRead = (\<lambda>f. if f = ''/s'' then FileData ''A=1'' else NotExist),
     eoMode = (\<lambda>_. Some 420), eoIsDir = (\<lambda>_. True), eoEnviron = [''A=0'', ''PATH=/bin''], eoPATH = ''/bin''\<rparr>"

theorem child_env_precedence_witness:
  "\<exists>env. fst (ChildEnv demoEnvOS (emptyProject\<lparr>pEnv := [(''A'', ''2'')], pNodePath := ''/n''\<rparr>) ''/w'') = Inr env \<and>
     lookupEnv env ''A'' = Some ''2'' \<and> lookupEnv env ''PATH'' = Some ''/n:/bin''"
proof -
  let ?p = "emptyProject\<lparr>pEnv := [(''A'', ''2'')], pNodePath := ''/n''\<rparr>"
  have r: "EnvFileRefs ?p ''/w'' = []" by (simp add: EnvFileRefs_def emptyProject_def)
  have d: "distinct (map fst (pEnv ?p))" "\<forall>k \<in> fst ` set (pEnv ?p). equalsSign \<notin> set k"
    "equalsSign \<notin> set ''A''" "equalsSign \<notin> set ''PATH''" by (simp_all add: equalsSign_def)
  show ?thesis
    using child_env_precedence [OF d(1-3), of demoEnvOS "''/w''"]
      child_env_precedence [OF d(1,2,4), of demoEnvOS "''/w''"]
    by (auto simp: r demoEnvOS_def split: sum.splits)
qed

section \<open>Writing a file that reads back\<close>

text \<open>The documented way to write any value: double-quoted, with the three escapes.\<close>

fun escapeValue :: "string \<Rightarrow> string" where
  "escapeValue [] = []"
| "escapeValue (c # s) =
     (if c = newline then [backslash, CHR ''n'']
      else if c = quote then [backslash, quote]
      else if c = backslash then [backslash, backslash]
      else [c]) @ escapeValue s"

definition renderLine :: "envVar \<Rightarrow> string" where
  "renderLine v = vName v @ equalsSign # quote # escapeValue (vValue v) @ [quote]"

definition renderFile :: "envVar list \<Rightarrow> string" where
  "renderFile vs = joinStrings (map renderLine vs) [newline]"

lemmas env_chars = newline_def quote_def backslash_def squote_def equalsSign_def

lemma parse_escaped: "parseDoubleQuoted (escapeValue s @ [quote]) = Inr s"
  by (induction s) (simp_all add: env_chars)

lemma newline_not_escaped: "newline \<notin> set (escapeValue s)"
  by (induction s) (simp_all add: env_chars)

lemma validName_printable:
  assumes "validName n"
  shows "n \<noteq> []" "list_all printable n" "equalsSign \<notin> set n" "newline \<notin> set n" "hd n \<noteq> CHR ''#''"
    "CHR '' '' \<notin> set n" "CHR 0x09 \<notin> set n"
proof -
  obtain c r where n: "n = c # r" using assms by (cases n) (simp_all add: validName_def)
  have chars: "list_all (\<lambda>d. letterOrUnderscore d \<or> decimalDigit d) n" "letterOrUnderscore c"
    using assms by (simp_all add: n validName_def)
  then show "n \<noteq> []" "list_all printable n" "equalsSign \<notin> set n" "newline \<notin> set n" "hd n \<noteq> CHR ''#''"
    "CHR '' '' \<notin> set n" "CHR 0x09 \<notin> set n"
    by (auto simp: n list_all_iff letterOrUnderscore_def decimalDigit_def printable_def env_chars Let_def)
qed

lemma printable_hd_last: "n \<noteq> [] \<Longrightarrow> list_all printable n \<Longrightarrow> printable (hd n) \<and> printable (last n)"
  by (auto simp: list_all_iff)

lemma printable_quote: "printable quote" "printable equalsSign"
  by (simp_all add: printable_def env_chars)

text \<open>A rendered line does not start with \<open>export\<close> followed by a blank.\<close>

lemma cutExport_render: "validName (vName v) \<Longrightarrow> cutExport (renderLine v) = None"
proof (cases "cutPrefix (renderLine v) ''export''")
  case (Some rest)
  assume v: "validName (vName v)"
  from Some have eq: "vName v @ equalsSign # quote # escapeValue (vValue v) @ [quote] = ''export'' @ rest"
    by (simp add: cutPrefix_Some renderLine_def)
  have ne: "equalsSign \<notin> set (vName v)" "equalsSign \<notin> set ''export''"
    using validName_printable [OF v] by (simp_all add: env_chars)
  have "rest \<noteq> []" "hd rest \<in> set (vName v) \<union> {equalsSign}"
  proof -
    have "cutByte equalsSign (''export'' @ rest) = Some (vName v, quote # escapeValue (vValue v) @ [quote])"
      using ne(1) by (simp only: eq [symmetric]) simp
    then obtain a where a: "cutByte equalsSign rest = Some (a, quote # escapeValue (vValue v) @ [quote])"
      "vName v = ''export'' @ a"
      using ne(2) by (cases "cutByte equalsSign rest") (auto simp: env_chars split: option.splits)
    then have "rest = a @ equalsSign # quote # escapeValue (vValue v) @ [quote]" by (simp add: cutByte_Some)
    then show "rest \<noteq> []" "hd rest \<in> set (vName v) \<union> {equalsSign}" using a by (cases a; simp)+
  qed
  then have "hd rest \<noteq> CHR '' ''" "hd rest \<noteq> CHR 0x09"
    using validName_printable(6,7) [OF v] by (auto simp: env_chars)
  then show ?thesis by (simp add: cutExport_def Some)
qed (simp add: cutExport_def)

lemma parseLine_render: "validName (vName v) \<Longrightarrow> parseLine (renderLine v) = Inr v"
proof -
  assume v: "validName (vName v)"
  note n = validName_printable [OF v]
  let ?val = "quote # escapeValue (vValue v) @ [quote]"
  have c: "cutByte equalsSign (renderLine v) = Some (vName v, ?val)"
    using n(3) by (simp add: renderLine_def)
  have t: "TrimSpace (vName v) = vName v"
    using n printable_hd_last by (simp add: TrimSpace_printable)
  have q: "TrimSpace ?val = ?val" by (simp add: TrimSpace_printable printable_quote)
  have "parseValue ?val = Inr (vValue v)"
    using parse_escaped by (simp add: parseValue_def) (simp add: env_chars)
  then show ?thesis
    using v by (simp add: parseLine_def cutExport_render c t q)
qed

lemma renderLine_trim:
  assumes "validName (vName v)"
  shows "TrimSpace (trimSuffix (renderLine v) [CHR 0x0D]) = renderLine v"
    and "\<not> hasPrefix (renderLine v) ''#''" "renderLine v \<noteq> []" "newline \<notin> set (renderLine v)"
proof -
  note n = validName_printable [OF assms]
  have hd: "hd (renderLine v) = hd (vName v)" using n(1) by (simp add: renderLine_def)
  have l: "last (renderLine v) = quote" by (simp add: renderLine_def)
  have "cutSuffix (renderLine v) [CHR 0x0D] = None"
    using l by (cases "cutSuffix (renderLine v) [CHR 0x0D]") (auto simp: cutSuffix_Some env_chars)
  then have "trimSuffix (renderLine v) [CHR 0x0D] = renderLine v" by (simp add: trimSuffix_def)
  moreover show ne: "renderLine v \<noteq> []" by (simp add: renderLine_def)
  ultimately show "TrimSpace (trimSuffix (renderLine v) [CHR 0x0D]) = renderLine v"
    using hd l n printable_hd_last printable_quote by (simp add: TrimSpace_printable)
  show "\<not> hasPrefix (renderLine v) ''#''"
    using hd n(5) ne by (cases "renderLine v") (auto simp: hasPrefix_def)
  show "newline \<notin> set (renderLine v)"
    using n(4) newline_not_escaped by (auto simp: renderLine_def env_chars)
qed

lemma parseLines_render:
  "list_all (\<lambda>v. validName (vName v)) vs \<Longrightarrow>
    parseLines n vars (map renderLine vs) = Inr (foldl override vars vs)"
  by (induction vs arbitrary: n vars)
    (simp_all add: renderLine_trim parseLine_render)

lemma splitByte_joinStrings:
  "xs \<noteq> [] \<Longrightarrow> \<forall>x \<in> set xs. c \<notin> set x \<Longrightarrow> splitByte c (joinStrings xs [c]) = xs"
  by (induction xs "[c]" rule: joinStrings.induct) (simp_all add: splitByte_none splitByte_append)

text \<open>
  Every value can be written to an env file and is read back unchanged: a file with one
  double-quoted line per variable, with newline, quote and backslash escaped, parses to the
  list of its variables, each name once with its last value, whatever bytes the values hold.
\<close>

theorem env_file_roundtrip:
  assumes "list_all (\<lambda>v. validName (vName v)) vs" and "vs \<noteq> []"
  shows "Parse (renderFile vs) = Inr (foldl override [] vs) \<and>
    (distinct (map vName vs) \<longrightarrow> Parse (renderFile vs) = Inr vs)"
proof -
  have lines: "\<forall>l \<in> set (map renderLine vs). newline \<notin> set l"
    using assms(1) renderLine_trim(4) by (auto simp: list_all_iff)
  obtain v ws where vs: "vs = v # ws" using assms(2) by (cases vs) auto
  then have v: "validName (vName v)" using assms(1) by simp
  have "printable (hd (renderFile vs))"
    using validName_printable [OF v] printable_hd_last [of "vName v"]
    by (cases ws) (simp_all add: vs renderFile_def renderLine_def)
  then have "cutPrefix (renderFile vs) utf8BOM = None"
    by (cases "cutPrefix (renderFile vs) utf8BOM")
      (auto simp: cutPrefix_Some utf8BOM_def printable_def)
  then have "trimPrefix (renderFile vs) utf8BOM = renderFile vs" by (simp add: trimPrefix_def)
  then have p: "Parse (renderFile vs) = Inr (foldl override [] vs)"
    using splitByte_joinStrings [OF _ lines] parseLines_render [OF assms(1)] assms(2)
    by (simp add: Parse_def renderFile_def)
  have "foldl override vars vs = vars @ vs" if "distinct (map vName (vars @ vs))" for vars
    using that
  proof (induction vs arbitrary: vars)
    case (Cons w ws)
    then have "dropName (vName w) vars = vars" by (simp add: dropName_absent)
    with Cons.IH [of "vars @ [w]"] Cons.prems show ?case by (simp add: override_def)
  qed simp
  from this [of "[]"] p show ?thesis by simp
qed

theorem env_file_roundtrip_witness:
  "Parse (renderFile [\<lparr>vName = ''A'', vValue = [newline, quote]\<rparr>]) =
     Inr [\<lparr>vName = ''A'', vValue = [newline, quote]\<rparr>]"
  using env_file_roundtrip [of "[\<lparr>vName = ''A'', vValue = [newline, quote]\<rparr>]"]
  by (simp add: validName_def letterOrUnderscore_def override_def)

end
