(* ===== verification/Proxy.thy ===== *)
theory Proxy
  imports Tracker SupervisorInv EnvFile Validation
begin

text \<open>
  The per-project proxy (\<open>internal/proxy/ondemand.go\<close>, \<open>internal/proxy/proxy.go\<close>): what one request
  does (activity accounting, stop gate, hot path, hold through a cold start) as the list of its
  effects in order; the 503 diagnostic and its renderings; and the headers of a forwarded
  request. Formatting of durations and quoting (\<open>%s\<close> of a \<open>time.Duration\<close>, \<open>%q\<close>) are parameters.
\<close>

section \<open>Requests\<close>

type_synonym headers = "(string, string list) gomap"

record request =
  rqMethod :: string
  rqPath :: string
  rqHost :: string
  rqHeader :: headers
  rqRemoteIP :: "string option"
  rqTLS :: bool

definition headerValues :: "headers \<Rightarrow> string \<Rightarrow> string list" where
  "headerValues hs name = (case map_of hs name of None \<Rightarrow> [] | Some vs \<Rightarrow> vs)"

definition headerGet :: "headers \<Rightarrow> string \<Rightarrow> string" where
  "headerGet hs name = (case headerValues hs name of [] \<Rightarrow> [] | v # _ \<Rightarrow> v)"

definition headerSet :: "string \<Rightarrow> string \<Rightarrow> headers \<Rightarrow> headers" where
  "headerSet name v hs = mapPut name [v] hs"

definition isUpgrade :: "request \<Rightarrow> bool" where
  "isUpgrade r \<longleftrightarrow>
     headerGet (rqHeader r) ''Upgrade'' \<noteq> [] \<and>
     list_ex (\<lambda>v. list_ex (\<lambda>token. EqualFold (TrimSpace token) ''upgrade'') (splitByte (CHR '','') v))
       (headerValues (rqHeader r) ''Connection'')"

definition prefersHTML :: "request \<Rightarrow> bool" where
  "prefersHTML r = containsStr (headerGet (rqHeader r) ''Accept'') ''text/html''"

section \<open>The handler\<close>

record onDemand =
  odProject :: project
  odWsKeepAlive :: bool
  odDiagnosticLogs :: bool
  odMaxWait :: duration
  odMaxHeld :: int

definition HoldMaxWait :: "project \<Rightarrow> duration" where
  "HoldMaxWait p =
     (let w1 = wrap64 (pHoldMaxWaitSeconds p * timeSecond);
          w2 = (if w1 \<le> 0
                then wrap64 ((pStartupTimeoutSeconds p + DefaultHoldWaitBufferSeconds) * timeSecond)
                else w1)
      in if w2 \<le> 0
         then (DefaultStartupTimeoutSeconds + DefaultHoldWaitBufferSeconds) * timeSecond
         else w2)"

definition NewOnDemand :: "project \<Rightarrow> onDemand" where
  "NewOnDemand p =
     \<lparr>odProject = p,
      odWsKeepAlive = (case pWebSocketsKeepAlive p of None \<Rightarrow> True | Some b \<Rightarrow> b),
      odDiagnosticLogs = DiagnosticLogsEnabled p,
      odMaxWait = HoldMaxWait p,
      odMaxHeld = (if pHoldMaxRequests p \<le> 0 then DefaultHoldMaxRequests else pHoldMaxRequests p)\<rparr>"

text \<open>
  Errors of a start as the proxy sees them: one that explains itself (the daemon's capacity
  error), the supervisor's back-off, or any other. The first component is \<open>err.Error()\<close>.
\<close>

datatype startError =
    ExplainedError (seText: string) (seTitle: string) (seHint: string)
  | BackoffStart (seText: string) (seRetryAt: time)
  | OtherStart (seText: string)

datatype denial = TooManyHeld int | WaitTooLong duration | StartFailed startError

datatype proxyEvent =
    EvRequestBegan | EvRequestEnded | EvPersistentOpened | EvPersistentClosed
  | EvAwaitGate nat | EvHeld | EvReleased | EvEnsureStarted | EvForward | EvDeny denial

datatype gateWait = GateReleased | ClientLeft
datatype holdOutcome = StartDone "startError option" | WaitExpired | ClientCancelled

text \<open>What the request observes on its way.\<close>

record dispatchEnv =
  deGate :: "nat option"
  deGateWait :: gateWait
  deState :: lifecycle
  deHeld :: int
  deOutcome :: holdOutcome

text \<open>\<open>before\<close> is what \<open>beforeForward\<close> does (empty for nil).\<close>

definition holdAndForward :: "onDemand \<Rightarrow> dispatchEnv \<Rightarrow> proxyEvent list \<Rightarrow> proxyEvent list" where
  "holdAndForward h env before =
     (if deHeld env + 1 > odMaxHeld h
      then [EvHeld, EvReleased, EvDeny (TooManyHeld (odMaxHeld h))]
      else EvHeld # EvEnsureStarted #
        (case deOutcome env of
           StartDone (Some err) \<Rightarrow> [EvDeny (StartFailed err)]
         | StartDone None \<Rightarrow> before @ [EvForward]
         | WaitExpired \<Rightarrow> [EvDeny (WaitTooLong (odMaxWait h))]
         | ClientCancelled \<Rightarrow> []) @ [EvReleased])"

definition dispatch :: "onDemand \<Rightarrow> dispatchEnv \<Rightarrow> proxyEvent list \<Rightarrow> proxyEvent list" where
  "dispatch h env before =
     (case deGate env of
        Some g \<Rightarrow> [EvAwaitGate g]
      | None \<Rightarrow> []) @
     (if deGate env \<noteq> None \<and> deGateWait env = ClientLeft then []
      else if deState env = Running then before @ [EvForward]
      else holdAndForward h env before)"

text \<open>\<open>endRequest\<close> runs once: before the forward, or when the handler returns.\<close>

definition serveUpgrade :: "onDemand \<Rightarrow> dispatchEnv \<Rightarrow> proxyEvent list" where
  "serveUpgrade h env =
     (if odWsKeepAlive h then EvPersistentOpened # dispatch h env [] @ [EvPersistentClosed]
      else (let es = dispatch h env [EvRequestEnded]
            in EvRequestBegan # es @ (if EvRequestEnded \<in> set es then [] else [EvRequestEnded])))"

definition serveHTTP :: "onDemand \<Rightarrow> request \<Rightarrow> dispatchEnv \<Rightarrow> proxyEvent list" where
  "serveHTTP h r env =
     (if isUpgrade r then serveUpgrade h env
      else EvRequestBegan # dispatch h env [] @ [EvRequestEnded])"

section \<open>Diagnostics\<close>

record fmtLib =
  fmtQuote :: "string \<Rightarrow> string"
  fmtDuration :: "duration \<Rightarrow> string"

record diagnostic =
  dgStatus :: int
  dgProject :: string
  dgTitle :: string
  dgReason :: string
  dgState :: string
  dgExit :: string
  dgErr :: string
  dgLogs :: "string list"
  dgLogsOmitted :: bool
  dgHint :: string

definition emptyDiagnostic :: diagnostic where
  "emptyDiagnostic =
     \<lparr>dgStatus = 0, dgProject = [], dgTitle = [], dgReason = [], dgState = [], dgExit = [],
      dgErr = [], dgLogs = [], dgLogsOmitted = False, dgHint = []\<rparr>"

definition diagnosticLogLines :: int where
  "diagnosticLogLines = 30"

text \<open>\<open>Duration.Round\<close>, half away from zero.\<close>

definition roundDuration :: "duration \<Rightarrow> duration \<Rightarrow> duration" where
  "roundDuration d m =
     (if d < 0 then - (((- d) + m div 2) div m * m) else (d + m div 2) div m * m)"

definition terseStartupReason :: "fmtLib \<Rightarrow> onDemand \<Rightarrow> time \<Rightarrow> startError \<Rightarrow> string" where
  "terseStartupReason fmt h now err =
     ''Project '' @ fmtQuote fmt (pName (odProject h)) @ '' failed to start.'' @
     (case err of
        BackoffStart _ retryAt \<Rightarrow>
          '' Automatic retry in '' @
          fmtDuration fmt (max 0 (roundDuration (retryAt - now) (100 * timeMillisecond))) @
          '', or run `herd-wake project:start '' @ pName (odProject h) @ ''` to retry now.''
      | _ \<Rightarrow> [])"

text \<open>What the process tells: its state, its last exit and error, and its recent output.\<close>

record upstreamView =
  uvState :: string
  uvLastExit :: string
  uvLastError :: string
  uvLogs :: "int \<Rightarrow> string list"

text \<open>The diagnostic of a denial and what the daemon log says.\<close>

definition denyWith ::
    "onDemand \<Rightarrow> upstreamView \<Rightarrow> diagnostic \<Rightarrow> string \<Rightarrow> diagnostic \<times> string" where
  "denyWith h uv d detail =
     (let d1 = d\<lparr>dgStatus := 503, dgProject := pName (odProject h), dgState := uvState uv,
                 dgExit := uvLastExit uv\<rparr>
      in (if odDiagnosticLogs h
          then d1\<lparr>dgErr := uvLastError uv, dgLogs := uvLogs uv diagnosticLogLines\<rparr>
          else d1\<lparr>dgLogsOmitted := True\<rparr>,
          if detail = [] then dgReason d else detail))"

definition denyErr ::
    "fmtLib \<Rightarrow> onDemand \<Rightarrow> time \<Rightarrow> upstreamView \<Rightarrow> startError \<Rightarrow> diagnostic \<times> string" where
  "denyErr fmt h now uv err =
     (let d = emptyDiagnostic\<lparr>dgReason := seText err\<rparr> in
      case err of
        ExplainedError _ title hint \<Rightarrow> denyWith h uv (d\<lparr>dgTitle := title, dgHint := hint\<rparr>) []
      | _ \<Rightarrow>
          if \<not> odDiagnosticLogs h
          then denyWith h uv (d\<lparr>dgReason := terseStartupReason fmt h now err\<rparr>) (dgReason d)
          else denyWith h uv d [])"

definition denyAnswer ::
    "fmtLib \<Rightarrow> onDemand \<Rightarrow> time \<Rightarrow> upstreamView \<Rightarrow> denial \<Rightarrow> diagnostic \<times> string" where
  "denyAnswer fmt h now uv reason =
     (case reason of
        TooManyHeld n \<Rightarrow> denyWith h uv (emptyDiagnostic\<lparr>dgReason :=
          ''Too many requests are already waiting for this project to start (limit '' @ Itoa n @
          '', hold_max_requests). Retry shortly.''\<rparr>) []
      | WaitTooLong w \<Rightarrow> denyWith h uv (emptyDiagnostic\<lparr>dgReason :=
          ''Gave up waiting after '' @ fmtDuration fmt w @
          '' (hold_max_wait_seconds) for the project to become ready.''\<rparr>) []
      | StartFailed err \<Rightarrow> denyErr fmt h now uv err)"

definition logsOmittedNote :: "string \<Rightarrow> string" where
  "logsOmittedNote proj =
     ''Process output is not shown here (diagnostic_logs: false); run `herd-wake logs '' @ proj @
     ''` on the host.''"

text \<open>\<open>template.HTMLEscapeString\<close>.\<close>

definition escapeByte :: "char \<Rightarrow> string" where
  "escapeByte c =
     (if c = CHR 0x22 then ''&#34;'' else if c = CHR 0x27 then ''&#39;''
      else if c = CHR ''&'' then ''&amp;'' else if c = CHR ''<'' then ''&lt;''
      else if c = CHR ''>'' then ''&gt;''
      else if c = CHR 0x00 then [CHR 0xEF, CHR 0xBF, CHR 0xBD] else [c])"

definition HTMLEscapeString :: "string \<Rightarrow> string" where
  "HTMLEscapeString s = concat (map escapeByte s)"

fun hintParts :: "bool \<Rightarrow> string list \<Rightarrow> string" where
  "hintParts code [] = []"
| "hintParts code (p # ps) =
     (if code then ''<code>'' @ HTMLEscapeString p @ ''</code>'' else HTMLEscapeString p) @
     hintParts (\<not> code) ps"

definition hintHTML :: "string \<Rightarrow> string" where
  "hintHTML hint = hintParts False (splitByte (CHR 0x60) hint)"

text \<open>The page's data, for the HTML rendering by \<open>html/template\<close>.\<close>

record diagnosticData =
  ddDiagnostic :: diagnostic
  ddLogText :: string
  ddHintHTML :: string
  ddOmittedHTML :: string

definition nl :: string where "nl = [newline]"

definition line :: "string \<Rightarrow> string" where "line s = s @ nl"

definition plainBody :: "diagnostic \<Rightarrow> string" where
  "plainBody d =
     line (''herd-wake: '' @ dgTitle d @ ''.'') @ nl @ line (dgReason d) @
     (if dgState d \<noteq> [] then nl @ line (''State: '' @ dgState d) else []) @
     (if dgExit d \<noteq> [] then line (''Last exit: '' @ dgExit d) else []) @
     (if dgErr d \<noteq> [] then line (''Last error: '' @ dgErr d) else []) @
     (if dgLogs d \<noteq> []
      then nl @ line (''Recent output (herd-wake logs '' @ dgProject d @ ''):'') @
        concat (map (\<lambda>l. line (''  '' @ l)) (dgLogs d))
      else if dgLogsOmitted d \<and> dgProject d \<noteq> [] then nl @ line (logsOmittedNote (dgProject d))
      else []) @
     (if dgHint d \<noteq> [] then nl @ line (dgHint d) else [])"

datatype body = HTMLPage diagnosticData | PlainText string

record response =
  rsStatus :: int
  rsContentType :: string
  rsCacheControl :: string
  rsBody :: body

definition fillDiagnostic :: "fmtLib \<Rightarrow> diagnostic \<Rightarrow> diagnostic" where
  "fillDiagnostic fmt d0 =
     (let d1 = (if dgStatus d0 = 0 then d0\<lparr>dgStatus := 503\<rparr> else d0);
          d2 = (if dgTitle d1 = []
                then d1\<lparr>dgTitle :=
                       (if dgProject d1 \<noteq> []
                        then ''project '' @ fmtQuote fmt (dgProject d1) @ '' is unavailable''
                        else ''no project for this request'')\<rparr>
                else d1)
      in if dgHint d2 = [] \<and> dgProject d2 \<noteq> []
         then d2\<lparr>dgHint := ''Reload to retry, or run `herd-wake project:start '' @ dgProject d2 @
                ''` to retry immediately.''\<rparr>
         else d2)"

definition WriteDiagnostic :: "fmtLib \<Rightarrow> request \<Rightarrow> diagnostic \<Rightarrow> response" where
  "WriteDiagnostic fmt r d0 =
     (let d = fillDiagnostic fmt d0 in
      if prefersHTML r
      then \<lparr>rsStatus = dgStatus d, rsContentType = ''text/html; charset=utf-8'',
            rsCacheControl = ''no-store'',
            rsBody = HTMLPage
              \<lparr>ddDiagnostic = d, ddLogText = joinStrings (dgLogs d) nl,
               ddHintHTML = hintHTML (dgHint d),
               ddOmittedHTML =
                 (if dgLogsOmitted d \<and> dgProject d \<noteq> [] then hintHTML (logsOmittedNote (dgProject d))
                  else [])\<rparr>\<rparr>
      else \<lparr>rsStatus = dgStatus d, rsContentType = ''text/plain; charset=utf-8'',
            rsCacheControl = ''no-store'', rsBody = PlainText (plainBody d)\<rparr>)"

text \<open>The answer to a denied request, and the daemon's log line for it.\<close>

definition deny ::
    "fmtLib \<Rightarrow> onDemand \<Rightarrow> request \<Rightarrow> time \<Rightarrow> upstreamView \<Rightarrow> denial \<Rightarrow> response \<times> string" where
  "deny fmt h r now uv reason =
     (let (d, logged) = denyAnswer fmt h now uv reason in (WriteDiagnostic fmt r d, logged))"

section \<open>Forwarding\<close>

definition upstreamAddr :: "project \<Rightarrow> string" where
  "upstreamAddr p = JoinHostPort ''127.0.0.1'' (Itoa (pApplicationPort p))"

record outRequest =
  orScheme :: string
  orURLHost :: string
  orHost :: string
  orHeader :: headers

definition xff :: string where "xff = ''X-Forwarded-For''"
definition xfh :: string where "xfh = ''X-Forwarded-Host''"
definition xfp :: string where "xfp = ''X-Forwarded-Proto''"

text \<open>\<open>ProxyRequest.SetXForwarded\<close> of \<open>net/http/httputil\<close>.\<close>

definition SetXForwarded :: "request \<Rightarrow> headers \<Rightarrow> headers" where
  "SetXForwarded r hs =
     (let h1 = (case rqRemoteIP r of
                  Some ip \<Rightarrow>
                    (let prior = headerValues hs xff
                     in headerSet xff (if prior = [] then ip else joinStrings prior '', '' @ '', '' @ ip) hs)
                | None \<Rightarrow> mapDelete xff hs)
      in headerSet xfp (if rqTLS r then ''https'' else ''http'') (headerSet xfh (rqHost r) h1))"

text \<open>\<open>stripped\<close> is the outgoing header map \<open>ReverseProxy\<close> hands to \<open>Rewrite\<close>, without X-Forwarded-*.\<close>

definition rewriteRequest :: "osView \<Rightarrow> project \<Rightarrow> request \<Rightarrow> headers \<Rightarrow> outRequest" where
  "rewriteRequest os p r stripped =
     (let publicScheme = (case osURL os (pPublicURL p) of Some (sch, _) \<Rightarrow> sch | None \<Rightarrow> []);
          prior = headerValues (rqHeader r) xff;
          h1 = (if prior \<noteq> [] then mapPut xff prior stripped else stripped);
          h2 = SetXForwarded r h1;
          inHost = headerGet (rqHeader r) xfh;
          h3 = (if inHost \<noteq> [] then headerSet xfh inHost h2 else h2);
          inProto = headerGet (rqHeader r) xfp;
          h4 = (if inProto \<noteq> [] then headerSet xfp inProto h3
                else if publicScheme \<noteq> [] then headerSet xfp publicScheme h3 else h3)
      in \<lparr>orScheme = ''http'', orURLHost = upstreamAddr p,
          orHost = (if pRewriteHost p then upstreamAddr p else rqHost r), orHeader = h4\<rparr>)"

text \<open>The answer when the dev server cannot be reached; \<open>None\<close> when the client has gone away.\<close>

definition forwardError :: "fmtLib \<Rightarrow> project \<Rightarrow> bool \<Rightarrow> string \<Rightarrow> response option" where
  "forwardError fmt p clientGone err =
     (if clientGone then None
      else Some \<lparr>rsStatus = 503, rsContentType = ''text/plain; charset=utf-8'',
        rsCacheControl = ''no-store'',
        rsBody = PlainText
          (line (''herd-wake: project '' @ fmtQuote fmt (pName p) @ '' is unavailable.'') @ nl @
           line (''Could not reach its dev server at http://'' @ upstreamAddr p @ '': '' @ err) @ nl @
           line (''The server may have just stopped or crashed; retrying will start it again (see `herd-wake logs ''
             @ pName p @ ''`).''))\<rparr>)"

section \<open>The effects on the activity tracker\<close>

fun applyEvent :: "time \<Rightarrow> proxyEvent \<Rightarrow> tracker \<Rightarrow> tracker" where
  "applyEvent now EvRequestBegan t = RequestBegan t"
| "applyEvent now EvRequestEnded t = RequestEnded now t"
| "applyEvent now EvPersistentOpened t = PersistentOpened t"
| "applyEvent now EvPersistentClosed t = PersistentClosed now t"
| "applyEvent now _ t = t"

definition trackerAfter :: "time \<Rightarrow> proxyEvent list \<Rightarrow> tracker \<Rightarrow> tracker" where
  "trackerAfter now es t = fold (applyEvent now) es t"

definition isAnswer :: "proxyEvent \<Rightarrow> bool" where
  "isAnswer e = (case e of EvForward \<Rightarrow> True | EvDeny _ \<Rightarrow> True | _ \<Rightarrow> False)"

definition clientGone :: "onDemand \<Rightarrow> dispatchEnv \<Rightarrow> bool" where
  "clientGone h env \<longleftrightarrow>
     (deGate env \<noteq> None \<and> deGateWait env = ClientLeft) \<or>
     (deState env \<noteq> Running \<and> deHeld env + 1 \<le> odMaxHeld h \<and> deOutcome env = ClientCancelled)"

text \<open>
  \<open>guarded fwd now later t es\<close>: run from the tracker \<open>t\<close>, every wait, start and (if \<open>fwd\<close>) forward
  happens while the project is parked, at whatever time \<open>later\<close> a stopper looks.
\<close>

fun guarded :: "bool \<Rightarrow> time \<Rightarrow> time \<Rightarrow> tracker \<Rightarrow> proxyEvent list \<Rightarrow> bool" where
  "guarded fwd now later t [] = True"
| "guarded fwd now later t (e # es) =
     ((case e of
         EvAwaitGate _ \<Rightarrow> Parked later t
       | EvEnsureStarted \<Rightarrow> Parked later t
       | EvForward \<Rightarrow> fwd \<longrightarrow> Parked later t
       | _ \<Rightarrow> True) \<and>
      guarded fwd now later (applyEvent now e t) es)"

lemmas serve_defs =
  serveHTTP_def serveUpgrade_def dispatch_def holdAndForward_def trackerAfter_def isAnswer_def
  clientGone_def Let_def

lemma serve_counters:
  "tInflight (trackerAfter now (serveHTTP h r env) t) = tInflight t \<and>
   tPersistent (trackerAfter now (serveHTTP h r env) t) = tPersistent t"
  by (cases "deGate env"; cases "deGateWait env"; cases "deOutcome env")
    (auto simp: serve_defs tracker_defs split: option.splits)

lemma serve_held:
  "count_list (serveHTTP h r env) EvHeld = count_list (serveHTTP h r env) EvReleased"
  by (cases "deGate env"; cases "deGateWait env"; cases "deOutcome env")
    (auto simp: serve_defs split: option.splits)

lemma serve_answers:
  "length (filter isAnswer (serveHTTP h r env)) = (if clientGone h env then 0 else 1)"
  by (cases "deGate env"; cases "deGateWait env"; cases "deOutcome env")
    (auto simp: serve_defs split: option.splits)

lemma serve_forward:
  "EvForward \<in> set (serveHTTP h r env) \<Longrightarrow>
     (deGate env = None \<or> deGateWait env = GateReleased) \<and>
     (deState env = Running \<or>
      deHeld env < odMaxHeld h \<and> deOutcome env = StartDone None \<and>
      EvEnsureStarted \<in> set (serveHTTP h r env))"
  by (cases "deGate env"; cases "deGateWait env"; cases "deOutcome env")
    (auto simp: serve_defs split: option.splits if_splits)

lemma Parked_begun: "trackerWf t \<Longrightarrow> Parked later (RequestBegan t)" "trackerWf t \<Longrightarrow> Parked later (PersistentOpened t)"
  by (rule requests.began_parks, assumption) (rule connections.began_parks, assumption)

lemma serve_guarded:
  "trackerWf t \<Longrightarrow>
     guarded (\<not> (isUpgrade r \<and> \<not> odWsKeepAlive h)) now later t (serveHTTP h r env)"
  by (cases "deGate env"; cases "deGateWait env"; cases "deOutcome env")
    (auto simp: serve_defs Parked_begun split: option.splits)

section \<open>Properties\<close>

text \<open>
  C27. Every request keeps the proxy's discipline, whatever it runs into (a stop in progress, a
  running project, a cold start that succeeds, fails or times out, too many held requests, a
  client that leaves). The activity counters and the held counter come back to where they were;
  there is exactly one answer unless the client has gone, and then none; a request is forwarded
  only to a project it saw running or whose start it waited for, never past an unreleased stop
  gate; while it waits, starts, or is forwarded the project is parked, so no stop gate can be
  armed (an upgrade with \<open>websockets_keep_alive: false\<close> gives that up only for its open tunnel).
\<close>

theorem proxy_request_discipline:
  assumes "trackerWf t"
  shows "let h = NewOnDemand p; es = serveHTTP h r env in
    tInflight (trackerAfter now es t) = tInflight t \<and>
    tPersistent (trackerAfter now es t) = tPersistent t \<and>
    count_list es EvHeld = count_list es EvReleased \<and>
    length (filter isAnswer es) = (if clientGone h env then 0 else 1) \<and>
    (EvForward \<in> set es \<longrightarrow>
       (deGate env = None \<or> deGateWait env = GateReleased) \<and>
       (deState env = Running \<or> deHeld env < odMaxHeld h \<and> deOutcome env = StartDone None \<and>
          EvEnsureStarted \<in> set es)) \<and>
    guarded (\<not> (isUpgrade r \<and> \<not> odWsKeepAlive h)) now later t es"
  using assms serve_counters serve_held serve_answers serve_forward serve_guarded
  by (simp add: Let_def)

definition demoRequest :: request where
  "demoRequest = \<lparr>rqMethod = ''GET'', rqPath = ''/'', rqHost = ''a.test'', rqHeader = [],
     rqRemoteIP = Some ''127.0.0.1'', rqTLS = False\<rparr>"

definition demoEnv :: dispatchEnv where
  "demoEnv = \<lparr>deGate = Some 3, deGateWait = GateReleased, deState = Stopped, deHeld = 0,
     deOutcome = StartDone None\<rparr>"

theorem proxy_request_discipline_witness:
  "serveHTTP (NewOnDemand emptyProject) demoRequest demoEnv =
     [EvRequestBegan, EvAwaitGate 3, EvHeld, EvEnsureStarted, EvForward, EvReleased, EvRequestEnded] \<and>
   guarded True 5 9 NewTracker (serveHTTP (NewOnDemand emptyProject) demoRequest demoEnv)"
proof -
  have w: "trackerWf NewTracker" by (simp add: trackerWf_def NewTracker_def)
  have u: "\<not> isUpgrade demoRequest" by (simp add: isUpgrade_def demoRequest_def headerGet_def headerValues_def)
  show ?thesis
    using proxy_request_discipline [OF w, of emptyProject demoRequest demoEnv 5 9] u
    by (simp add: Let_def) (simp add: serve_defs demoEnv_def NewOnDemand_def emptyProject_def default_consts)
qed

text \<open>What a denial may tell the public: an explained error, or when the next retry is.\<close>

definition publicDenial :: "denial \<Rightarrow> denial" where
  "publicDenial d =
     (case d of
        StartFailed (OtherStart _) \<Rightarrow> StartFailed (OtherStart [])
      | StartFailed (BackoffStart _ retryAt) \<Rightarrow> StartFailed (BackoffStart [] retryAt)
      | _ \<Rightarrow> d)"

text \<open>
  With \<open>diagnostic_logs: false\<close> a denial page is non-interfering: the whole response (text or
  HTML) is determined by the project, its state, its exit summary, and the public part of the
  reason. Neither the process output, nor the last error, nor the text of the startup error
  (which may quote paths and secrets) influences a single byte of it; the startup error still
  reaches the daemon's log.
\<close>

theorem terse_denial_noninterference:
  assumes "pDiagnosticLogs p = Some False"
    and "uvState uv = uvState uv'" and "uvLastExit uv = uvLastExit uv'"
    and "publicDenial d = publicDenial d'"
  shows "fst (deny fmt (NewOnDemand p) r now uv d) = fst (deny fmt (NewOnDemand p) r now uv' d') \<and>
    (secret \<noteq> [] \<longrightarrow> snd (deny fmt (NewOnDemand p) r now uv (StartFailed (OtherStart secret))) = secret)"
proof -
  have logs: "\<not> odDiagnosticLogs (NewOnDemand p)"
    using assms(1) by (simp add: NewOnDemand_def DiagnosticLogsEnabled_def)
  have norm: "fst (denyAnswer fmt (NewOnDemand p) now uv d) =
      fst (denyAnswer fmt (NewOnDemand p) now uv (publicDenial d))" for uv d
    using logs by (auto simp: denyAnswer_def publicDenial_def denyErr_def denyWith_def Let_def
        terseStartupReason_def split: denial.splits startError.splits)
  have "fst (denyAnswer fmt (NewOnDemand p) now uv d) = fst (denyAnswer fmt (NewOnDemand p) now uv' d)" for d
    using logs assms(2,3)
    by (auto simp: denyAnswer_def denyErr_def denyWith_def Let_def split: denial.splits startError.splits)
  with norm assms(4) have "fst (denyAnswer fmt (NewOnDemand p) now uv d) =
      fst (denyAnswer fmt (NewOnDemand p) now uv' d')"
    by metis
  moreover have "secret \<noteq> [] \<longrightarrow>
      snd (deny fmt (NewOnDemand p) r now uv (StartFailed (OtherStart secret))) = secret"
    using logs by (simp add: deny_def denyAnswer_def denyErr_def denyWith_def emptyDiagnostic_def Let_def)
  ultimately show ?thesis by (simp add: deny_def split_def Let_def)
qed

theorem terse_denial_noninterference_witness:
  "\<forall>fmt. fst (deny fmt (NewOnDemand (emptyProject\<lparr>pDiagnosticLogs := Some False\<rparr>)) demoRequest 0
      \<lparr>uvState = ''failed'', uvLastExit = [], uvLastError = ''/secret'', uvLogs = (\<lambda>_. [''pw''])\<rparr>
      (StartFailed (OtherStart ''/home/u/secret.env: line 3''))) =
   fst (deny fmt (NewOnDemand (emptyProject\<lparr>pDiagnosticLogs := Some False\<rparr>)) demoRequest 0
      \<lparr>uvState = ''failed'', uvLastExit = [], uvLastError = [], uvLogs = (\<lambda>_. [])\<rparr>
      (StartFailed (OtherStart [])))"
  by (intro allI, rule terse_denial_noninterference [THEN conjunct1]) (simp_all add: publicDenial_def)

lemma headerValues_headerSet: "headerValues (headerSet n v h) m = (if m = n then [v] else headerValues h m)"
  by (simp add: headerValues_def headerSet_def gomap_simps)

text \<open>
  The dev server sees the public origin: a forwarded request always goes to the project's
  loopback port; its Host is the client's, or the loopback address under \<open>rewrite_host\<close>; the
  X-Forwarded-Host and -Proto are the ones the front end set, else the request's host and the
  scheme of the public URL (or of the connection); the client is appended to the existing
  X-Forwarded-For chain; and no other header is touched.
\<close>

theorem forwarded_headers:
  assumes "headerValues stripped xff = []" and "rqRemoteIP r = Some ip"
  shows "let out = rewriteRequest os p r stripped; inHdr = rqHeader r in
    orURLHost out = ''127.0.0.1:'' @ Itoa (pApplicationPort p) \<and>
    orHost out = (if pRewriteHost p then orURLHost out else rqHost r) \<and>
    headerValues (orHeader out) xfh =
      [if headerGet inHdr xfh \<noteq> [] then headerGet inHdr xfh else rqHost r] \<and>
    headerValues (orHeader out) xfp =
      [if headerGet inHdr xfp \<noteq> [] then headerGet inHdr xfp
       else (case osURL os (pPublicURL p) of
               Some (sch, _) \<Rightarrow> if sch \<noteq> [] then sch else if rqTLS r then ''https'' else ''http''
             | None \<Rightarrow> if rqTLS r then ''https'' else ''http'')] \<and>
    headerValues (orHeader out) xff = [joinStrings (headerValues inHdr xff @ [ip]) '', ''] \<and>
    (\<forall>n. n \<notin> {xff, xfh, xfp} \<longrightarrow> headerValues (orHeader out) n = headerValues stripped n)"
proof -
  have join: "joinStrings (vs @ [ip]) '', '' = joinStrings vs '', '' @ '', '' @ ip" if "vs \<noteq> []" for vs
    using that by (induction vs "'', ''" rule: joinStrings.induct) auto
  have ne: "xff \<noteq> xfh" "xff \<noteq> xfp" "xfh \<noteq> xfp" "xfh \<noteq> xff" "xfp \<noteq> xff" "xfp \<noteq> xfh"
    by (simp_all add: xff_def xfh_def xfp_def)
  define publicScheme where
    "publicScheme = (case osURL os (pPublicURL p) of Some (sch, _) \<Rightarrow> sch | None \<Rightarrow> [])"
  define h1 where "h1 = (if headerValues (rqHeader r) xff \<noteq> []
    then mapPut xff (headerValues (rqHeader r) xff) stripped else stripped)"
  define h2 where "h2 = SetXForwarded r h1"
  define h3 where "h3 = (if headerGet (rqHeader r) xfh \<noteq> [] then headerSet xfh (headerGet (rqHeader r) xfh) h2 else h2)"
  define h4 where "h4 = (if headerGet (rqHeader r) xfp \<noteq> [] then headerSet xfp (headerGet (rqHeader r) xfp) h3
    else if publicScheme \<noteq> [] then headerSet xfp publicScheme h3 else h3)"
  have out: "rewriteRequest os p r stripped =
      \<lparr>orScheme = ''http'', orURLHost = upstreamAddr p,
       orHost = (if pRewriteHost p then upstreamAddr p else rqHost r), orHeader = h4\<rparr>"
    by (simp only: rewriteRequest_def Let_def h4_def h3_def h2_def h1_def publicScheme_def)
  have v1: "headerValues h1 n = (if n = xff then headerValues (rqHeader r) xff else headerValues stripped n)" for n
    using assms(1) by (simp add: h1_def headerValues_def gomap_simps)
  have v2: "headerValues h2 n = (if n = xfp then [if rqTLS r then ''https'' else ''http'']
      else if n = xfh then [rqHost r]
      else if n = xff then [joinStrings (headerValues (rqHeader r) xff @ [ip]) '', '']
      else headerValues stripped n)" for n
    using assms(2) ne join by (simp add: h2_def SetXForwarded_def Let_def headerValues_headerSet v1)
  have v3: "headerValues h3 n = (if n = xfh \<and> headerGet (rqHeader r) xfh \<noteq> []
      then [headerGet (rqHeader r) xfh] else headerValues h2 n)" for n
    by (simp add: h3_def headerValues_headerSet)
  have v4: "headerValues h4 n = (if n = xfp \<and> headerGet (rqHeader r) xfp \<noteq> [] then [headerGet (rqHeader r) xfp]
      else if n = xfp \<and> publicScheme \<noteq> [] then [publicScheme] else headerValues h3 n)" for n
    by (simp add: h4_def headerValues_headerSet)
  have sch: "(case osURL os (pPublicURL p) of
      Some (sch, _) \<Rightarrow> if sch \<noteq> [] then sch else if rqTLS r then ''https'' else ''http''
    | None \<Rightarrow> if rqTLS r then ''https'' else ''http'') =
      (if publicScheme \<noteq> [] then publicScheme else if rqTLS r then ''https'' else ''http'')"
    by (auto simp: publicScheme_def split: option.splits)
  show ?thesis
    unfolding sch Let_def using ne by (simp add: out v4 v3 v2 upstreamAddr_def JoinHostPort_def)
qed

definition plainView :: osView where
  "plainView = \<lparr>osHome = None, osCwd = ''/'', osStat = (\<lambda>_. None), osReadDir = (\<lambda>_. None),
     osReadFile = (\<lambda>_. None), osURL = (\<lambda>_. Some (''https'', ''h'')), osLoopbackIP = (\<lambda>_. True),
     osGlob = (\<lambda>_ _. None)\<rparr>"

theorem forwarded_headers_witness:
  "headerValues (orHeader (rewriteRequest plainView emptyProject
     (demoRequest\<lparr>rqHeader := [(xff, [''10.0.0.1''])]\<rparr>) [])) xff = [''10.0.0.1, 127.0.0.1'']"
proof -
  have "headerValues [] xff = []" "rqRemoteIP (demoRequest\<lparr>rqHeader := [(xff, [''10.0.0.1''])]\<rparr>) = Some ''127.0.0.1''"
    by (simp_all add: headerValues_def demoRequest_def)
  from forwarded_headers [OF this, of plainView emptyProject] show ?thesis
    by (simp add: Let_def) (simp add: headerValues_def)
qed

text \<open>The characters HTML gives a meaning to.\<close>

definition htmlSpecial :: "char \<Rightarrow> bool" where
  "htmlSpecial c \<longleftrightarrow> c \<in> set [CHR ''<'', CHR ''>'', CHR 0x22, CHR 0x27]"

lemma escape_safe: "filter htmlSpecial (HTMLEscapeString s) = []"
  by (induction s) (simp_all add: HTMLEscapeString_def escapeByte_def htmlSpecial_def)

lemma hintParts_tags:
  "filter htmlSpecial (hintParts code ps) =
     concat (replicate ((length ps + (if code then 1 else 0)) div 2) ''<><>'')"
proof (induction code ps rule: hintParts.induct)
  case (2 code p ps)
  have "concat (replicate (Suc n) ''<><>'') = ''<><>'' @ concat (replicate n ''<><>'')" for n by simp
  with 2 show ?case
    by (cases code) (simp_all add: escape_safe, simp add: htmlSpecial_def)
qed simp

text \<open>
  A hint cannot inject markup into a diagnostic page: the only characters of its HTML
  rendering that mean anything to HTML are those of the literal code tags, one pair for every
  second of the parts between backquotes, whatever the hint (a host name sent by the client,
  for one) contains.
\<close>

theorem hint_html_no_injection:
  "filter htmlSpecial (hintHTML hint) =
     concat (replicate (length (splitByte (CHR 0x60) hint) div 2) ''<><>'')"
  by (simp add: hintHTML_def hintParts_tags)

end
