(* ===== verification/Router.thy ===== *)
theory Router
  imports Proxy
begin

text \<open>
  A project listener's router and a project's slot in it (\<open>internal/daemon/router.go\<close>, the
  \<open>handlerSwitch\<close> of \<open>internal/daemon/daemon.go\<close>). The routing table is copied on every write, so
  an update is a function on the table; handlers are values of an arbitrary type. The contract
  of a table keyed by host is the locale \<open>routing\<close>.
\<close>

section \<open>The routing table\<close>

record 'h routeTable =
  rtHosts :: "(string, 'h) gomap"
  rtCatchAll :: "'h option"

definition newRouter :: "'h routeTable" where
  "newRouter = \<lparr>rtHosts = [], rtCatchAll = None\<rparr>"

definition requestHost :: "request \<Rightarrow> string" where
  "requestHost r =
     (let host = (case SplitHostPort (rqHost r) of Some (h, _) \<Rightarrow> h | None \<Rightarrow> rqHost r)
      in trimSuffix (ToLower host) ''.'')"

datatype 'h route = ToHandler 'h | ToResolver string | NoProject string "string list"

text \<open>\<open>ServeHTTP\<close>; \<open>resolves\<close> says whether the listener belongs to a wildcard entry.\<close>

definition routeRequest :: "bool \<Rightarrow> 'h routeTable \<Rightarrow> request \<Rightarrow> 'h route" where
  "routeRequest resolves t r =
     (case rtCatchAll t of
        Some h \<Rightarrow> ToHandler h
      | None \<Rightarrow>
          (let host = requestHost r in
           case map_of (rtHosts t) host of
             Some h \<Rightarrow> ToHandler h
           | None \<Rightarrow>
               if resolves then ToResolver host
               else NoProject host (sort (map fst (rtHosts t)))))"

definition setHost :: "string \<Rightarrow> 'h \<Rightarrow> 'h routeTable \<Rightarrow> 'h routeTable" where
  "setHost host h t = t\<lparr>rtHosts := mapPut host h (rtHosts t)\<rparr>"

definition removeHost :: "string \<Rightarrow> 'h routeTable \<Rightarrow> 'h routeTable" where
  "removeHost host t = t\<lparr>rtHosts := mapDelete host (rtHosts t)\<rparr>"

definition setCatchAll :: "'h option \<Rightarrow> 'h routeTable \<Rightarrow> 'h routeTable" where
  "setCatchAll h t = t\<lparr>rtCatchAll := h\<rparr>"

text \<open>The 404 for a hostname nothing claims.\<close>

definition notFound :: "fmtLib \<Rightarrow> string \<Rightarrow> request \<Rightarrow> string \<Rightarrow> string list \<Rightarrow> response" where
  "notFound fmt addr r host known =
     WriteDiagnostic fmt r
       (emptyDiagnostic
          \<lparr>dgStatus := 404,
           dgTitle := ''no project for host '' @ fmtQuote fmt host,
           dgReason := ''The herd-wake listener on '' @ addr @
             '' routes requests by hostname and has no project registered for '' @ fmtQuote fmt host @
             ''. Hosts served here: '' @
             (if known \<noteq> [] then joinStrings known '', '' else ''no project at all'') @ ''.'',
           dgHint := ''Add a project with `host: '' @ host @
             ''` to the configuration and run `herd-wake reload`, or point the request at one of the hosts above.''\<rparr>)"

section \<open>The contract of a host-keyed table\<close>

locale routing =
  fixes lookup :: "'t \<Rightarrow> string \<Rightarrow> 'h option"
    and put :: "string \<Rightarrow> 'h \<Rightarrow> 't \<Rightarrow> 't"
    and remove :: "string \<Rightarrow> 't \<Rightarrow> 't"
  assumes lookup_put: "lookup (put host h t) x = (if x = host then Some h else lookup t x)"
    and lookup_remove: "lookup (remove host t) x = (if x = host then None else lookup t x)"
begin

lemma put_isolated: "x \<noteq> host \<Longrightarrow> lookup (put host h t) x = lookup t x"
  by (simp add: lookup_put)

lemma put_remove: "lookup (remove host (put host h t)) x = lookup (remove host t) x"
  by (simp add: lookup_put lookup_remove)

lemma put_replaces: "lookup (put host h' (put host h t)) x = lookup (put host h' t) x"
  by (simp add: lookup_put)

lemma remove_idem: "lookup (remove host (remove host t)) x = lookup (remove host t) x"
  by (simp add: lookup_remove)

lemma fold_puts:
  "distinct (map fst hs) \<Longrightarrow>
     lookup (fold (\<lambda>(host, h). put host h) hs t) x =
       (case map_of hs x of Some h \<Rightarrow> Some h | None \<Rightarrow> lookup t x)"
proof (induction hs arbitrary: t)
  case (Cons p hs)
  obtain host h where p: "p = (host, h)" by (cases p)
  then have "map_of hs host = None" using Cons.prems by (simp add: map_of_eq_None_iff)
  then show ?case using Cons by (auto simp: p lookup_put split: option.splits)
qed simp

end

definition routeFor :: "'h routeTable \<Rightarrow> string \<Rightarrow> 'h option" where
  "routeFor t host = map_of (rtHosts t) host"

interpretation routes: routing routeFor setHost removeHost
  by unfold_locales (simp_all add: routeFor_def setHost_def removeHost_def gomap_simps)

section \<open>The handler switch\<close>

text \<open>
  The slot is a handler, or suspended with a channel that closes at the next installation. The
  record keeps the closed channels and, per request, where it is in \<open>ServeHTTP\<close>'s loop.
\<close>

datatype 'h slot = Serving 'h | Suspended nat

datatype 'h switchReq = NotArrived | Arrived | Parked_on nat | Served 'h | Gone

record 'h switch =
  swSlot :: "'h slot"
  swClosed :: "nat set"
  swNext :: nat
  swReq :: "nat \<Rightarrow> 'h switchReq"

definition newHandlerSwitch :: "'h \<Rightarrow> 'h switch" where
  "newHandlerSwitch h = \<lparr>swSlot = Serving h, swClosed = {}, swNext = 0, swReq = (\<lambda>_. NotArrived)\<rparr>"

definition Suspend :: "'h switch \<Rightarrow> 'h switch" where
  "Suspend s =
     (case swSlot s of
        Suspended _ \<Rightarrow> s
      | Serving _ \<Rightarrow> s\<lparr>swSlot := Suspended (swNext s), swNext := swNext s + 1\<rparr>)"

definition Install :: "'h \<Rightarrow> 'h switch \<Rightarrow> 'h switch" where
  "Install h s =
     (case swSlot s of
        Suspended c \<Rightarrow> s\<lparr>swSlot := Serving h, swClosed := insert c (swClosed s)\<rparr>
      | Serving _ \<Rightarrow> s\<lparr>swSlot := Serving h\<rparr>)"

text \<open>One iteration: load the slot; serve, or wait on its channel.\<close>

definition loadSlot :: "nat \<Rightarrow> 'h switch \<Rightarrow> 'h switch" where
  "loadSlot i s =
     s\<lparr>swReq := (swReq s)(i := (case swSlot s of Serving h \<Rightarrow> Served h | Suspended c \<Rightarrow> Parked_on c))\<rparr>"

inductive switchStep :: "'h switch \<Rightarrow> 'h switch \<Rightarrow> bool" where
  suspend: "switchStep s (Suspend s)"
| install: "switchStep s (Install h s)"
| arrive: "swReq s i = NotArrived \<Longrightarrow> switchStep s (s\<lparr>swReq := (swReq s)(i := Arrived)\<rparr>)"
| load: "swReq s i = Arrived \<Longrightarrow> switchStep s (loadSlot i s)"
| wake: "swReq s i = Parked_on c \<Longrightarrow> c \<in> swClosed s \<Longrightarrow> switchStep s (loadSlot i s)"
| leave: "swReq s i = Parked_on c \<Longrightarrow> switchStep s (s\<lparr>swReq := (swReq s)(i := Gone)\<rparr>)"

definition switchInit :: "'h switch \<Rightarrow> bool" where
  "switchInit s \<longleftrightarrow> (\<exists>h. s = newHandlerSwitch h)"

text \<open>A parked request waits on the current suspension's channel, or on one that is closed.\<close>

definition switchInv :: "'h switch \<Rightarrow> bool" where
  "switchInv s \<longleftrightarrow>
     (\<forall>i c. swReq s i = Parked_on c \<longrightarrow> c < swNext s \<and> (c \<in> swClosed s \<or> swSlot s = Suspended c)) \<and>
     (\<forall>c. swSlot s = Suspended c \<longrightarrow> c < swNext s \<and> c \<notin> swClosed s) \<and>
     (\<forall>c \<in> swClosed s. c < swNext s)"

lemma switchInv_init: "switchInit s \<Longrightarrow> switchInv s"
  by (auto simp: switchInit_def newHandlerSwitch_def switchInv_def)

lemma switchInv_step: "switchInv s \<Longrightarrow> switchStep s t \<Longrightarrow> switchInv t"
proof -
  assume "switchStep s t" and inv: "switchInv s"
  then show "switchInv t"
  proof cases
    case suspend
    then show ?thesis using inv
      by (cases "swSlot s") (auto simp: switchInv_def Suspend_def less_Suc_eq)
  next
    case (install h)
    then show ?thesis using inv by (cases "swSlot s") (auto simp: switchInv_def Install_def)
  next
    case (arrive i)
    then show ?thesis using inv by (auto simp: switchInv_def)
  next
    case (load i)
    then show ?thesis using inv by (cases "swSlot s") (auto simp: switchInv_def loadSlot_def)
  next
    case (wake i c)
    then show ?thesis using inv by (cases "swSlot s") (auto simp: switchInv_def loadSlot_def)
  next
    case (leave i c)
    then show ?thesis using inv by (auto simp: switchInv_def)
  qed
qed

interpretation hswitch: inductive_invariant switchInit switchStep switchInv
  by unfold_locales (auto intro: switchInv_init switchInv_step)

section \<open>Properties\<close>

text \<open>
  Routing by host is exact and isolated. On a listener without a catch-all a request reaches
  a handler only if its host is routed, and then that one; setting, replacing or removing a host
  changes the route of no other host; a removed host reaches no handler any more; a host nobody
  claims goes to the resolver or gets the 404, never to another project.
\<close>

theorem routing_exact:
  assumes "rtCatchAll t = None"
  shows "(routeRequest resolves t r = ToHandler k \<longleftrightarrow> map_of (rtHosts t) (requestHost r) = Some k) \<and>
    (requestHost r = host \<longrightarrow>
       routeRequest resolves (setHost host h t) r = ToHandler h \<and>
       routeRequest resolves (removeHost host t) r =
         (if resolves then ToResolver host
          else NoProject host (sort (map fst (rtHosts (removeHost host t)))))) \<and>
    (requestHost r \<noteq> host \<longrightarrow>
       (routeRequest resolves (setHost host h t) r = ToHandler k \<longleftrightarrow>
          routeRequest resolves t r = ToHandler k) \<and>
       (routeRequest resolves (removeHost host t) r = ToHandler k \<longleftrightarrow>
          routeRequest resolves t r = ToHandler k))"
proof -
  have all: "rtCatchAll (setHost host h t) = None" "rtCatchAll (removeHost host t) = None"
    using assms by (simp_all add: setHost_def removeHost_def)
  have to: "routeRequest resolves u r = ToHandler k \<longleftrightarrow> routeFor u (requestHost r) = Some k"
    if "rtCatchAll u = None" for u k
    using that by (auto simp: routeRequest_def routeFor_def Let_def split: option.splits)
  have none: "routeRequest resolves u r = (if resolves then ToResolver (requestHost r)
      else NoProject (requestHost r) (sort (map fst (rtHosts u))))"
    if "rtCatchAll u = None" "routeFor u (requestHost r) = None" for u
    using that by (simp add: routeRequest_def routeFor_def Let_def)
  show ?thesis
    using to [OF all(1)] to [OF all(2)] to [OF assms] none [OF all(2)]
    by (auto simp: routes.lookup_put routes.lookup_remove) (simp_all add: routeFor_def)
qed

theorem routing_exact_witness:
  "routeRequest False (setHost ''a.test'' (7::nat) newRouter) demoRequest = ToHandler 7"
proof -
  have "rtCatchAll (newRouter :: nat routeTable) = None" by (simp add: newRouter_def)
  moreover have "requestHost demoRequest = ''a.test''"
    by (simp add: requestHost_def demoRequest_def SplitHostPort_def ToLower_def lowerByte_def
        trimSuffix_def cutSuffix_def hasSuffix_def)
  ultimately show ?thesis using routing_exact by fast
qed

lemma lastIndexByte_none: "c \<notin> set s \<Longrightarrow> lastIndexByte c s = None"
  by (induction s) auto

lemma lastIndexByte_append: "c \<notin> set b \<Longrightarrow> lastIndexByte c (a @ c # b) = Some (length a)"
  by (induction a) (simp_all add: lastIndexByte_none)

definition plainHost :: "string \<Rightarrow> bool" where
  "plainHost s \<longleftrightarrow> CHR '':'' \<notin> set s \<and> CHR ''['' \<notin> set s \<and> CHR '']'' \<notin> set s"

lemma SplitHostPort_plain: "plainHost h \<Longrightarrow> SplitHostPort h = None"
  by (simp add: plainHost_def SplitHostPort_def lastIndexByte_none)

lemma SplitHostPort_port:
  "plainHost h \<Longrightarrow> plainHost port \<Longrightarrow> SplitHostPort (h @ CHR '':'' # port) = Some (h, port)"
proof -
  assume h: "plainHost h" and p: "plainHost port"
  then have "\<not> hasPrefix (h @ CHR '':'' # port) ''[''"
    by (cases h) (auto simp: plainHost_def hasPrefix_def)
  with h p show ?thesis by (simp add: SplitHostPort_def plainHost_def lastIndexByte_append)
qed

text \<open>
  The Host header is normalised before routing: a port, the letter case and a trailing dot
  do not change where a request goes.
\<close>

theorem request_host_normalised:
  assumes "plainHost h" and "plainHost port" and "plainHost h'" and "EqualFold h h'"
    and "\<not> hasSuffix (ToLower h) ''.''"
  shows "requestHost (r\<lparr>rqHost := h\<rparr>) = ToLower h \<and>
    requestHost (r\<lparr>rqHost := h' @ CHR '':'' # port\<rparr>) = ToLower h \<and>
    requestHost (r\<lparr>rqHost := h' @ ''.''\<rparr>) = ToLower h \<and>
    requestHost (r\<lparr>rqHost := (h' @ ''.'') @ CHR '':'' # port\<rparr>) = ToLower h"
proof -
  have e: "ToLower h' = ToLower h" using assms(4) by (simp add: EqualFold_def)
  have dot: "plainHost (h' @ ''.'')" using assms(3) by (simp add: plainHost_def)
  have none: "trimSuffix (ToLower h) ''.'' = ToLower h"
    using assms(5) by (simp add: trimSuffix_def cutSuffix_def)
  have one: "trimSuffix (ToLower (h' @ ''.'')) ''.'' = ToLower h"
    by (simp add: ToLower_append e trimSuffix_def) (simp add: ToLower_def lowerByte_def)
  show ?thesis
    using SplitHostPort_plain [OF assms(1)] SplitHostPort_port [OF assms(3,2)]
      SplitHostPort_plain [OF dot] SplitHostPort_port [OF dot assms(2)] none one e
    by (simp add: requestHost_def)
qed

theorem request_host_normalised_witness:
  "requestHost (demoRequest\<lparr>rqHost := ''A.Test:443''\<rparr>) = ''a.test''"
proof -
  have "EqualFold ''a.test'' ''A.Test''" by (code_simp)
  moreover have "ToLower ''a.test'' = ''a.test''" by (simp add: ToLower_def lowerByte_def)
  ultimately show ?thesis
    using request_host_normalised [of "''a.test''" "''443''" "''A.Test''" demoRequest]
    by (simp add: plainHost_def hasSuffix_def)
qed

text \<open>
  C36. Swapping a project's handler loses no request. In every reachable state of the switch,
  whatever arrives while it is suspended is served by nobody (in particular not by the old
  handler) until a handler is installed; then every parked request can proceed, and gets the
  handler that is current when it does; and nothing ever waits on a channel that will not be
  closed by the next installation.
\<close>

theorem switch_swap_loses_nothing:
  assumes "reachable switchInit switchStep s"
  shows "(swSlot s = Suspended c \<longrightarrow> (\<forall>i h. swReq (loadSlot i s) i \<noteq> Served h)) \<and>
    (\<forall>i d. swReq s i = Parked_on d \<longrightarrow>
       d \<in> swClosed (Install h s) \<and>
       switchStep (Install h s) (loadSlot i (Install h s)) \<and>
       swReq (loadSlot i (Install h s)) i = Served h)"
proof -
  have inv: "switchInv s" using assms by (rule hswitch.reachable_inv)
  have closed: "d \<in> swClosed (Install h s)" if "swReq s i = Parked_on d" for i d
  proof -
    have "d \<in> swClosed s \<or> swSlot s = Suspended d" using inv that by (simp add: switchInv_def)
    then show ?thesis by (auto simp: Install_def split: slot.splits)
  qed
  have req: "swReq (Install h s) = swReq s" "swSlot (Install h s) = Serving h"
    by (simp_all add: Install_def split: slot.splits)
  have "switchStep (Install h s) (loadSlot i (Install h s))" if "swReq s i = Parked_on d" for i d
    using closed [OF that] that by (intro switchStep.wake) (simp_all add: req)
  then show ?thesis using closed req by (auto simp: loadSlot_def)
qed

theorem switch_swap_loses_nothing_witness:
  "\<exists>s. reachable switchInit switchStep s \<and> swReq s 4 = Parked_on 0 \<and>
     swReq (loadSlot 4 (Install (2::nat) s)) 4 = Served 2"
proof -
  let ?a = "Suspend (newHandlerSwitch (1::nat))"
  let ?b = "?a\<lparr>swReq := (swReq ?a)(4 := Arrived)\<rparr>"
  have "reachable switchInit switchStep ?a"
    by (rule reach_step [OF reach_init]) (auto simp: switchInit_def intro: switchStep.suspend)
  then have "reachable switchInit switchStep ?b"
    by (rule reach_step) (rule switchStep.arrive, simp add: Suspend_def newHandlerSwitch_def)
  then have r: "reachable switchInit switchStep (loadSlot 4 ?b)"
    by (rule reach_step) (rule switchStep.load, simp)
  have p: "swReq (loadSlot 4 ?b) 4 = Parked_on 0"
    by (simp add: loadSlot_def Suspend_def newHandlerSwitch_def)
  show ?thesis using switch_swap_loses_nothing [OF r] r p by blast
qed

end
