(* ===== verification/DaemonState.thy ===== *)
theory DaemonState
  imports Monitor Router ConfigFile "HOL-Library.Multiset"
begin

text \<open>
  The daemon's runtime state (\<open>internal/daemon/daemon.go\<close>, \<open>internal/daemon/state.go\<close>,
  \<open>internal/daemon/wildcard.go\<close>): the project table, the wildcard entries, the listeners with
  their routers. The structs the code shares by pointer (project states, entry states, trackers,
  switches, bindings) live in stores keyed by number, so that two table entries, or a table
  entry and a replacement, can refer to the same tracker or switch as they do in the code.
\<close>

type_synonym stId = nat
type_synonym esId = nat
type_synonym trackerId = nat
type_synonym switchId = nat
type_synonym bindId = nat

text \<open>A handler in a router: a project's switch, or the guard in front of a dynamic project's.\<close>

datatype handlerRef =
    SwitchHandler switchId
  | GuardHandler string switchId string esId

text \<open>A switch's slot names the project state whose proxy handler it holds.\<close>

datatype switchSlot = Handling stId | Waiting

record projectState =
  psProject :: project
  psProc :: supervisor
  psTracker :: trackerId
  psSwitch :: "switchId option"
  psBind :: "bindId option"
  psActive :: bool
  psDynamic :: bool
  psEntry :: "esId option"
  psRetired :: bool

record entryState =
  esEntry :: discovery
  esBind :: "bindId option"
  esMaxRunning :: int

record binding =
  bdAddr :: string
  bdRouter :: "handlerRef routeTable"
  bdMembers :: int
  bdEntry :: "esId option"
  bdOpen :: bool

record daemon =
  dmConfigPath :: string
  dmStates :: "(string, stId) gomap"
  dmProjects :: "stId \<Rightarrow> projectState"
  dmTrackers :: "trackerId \<Rightarrow> tracker"
  dmSwitches :: "switchId \<Rightarrow> switchSlot"
  dmEntries :: "(string, esId) gomap"
  dmEntryStates :: "esId \<Rightarrow> entryState"
  dmBindings :: "(string, bindId) gomap"
  dmBinds :: "bindId \<Rightarrow> binding"
  dmMaxRunning :: int
  dmDraining :: bool
  dmRunning :: bool
  dmNext :: nat
  dmLastReloadAt :: time
  \<comment> \<open>stops begun by an eviction that have not released their gate yet\<close>
  dmReleases :: "(stId \<times> gate) list"
  \<comment> \<open>always-on starts launched in the background\<close>
  dmStarts :: "stId list"

section \<open>Reading\<close>

definition procOf :: "daemon \<Rightarrow> stId \<Rightarrow> supervisor" where
  "procOf d i = psProc (dmProjects d i)"

definition trackerOf :: "daemon \<Rightarrow> stId \<Rightarrow> tracker" where
  "trackerOf d i = dmTrackers d (psTracker (dmProjects d i))"

definition nameOf :: "daemon \<Rightarrow> stId \<Rightarrow> string" where
  "nameOf d i = pName (psProject (dmProjects d i))"

definition sortedStatesLocked :: "daemon \<Rightarrow> stId list" where
  "sortedStatesLocked d = map (\<lambda>n. the (map_of (dmStates d) n)) (sort (map fst (dmStates d)))"

definition sortedEntriesLocked :: "daemon \<Rightarrow> esId list" where
  "sortedEntriesLocked d = map (\<lambda>n. the (map_of (dmEntries d) n)) (sort (map fst (dmEntries d)))"

definition findProject :: "daemon \<Rightarrow> string \<Rightarrow> stId option" where
  "findProject d name = map_of (dmStates d) name"

definition dynamicStatesLocked :: "daemon \<Rightarrow> esId \<Rightarrow> stId list" where
  "dynamicStatesLocked d e =
     filter (\<lambda>i. psDynamic (dmProjects d i) \<and> psEntry (dmProjects d i) = Some e) (sortedStatesLocked d)"

definition listenAddr :: "project \<Rightarrow> string" where
  "listenAddr p = JoinHostPort (pListenHost p) (Itoa (pSupervisorPort p))"

definition entryAddr :: "discovery \<Rightarrow> string" where
  "entryAddr e = JoinHostPort (ListenHost e) (Itoa (SupervisorPort e))"

section \<open>Writing\<close>

definition setProject :: "stId \<Rightarrow> projectState \<Rightarrow> daemon \<Rightarrow> daemon" where
  "setProject i st d = d\<lparr>dmProjects := (dmProjects d)(i := st)\<rparr>"

definition setProc :: "stId \<Rightarrow> supervisor \<Rightarrow> daemon \<Rightarrow> daemon" where
  "setProc i s d = setProject i ((dmProjects d i)\<lparr>psProc := s\<rparr>) d"

definition setTracker :: "stId \<Rightarrow> tracker \<Rightarrow> daemon \<Rightarrow> daemon" where
  "setTracker i t d = d\<lparr>dmTrackers := (dmTrackers d)(psTracker (dmProjects d i) := t)\<rparr>"

definition setBinding :: "bindId \<Rightarrow> binding \<Rightarrow> daemon \<Rightarrow> daemon" where
  "setBinding b bd d = d\<lparr>dmBinds := (dmBinds d)(b := bd)\<rparr>"

definition updateRouter ::
    "bindId \<Rightarrow> (handlerRef routeTable \<Rightarrow> handlerRef routeTable) \<Rightarrow> daemon \<Rightarrow> daemon" where
  "updateRouter b f d = setBinding b ((dmBinds d b)\<lparr>bdRouter := f (bdRouter (dmBinds d b))\<rparr>) d"

section \<open>Well-formedness\<close>

text \<open>
  The table maps names to distinct states that carry the name; a supervisor's mirror agrees with
  its state (an invariant of the supervisor).
\<close>

definition wfDaemon :: "daemon \<Rightarrow> bool" where
  "wfDaemon d \<longleftrightarrow>
     distinct (map fst (dmStates d)) \<and> distinct (map snd (dmStates d)) \<and>
     (\<forall>i. mirrored (procOf d i))"

lemma map_the_map_of: "distinct (map fst m) \<Longrightarrow> map (\<lambda>kv. the (map_of m (fst kv))) m = map snd m"
  by (rule map_cong) (auto simp: map_of_is_SomeI)

lemma mset_sortedStates:
  "distinct (map fst (dmStates d)) \<Longrightarrow> mset (sortedStatesLocked d) = mset (map snd (dmStates d))"
  by (simp only: sortedStatesLocked_def mset_map mset_sort)
    (simp only: mset_map [symmetric] map_map o_def map_the_map_of)

lemma in_sortedStates: "distinct (map fst (dmStates d)) \<Longrightarrow>
    i \<in> set (sortedStatesLocked d) \<longleftrightarrow> i \<in> snd ` set (dmStates d)"
  using mset_eq_setD [OF mset_sortedStates, of d] by simp

lemma distinct_sortedStates:
  "distinct (map fst (dmStates d)) \<Longrightarrow> distinct (map snd (dmStates d)) \<Longrightarrow>
    distinct (sortedStatesLocked d)"
  using mset_sortedStates mset_eq_imp_distinct_iff by blast

lemma set_frame [simp]:
  "dmStates (setProject i st d) = dmStates d" "dmStates (setProc i s d) = dmStates d"
  "dmStates (setTracker i t d) = dmStates d"
  "dmTrackers (setProject i st d) = dmTrackers d" "dmTrackers (setProc i s d) = dmTrackers d"
  "dmProjects (setTracker i t d) = dmProjects d"
  "dmMaxRunning (setProject i st d) = dmMaxRunning d" "dmMaxRunning (setProc i s d) = dmMaxRunning d"
  "dmMaxRunning (setTracker i t d) = dmMaxRunning d"
  "dmEntryStates (setProject i st d) = dmEntryStates d" "dmEntryStates (setProc i s d) = dmEntryStates d"
  "dmEntryStates (setTracker i t d) = dmEntryStates d"
  by (simp_all add: setProject_def setProc_def setTracker_def)

lemma procOf_setProc [simp]: "procOf (setProc i s d) j = (if j = i then s else procOf d j)"
  by (simp add: procOf_def setProc_def setProject_def)

lemma procOf_setTracker [simp]: "procOf (setTracker i t d) j = procOf d j"
  by (simp add: procOf_def)

lemma sortedStates_cong: "dmStates d = dmStates e \<Longrightarrow> sortedStatesLocked d = sortedStatesLocked e"
  by (simp add: sortedStatesLocked_def)

lemma setProc_fields [simp]:
  "psEntry (dmProjects (setProc i s d) j) = psEntry (dmProjects d j)"
  "psProject (dmProjects (setProc i s d) j) = psProject (dmProjects d j)"
  "psDynamic (dmProjects (setProc i s d) j) = psDynamic (dmProjects d j)"
  "psTracker (dmProjects (setProc i s d) j) = psTracker (dmProjects d j)"
  by (simp_all add: setProc_def setProject_def)

end
