(* ===== verification/Budget.thy ===== *)
theory Budget
  imports DaemonState
begin

text \<open>
  The running-server budget (\<open>internal/daemon/budget.go\<close>): counting slots, ranking and evicting,
  reserving a slot for a start, waiting for one, and the start paths that go through it. What
  other goroutines do between two attempts of a reservation is the parameter \<open>env\<close>; an attempt
  itself sees one instant.
\<close>

definition evictionAttempts :: nat where "evictionAttempts = 3"
definition budgetPollInterval :: duration where "budgetPollInterval = 100 * timeMillisecond"
definition capacityWaitMargin :: duration where "capacityWaitMargin = timeSecond"

datatype blockReason =
    IsAlwaysOn | StillStarting | RequestsInFlight int | OpenWebSockets int | LeasedUntil time
  | BeingIdleStopped

datatype budgetScope = GlobalScope | EntryScope string

record capacityError =
  ceProject :: string
  ceScope :: budgetScope
  ceRunning :: nat
  ceMax :: int
  ceBlockers :: "(string \<times> blockReason) list"

section \<open>Counting and ranking\<close>

definition holdsSlot :: "daemon \<Rightarrow> stId \<Rightarrow> bool" where
  "holdsSlot d i = (State (procOf d i) = Running \<or> State (procOf d i) = Starting)"

definition countGlobal :: "daemon \<Rightarrow> stId list \<Rightarrow> nat" where
  "countGlobal d ids = length (filter (holdsSlot d) ids)"

definition countEntry :: "daemon \<Rightarrow> stId list \<Rightarrow> esId option \<Rightarrow> nat" where
  "countEntry d ids entry =
     (case entry of
        None \<Rightarrow> 0
      | Some e \<Rightarrow> length (filter (\<lambda>i. holdsSlot d i \<and> psEntry (dmProjects d i) = Some e) ids))"

definition countRunning :: "daemon \<Rightarrow> stId list \<Rightarrow> esId option \<Rightarrow> nat \<times> nat" where
  "countRunning d ids entry = (countGlobal d ids, countEntry d ids entry)"

definition entryStates :: "daemon \<Rightarrow> stId list \<Rightarrow> esId option \<Rightarrow> stId list" where
  "entryStates d ids entry =
     filter (\<lambda>i. psDynamic (dmProjects d i) \<and> psEntry (dmProjects d i) = entry) ids"

record candidate =
  cdId :: stId
  cdSnap :: snapshot
  cdLastActive :: time

definition candidateOf :: "daemon \<Rightarrow> stId \<Rightarrow> candidate" where
  "candidateOf d i =
     (let snap = Snapshot (procOf d i)
      in \<lparr>cdId = i, cdSnap = snap, cdLastActive = activityBase (snStartedAt snap) (trackerOf d i)\<rparr>)"

text \<open>\<open>sort.SliceStable\<close> by the last activity.\<close>

definition evictionOrder :: "daemon \<Rightarrow> stId list \<Rightarrow> candidate list" where
  "evictionOrder d ids =
     sort_key cdLastActive
       (filter (\<lambda>c. snState (cdSnap c) = Running \<or> snState (cdSnap c) = Starting)
         (map (candidateOf d) (filter (holdsSlot d) ids)))"

definition blockReasonOf :: "daemon \<Rightarrow> candidate \<Rightarrow> time \<Rightarrow> blockReason option" where
  "blockReasonOf d c now =
     (let tr = trackerOf d (cdId c) in
      if pAlwaysOn (psProject (dmProjects d (cdId c))) then Some IsAlwaysOn
      else if snState (cdSnap c) = Starting then Some StillStarting
      else if tInflight tr > 0 then Some (RequestsInFlight (tInflight tr))
      else if tPersistent tr > 0 then Some (OpenWebSockets (tPersistent tr))
      else if \<not> IsZero (LeaseUntil now tr) then Some (LeasedUntil (LeaseUntil now tr))
      else None)"

section \<open>Evicting\<close>

text \<open>The victim's gate is armed and its stop begun; the release of the gate is left pending.\<close>

definition evictProject :: "stId \<Rightarrow> gate \<Rightarrow> tracker \<Rightarrow> daemon \<Rightarrow> daemon" where
  "evictProject i g t d =
     (let d1 = setTracker i t d;
          d2 = setProc i (snd (StopAsync (procOf d1 i))) d1
      in d2\<lparr>dmReleases := dmReleases d2 @ [(i, g)]\<rparr>)"

fun evictLoop ::
    "time \<Rightarrow> candidate list \<Rightarrow> (string \<times> blockReason) list \<Rightarrow> daemon \<Rightarrow>
      (stId option \<times> (string \<times> blockReason) list) \<times> daemon" where
  "evictLoop now [] blockers d = ((None, blockers), d)"
| "evictLoop now (c # cs) blockers d =
     (case blockReasonOf d c now of
        Some reason \<Rightarrow> evictLoop now cs (blockers @ [(nameOf d (cdId c), reason)]) d
      | None \<Rightarrow>
          (case BeginStop now (trackerOf d (cdId c)) of
             (None, t) \<Rightarrow>
               (let d1 = setTracker (cdId c) t d;
                    reason = (case blockReasonOf d1 c now of Some r \<Rightarrow> r | None \<Rightarrow> BeingIdleStopped)
                in evictLoop now cs (blockers @ [(nameOf d (cdId c), reason)]) d1)
           | (Some g, t) \<Rightarrow> ((Some (cdId c), []), evictProject (cdId c) g t d)))"

definition evict ::
    "time \<Rightarrow> stId list \<Rightarrow> daemon \<Rightarrow> (stId option \<times> (string \<times> blockReason) list) \<times> daemon" where
  "evict now pool d = evictLoop now (evictionOrder d pool) [] d"

definition nextEviction :: "time \<Rightarrow> daemon \<Rightarrow> stId list \<Rightarrow> string" where
  "nextEviction now d ids =
     (case filter (\<lambda>c. blockReasonOf d c now = None) (evictionOrder d ids) of
        [] \<Rightarrow> []
      | c # _ \<Rightarrow> nameOf d (cdId c))"

section \<open>Reserving\<close>

type_synonym start = "supervisor \<Rightarrow> chan \<times> supervisor"

text \<open>A channel, or a capacity error, or neither (both Go results nil).\<close>

type_synonym reservation = "chan option \<times> capacityError option"

definition runStart :: "start \<Rightarrow> stId \<Rightarrow> daemon \<Rightarrow> reservation \<times> daemon" where
  "runStart start i d =
     (let (ch, s) = start (procOf d i) in ((Some ch, None), setProc i s d))"

definition entryCapOf :: "daemon \<Rightarrow> stId \<Rightarrow> int" where
  "entryCapOf d i =
     (case psEntry (dmProjects d i) of None \<Rightarrow> 0 | Some e \<Rightarrow> esMaxRunning (dmEntryStates d e))"

text \<open>Whether a cap (0: none) is reached.\<close>

definition capReached :: "int \<Rightarrow> nat \<Rightarrow> bool" where
  "capReached cap n \<longleftrightarrow> 0 < cap \<and> cap \<le> int n"

definition entryNameOf :: "daemon \<Rightarrow> stId \<Rightarrow> string" where
  "entryNameOf d i =
     (case psEntry (dmProjects d i) of None \<Rightarrow> [] | Some e \<Rightarrow> dName (esEntry (dmEntryStates d e)))"

text \<open>
  The attempts of one reservation: the table \<open>ids\<close>, the cap \<open>glob\<close> and the entry's cap \<open>ecap\<close> were
  read before the first.
\<close>

fun reserveLoop ::
    "(nat \<Rightarrow> daemon \<Rightarrow> daemon) \<Rightarrow> time \<Rightarrow> start \<Rightarrow> stId \<Rightarrow> stId list \<Rightarrow> int \<Rightarrow> int \<Rightarrow> nat \<Rightarrow>
      capacityError option \<Rightarrow> daemon \<Rightarrow> reservation \<times> daemon" where
  "reserveLoop env now start i ids glob ecap 0 lastErr d = ((None, lastErr), d)"
| "reserveLoop env now start i ids glob ecap (Suc n) lastErr d0 =
     (let d = env n d0;
          entry = psEntry (dmProjects d i);
          (globalCount, entryCount) = countRunning d ids entry;
          needEntry = capReached ecap entryCount
      in if \<not> capReached glob globalCount \<and> \<not> needEntry then runStart start i d
         else
           (let pool = (if needEntry then entryStates d ids entry else ids);
                err = (if needEntry
                       then \<lparr>ceProject = nameOf d i, ceScope = EntryScope (entryNameOf d i),
                             ceRunning = entryCount, ceMax = ecap, ceBlockers = []\<rparr>
                       else \<lparr>ceProject = nameOf d i, ceScope = GlobalScope,
                             ceRunning = globalCount, ceMax = glob, ceBlockers = []\<rparr>)
            in case evict now pool d of
                 ((Some victim, _), d1) \<Rightarrow> reserveLoop env now start i ids glob ecap n lastErr d1
               | ((None, blockers), d1) \<Rightarrow>
                   (let err' = err\<lparr>ceBlockers := blockers\<rparr> in
                    if blockers \<noteq> [] then ((None, Some err'), d1)
                    else reserveLoop env now start i ids glob ecap n (Some err') d1)))"

definition tryReserveLocked ::
    "(nat \<Rightarrow> daemon \<Rightarrow> daemon) \<Rightarrow> time \<Rightarrow> start \<Rightarrow> stId \<Rightarrow> daemon \<Rightarrow> reservation \<times> daemon" where
  "tryReserveLocked env now start i d =
     (if State (procOf d i) \<in> {Running, Starting, Stopping} then runStart start i d
      else if dmMaxRunning d = 0 \<and> entryCapOf d i = 0 then runStart start i d
      else if map_of (dmStates d) (nameOf d i) \<noteq> Some i then runStart start i d
      else reserveLoop env now start i (sortedStatesLocked d) (dmMaxRunning d) (entryCapOf d i)
             evictionAttempts None d)"

definition budgeted :: "daemon \<Rightarrow> stId \<Rightarrow> bool" where
  "budgeted d i \<longleftrightarrow> 0 < dmMaxRunning d \<or> (psEntry (dmProjects d i) \<noteq> None \<and> 0 < entryCapOf d i)"

definition capacityWait :: "project \<Rightarrow> bool \<Rightarrow> duration" where
  "capacityWait p onDemand =
     (let wait = HoldMaxWait p in
      if onDemand
      then (let w = wait - capacityWaitMargin in if w < capacityWaitMargin then capacityWaitMargin else w)
      else wait)"

text \<open>
  \<open>reserve\<close>: attempts at the ticks of the poll timer until one succeeds, the wait is over or the
  context ends. \<open>ticks\<close> is what each pass of the loop observes: what the world has become, the
  time, and which of the three cases of the \<open>select\<close> is taken after a failed attempt.
\<close>

datatype pollCase = DeadlineHit | ContextDone | PollTick

datatype reserveResult = Reserved "chan option" | CapacityFull capacityError | ReserveCancelled | StillWaiting

fun reserve ::
    "start \<Rightarrow> stId \<Rightarrow> ((nat \<Rightarrow> daemon \<Rightarrow> daemon) \<times> (daemon \<Rightarrow> daemon) \<times> time \<times> pollCase) list \<Rightarrow>
      daemon \<Rightarrow> reserveResult \<times> daemon" where
  "reserve start i [] d = (StillWaiting, d)"
| "reserve start i ((env, world, now, sel) # ticks) d0 =
     (case tryReserveLocked env now start i (world d0) of
        ((ch, None), d) \<Rightarrow> (Reserved ch, d)
      | ((ch, Some err), d) \<Rightarrow>
          (case sel of
             DeadlineHit \<Rightarrow> (CapacityFull err, d)
           | ContextDone \<Rightarrow> (ReserveCancelled, d)
           | PollTick \<Rightarrow> reserve start i ticks d))"

text \<open>
  \<open>startOnDemand\<close>. The checks run without any lock, on \<open>d\<close>; what follows runs on what the world
  has become meanwhile, \<open>world d\<close>. The result says which path was taken.
\<close>

datatype startPath = Direct chan | FromReservation reservation | WaitInBackground capacityError

definition directStart :: "time \<Rightarrow> spawnOutcome \<Rightarrow> stId \<Rightarrow> daemon \<Rightarrow> startPath \<times> daemon" where
  "directStart now out i d =
     (let (ch, s) = EnsureStartedOnDemand now out (procOf d i) in (Direct ch, setProc i s d))"

definition startOnDemand ::
    "(nat \<Rightarrow> daemon \<Rightarrow> daemon) \<Rightarrow> (daemon \<Rightarrow> daemon) \<Rightarrow> time \<Rightarrow> spawnOutcome \<Rightarrow> stId \<Rightarrow> daemon \<Rightarrow>
      startPath \<times> daemon" where
  "startOnDemand env world now out i d =
     (if \<not> budgeted d i then directStart now out i (world d)
      else if State (procOf d i) \<in> {Running, Starting, Stopping} then directStart now out i (world d)
      else if snState (Snapshot (procOf d i)) = Failed \<and>
              Before now (snNextRetryAt (Snapshot (procOf d i))) then directStart now out i (world d)
      else (case tryReserveLocked env now (EnsureStartedOnDemand now out) i (world d) of
              ((ch, Some err), d1) \<Rightarrow> (WaitInBackground err, d1)
            | ((ch, None), d1) \<Rightarrow> (FromReservation (ch, None), d1)))"

section \<open>Live limits\<close>

definition applyBudget :: "int \<Rightarrow> (string \<times> int) list \<Rightarrow> (string, esId) gomap \<Rightarrow> daemon \<Rightarrow> daemon" where
  "applyBudget maxRunning entryCaps kept d =
     fold (\<lambda>(name, cap) d'.
         case map_of kept name of
           None \<Rightarrow> d'
         | Some e \<Rightarrow> d'\<lparr>dmEntryStates :=
             (dmEntryStates d')(e := (dmEntryStates d' e)\<lparr>esMaxRunning := cap\<rparr>)\<rparr>)
       entryCaps (d\<lparr>dmMaxRunning := maxRunning\<rparr>)"

definition describeCap :: "int \<Rightarrow> string" where
  "describeCap n = (if n \<le> 0 then ''unlimited'' else Itoa n)"

section \<open>Facts about evictions\<close>

lemma evict_slot_facts: "State s = Running \<Longrightarrow> mirrored s \<Longrightarrow>
    State (snd (StopAsync s)) = Stopping"
  by (simp add: State_def mirrored_def sup_defs)

lemma holdsSlot_iff: "holdsSlot d i \<longleftrightarrow> holdsSlotState (State (procOf d i))"
  by (auto simp: holdsSlot_def holdsSlotState_def)

lemma evictProject_procs:
  "procOf (evictProject i g t d) j = (if j = i then snd (StopAsync (procOf d i)) else procOf d j)"
  by (simp add: evictProject_def Let_def procOf_def setProc_def setProject_def setTracker_def)

lemma evictProject_frame [simp]:
  "dmStates (evictProject i g t d) = dmStates d"
  "psEntry (dmProjects (evictProject i g t d) j) = psEntry (dmProjects d j)"
  "psDynamic (dmProjects (evictProject i g t d) j) = psDynamic (dmProjects d j)"
  "psProject (dmProjects (evictProject i g t d) j) = psProject (dmProjects d j)"
  "psTracker (dmProjects (evictProject i g t d) j) = psTracker (dmProjects d j)"
  by (simp_all add: evictProject_def Let_def setProc_def setProject_def setTracker_def)

lemma trackerOf_setTracker: "trackerOf (setTracker i t d) i = t"
  by (simp add: trackerOf_def setTracker_def)

text \<open>
  The first candidate that can be evicted is the victim: not blocked, and its stop gate free.
\<close>

definition evictable :: "time \<Rightarrow> daemon \<Rightarrow> candidate \<Rightarrow> bool" where
  "evictable now d c \<longleftrightarrow> blockReasonOf d c now = None \<and> tGate (trackerOf d (cdId c)) = None"

definition whyBlocked :: "time \<Rightarrow> daemon \<Rightarrow> candidate \<Rightarrow> string \<times> blockReason" where
  "whyBlocked now d c =
     (nameOf d (cdId c), case blockReasonOf d c now of Some r \<Rightarrow> r | None \<Rightarrow> BeingIdleStopped)"

text \<open>States that differ at most in how many gates a tracker has created.\<close>

definition sameActivity :: "daemon \<Rightarrow> daemon \<Rightarrow> bool" where
  "sameActivity d e \<longleftrightarrow>
     dmProjects e = dmProjects d \<and> dmStates e = dmStates d \<and> dmEntryStates e = dmEntryStates d \<and>
     dmMaxRunning e = dmMaxRunning d \<and> dmReleases e = dmReleases d \<and>
     (\<forall>k. tInflight (dmTrackers e k) = tInflight (dmTrackers d k) \<and>
        tPersistent (dmTrackers e k) = tPersistent (dmTrackers d k) \<and>
        tLastActivity (dmTrackers e k) = tLastActivity (dmTrackers d k) \<and>
        tLeaseUntil (dmTrackers e k) = tLeaseUntil (dmTrackers d k) \<and>
        tGate (dmTrackers e k) = tGate (dmTrackers d k))"

lemma sameActivity_refl [simp]: "sameActivity d d"
  by (simp add: sameActivity_def)

lemma sameActivity_trans: "sameActivity d e \<Longrightarrow> sameActivity e f \<Longrightarrow> sameActivity d f"
  by (simp add: sameActivity_def)

lemma sameActivity_facts:
  assumes "sameActivity d e"
  shows "procOf e i = procOf d i" "nameOf e i = nameOf d i" "holdsSlot e i = holdsSlot d i"
    "blockReasonOf e c now = blockReasonOf d c now" "evictable now e c = evictable now d c"
    "whyBlocked now e c = whyBlocked now d c" "Parked now (trackerOf e i) = Parked now (trackerOf d i)"
    "dmStates e = dmStates d" "dmMaxRunning e = dmMaxRunning d"
  using assms
  by (simp_all add: sameActivity_def procOf_def nameOf_def holdsSlot_def blockReasonOf_def evictable_def
      whyBlocked_def trackerOf_def LeaseUntil_def Parked_def Let_def)

lemma blockReason_Parked: "blockReasonOf d c now = None \<Longrightarrow> \<not> Parked now (trackerOf d (cdId c))"
  by (auto simp: blockReasonOf_def Parked_def Let_def split: if_splits)

lemma BeginStop_gated:
  "tGate t = Some h \<Longrightarrow> BeginStop now t = (None, t\<lparr>tNextGate := tNextGate t + 1\<rparr>)"
  by (simp add: BeginStop_def)

lemma sameActivity_gated:
  "tGate (trackerOf d i) = Some h \<Longrightarrow>
     sameActivity d (setTracker i (snd (BeginStop now (trackerOf d i))) d)"
  by (simp add: BeginStop_gated sameActivity_def setTracker_def trackerOf_def)

lemma evictLoop_spec:
  "\<exists>d1. sameActivity d d1 \<and>
     (case find (evictable now d) cs of
        Some c \<Rightarrow>
          \<exists>g. fst (BeginStop now (trackerOf d1 (cdId c))) = Some g \<and>
            evictLoop now cs bs d =
              ((Some (cdId c), []),
               evictProject (cdId c) g (snd (BeginStop now (trackerOf d1 (cdId c)))) d1)
      | None \<Rightarrow> evictLoop now cs bs d = ((None, bs @ map (whyBlocked now d) cs), d1))"
proof (induction cs arbitrary: bs d)
  case Nil
  show ?case by (rule exI [of _ d]) simp
next
  case (Cons c cs)
  show ?case
  proof (cases "blockReasonOf d c now")
    case (Some r)
    then have "evictLoop now (c # cs) bs d = evictLoop now cs (bs @ [whyBlocked now d c]) d"
      "\<not> evictable now d c"
      by (simp_all add: whyBlocked_def evictable_def)
    moreover obtain d1 where "sameActivity d d1" "case find (evictable now d) cs of
          Some c' \<Rightarrow> \<exists>g. fst (BeginStop now (trackerOf d1 (cdId c'))) = Some g \<and>
            evictLoop now cs (bs @ [whyBlocked now d c]) d = ((Some (cdId c'), []),
              evictProject (cdId c') g (snd (BeginStop now (trackerOf d1 (cdId c')))) d1)
        | None \<Rightarrow> evictLoop now cs (bs @ [whyBlocked now d c]) d =
            ((None, (bs @ [whyBlocked now d c]) @ map (whyBlocked now d) cs), d1)"
      using Cons.IH [of d "bs @ [whyBlocked now d c]"] by blast
    ultimately show ?thesis
      by (intro exI [of _ d1]) (auto simp del: evictLoop.simps split: option.splits)
  next
    case None
    note free = blockReason_Parked [OF None]
    show ?thesis
    proof (cases "tGate (trackerOf d (cdId c))")
      case gNone: None
      then obtain g t where b: "BeginStop now (trackerOf d (cdId c)) = (Some g, t)"
        using free BeginStop_refused [of now "trackerOf d (cdId c)"]
        by (cases "BeginStop now (trackerOf d (cdId c))") auto
      have "evictable now d c" using None gNone by (simp add: evictable_def)
      with None b show ?thesis by (intro exI [of _ d]) simp
    next
      case (Some h)
      let ?d = "setTracker (cdId c) (snd (BeginStop now (trackerOf d (cdId c)))) d"
      note same = sameActivity_gated [OF Some, of now]
      have step: "evictLoop now (c # cs) bs d = evictLoop now cs (bs @ [whyBlocked now d c]) ?d"
        using None sameActivity_facts(4) [OF same, of c now]
        by (simp add: BeginStop_gated [OF Some] whyBlocked_def)
      have ne: "\<not> evictable now d c" using Some by (simp add: evictable_def)
      have eqs: "evictable now ?d = evictable now d" "whyBlocked now ?d = whyBlocked now d"
        using sameActivity_facts(5,6) [OF same] by (auto simp: fun_eq_iff)
      obtain d1 where
        "sameActivity ?d d1" "case find (evictable now d) cs of
            Some c' \<Rightarrow> \<exists>g. fst (BeginStop now (trackerOf d1 (cdId c'))) = Some g \<and>
              evictLoop now cs (bs @ [whyBlocked now d c]) ?d = ((Some (cdId c'), []),
                evictProject (cdId c') g (snd (BeginStop now (trackerOf d1 (cdId c')))) d1)
          | None \<Rightarrow> evictLoop now cs (bs @ [whyBlocked now d c]) ?d =
              ((None, (bs @ [whyBlocked now d c]) @ map (whyBlocked now d) cs), d1)"
        using Cons.IH [of ?d "bs @ [whyBlocked now d c]", unfolded eqs] by blast
      then show ?thesis
        using step ne sameActivity_trans [OF same]
        by (intro exI [of _ d1]) (auto simp del: evictLoop.simps split: option.splits)
    qed
  qed
qed

section \<open>The order of eviction\<close>

lemma set_evictionOrder:
  "c \<in> set (evictionOrder d ids) \<longleftrightarrow>
     (\<exists>i \<in> set ids. holdsSlot d i \<and> c = candidateOf d i \<and>
        (snState (cdSnap c) = Running \<or> snState (cdSnap c) = Starting))"
  by (auto simp: evictionOrder_def)

lemma cdId_candidateOf [simp]: "cdId (candidateOf d i) = i"
  by (simp add: candidateOf_def Let_def)

lemma sorted_evictionOrder: "sorted (map cdLastActive (evictionOrder d ids))"
  by (simp add: evictionOrder_def)

lemma candidate_state:
  "mirrored (procOf d i) \<Longrightarrow> snState (cdSnap (candidateOf d i)) = State (procOf d i)"
  by (simp add: candidateOf_def Snapshot_def State_def mirrored_def Let_def)

lemma evictionOrder_ids:
  assumes "\<forall>i. mirrored (procOf d i)"
  shows "cdId ` set (evictionOrder d ids) = {i \<in> set ids. holdsSlot d i}"
proof
  show "cdId ` set (evictionOrder d ids) \<subseteq> {i \<in> set ids. holdsSlot d i}"
    by (auto simp: set_evictionOrder)
  have "candidateOf d i \<in> set (evictionOrder d ids)" if "i \<in> set ids" "holdsSlot d i" for i
    using that assms by (auto simp: set_evictionOrder candidate_state holdsSlot_def)
  then show "{i \<in> set ids. holdsSlot d i} \<subseteq> cdId ` set (evictionOrder d ids)"
    by (force intro: rev_image_eqI)
qed

lemma evictable_running:
  "mirrored (procOf d i) \<Longrightarrow> holdsSlot d i \<Longrightarrow> evictable now d (candidateOf d i) \<Longrightarrow>
     State (procOf d i) = Running"
  by (auto simp: evictable_def blockReasonOf_def candidate_state holdsSlot_def Let_def split: if_splits)

section \<open>What an eviction does\<close>

lemma find_first:
  "find P xs = Some x \<Longrightarrow> \<exists>pre post. xs = pre @ x # post \<and> P x \<and> (\<forall>y \<in> set pre. \<not> P y)"
proof (induction xs)
  case (Cons y ys)
  show ?case
  proof (cases "P y")
    case True
    with Cons.prems show ?thesis by (intro exI [of _ "[]"] exI [of _ ys]) auto
  next
    case False
    with Cons obtain pre post where "ys = pre @ x # post" "P x" "\<forall>z \<in> set pre. \<not> P z" by auto
    with False show ?thesis by (intro exI [of _ "y # pre"] exI [of _ post]) auto
  qed
qed simp

lemma find_none: "find P xs = None \<longleftrightarrow> (\<forall>x \<in> set xs. \<not> P x)"
  by (induction xs) auto

lemma evict_cases:
  obtains (none) d1 where "find (evictable now d) (evictionOrder d pool) = None" "sameActivity d d1"
      "evict now pool d = ((None, map (whyBlocked now d) (evictionOrder d pool)), d1)"
  | (some) c d1 g where "find (evictable now d) (evictionOrder d pool) = Some c" "sameActivity d d1"
      "fst (BeginStop now (trackerOf d1 (cdId c))) = Some g"
      "evict now pool d = ((Some (cdId c), []),
         evictProject (cdId c) g (snd (BeginStop now (trackerOf d1 (cdId c)))) d1)"
proof (cases "find (evictable now d) (evictionOrder d pool)")
  case None
  then show ?thesis
    using evictLoop_spec [of d now "evictionOrder d pool" "[]"] none by (auto simp: evict_def)
next
  case (Some c)
  then show ?thesis
    using evictLoop_spec [of d now "evictionOrder d pool" "[]"] some by (auto simp: evict_def)
qed

lemma evict_none:
  assumes "fst (fst (evict now pool d)) = None"
  shows "snd (fst (evict now pool d)) = map (whyBlocked now d) (evictionOrder d pool)"
    and "\<forall>c \<in> set (evictionOrder d pool). \<not> evictable now d c"
    and "sameActivity d (snd (evict now pool d))"
  using assms by (cases rule: evict_cases [of now d pool]; simp add: find_none)+

lemma evict_some:
  assumes "fst (fst (evict now pool d)) = Some v"
  obtains c d1 g where "find (evictable now d) (evictionOrder d pool) = Some c" "cdId c = v"
    "sameActivity d d1" "fst (BeginStop now (trackerOf d1 v)) = Some g"
    "snd (evict now pool d) = evictProject v g (snd (BeginStop now (trackerOf d1 v))) d1"
  using assms by (cases rule: evict_cases [of now d pool]) auto

lemma evict_some_iff:
  "fst (fst (evict now pool d)) \<noteq> None \<longleftrightarrow> (\<exists>c \<in> set (evictionOrder d pool). evictable now d c)"
proof (cases rule: evict_cases [of now d pool])
  case none
  then show ?thesis by (simp add: find_none)
next
  case (some c d1 g)
  with find_first [OF some(1)] show ?thesis by auto
qed

text \<open>The victim gives its slot up at once; nobody else's process is touched.\<close>

lemma evict_victim:
  assumes "fst (fst (evict now pool d)) = Some v" and "\<forall>i. mirrored (procOf d i)"
  shows "v \<in> set pool" "holdsSlot d v" "evictable now d (candidateOf d v)"
    "State (procOf (snd (evict now pool d)) v) = Stopping"
    "\<forall>j. j \<noteq> v \<longrightarrow> procOf (snd (evict now pool d)) j = procOf d j"
    "\<forall>j. mirrored (procOf (snd (evict now pool d)) j)"
proof -
  obtain c d1 g where c: "find (evictable now d) (evictionOrder d pool) = Some c" "cdId c = v"
    "sameActivity d d1" "fst (BeginStop now (trackerOf d1 v)) = Some g"
    "snd (evict now pool d) = evictProject v g (snd (BeginStop now (trackerOf d1 v))) d1"
    using assms(1) by (rule evict_some)
  from find_first [OF c(1)] have "c \<in> set (evictionOrder d pool)" "evictable now d c" by auto
  then show v: "v \<in> set pool" "holdsSlot d v" "evictable now d (candidateOf d v)"
    using c(2) by (auto simp: set_evictionOrder)
  have run: "State (procOf d v) = Running" using assms(2) v(2,3) evictable_running by blast
  show "State (procOf (snd (evict now pool d)) v) = Stopping"
    using run assms(2) by (simp add: c(5) evictProject_procs sameActivity_facts(1) [OF c(3)] evict_slot_facts)
  show "\<forall>j. j \<noteq> v \<longrightarrow> procOf (snd (evict now pool d)) j = procOf d j"
    by (simp add: c(5) evictProject_procs sameActivity_facts(1) [OF c(3)])
  show "\<forall>j. mirrored (procOf (snd (evict now pool d)) j)"
    using assms(2) by (simp add: c(5) evictProject_procs sameActivity_facts(1) [OF c(3)] mirrored_StopAsync)
qed

section \<open>Counting across evictions and starts\<close>

lemma length_filter_remove:
  "distinct xs \<Longrightarrow> v \<in> set xs \<Longrightarrow> P v \<Longrightarrow>
     Suc (length (filter (\<lambda>j. j \<noteq> v \<and> P j) xs)) = length (filter P xs)"
proof (induction xs)
  case (Cons x xs)
  then show ?case
  proof (cases "x = v")
    case True
    with Cons.prems have "filter (\<lambda>j. j \<noteq> v \<and> P j) xs = filter P xs"
      by (intro filter_cong) auto
    with True Cons.prems show ?thesis by simp
  qed auto
qed simp

lemma holdsSlot_evicted:
  assumes "fst (fst (evict now pool d)) = Some v" and "\<forall>i. mirrored (procOf d i)"
  shows "holdsSlot (snd (evict now pool d)) j \<longleftrightarrow> j \<noteq> v \<and> holdsSlot d j"
  using evict_victim(4,5) [OF assms] by (cases "j = v") (auto simp: holdsSlot_def)

lemma countGlobal_evict:
  assumes "fst (fst (evict now pool d)) = Some v" and "\<forall>i. mirrored (procOf d i)"
    and "distinct ids" and "set pool \<subseteq> set ids"
  shows "Suc (countGlobal (snd (evict now pool d)) ids) = countGlobal d ids"
proof -
  have "holdsSlot (snd (evict now pool d)) = (\<lambda>j. j \<noteq> v \<and> holdsSlot d j)"
    by (rule ext) (rule holdsSlot_evicted [OF assms(1,2)])
  then show ?thesis
    using length_filter_remove [OF assms(3), of v "holdsSlot d"] evict_victim(1,2) [OF assms(1,2)] assms(4)
    by (auto simp: countGlobal_def)
qed

lemma runStart_simps: "runStart start i d = ((Some (fst (start (procOf d i))), None),
    setProc i (snd (start (procOf d i))) d)"
  by (simp add: runStart_def split_def Let_def)

lemma length_filter_change_one:
  "distinct xs \<Longrightarrow> \<forall>j. j \<noteq> i \<longrightarrow> P j = Q j \<Longrightarrow> length (filter Q xs) \<le> length (filter P xs) + 1"
proof (induction xs)
  case (Cons x xs)
  show ?case
  proof (cases "x = i")
    case True
    with Cons.prems have "filter Q xs = filter P xs" by (intro filter_cong) auto
    then show ?thesis by simp
  qed (use Cons in auto)
qed simp

lemma countGlobal_setProc: "distinct ids \<Longrightarrow> countGlobal (setProc i s d) ids \<le> countGlobal d ids + 1"
  unfolding countGlobal_def by (rule length_filter_change_one [where i = i]) (simp_all add: holdsSlot_def)

lemma countEntry_setProc:
  "distinct ids \<Longrightarrow> countEntry (setProc i s d) ids e \<le> countEntry d ids e + 1"
proof (cases e)
  case (Some a)
  assume "distinct ids"
  then show ?thesis
    unfolding countEntry_def Some option.case
    by (rule length_filter_change_one [where i = i]) (simp add: holdsSlot_def)
qed (simp add: countEntry_def)

section \<open>The outcome of a reservation\<close>

lemma reserveLoop_started:
  "reserveLoop env now start i ids glob ecap n lastErr d = ((Some ch, err), d') \<Longrightarrow>
     \<exists>d2. d' = snd (runStart start i d2) \<and> err = None \<and> \<not> capReached glob (countGlobal d2 ids) \<and>
       \<not> capReached ecap (countEntry d2 ids (psEntry (dmProjects d2 i)))"
proof (induction n arbitrary: lastErr d)
  case (Suc n lastErr d0)
  let ?d = "env n d0"
  show ?case
  proof (cases "\<not> capReached glob (countGlobal ?d ids) \<and>
      \<not> capReached ecap (countEntry ?d ids (psEntry (dmProjects ?d i)))")
    case True
    with Suc.prems show ?thesis
      by (intro exI [of _ ?d]) (auto simp: countRunning_def Let_def runStart_simps)
  next
    case False
    let ?ne = "capReached ecap (countEntry ?d ids (psEntry (dmProjects ?d i)))"
    let ?pool = "if ?ne then entryStates ?d ids (psEntry (dmProjects ?d i)) else ids"
    obtain v bs d1 where e: "evict now ?pool ?d = ((v, bs), d1)" by (metis prod.collapse)
    show ?thesis
    proof (cases "v = None \<and> bs \<noteq> []")
      case True
      with Suc.prems False e show ?thesis by (simp add: countRunning_def Let_def)
    next
      case more: False
      obtain err' where "reserveLoop env now start i ids glob ecap n err' d1 = ((Some ch, err), d')"
      proof (cases v)
        case None
        with Suc.prems False e more that show ?thesis by (simp add: countRunning_def Let_def)
      next
        case (Some w)
        with Suc.prems False e more that show ?thesis by (simp add: countRunning_def Let_def)
      qed
      then show ?thesis using Suc.IH by blast
    qed
  qed
qed simp

lemma reserveLoop_refused:
  "reserveLoop env now start i ids glob ecap n lastErr d = ((ch, Some err), d') \<Longrightarrow>
     lastErr = None \<or> ceBlockers (the lastErr) = [] \<Longrightarrow> ceBlockers err \<noteq> [] \<Longrightarrow>
     \<exists>pool d2. (pool = ids \<or> pool = entryStates d2 ids (psEntry (dmProjects d2 i))) \<and>
       fst (fst (evict now pool d2)) = None \<and> d' = snd (evict now pool d2) \<and>
       ceBlockers err = snd (fst (evict now pool d2)) \<and>
       (if ceScope err = GlobalScope then capReached glob (countGlobal d2 ids) \<and> pool = ids
        else capReached ecap (countEntry d2 ids (psEntry (dmProjects d2 i))))"
proof (induction env now start i ids glob ecap n lastErr d rule: reserveLoop.induct)
  case (1 env now start i ids glob ecap lastErr d)
  then show ?case by auto
next
  case (2 env now start i ids glob ecap n lastErr d0)
  let ?d = "env n d0"
  let ?entry = "psEntry (dmProjects ?d i)"
  let ?ne = "capReached ecap (countEntry ?d ids ?entry)"
  let ?pool = "if ?ne then entryStates ?d ids ?entry else ids"
  show ?case
  proof (cases "\<not> capReached glob (countGlobal ?d ids) \<and> \<not> ?ne")
    case True
    with 2(3) show ?thesis by (simp add: countRunning_def Let_def runStart_simps)
  next
    case False
    show ?thesis
    proof (cases "fst (fst (evict now ?pool ?d))")
      case (Some v)
      then obtain bs d1 where "evict now ?pool ?d = ((Some v, bs), d1)"
        by (metis prod.collapse)
      with 2 False show ?thesis by (simp add: countRunning_def Let_def)
    next
      case None
      then obtain bs d1 where e: "evict now ?pool ?d = ((None, bs), d1)"
        by (metis prod.collapse)
      show ?thesis
      proof (cases "bs = []")
        case True
        with 2 False e show ?thesis by (auto simp: countRunning_def Let_def)
      next
        case bs: False
        have "err = (if ?ne
                       then \<lparr>ceProject = nameOf ?d i, ceScope = EntryScope (entryNameOf ?d i),
                             ceRunning = countEntry ?d ids ?entry, ceMax = ecap, ceBlockers = []\<rparr>
                       else \<lparr>ceProject = nameOf ?d i, ceScope = GlobalScope,
                             ceRunning = countGlobal ?d ids, ceMax = glob, ceBlockers = []\<rparr>)\<lparr>ceBlockers := bs\<rparr>"
          "d' = d1"
          using 2(3) False e bs by (auto simp: countRunning_def Let_def)
        then show ?thesis using False e
          by (intro exI [of _ ?pool] exI [of _ ?d]) auto
      qed
    qed
  qed
qed

section \<open>Reservations among idle projects\<close>

lemma evict_others:
  assumes "fst (fst (evict now pool d)) = Some v"
    and "psTracker (dmProjects d j) \<noteq> psTracker (dmProjects d v)" and "j \<noteq> v"
  shows "evictable now (snd (evict now pool d)) (candidateOf (snd (evict now pool d)) j) =
    evictable now d (candidateOf d j)"
proof -
  obtain c d1 g where c: "sameActivity d d1"
    "snd (evict now pool d) = evictProject v g (snd (BeginStop now (trackerOf d1 v))) d1"
    using assms(1) by (rule evict_some)
  let ?d' = "snd (evict now pool d)"
  have tr: "trackerOf ?d' j = trackerOf d1 j"
    using assms(2,3) c by (simp add: evictProject_def Let_def trackerOf_def setProc_def setProject_def
        setTracker_def sameActivity_def)
  have pr: "procOf ?d' j = procOf d j" "psProject (dmProjects ?d' j) = psProject (dmProjects d j)"
    using assms(3) c(1) unfolding c(2)
    by (simp_all add: evictProject_procs sameActivity_facts(1) [OF c(1)]) (simp add: sameActivity_def)
  have act: "LastActivity (trackerOf d1 j) = LastActivity (trackerOf d j)"
    using c(1) by (simp add: sameActivity_def trackerOf_def LastActivity_def)
  have cand: "candidateOf ?d' j = candidateOf d j" "candidateOf d1 j = candidateOf d j"
    using tr pr act sameActivity_facts(1) [OF c(1)]
    by (simp_all add: candidateOf_def activityBase_def Let_def)
  have "evictable now ?d' (candidateOf d j) = evictable now d1 (candidateOf d j)"
    using tr pr c(1) by (simp add: evictable_def blockReasonOf_def Let_def sameActivity_def)
  then show ?thesis using cand sameActivity_facts(5) [OF c(1)] by simp
qed

definition allIdle :: "time \<Rightarrow> stId list \<Rightarrow> daemon \<Rightarrow> bool" where
  "allIdle now ids d \<longleftrightarrow>
     (\<forall>j. mirrored (procOf d j)) \<and>
     inj_on (\<lambda>j. psTracker (dmProjects d j)) {j \<in> set ids. holdsSlot d j} \<and>
     (\<forall>j \<in> set ids. holdsSlot d j \<longrightarrow> evictable now d (candidateOf d j))"

lemma allIdle_evict:
  assumes "allIdle now ids d" and "fst (fst (evict now ids d)) = Some v"
  shows "allIdle now ids (snd (evict now ids d))"
proof -
  let ?d' = "snd (evict now ids d)"
  have m: "\<forall>i. mirrored (procOf d i)" using assms(1) by (simp add: allIdle_def)
  note v = evict_victim [OF assms(2) m]
  note h = holdsSlot_evicted [OF assms(2) m]
  obtain d1 g where "sameActivity d d1"
    "?d' = evictProject v g (snd (BeginStop now (trackerOf d1 v))) d1"
    using assms(2) by (rule evict_some)
  then have t: "psTracker (dmProjects ?d' j) = psTracker (dmProjects d j)" for j
    by (simp add: sameActivity_def)
  have inj: "inj_on (\<lambda>j. psTracker (dmProjects d j)) {j \<in> set ids. holdsSlot d j}"
    using assms(1) by (simp add: allIdle_def)
  have "evictable now ?d' (candidateOf ?d' j)" if j: "j \<in> set ids" "holdsSlot ?d' j" for j
  proof -
    have "j \<noteq> v" "holdsSlot d j" using j h by auto
    moreover then have "psTracker (dmProjects d j) \<noteq> psTracker (dmProjects d v)"
      using inj j(1) v(1,2) by (auto simp: inj_on_def)
    ultimately show ?thesis
      using evict_others [OF assms(2)] assms(1) j(1) by (simp add: allIdle_def)
  qed
  moreover have "inj_on (\<lambda>j. psTracker (dmProjects ?d' j)) {j \<in> set ids. holdsSlot ?d' j}"
    unfolding t h by (rule inj_on_subset [OF inj]) auto
  ultimately show ?thesis using v(6) by (simp add: allIdle_def)
qed

lemma reserve_among_idle:
  assumes "allIdle now ids d" and "distinct ids" and "0 < glob"
  shows "snd (fst (reserveLoop (\<lambda>_ d. d) now start i ids glob 0 n None d)) = None \<and>
    (fst (fst (reserveLoop (\<lambda>_ d. d) now start i ids glob 0 n None d)) \<noteq> None \<longleftrightarrow>
       0 < n \<and> int (countGlobal d ids) < glob + int n - 1)"
  using assms(1)
proof (induction n arbitrary: d)
  case (Suc n)
  show ?case
  proof (cases "capReached glob (countGlobal d ids)")
    case False
    then show ?thesis
      using assms(3) by (simp add: countRunning_def capReached_def Let_def runStart_simps)
  next
    case True
    with assms(3) have "0 < countGlobal d ids" by (simp add: capReached_def)
    then obtain j where j: "j \<in> set ids" "holdsSlot d j"
      by (auto simp: countGlobal_def filter_empty_conv)
    then have "candidateOf d j \<in> set (evictionOrder d ids)"
      using Suc.prems by (auto simp: set_evictionOrder allIdle_def candidate_state holdsSlot_def)
    moreover have "evictable now d (candidateOf d j)" using Suc.prems j by (simp add: allIdle_def)
    ultimately obtain v where v: "fst (fst (evict now ids d)) = Some v"
      using evict_some_iff [of now ids d] by blast
    then obtain bs d1 where e: "evict now ids d = ((Some v, bs), d1)" by (metis prod.collapse)
    have m: "\<forall>i. mirrored (procOf d i)" using Suc.prems by (simp add: allIdle_def)
    have c: "Suc (countGlobal d1 ids) = countGlobal d ids"
      using countGlobal_evict [OF v m assms(2)] e by simp
    have "reserveLoop (\<lambda>_ d. d) now start i ids glob 0 (Suc n) None d =
        reserveLoop (\<lambda>_ d. d) now start i ids glob 0 n None d1"
      using True e by (simp add: countRunning_def capReached_def Let_def)
    moreover note Suc.IH [OF allIdle_evict [OF Suc.prems v], unfolded e snd_conv]
    moreover have "n = 0 \<Longrightarrow> \<not> int (countGlobal d ids) < glob"
      using True by (simp add: capReached_def)
    ultimately show ?thesis using c by (cases "n = 0") auto
  qed
qed simp

section \<open>Properties\<close>

text \<open>
  C9. The budget holds. Whenever a reservation starts a project that held no slot and is in the
  table, the number of starting or running projects afterwards is at most \<open>max_running\<close>, and the
  number of those of its wildcard entry at most the entry's cap; whatever happened between the
  attempts, and however many projects had to be evicted.
\<close>

theorem reservation_respects_caps:
  assumes "tryReserveLocked env now start i d = ((Some ch, err), d')" and "wfDaemon d"
    and "State (procOf d i) \<in> {Stopped, Failed}" and "map_of (dmStates d) (nameOf d i) = Some i"
    and "0 < dmMaxRunning d \<or> 0 < entryCapOf d i"
  shows "(0 < dmMaxRunning d \<longrightarrow> int (countGlobal d' (sortedStatesLocked d)) \<le> dmMaxRunning d) \<and>
    (0 < entryCapOf d i \<longrightarrow>
       int (countEntry d' (sortedStatesLocked d) (psEntry (dmProjects d' i))) \<le> entryCapOf d i) \<and>
    err = None"
proof -
  let ?ids = "sortedStatesLocked d"
  have dist: "distinct ?ids" using assms(2) by (simp add: wfDaemon_def distinct_sortedStates)
  have "reserveLoop env now start i ?ids (dmMaxRunning d) (entryCapOf d i) evictionAttempts None d =
      ((Some ch, err), d')"
    using assms by (auto simp: tryReserveLocked_def)
  from reserveLoop_started [OF this] obtain d2 where d2: "d' = snd (runStart start i d2)" "err = None"
    "\<not> capReached (dmMaxRunning d) (countGlobal d2 ?ids)"
    "\<not> capReached (entryCapOf d i) (countEntry d2 ?ids (psEntry (dmProjects d2 i)))"
    by blast
  have d': "d' = setProc i (snd (start (procOf d2 i))) d2" using d2(1) by (simp add: runStart_simps)
  show ?thesis
    using d2(2-4) countGlobal_setProc [OF dist, of i "snd (start (procOf d2 i))" d2]
      countEntry_setProc [OF dist, of i "snd (start (procOf d2 i))" d2 "psEntry (dmProjects d2 i)"]
    unfolding d' by (auto simp: capReached_def)
qed

text \<open>
  Projects 0 (stopped) and 1, 2, ... (running since second 1, 2, ..., idle) in a table of \<open>n\<close>.
\<close>

definition demoTable :: "(string, stId) gomap" where
  "demoTable = [(''a'', 0), (''b'', 1), (''c'', 2), (''d'', 3)]"

definition demoProc :: "nat \<Rightarrow> supervisor" where
  "demoProc i =
     (if i = 0 then NewSupervisor emptyProject
      else probeReady 0 (snd (EnsureStartedOnDemand (int i * timeSecond) (CommandStarts (int i))
        (NewSupervisor emptyProject))))"

definition demoState :: "nat \<Rightarrow> projectState" where
  "demoState i =
     \<lparr>psProject = emptyProject\<lparr>pName := (if i = 0 then ''a'' else if i = 1 then ''b''
        else if i = 2 then ''c'' else ''d'')\<rparr>,
      psProc = demoProc i, psTracker = i, psSwitch = None, psBind = None, psActive = True,
      psDynamic = False, psEntry = None, psRetired = False\<rparr>"

definition demoDaemon :: "(string, stId) gomap \<Rightarrow> int \<Rightarrow> daemon" where
  "demoDaemon tab cap =
     \<lparr>dmConfigPath = [], dmStates = tab, dmProjects = demoState, dmTrackers = (\<lambda>_. NewTracker),
      dmSwitches = (\<lambda>_. Waiting), dmEntries = [],
      dmEntryStates = (\<lambda>_. \<lparr>esEntry = emptyDiscovery, esBind = None, esMaxRunning = 0\<rparr>),
      dmBindings = [],
      dmBinds = (\<lambda>_. \<lparr>bdAddr = [], bdRouter = newRouter, bdMembers = 0, bdEntry = None, bdOpen = False\<rparr>),
      dmMaxRunning = cap, dmDraining = False, dmRunning = True, dmNext = 9, dmLastReloadAt = zeroTime, dmReleases = [], dmStarts = []\<rparr>"

lemma demoProc_State: "State (demoProc i) = (if i = 0 then Stopped else Running)"
  by (simp add: demoProc_def State_def NewSupervisor_def sup_defs)

lemma demoProc_mirrored: "mirrored (demoProc i)"
  by (simp add: demoProc_def mirrored_def NewSupervisor_def sup_defs)

lemma demoProc_started: "0 < i \<Longrightarrow> snStartedAt (Snapshot (demoProc i)) = int i * timeSecond"
  by (simp add: demoProc_def Snapshot_def NewSupervisor_def sup_defs)

lemma demoDaemon_simps [simp]:
  "dmStates (demoDaemon tab cap) = tab" "dmMaxRunning (demoDaemon tab cap) = cap"
  "procOf (demoDaemon tab cap) i = demoProc i" "trackerOf (demoDaemon tab cap) i = NewTracker"
  "dmProjects (demoDaemon tab cap) i = demoState i" "entryCapOf (demoDaemon tab cap) i = 0"
  by (simp_all add: demoDaemon_def procOf_def trackerOf_def demoState_def entryCapOf_def)

lemma demo_names: "nameOf (demoDaemon tab cap) 0 = ''a''"
  by (simp add: nameOf_def demoState_def)

lemma demo_sorted: "sortedStatesLocked (demoDaemon demoTable cap) = [0, 1, 2, 3]"
  by (simp add: sortedStatesLocked_def demoTable_def less_eq_char_def less_char_def)

lemma demo_wf: "wfDaemon (demoDaemon demoTable cap)"
  by (simp add: wfDaemon_def demoTable_def demoProc_mirrored)

lemma demo_evictable:
  "0 < i \<Longrightarrow> 0 \<le> now \<Longrightarrow> evictable now (demoDaemon tab cap) (candidateOf (demoDaemon tab cap) i)"
  by (simp add: evictable_def blockReasonOf_def candidateOf_def Let_def NewTracker_def demoState_def
      emptyProject_def LeaseUntil_def IsZero_def zeroTime_def After_def Snapshot_def demoProc_def
      NewSupervisor_def sup_defs)

definition demoStart :: start where
  "demoStart = EnsureStartedOnDemand 99 (CommandStarts 77)"

lemma demo_Stopped: "State (procOf (demoDaemon demoTable cap) 0) \<in> {Stopped, Failed}"
  by (simp add: demoProc_State)

lemma demo_registered: "map_of (dmStates (demoDaemon demoTable cap)) (nameOf (demoDaemon demoTable cap) 0) = Some 0"
  by (simp add: demo_names demoTable_def)

lemma demo_idle: "0 \<le> now \<Longrightarrow> allIdle now [0, 1, 2, 3] (demoDaemon demoTable cap)"
  using demo_evictable [of _ now demoTable cap]
  by (auto simp: allIdle_def demoProc_mirrored inj_on_def demoState_def holdsSlot_def demoProc_State)

lemma demo_count: "countGlobal (demoDaemon demoTable cap) [0, 1, 2, 3] = 3"
  by (simp add: countGlobal_def holdsSlot_def demoProc_State)

text \<open>
  A reservation gives up after three evictions with neither a start nor an error. Among idle
  projects, whose eviction always succeeds, a start that needs at most two evictions gets its
  slot; one that needs three or more (possible after a reload lowered \<open>max_running\<close>) evicts three
  projects and then returns a nil channel together with a nil error: nothing is started, and
  the caller waits on a channel that never delivers. The documented behaviour is that as many
  are evicted as it takes.
\<close>

theorem three_evictions_give_nothing:
  assumes "wfDaemon d" and "State (procOf d i) \<in> {Stopped, Failed}"
    and "map_of (dmStates d) (nameOf d i) = Some i"
    and "0 < dmMaxRunning d" and "entryCapOf d i = 0" and "allIdle now (sortedStatesLocked d) d"
  shows "let r = fst (tryReserveLocked (\<lambda>_ d. d) now start i d);
      count = int (countGlobal d (sortedStatesLocked d)) in
    (if count < dmMaxRunning d + 2 then fst r \<noteq> None \<and> snd r = None else r = (None, None))"
proof -
  have "distinct (sortedStatesLocked d)" using assms(1) by (simp add: wfDaemon_def distinct_sortedStates)
  from reserve_among_idle [OF assms(6) this assms(4), of start i evictionAttempts]
  have "let r = fst (reserveLoop (\<lambda>_ d. d) now start i (sortedStatesLocked d) (dmMaxRunning d) 0
        evictionAttempts None d) in
      snd r = None \<and> (fst r \<noteq> None \<longleftrightarrow> int (countGlobal d (sortedStatesLocked d)) < dmMaxRunning d + 2)"
    by (auto simp: evictionAttempts_def Let_def)
  moreover have "tryReserveLocked (\<lambda>_ d. d) now start i d =
      reserveLoop (\<lambda>_ d. d) now start i (sortedStatesLocked d) (dmMaxRunning d) 0 evictionAttempts None d"
    using assms by (auto simp: tryReserveLocked_def)
  ultimately show ?thesis by (auto simp: Let_def prod_eq_iff)
qed

theorem three_evictions_give_nothing_witness:
  "fst (tryReserveLocked (\<lambda>_ d. d) 100 demoStart 0 (demoDaemon demoTable 1)) = (None, None) \<and>
   fst (fst (tryReserveLocked (\<lambda>_ d. d) 100 demoStart 0 (demoDaemon demoTable 2))) \<noteq> None"
  using three_evictions_give_nothing [OF demo_wf demo_Stopped demo_registered, of 1 100 demoStart]
    three_evictions_give_nothing [OF demo_wf demo_Stopped demo_registered, of 2 100 demoStart]
  by (simp add: demo_sorted demo_idle [simplified] demo_count [simplified] Let_def)

theorem reservation_respects_caps_witness:
  "\<exists>ch d'. tryReserveLocked (\<lambda>_ d. d) 100 demoStart 0 (demoDaemon demoTable 2) = ((Some ch, None), d') \<and>
     countGlobal d' [0, 1, 2, 3] \<le> 2"
proof -
  let ?d = "demoDaemon demoTable 2"
  have "distinct [0, 1, 2, 3 :: stId]" by simp
  then have "fst (fst (tryReserveLocked (\<lambda>_ d. d) 100 demoStart 0 ?d)) \<noteq> None"
    using reserve_among_idle [OF demo_idle, of 100 2 demoStart 0 3 2] demo_Stopped [of 2]
    by (simp add: tryReserveLocked_def demo_sorted demo_count [simplified] evictionAttempts_def demoProc_State
        demo_registered [simplified] del: reserveLoop.simps)
  then obtain ch err d' where r: "tryReserveLocked (\<lambda>_ d. d) 100 demoStart 0 ?d = ((Some ch, err), d')"
    by (metis not_None_eq prod.collapse)
  from reservation_respects_caps [OF r demo_wf demo_Stopped demo_registered] have
    "int (countGlobal d' [0, 1, 2, 3]) \<le> 2" "err = None"
    by (simp_all add: demo_sorted)
  with r show ?thesis by (intro exI [of _ ch] exI [of _ d']) simp
qed

text \<open>
  C10. Evictions are fair and safe. The project an eviction stops held a slot, was running, was
  not always-on and had no request in flight, no kept connection and no lease; no slot holder
  less recently active could have been evicted instead; afterwards its stop gate is armed, it is
  stopping (so its slot is free at once), its release is pending, and no other project's process
  has changed. Without a stop already in progress it is the one the status names as next.
\<close>

theorem eviction_lru_and_safe:
  assumes "evict now pool d = ((Some v, bs), d')" and "wfDaemon d"
  shows "v \<in> set pool \<and> State (procOf d v) = Running \<and> \<not> pAlwaysOn (psProject (dmProjects d v)) \<and>
    \<not> Parked now (trackerOf d v) \<and> tGate (trackerOf d v) = None \<and>
    (\<forall>j \<in> set pool. holdsSlot d j \<and>
       cdLastActive (candidateOf d j) < cdLastActive (candidateOf d v) \<longrightarrow>
       \<not> evictable now d (candidateOf d j)) \<and>
    State (procOf d' v) = Stopping \<and> tGate (trackerOf d' v) \<noteq> None \<and>
    v \<in> fst ` set (dmReleases d') \<and> (\<forall>j. j \<noteq> v \<longrightarrow> procOf d' j = procOf d j) \<and>
    ((\<forall>j \<in> set pool. tGate (trackerOf d j) = None) \<longrightarrow> nextEviction now d pool = nameOf d v)"
proof -
  have m: "\<forall>i. mirrored (procOf d i)" using assms(2) by (simp add: wfDaemon_def)
  have e: "fst (fst (evict now pool d)) = Some v" "snd (evict now pool d) = d'"
    using assms(1) by simp_all
  note v = evict_victim [OF e(1) m, unfolded e(2)]
  obtain c d1 g where c: "find (evictable now d) (evictionOrder d pool) = Some c" "cdId c = v"
    "sameActivity d d1" "fst (BeginStop now (trackerOf d1 v)) = Some g"
    "d' = evictProject v g (snd (BeginStop now (trackerOf d1 v))) d1"
    using evict_some [OF e(1)] e(2) by metis
  obtain pre post where split: "evictionOrder d pool = pre @ c # post" "evictable now d c"
    "\<forall>y \<in> set pre. \<not> evictable now d y"
    using find_first [OF c(1)] by blast
  have cand: "c = candidateOf d v" using split(1) c(2) set_evictionOrder [of c d pool] by auto
  have lru: "\<not> evictable now d (candidateOf d j)"
    if j: "j \<in> set pool" "holdsSlot d j" "cdLastActive (candidateOf d j) < cdLastActive (candidateOf d v)" for j
  proof -
    have "candidateOf d j \<in> set (evictionOrder d pool)"
      using j m by (auto simp: set_evictionOrder candidate_state holdsSlot_def)
    moreover have "\<forall>x \<in> set post. cdLastActive c \<le> cdLastActive x"
      using sorted_evictionOrder [of d pool] by (simp add: split(1) sorted_append)
    ultimately have "candidateOf d j \<in> set pre" using j(3) cand by (auto simp: split(1))
    then show ?thesis using split(3) by simp
  qed
  have gate: "tGate (trackerOf d' v) = Some g"
    using BeginStop_gate [OF c(4)]
    by (simp add: c(5) evictProject_def Let_def trackerOf_def setProc_def setProject_def setTracker_def)
  have next_ok: "nextEviction now d pool = nameOf d v" if "\<forall>j \<in> set pool. tGate (trackerOf d j) = None"
  proof -
    have "blockReasonOf d x now = None \<longleftrightarrow> evictable now d x" if "x \<in> set (evictionOrder d pool)" for x
      using \<open>\<forall>j \<in> set pool. tGate (trackerOf d j) = None\<close> that by (auto simp: set_evictionOrder evictable_def)
    then have "filter (\<lambda>x. blockReasonOf d x now = None) (evictionOrder d pool) =
        filter (evictable now d) (evictionOrder d pool)" by (intro filter_cong) auto
    then show ?thesis using split c(2) by (simp add: nextEviction_def filter_empty_conv)
  qed
  have free: "blockReasonOf d (candidateOf d v) now = None" "tGate (trackerOf d v) = None"
    using v(3) by (simp_all add: evictable_def)
  have "v \<in> fst ` set (dmReleases d')" by (simp add: c(5) evictProject_def Let_def)
  moreover have "\<not> pAlwaysOn (psProject (dmProjects d v))"
    using free(1) by (simp add: blockReasonOf_def Let_def split: if_splits)
  ultimately show ?thesis
    using v lru gate next_ok free blockReason_Parked [OF free(1)] evictable_running [of d v now] m
    by auto
qed

theorem eviction_lru_and_safe_witness:
  "\<exists>v d'. evict 100 [0, 1, 2, 3] (demoDaemon demoTable 2) = ((Some v, []), d') \<and>
     State (procOf d' v) = Stopping \<and> State (procOf (demoDaemon demoTable 2) v) = Running"
proof -
  let ?d = "demoDaemon demoTable 2"
  have "candidateOf ?d 1 \<in> set (evictionOrder ?d [0, 1, 2, 3])"
    by (simp add: set_evictionOrder candidate_state demoProc_mirrored demoProc_State holdsSlot_def)
  then have "fst (fst (evict 100 [0, 1, 2, 3] ?d)) \<noteq> None"
    using demo_evictable [of 1 100 demoTable 2] by (subst evict_some_iff) auto
  then obtain v bs d' where r: "evict 100 [0, 1, 2, 3] ?d = ((Some v, bs), d')"
    by (metis not_None_eq prod.collapse)
  moreover have "bs = []" by (cases rule: evict_cases [of 100 ?d "[0, 1, 2, 3]"]) (use r in auto)
  ultimately show ?thesis using eviction_lru_and_safe [OF r demo_wf] by blast
qed

lemma spawned_holdsSlot:
  assumes "State s = Stopped" "mirrored s" "\<not> sRetired s"
  shows "State (snd (EnsureStartedOnDemand now (CommandStarts pid) s)) = Starting"
  using assms by (simp add: State_def mirrored_def sup_defs)

lemma countGlobal_grows:
  assumes "distinct ids" "i \<in> set ids" "\<not> holdsSlot d i" "holdsSlot (setProc i s d) i"
  shows "countGlobal (setProc i s d) ids = countGlobal d ids + 1"
proof -
  have "filter (holdsSlot d) ids = filter (\<lambda>j. j \<noteq> i \<and> holdsSlot (setProc i s d) j) ids"
    using assms(3) by (intro filter_cong) (auto simp: holdsSlot_def)
  then show ?thesis
    using length_filter_remove [OF assms(1,2), of "holdsSlot (setProc i s d)"] assms(4)
    by (simp add: countGlobal_def)
qed

text \<open>
  The lock-free check of \<open>startOnDemand\<close>: a stop that ends after it lets a start past the
  budget. If the project was stopping when its state was read, and its stop has finished by the
  time its start runs, the project is spawned without a reservation: nothing is evicted, every
  other project is as it was, and one slot more is held than before, whatever the cap.
\<close>

theorem unreserved_start_exceeds_cap:
  assumes "State (procOf d i) = Stopping" and "State (procOf (world d) i) = Stopped"
    and "\<not> sRetired (procOf (world d) i)" and "wfDaemon (world d)" and "i \<in> snd ` set (dmStates (world d))"
  shows "let d' = snd (startOnDemand env world now (CommandStarts pid) i d);
      ids = sortedStatesLocked (world d) in
    State (procOf d' i) = Starting \<and> countGlobal d' ids = countGlobal (world d) ids + 1 \<and>
    (\<forall>j. j \<noteq> i \<longrightarrow> procOf d' j = procOf (world d) j)"
proof -
  let ?s = "snd (EnsureStartedOnDemand now (CommandStarts pid) (procOf (world d) i))"
  have run: "snd (startOnDemand env world now (CommandStarts pid) i d) = setProc i ?s (world d)"
    using assms(1) by (simp add: startOnDemand_def directStart_def split_def Let_def)
  have st: "State ?s = Starting"
    using assms(2-4) by (intro spawned_holdsSlot) (auto simp: wfDaemon_def)
  have "countGlobal (setProc i ?s (world d)) (sortedStatesLocked (world d)) =
      countGlobal (world d) (sortedStatesLocked (world d)) + 1"
    using assms(2,4,5) st
    by (intro countGlobal_grows) (auto simp: wfDaemon_def distinct_sortedStates in_sortedStates holdsSlot_def)
  with run st show ?thesis by (simp add: Let_def)
qed

theorem unreserved_start_exceeds_cap_witness:
  "\<exists>d world. dmMaxRunning (world d) = 3 \<and> countGlobal (world d) [0, 1, 2, 3] = 3 \<and>
     countGlobal (snd (startOnDemand (\<lambda>_ x. x) world 99 (CommandStarts 77) 0 d)) [0, 1, 2, 3] = 4"
proof -
  let ?w = "demoDaemon demoTable 3"
  let ?d = "setProc 0 ((demoProc 0)\<lparr>sState := Stopping, sAtomicState := Stopping\<rparr>) ?w"
  have "State (procOf ?d 0) = Stopping" by (simp add: State_def)
  moreover have "\<not> sRetired (demoProc 0)" by (simp add: demoProc_def NewSupervisor_def)
  moreover have "(0 :: stId) \<in> snd ` set (dmStates ?w)" by (simp add: demoTable_def)
  ultimately have "countGlobal (snd (startOnDemand (\<lambda>_ x. x) (\<lambda>_. ?w) 99 (CommandStarts 77) 0 ?d)) [0, 1, 2, 3] = 4"
    using unreserved_start_exceeds_cap [of ?d 0 "\<lambda>_. ?w" "\<lambda>_ x. x" 99 77] demo_wf [of 3]
    by (simp add: demoProc_State demo_sorted demo_count [simplified] Let_def)
  then show ?thesis
    by (intro exI [of _ ?d] exI [of _ "\<lambda>_. ?w"]) (simp add: demo_count [simplified])
qed

end
