(* ===== verification/Service.thy ===== *)
theory Service
  imports Budget
begin

text \<open>
  Putting projects and wildcard listeners in and out of service (\<open>internal/daemon/daemon.go\<close>,
  \<open>state.go\<close>, \<open>reload.go\<close>, the entry listeners of \<open>wildcard.go\<close>): new objects, attaching and
  detaching routes, activating, retiring, commissioning, stopping everything; and what each of
  these leaves alone.

  \<open>net\<close> stands for the operating system's answer to binding an address, at the number the next
  object gets; \<open>settle\<close> for what a supervisor's own goroutines do while a retirement waits for its
  stop.
\<close>

section \<open>New objects\<close>

definition newTrackerObj :: "daemon \<Rightarrow> trackerId \<times> daemon" where
  "newTrackerObj d =
     (dmNext d, d\<lparr>dmTrackers := (dmTrackers d)(dmNext d := NewTracker), dmNext := dmNext d + 1\<rparr>)"

definition newProjectState :: "project \<Rightarrow> trackerId \<Rightarrow> daemon \<Rightarrow> stId \<times> daemon" where
  "newProjectState p tr d =
     (dmNext d,
      setProject (dmNext d)
        \<lparr>psProject = p, psProc = NewSupervisor p, psTracker = tr, psSwitch = None, psBind = None,
         psActive = False, psDynamic = False, psEntry = None, psRetired = False\<rparr>
        (d\<lparr>dmNext := dmNext d + 1\<rparr>))"

definition newEntryState :: "discovery \<Rightarrow> daemon \<Rightarrow> esId \<times> daemon" where
  "newEntryState e d =
     (dmNext d,
      d\<lparr>dmEntryStates := (dmEntryStates d)(dmNext d :=
           \<lparr>esEntry = e, esBind = None, esMaxRunning = dMaxRunning e\<rparr>),
        dmNext := dmNext d + 1\<rparr>)"

text \<open>A fresh switch serving the project \<open>i\<close>.\<close>

definition freshSwitch :: "stId \<Rightarrow> daemon \<Rightarrow> daemon" where
  "freshSwitch i d =
     setProject i ((dmProjects d i)\<lparr>psSwitch := Some (dmNext d)\<rparr>)
       (d\<lparr>dmSwitches := (dmSwitches d)(dmNext d := Handling i), dmNext := dmNext d + 1\<rparr>)"

type_synonym listens = "nat \<Rightarrow> string \<Rightarrow> string option"

definition listen :: "listens \<Rightarrow> string \<Rightarrow> daemon \<Rightarrow> string + bindId \<times> daemon" where
  "listen net addr d =
     (case net (dmNext d) addr of
        Some err \<Rightarrow> Inl err
      | None \<Rightarrow>
          Inr (dmNext d,
               setBinding (dmNext d)
                 \<lparr>bdAddr = addr, bdRouter = newRouter, bdMembers = 0, bdEntry = None, bdOpen = True\<rparr>
                 (d\<lparr>dmNext := dmNext d + 1\<rparr>)))"

section \<open>Routes\<close>

definition routeIn :: "project \<Rightarrow> switchId \<Rightarrow> handlerRef routeTable \<Rightarrow> handlerRef routeTable" where
  "routeIn p sw t =
     (if pHost p \<noteq> [] then setHost (pHost p) (SwitchHandler sw) t
      else setCatchAll (Some (SwitchHandler sw)) t)"

definition routeOut :: "project \<Rightarrow> handlerRef routeTable \<Rightarrow> handlerRef routeTable" where
  "routeOut p t = (if pHost p \<noteq> [] then removeHost (pHost p) t else setCatchAll None t)"

text \<open>\<open>attach\<close>, once the binding \<open>b\<close> at the address is known.\<close>

definition attachTo :: "bindId \<Rightarrow> stId \<Rightarrow> daemon \<Rightarrow> daemon" where
  "attachTo b i d =
     (let st = dmProjects d i;
          bd = dmBinds d b;
          d1 = setBinding b (bd\<lparr>bdMembers := bdMembers bd + 1\<rparr>)
                 (d\<lparr>dmStates := mapPut (pName (psProject st)) i (dmStates d)\<rparr>);
          d2 = setProject i (st\<lparr>psBind := Some b\<rparr>) d1
      in (case psSwitch st of
            Some sw \<Rightarrow> updateRouter b (routeIn (psProject st) sw) d2
          | None \<Rightarrow> d2))"

definition attach :: "listens \<Rightarrow> stId \<Rightarrow> daemon \<Rightarrow> string option \<times> daemon" where
  "attach net i d =
     (let addr = listenAddr (psProject (dmProjects d i)) in
      case map_of (dmBindings d) addr of
        Some b \<Rightarrow> (None, attachTo b i d)
      | None \<Rightarrow>
          (case listen net addr d of
             Inl err \<Rightarrow> (Some err, d)
           | Inr (b, d1) \<Rightarrow>
               (None, attachTo b i (d1\<lparr>dmBindings := mapPut addr b (dmBindings d1)\<rparr>))))"

definition suspendSwitch :: "stId \<Rightarrow> daemon \<Rightarrow> daemon" where
  "suspendSwitch i d =
     (case psSwitch (dmProjects d i) of
        Some sw \<Rightarrow> d\<lparr>dmSwitches := (dmSwitches d)(sw := Waiting)\<rparr>
      | None \<Rightarrow> d)"

text \<open>\<open>unbind\<close>: the listener stops accepting.\<close>

definition unbind :: "bindId \<Rightarrow> daemon \<Rightarrow> daemon" where
  "unbind b d = setBinding b ((dmBinds d b)\<lparr>bdOpen := False\<rparr>) d"

definition forgetBinding :: "bindId \<Rightarrow> daemon \<Rightarrow> daemon" where
  "forgetBinding b d =
     (let addr = bdAddr (dmBinds d b)
      in if map_of (dmBindings d) addr = Some b
         then d\<lparr>dmBindings := mapDelete addr (dmBindings d)\<rparr> else d)"

definition leaveBinding :: "bindId \<Rightarrow> project \<Rightarrow> daemon \<Rightarrow> daemon" where
  "leaveBinding b p d =
     (let d1 = updateRouter b (routeOut p) d;
          n = bdMembers (dmBinds d1 b) - 1;
          d2 = setBinding b ((dmBinds d1 b)\<lparr>bdMembers := n\<rparr>) d1
      in if n \<le> 0 \<and> bdEntry (dmBinds d2 b) = None then unbind b (forgetBinding b d2) else d2)"

definition detach :: "stId \<Rightarrow> bool \<Rightarrow> daemon \<Rightarrow> daemon" where
  "detach i keep d =
     (if keep then suspendSwitch i d
      else (case psBind (dmProjects d i) of
              None \<Rightarrow> d
            | Some b \<Rightarrow>
                (let d1 = leaveBinding b (psProject (dmProjects d i)) d
                 in setProject i ((dmProjects d1 i)\<lparr>psBind := None\<rparr>) d1)))"

section \<open>In and out of service\<close>

definition activate :: "stId \<Rightarrow> daemon \<Rightarrow> daemon" where
  "activate i d =
     (let d1 = setProject i ((dmProjects d i)\<lparr>psActive := True\<rparr>) d
      in if pAlwaysOn (psProject (dmProjects d i)) then d1\<lparr>dmStarts := dmStarts d1 @ [i]\<rparr> else d1)"

definition retireProc :: "(supervisor \<Rightarrow> supervisor) \<Rightarrow> stId \<Rightarrow> daemon \<Rightarrow> daemon" where
  "retireProc settle i d = setProc i (settle (snd (StopAsync (Retire (procOf d i))))) d"

definition retire :: "(supervisor \<Rightarrow> supervisor) \<Rightarrow> stId \<times> bool \<Rightarrow> daemon \<Rightarrow> daemon" where
  "retire settle item d =
     (case item of (i, keep) \<Rightarrow>
        if psRetired (dmProjects d i) then d
        else retireProc settle i
               (detach i keep
                 (setProject i ((dmProjects d i)\<lparr>psRetired := True, psActive := False\<rparr>) d)))"

text \<open>The code retires in parallel; here in the order of the list.\<close>

definition retireAll :: "(supervisor \<Rightarrow> supervisor) \<Rightarrow> (stId \<times> bool) list \<Rightarrow> daemon \<Rightarrow> daemon" where
  "retireAll settle items d = fold (retire settle) items d"

definition retireBound :: "daemon \<Rightarrow> stId list \<Rightarrow> duration" where
  "retireBound d items =
     fold (\<lambda>i maxWait.
         (let wait = wrap64 (wrap64 (pShutdownTimeoutSeconds (psProject (dmProjects d i)) * timeSecond)
                + 15 * timeSecond)
          in if wait > maxWait then wait else maxWait))
       items (15 * timeSecond)"

definition commission ::
    "listens \<Rightarrow> stId \<Rightarrow> stId option \<Rightarrow> daemon \<Rightarrow> string option \<times> daemon" where
  "commission net i inherited d =
     (case inherited of
        Some old \<Rightarrow>
          (let st = (dmProjects d i)\<lparr>psSwitch := psSwitch (dmProjects d old),
                                     psBind := psBind (dmProjects d old)\<rparr>;
               d1 = setProject i st (d\<lparr>dmStates := mapPut (pName (psProject st)) i (dmStates d)\<rparr>);
               d2 = (case psSwitch st of
                       Some sw \<Rightarrow> d1\<lparr>dmSwitches := (dmSwitches d1)(sw := Handling i)\<rparr>
                     | None \<Rightarrow> d1)
           in (None, activate i d2))
      | None \<Rightarrow>
          (case attach net i (freshSwitch i d) of
             (Some err, d1) \<Rightarrow> (Some err, d1)
           | (None, d1) \<Rightarrow> (None, activate i d1)))"

definition sameRoute :: "project \<Rightarrow> project \<Rightarrow> bool" where
  "sameRoute a b \<longleftrightarrow> listenAddr a = listenAddr b \<and> pHost a = pHost b"

definition bindEntry :: "listens \<Rightarrow> esId \<Rightarrow> daemon \<Rightarrow> string option \<times> daemon" where
  "bindEntry net e d =
     (let entry = esEntry (dmEntryStates d e); addr = entryAddr entry in
      case listen net addr d of
        Inl err \<Rightarrow> (Some err, d)
      | Inr (b, d1) \<Rightarrow>
          (None,
           (setBinding b ((dmBinds d1 b)\<lparr>bdEntry := Some e\<rparr>) d1)
             \<lparr>dmEntryStates := (dmEntryStates d1)(e := (dmEntryStates d1 e)\<lparr>esBind := Some b\<rparr>),
              dmBindings := mapPut addr b (dmBindings d1),
              dmEntries := mapPut (dName entry) e (dmEntries d1)\<rparr>))"

definition unbindEntry :: "esId \<Rightarrow> daemon \<Rightarrow> daemon" where
  "unbindEntry e d =
     (case esBind (dmEntryStates d e) of
        None \<Rightarrow> d
      | Some b \<Rightarrow>
          (let d1 = forgetBinding b d;
               name = dName (esEntry (dmEntryStates d e));
               d2 = (if map_of (dmEntries d1) name = Some e
                     then d1\<lparr>dmEntries := mapDelete name (dmEntries d1)\<rparr> else d1)
           in unbind b d2))"

definition stopAll :: "(supervisor \<Rightarrow> supervisor) \<Rightarrow> daemon \<Rightarrow> daemon" where
  "stopAll settle d =
     (let d1 = retireAll settle (map (\<lambda>i. (i, False)) (sortedStatesLocked d)) d
      in fold (\<lambda>e d'. if esBind (dmEntryStates d' e) \<noteq> None then unbindEntry e d' else d')
           (sortedEntriesLocked d1) d1)"

section \<open>What the operations leave alone\<close>

text \<open>
  An operation on the state \<open>i\<close> touches the record of no other state, and of the switches at most
  those in \<open>ws\<close>; the objects numbered so far keep their numbers.
\<close>

definition touches :: "stId set \<Rightarrow> switchId set \<Rightarrow> daemon \<Rightarrow> daemon \<Rightarrow> bool" where
  "touches js ws d e \<longleftrightarrow>
     (\<forall>j. j \<notin> js \<longrightarrow> dmProjects e j = dmProjects d j) \<and>
     (\<forall>w. w \<notin> ws \<longrightarrow> dmSwitches e w = dmSwitches d w) \<and> dmNext d \<le> dmNext e"

lemma touches_refl [simp]: "touches js ws d d"
  by (simp add: touches_def)

lemma touches_trans: "touches js ws d e \<Longrightarrow> touches js' ws' e f \<Longrightarrow> touches (js \<union> js') (ws \<union> ws') d f"
  by (auto simp: touches_def)

lemma touches_mono: "touches js ws d e \<Longrightarrow> js \<subseteq> js' \<Longrightarrow> ws \<subseteq> ws' \<Longrightarrow> touches js' ws' d e"
  by (auto simp: touches_def)

named_theorems daemon_defs "the stores, written"

lemmas [daemon_defs] =
  setProject_def setProc_def setTracker_def setBinding_def updateRouter_def Let_def

lemma touches_new:
  "touches {} {} d (snd (newTrackerObj d))" "touches {dmNext d} {} d (snd (newProjectState p tr d))"
  "touches {} {} d (snd (newEntryState e d))" "touches {i} {dmNext d} d (freshSwitch i d)"
  by (auto simp: touches_def newTrackerObj_def newProjectState_def newEntryState_def freshSwitch_def
      daemon_defs)

lemma touches_listen: "listen net addr d = Inr (b, d') \<Longrightarrow>
    touches {} {} d d' \<and> dmStates d' = dmStates d"
  by (auto simp: touches_def listen_def daemon_defs split: option.splits)

lemma touches_attachTo: "touches {i} {} d (attachTo b i d)"
  by (auto simp: touches_def attachTo_def daemon_defs split: option.splits)

lemma touches_states [simp]: "touches js ws d (e\<lparr>dmBindings := x\<rparr>) = touches js ws d e"
  "touches js ws d (e\<lparr>dmStates := y\<rparr>) = touches js ws d e"
  "touches js ws (d\<lparr>dmStates := y\<rparr>) e = touches js ws d e"
  "touches js ws d (e\<lparr>dmLastReloadAt := t\<rparr>) = touches js ws d e"
  "touches js ws (d\<lparr>dmBindings := x\<rparr>) e = touches js ws d e"
  by (simp_all add: touches_def)

lemma touches_attach: "touches {i} {} d (snd (attach net i d))"
proof (cases "map_of (dmBindings d) (listenAddr (psProject (dmProjects d i)))")
  case None
  show ?thesis
  proof (cases "listen net (listenAddr (psProject (dmProjects d i))) d")
    case (Inr r)
    obtain b d1 where r: "r = (b, d1)" by (cases r)
    from touches_listen [OF Inr [unfolded r]]
      touches_attachTo [of i "d1\<lparr>dmBindings := mapPut (listenAddr (psProject (dmProjects d i))) b (dmBindings d1)\<rparr>" b]
    show ?thesis using None Inr r touches_trans [of "{}" "{}" d d1 "{i}" "{}"]
      by (simp add: attach_def Let_def)
  qed (simp add: attach_def None Let_def)
qed (simp add: attach_def touches_attachTo Let_def)

lemma touches_suspend: "touches {} (set_option (psSwitch (dmProjects d i))) d (suspendSwitch i d)"
  by (auto simp: touches_def suspendSwitch_def split: option.splits)

lemma touches_leave: "touches {} {} d (leaveBinding b p d)" "touches {} {} d (forgetBinding b d)"
  "touches {} {} d (unbind b d)"
  by (auto simp: touches_def leaveBinding_def forgetBinding_def unbind_def daemon_defs)

lemma touches_activate: "touches {i} {} d (activate i d)"
  by (auto simp: touches_def activate_def daemon_defs)

lemma touches_detach:
  "touches {i} (if keep then set_option (psSwitch (dmProjects d i)) else {}) d (detach i keep d)"
proof -
  have "touches {i} {} d (setProject i st (leaveBinding b p d))" for st b p
    using touches_leave(1) [of d b p] by (auto simp: touches_def setProject_def)
  then show ?thesis
    using touches_mono [OF touches_suspend [of d i], of "{i}"]
    by (auto simp: detach_def Let_def split: option.splits)
qed

lemma touches_seq: "touches js ws d e \<Longrightarrow> touches js ws e f \<Longrightarrow> touches js ws d f"
  using touches_trans [of js ws d e js ws f] by simp

lemma touches_own: "touches {i} ws d (setProject i st d)" "touches {i} ws d (retireProc settle i d)"
  by (simp_all add: touches_def retireProc_def setProc_def setProject_def)

lemma touches_retire:
  "touches {i} (if keep then set_option (psSwitch (dmProjects d i)) else {}) d (retire settle (i, keep) d)"
  (is "touches _ ?ws _ _")
proof (cases "psRetired (dmProjects d i)")
  case False
  let ?d1 = "setProject i ((dmProjects d i)\<lparr>psRetired := True, psActive := False\<rparr>) d"
  have "psSwitch (dmProjects ?d1 i) = psSwitch (dmProjects d i)" by (simp add: setProject_def)
  then have "touches {i} ?ws ?d1 (detach i keep ?d1)" using touches_detach [of i keep ?d1] by (cases keep) simp_all
  from touches_seq [OF touches_seq [OF touches_own(1) this] touches_own(2)] False
  show ?thesis by (simp add: retire_def)
qed (simp add: retire_def)

lemma touches_retireAll:
  assumes "\<forall>(i, keep) \<in> set items. i \<in> js \<and> (keep \<longrightarrow> set_option (psSwitch (dmProjects d i)) \<subseteq> ws)"
  shows "touches js ws d (retireAll settle items d)"
  using assms unfolding retireAll_def
proof (induction items arbitrary: d)
  case (Cons item items)
  obtain i keep where item: "item = (i, keep)" by (cases item)
  let ?d1 = "retire settle item d"
  have one: "touches js ws d ?d1"
    using touches_mono [OF touches_retire [of i keep d settle], of js ws] Cons.prems
    by (auto simp: item split: if_splits)
  have sw: "psSwitch (dmProjects ?d1 j) = psSwitch (dmProjects d j)" for j
    by (cases "j = i") (auto simp: item retire_def retireProc_def detach_def suspendSwitch_def
        leaveBinding_def forgetBinding_def unbind_def daemon_defs split: option.splits)
  have "touches js ws ?d1 (fold (retire settle) items ?d1)"
    using Cons.prems by (intro Cons.IH) (auto simp: sw)
  with one show ?case using touches_seq by simp
qed simp

lemma touches_activate_after: "touches {i} ws d e \<Longrightarrow> touches {i} ws d (activate i e)"
  by (erule touches_seq [OF _ touches_mono [OF touches_activate]]) auto

lemma touches_commission_fresh:
  "i < dmNext d \<Longrightarrow> touches {i} {dmNext d} d (snd (commission net i None d))"
proof -
  let ?d1 = "freshSwitch i d"
  have "touches {i} {dmNext d} ?d1 (snd (attach net i ?d1))"
    using touches_mono [OF touches_attach [of i ?d1 net], of "{i}" "{dmNext d}"] by simp
  from touches_seq [OF touches_new(4) this]
  show ?thesis
    using touches_activate_after by (auto simp: commission_def split: prod.splits option.splits)
qed

lemma touches_commission_inherited:
  "touches {i} (set_option (psSwitch (dmProjects d old))) d (snd (commission net i (Some old) d))"
  unfolding commission_def option.case Let_def snd_conv
  by (rule touches_activate_after) (auto simp: touches_def setProject_def split: option.splits)

lemma touches_entries:
  "touches {} {} d (snd (bindEntry net e d))" "touches {} {} d (unbindEntry e d)"
proof -
  show "touches {} {} d (snd (bindEntry net e d))"
    by (auto simp: bindEntry_def listen_def touches_def setBinding_def Let_def split: option.splits sum.splits)
  show "touches {} {} d (unbindEntry e d)"
    by (auto simp: unbindEntry_def forgetBinding_def unbind_def touches_def setBinding_def Let_def
        split: option.splits)
qed

lemma touches_fold: "(\<And>x e. touches js ws e (f x e)) \<Longrightarrow> touches js ws d (fold f xs d)"
  by (induction xs arbitrary: d) (auto intro: touches_seq)

lemma touches_applyBudget: "touches {} {} d (applyBudget n caps kept d)"
proof -
  have "touches {} {} (d\<lparr>dmMaxRunning := n\<rparr>) (applyBudget n caps kept d)"
    unfolding applyBudget_def by (rule touches_fold) (auto simp: touches_def split: option.splits)
  then show ?thesis by (simp add: touches_def)
qed

section \<open>What the operations do to the project table\<close>

lemma states_same [simp]:
  "dmStates (snd (newTrackerObj d)) = dmStates d"
  "dmStates (snd (newProjectState p tr d)) = dmStates d"
  "dmStates (snd (newEntryState entry d)) = dmStates d"
  "dmStates (freshSwitch i d) = dmStates d" "dmStates (suspendSwitch i d) = dmStates d"
  "dmStates (leaveBinding b p d) = dmStates d" "dmStates (activate i d) = dmStates d"
  "dmStates (unbindEntry e d) = dmStates d" "dmStates (snd (bindEntry net e d)) = dmStates d"
  by (auto simp: newTrackerObj_def newProjectState_def newEntryState_def freshSwitch_def
      suspendSwitch_def leaveBinding_def forgetBinding_def unbind_def activate_def unbindEntry_def
      bindEntry_def listen_def daemon_defs split: option.splits sum.splits)

lemma states_retireAll [simp]: "dmStates (retireAll settle items d) = dmStates d"
proof -
  have "dmStates (retire settle item e) = dmStates e" for item e
    by (cases item) (auto simp: retire_def retireProc_def detach_def daemon_defs split: option.splits)
  then show ?thesis unfolding retireAll_def by (induction items arbitrary: d) simp_all
qed

lemma states_fold: "(\<And>x e. dmStates (f x e) = dmStates e) \<Longrightarrow> dmStates (fold f xs d) = dmStates d"
  by (induction xs arbitrary: d) simp_all

lemma states_applyBudget [simp]: "dmStates (applyBudget n caps kept d) = dmStates d"
  unfolding applyBudget_def by (subst states_fold) (auto split: option.splits)

lemma attach_states:
  "(case fst (attach net i d) of
      None \<Rightarrow> dmStates (snd (attach net i d)) = mapPut (nameOf d i) i (dmStates d)
    | Some e \<Rightarrow> dmStates (snd (attach net i d)) = dmStates d)"
  by (auto simp: attach_def attachTo_def listen_def nameOf_def daemon_defs split: option.splits sum.splits)

lemma commission_states:
  "dmStates (snd (commission net i inherited d)) =
     (if fst (commission net i inherited d) = None then mapPut (nameOf d i) i (dmStates d)
      else dmStates d)"
proof (cases inherited)
  case None
  have "nameOf (freshSwitch i d) i = nameOf d i"
    by (simp add: nameOf_def freshSwitch_def setProject_def)
  then show ?thesis
    using attach_states [of net i "freshSwitch i d"] None
    by (auto simp: commission_def split: prod.splits option.splits)
next
  case (Some old)
  then show ?thesis
    by (auto simp: commission_def nameOf_def setProject_def Let_def split: option.splits)
qed

lemma commission_inherited_ok [simp]: "fst (commission net i (Some old) d) = None"
  by (simp add: commission_def Let_def)

text \<open>
  The state \<open>i\<close> is in service for the project \<open>p\<close>: a fresh supervisor, an active monitor or start,
  and a switch that hands requests to it.
\<close>

definition inService :: "daemon \<Rightarrow> stId \<Rightarrow> project \<Rightarrow> trackerId \<Rightarrow> switchId \<Rightarrow> bool" where
  "inService d i p tr sw \<longleftrightarrow>
     psProject (dmProjects d i) = p \<and> psProc (dmProjects d i) = NewSupervisor p \<and>
     psTracker (dmProjects d i) = tr \<and> psActive (dmProjects d i) \<and>
     \<not> psDynamic (dmProjects d i) \<and> \<not> psRetired (dmProjects d i) \<and>
     psSwitch (dmProjects d i) = Some sw \<and> dmSwitches d sw = Handling i \<and>
     i < dmNext d \<and> sw < dmNext d"

lemma inService_touches:
  "inService d i p tr sw \<Longrightarrow> touches js ws d e \<Longrightarrow> i \<notin> js \<Longrightarrow> sw \<notin> ws \<Longrightarrow> inService e i p tr sw"
  by (simp add: inService_def touches_def)

lemma attachTo_record:
  "dmProjects (attachTo b i d) i = (dmProjects d i)\<lparr>psBind := Some b\<rparr>"
  "dmSwitches (attachTo b i d) = dmSwitches d"
  by (simp_all add: attachTo_def daemon_defs split: option.splits)

lemma attach_record:
  assumes "attach net i d = (None, e)"
  shows "\<exists>b. dmProjects e i = (dmProjects d i)\<lparr>psBind := Some b\<rparr>" and "dmSwitches e = dmSwitches d"
proof -
  let ?addr = "listenAddr (psProject (dmProjects d i))"
  have "\<exists>b d1. e = attachTo b i d1 \<and> dmProjects d1 i = dmProjects d i \<and> dmSwitches d1 = dmSwitches d"
  proof (cases "map_of (dmBindings d) ?addr")
    case None
    with assms obtain b d1 where l: "listen net ?addr d = Inr (b, d1)"
      by (auto simp: attach_def Let_def split: sum.splits)
    then have "dmProjects d1 i = dmProjects d i" "dmSwitches d1 = dmSwitches d"
      using touches_listen [OF l] by (auto simp: touches_def)
    with assms None l show ?thesis
      by (intro exI [of _ b] exI [of _ "d1\<lparr>dmBindings := mapPut ?addr b (dmBindings d1)\<rparr>"])
        (simp add: attach_def Let_def)
  qed (use assms in \<open>auto simp: attach_def Let_def\<close>)
  then show "\<exists>b. dmProjects e i = (dmProjects d i)\<lparr>psBind := Some b\<rparr>" "dmSwitches e = dmSwitches d"
    by (auto simp: attachTo_record)
qed

text \<open>A state just built and commissioned, on a fresh route or on the one of a predecessor.\<close>

lemma commission_fresh_inService:
  assumes "newProjectState p tr d = (i, d1)" and "commission net i None d1 = (None, d2)"
  shows "inService d2 i p tr (dmNext d1)"
proof -
  have i: "i = dmNext d" "dmNext d1 = dmNext d + 1"
    "dmProjects d1 i = \<lparr>psProject = p, psProc = NewSupervisor p, psTracker = tr, psSwitch = None,
       psBind = None, psActive = False, psDynamic = False, psEntry = None, psRetired = False\<rparr>"
    using assms(1) by (auto simp: newProjectState_def setProject_def)
  let ?d = "freshSwitch i d1"
  obtain d3 where a: "attach net i ?d = (None, d3)" "d2 = activate i d3"
    using assms(2) by (auto simp: commission_def split: prod.splits option.splits)
  have le: "dmNext ?d \<le> dmNext d3" using touches_attach [of i ?d net] a(1) by (simp add: touches_def)
  obtain b where b: "dmProjects d3 i = (dmProjects ?d i)\<lparr>psBind := Some b\<rparr>" "dmSwitches d3 = dmSwitches ?d"
    using attach_record [OF a(1)] by auto
  have "dmProjects ?d i = (dmProjects d1 i)\<lparr>psSwitch := Some (dmNext d1)\<rparr>"
    "dmSwitches ?d (dmNext d1) = Handling i" "dmNext ?d = dmNext d1 + 1"
    by (simp_all add: freshSwitch_def setProject_def)
  with b i le show ?thesis
    by (simp add: inService_def a(2) activate_def setProject_def Let_def)
qed

lemma commission_inherited_inService:
  assumes "newProjectState p tr d = (i, d1)" and "commission net i (Some old) d1 = (None, d2)"
    and "old \<noteq> i" and "psSwitch (dmProjects d old) = Some sw" and "sw < dmNext d"
  shows "inService d2 i p tr sw"
proof -
  have i: "i = dmNext d" "dmNext d1 = dmNext d + 1" "psSwitch (dmProjects d1 old) = Some sw"
    "dmProjects d1 i = \<lparr>psProject = p, psProc = NewSupervisor p, psTracker = tr, psSwitch = None,
       psBind = None, psActive = False, psDynamic = False, psEntry = None, psRetired = False\<rparr>"
    using assms(1,3,4) by (auto simp: newProjectState_def setProject_def)
  show ?thesis
    using assms(2,5) i
    by (auto simp: inService_def commission_def activate_def setProject_def Let_def split: if_splits)
qed

end
