(* ===== verification/Reload.thy ===== *)
theory Reload
  imports Service
begin

text \<open>
  The live reload (\<open>internal/daemon/reload.go\<close>): the difference between a new configuration and the
  live set, what is taken out of the tables, what is rebuilt, and the whole of \<open>Reload\<close> with its
  error answers and its panics. \<open>world\<close> is what the rest of the daemon does between the snapshot of
  the tables and the lock under which they change.
\<close>

section \<open>The difference\<close>

text \<open>A name's column in the answer of the reload.\<close>

datatype change = IsAdded | IsChanged | IsUnchanged

definition projectChange :: "daemon \<Rightarrow> config \<Rightarrow> string \<Rightarrow> change" where
  "projectChange d cfg name =
     (case map_of (dmStates d) name of
        None \<Rightarrow> IsAdded
      | Some i \<Rightarrow>
          if \<not> psDynamic (dmProjects d i) \<and>
             projectEquivalent (psProject (dmProjects d i)) (projectOf cfg name)
          then IsUnchanged else IsChanged)"

record diff =
  dfAdded :: "string list"
  dfRemoved :: "string list"
  dfChanged :: "string list"
  dfUnchanged :: "string list"

definition diffProjects :: "daemon \<Rightarrow> config \<Rightarrow> diff" where
  "diffProjects d cfg =
     (let names = ProjectNames cfg; pick = (\<lambda>k. filter (\<lambda>n. projectChange d cfg n = k) names)
      in \<lparr>dfAdded = pick IsAdded,
          dfRemoved = map fst (filter (\<lambda>(name, i).
             map_of (cProjects cfg) name = None \<and> \<not> psDynamic (dmProjects d i)) (dmStates d)),
          dfChanged = pick IsChanged,
          dfUnchanged = pick IsUnchanged\<rparr>)"

text \<open>The wildcard entries of the new configuration, by name (a loaded one has no null entry).\<close>

definition wantedEntries :: "config \<Rightarrow> (string, discovery) gomap" where
  "wantedEntries cfg =
     fold (\<lambda>eo m. case eo of
         None \<Rightarrow> m
       | Some e \<Rightarrow> if Wildcard e then mapPut (dName e) e m else m)
       (cDiscovery cfg) []"

definition entryChange :: "daemon \<Rightarrow> (string, discovery) gomap \<Rightarrow> string \<times> esId \<Rightarrow> change option" where
  "entryChange d wanted = (\<lambda>(name, e).
     case map_of wanted name of
       None \<Rightarrow> None
     | Some w \<Rightarrow>
         Some (if discoveryEquivalent (esEntry (dmEntryStates d e)) w then IsUnchanged else IsChanged))"

definition diffEntries :: "daemon \<Rightarrow> (string, discovery) gomap \<Rightarrow> diff" where
  "diffEntries d wanted =
     (let pick = (\<lambda>k. sort (map fst (filter (\<lambda>p. entryChange d wanted p = k) (dmEntries d))))
      in \<lparr>dfAdded = sort (filter (\<lambda>n. map_of (dmEntries d) n = None) (map fst wanted)),
          dfRemoved = pick None, dfChanged = pick (Some IsChanged),
          dfUnchanged = pick (Some IsUnchanged)\<rparr>)"

section \<open>Taking out of the tables\<close>

text \<open>\<open>None\<close>: the table has no state of that name any more and dereferencing it panics.\<close>

fun takeRemoved :: "string list \<Rightarrow> daemon \<Rightarrow> ((stId \<times> bool) list \<times> daemon) option" where
  "takeRemoved [] d = Some ([], d)"
| "takeRemoved (n # ns) d =
     (case map_of (dmStates d) n of
        None \<Rightarrow> None
      | Some i \<Rightarrow>
          map_option (\<lambda>(items, d'). ((i, False) # items, d'))
            (takeRemoved ns (d\<lparr>dmStates := mapDelete n (dmStates d)\<rparr>)))"

definition keepsRoute :: "daemon \<Rightarrow> config \<Rightarrow> string \<Rightarrow> stId \<Rightarrow> bool" where
  "keepsRoute d cfg n i \<longleftrightarrow>
     \<not> psDynamic (dmProjects d i) \<and> sameRoute (psProject (dmProjects d i)) (projectOf cfg n)"

fun takeChanged :: "config \<Rightarrow> string list \<Rightarrow> daemon \<Rightarrow> ((stId \<times> bool) list \<times> daemon) option" where
  "takeChanged cfg [] d = Some ([], d)"
| "takeChanged cfg (n # ns) d =
     (case map_of (dmStates d) n of
        None \<Rightarrow> None
      | Some i \<Rightarrow>
          (let keep = keepsRoute d cfg n i; d1 = (if keep then suspendSwitch i d else d)
           in map_option (\<lambda>(items, d'). ((i, keep) # items, d')) (takeChanged cfg ns d1)))"

definition takeDynamic ::
    "string list \<Rightarrow> stId \<Rightarrow> (stId \<times> bool) list \<times> string list \<times> daemon \<Rightarrow>
      (stId \<times> bool) list \<times> string list \<times> daemon" where
  "takeDynamic changed i = (\<lambda>(items, removed, d).
     if map_of (dmStates d) (nameOf d i) \<noteq> Some i \<or> nameOf d i \<in> set changed then (items, removed, d)
     else (items @ [(i, False)], removed @ [nameOf d i],
           d\<lparr>dmStates := mapDelete (nameOf d i) (dmStates d)\<rparr>))"

definition takeEntry ::
    "string list \<Rightarrow> esId \<Rightarrow> (stId \<times> bool) list \<times> string list \<times> daemon \<Rightarrow>
      (stId \<times> bool) list \<times> string list \<times> daemon" where
  "takeEntry changed e = (\<lambda>(items, removed, d).
     fold (takeDynamic changed) (dynamicStatesLocked d e) (items, removed, d))"

section \<open>Rebuilding\<close>

datatype reloadError =
    ProjectError string string
  | KeptPrevious string string
  | RestoreFailed string string
  | EntryError string string

definition rebuildAdded ::
    "listens \<Rightarrow> config \<Rightarrow> string \<Rightarrow> reloadError list \<times> daemon \<Rightarrow> reloadError list \<times> daemon" where
  "rebuildAdded net cfg n = (\<lambda>(errs, d).
     let (tr, d1) = newTrackerObj d;
         (i, d2) = newProjectState (projectOf cfg n) tr d1
     in case commission net i None d2 of
          (None, d3) \<Rightarrow> (errs, d3)
        | (Some e, d3) \<Rightarrow> (errs @ [ProjectError n e], d3))"

definition rebuildChanged ::
    "listens \<Rightarrow> config \<Rightarrow> (string \<Rightarrow> stId option) \<Rightarrow> string \<Rightarrow>
      reloadError list \<times> daemon \<Rightarrow> reloadError list \<times> daemon" where
  "rebuildChanged net cfg current n = (\<lambda>(errs, d).
     let old = the (current n);
         inherited = (if keepsRoute d cfg n old then Some old else None);
         tr = psTracker (dmProjects d old);
         (i, d1) = newProjectState (projectOf cfg n) tr d
     in case commission net i inherited d1 of
          (None, d2) \<Rightarrow> (errs, d2)
        | (Some e, d2) \<Rightarrow>
            (let (j, d3) = newProjectState (psProject (dmProjects d2 old)) tr d2
             in case commission net j None d3 of
                  (None, d4) \<Rightarrow> (errs @ [KeptPrevious n e], d4)
                | (Some e', d4) \<Rightarrow>
                    (errs @ [KeptPrevious n e, RestoreFailed n e'],
                     d4\<lparr>dmStates := mapDelete n (dmStates d4)\<rparr>)))"

definition rebuildEntry ::
    "listens \<Rightarrow> (string, discovery) gomap \<Rightarrow> string \<Rightarrow>
      reloadError list \<times> daemon \<Rightarrow> reloadError list \<times> daemon" where
  "rebuildEntry net wanted n = (\<lambda>(errs, d).
     let (e, d1) = newEntryState (the (map_of wanted n)) d
     in case bindEntry net e d1 of
          (None, d2) \<Rightarrow> (errs, d2)
        | (Some err, d2) \<Rightarrow> (errs @ [EntryError n err], d2))"

section \<open>The reload\<close>

record response =
  rsDiff :: diff
  rsWildcards :: "diff option"
  rsErrors :: "reloadError list"

datatype unavailable = InMemoryConfig | ShuttingDown | NotRunning

datatype reloadResult =
    Unavailable unavailable
  | RejectedConfig loadError
  | Panicked
  | Applied response

text \<open>What happens under the table lock; \<open>None\<close> is a panic.\<close>

definition takeOut ::
    "config \<Rightarrow> diff \<Rightarrow> (string, esId) gomap \<Rightarrow> string list \<Rightarrow> daemon \<Rightarrow>
      ((stId \<times> bool) list \<times> string list \<times> daemon) option" where
  "takeOut cfg df currentEntries gone d =
     (case takeRemoved (dfRemoved df) d of
        None \<Rightarrow> None
      | Some (r1, d1) \<Rightarrow>
          (case takeChanged cfg (dfChanged df) d1 of
             None \<Rightarrow> None
           | Some (r2, d2) \<Rightarrow>
               Some (fold (\<lambda>n. takeEntry (dfChanged df) (the (map_of currentEntries n))) gone
                 (r1 @ r2, dfRemoved df, d2))))"

definition rebuild ::
    "listens \<Rightarrow> config \<Rightarrow> diff \<Rightarrow> diff \<Rightarrow> (string, stId) gomap \<Rightarrow> daemon \<Rightarrow>
      reloadError list \<times> daemon" where
  "rebuild net cfg df ef current d =
     fold (rebuildEntry net (wantedEntries cfg)) (dfAdded ef @ dfChanged ef)
       (fold (rebuildChanged net cfg (map_of current)) (dfChanged df)
         (fold (rebuildAdded net cfg) (dfAdded df) ([], d)))"

definition ReloadWith ::
    "listens \<Rightarrow> (supervisor \<Rightarrow> supervisor) \<Rightarrow> (daemon \<Rightarrow> daemon) \<Rightarrow> time \<Rightarrow> config \<Rightarrow> daemon \<Rightarrow>
      reloadResult \<times> daemon" where
  "ReloadWith net settle world now cfg d =
     (let df = diffProjects d cfg;
          wanted = wantedEntries cfg;
          ef = diffEntries d wanted;
          gone = dfRemoved ef @ dfChanged ef;
          d0 = world d
      in case takeOut cfg df (dmEntries d) gone d0 of
           None \<Rightarrow> (Panicked, d0)
         | Some (items, removed, d1) \<Rightarrow>
             (let kept = filter (\<lambda>(n, e). n \<in> set (dfUnchanged ef)) (dmEntries d);
                  caps = List.map_filter (map_option (\<lambda>e. (dName e, dMaxRunning e))) (cDiscovery cfg);
                  d2 = applyBudget (cMaxRunning cfg) caps kept d1;
                  d3 = retireAll settle items d2;
                  d4 = fold (\<lambda>n. unbindEntry (the (map_of (dmEntries d) n))) gone d3;
                  (errs, d5) = rebuild net cfg df ef (dmStates d) d4
              in (Applied
                    \<lparr>rsDiff = df\<lparr>dfRemoved := sort removed\<rparr>,
                     rsWildcards = (if wanted = [] \<and> dmEntries d = [] then None else Some ef),
                     rsErrors = errs\<rparr>,
                  d5\<lparr>dmLastReloadAt := now\<rparr>)))"

definition Reload ::
    "listens \<Rightarrow> (supervisor \<Rightarrow> supervisor) \<Rightarrow> (daemon \<Rightarrow> daemon) \<Rightarrow> time \<Rightarrow>
      (string \<Rightarrow> loadError + config) \<Rightarrow> daemon \<Rightarrow> reloadResult \<times> daemon" where
  "Reload net settle world now load d =
     (if dmConfigPath d = [] then (Unavailable InMemoryConfig, d)
      else if dmDraining d then (Unavailable ShuttingDown, d)
      else if \<not> dmRunning d then (Unavailable NotRunning, d)
      else (case load (dmConfigPath d) of
              Inl e \<Rightarrow> (RejectedConfig e, d)
            | Inr cfg \<Rightarrow> ReloadWith net settle world now cfg d))"

end
