(* ===== verification/ReloadFacts.thy ===== *)
theory ReloadFacts
  imports Reload
begin

text \<open>
  What a reload does: which states it takes out, that rebuilding touches nothing older than itself
  (the contract \<open>table_fold\<close> of the rebuilding loops), and the properties of the whole reload.
\<close>

section \<open>What is taken out\<close>

lemma takeRemoved_ok:
  "distinct ns \<Longrightarrow> \<forall>n \<in> set ns. map_of (dmStates d) n \<noteq> None \<Longrightarrow>
     \<exists>tab. takeRemoved ns d = Some (map (\<lambda>n. (the (map_of (dmStates d) n), False)) ns, d\<lparr>dmStates := tab\<rparr>) \<and>
       map_of tab = (map_of (dmStates d)) |` (- set ns) \<and>
       (distinct (map fst (dmStates d)) \<longrightarrow> distinct (map fst tab))"
proof (induction ns arbitrary: d)
  case Nil
  show ?case by (intro exI [of _ "dmStates d"]) simp
next
  case (Cons n ns)
  obtain i where i: "map_of (dmStates d) n = Some i" using Cons.prems by auto
  let ?d = "d\<lparr>dmStates := mapDelete n (dmStates d)\<rparr>"
  have same: "map_of (dmStates ?d) m = map_of (dmStates d) m" if "m \<in> set ns" for m
    using that Cons.prems by (auto simp: gomap_simps)
  then have "map (\<lambda>n. (the (map_of (dmStates ?d) n), False)) ns =
      map (\<lambda>n. (the (map_of (dmStates d) n), False)) ns"
    by (intro map_cong) auto
  moreover obtain tab where "takeRemoved ns ?d =
      Some (map (\<lambda>n. (the (map_of (dmStates ?d) n), False)) ns, ?d\<lparr>dmStates := tab\<rparr>)"
    "map_of tab = (map_of (dmStates ?d)) |` (- set ns)"
    "distinct (map fst (dmStates ?d)) \<longrightarrow> distinct (map fst tab)"
    using Cons.IH [of ?d] Cons.prems same by auto
  ultimately show ?case using i
    by (intro exI [of _ tab]) (auto simp: gomap_simps restrict_map_def distinct_mapDelete fun_eq_iff)
qed

lemma takeChanged_ok:
  "\<forall>n \<in> set ns. map_of (dmStates d) n \<noteq> None \<Longrightarrow>
     \<exists>sws. takeChanged cfg ns d =
         Some (map (\<lambda>n. (the (map_of (dmStates d) n), keepsRoute d cfg n (the (map_of (dmStates d) n)))) ns,
               d\<lparr>dmSwitches := sws\<rparr>) \<and>
       (\<forall>w. (\<forall>n \<in> set ns. keepsRoute d cfg n (the (map_of (dmStates d) n)) \<longrightarrow>
               psSwitch (dmProjects d (the (map_of (dmStates d) n))) \<noteq> Some w) \<longrightarrow> sws w = dmSwitches d w)"
proof (induction ns arbitrary: d)
  case Nil
  show ?case by (intro exI [of _ "dmSwitches d"]) simp
next
  case (Cons n ns)
  obtain i where i: "map_of (dmStates d) n = Some i" using Cons.prems by auto
  let ?keep = "keepsRoute d cfg n i"
  let ?d = "if ?keep then suspendSwitch i d else d"
  obtain sw0 where sw0: "?d = d\<lparr>dmSwitches := sw0\<rparr>"
    "\<forall>w. (?keep \<longrightarrow> psSwitch (dmProjects d i) \<noteq> Some w) \<longrightarrow> sw0 w = dmSwitches d w"
  proof (cases "?keep \<and> psSwitch (dmProjects d i) \<noteq> None")
    case True
    then obtain w where "psSwitch (dmProjects d i) = Some w" by blast
    with True show ?thesis by (intro that [of "(dmSwitches d)(w := Waiting)"]) (auto simp: suspendSwitch_def)
  next
    case False
    then show ?thesis by (intro that [of "dmSwitches d"]) (auto simp: suspendSwitch_def split: option.splits)
  qed
  have k: "keepsRoute (d\<lparr>dmSwitches := sw0\<rparr>) cfg m j = keepsRoute d cfg m j" for m j
    by (simp add: keepsRoute_def)
  obtain sws where "takeChanged cfg ns (d\<lparr>dmSwitches := sw0\<rparr>) =
      Some (map (\<lambda>n. (the (map_of (dmStates d) n), keepsRoute d cfg n (the (map_of (dmStates d) n)))) ns,
            d\<lparr>dmSwitches := sws\<rparr>)"
    "\<forall>w. (\<forall>n \<in> set ns. keepsRoute d cfg n (the (map_of (dmStates d) n)) \<longrightarrow>
          psSwitch (dmProjects d (the (map_of (dmStates d) n))) \<noteq> Some w) \<longrightarrow> sws w = sw0 w"
    using Cons.IH [of "d\<lparr>dmSwitches := sw0\<rparr>"] Cons.prems by (auto simp: k)
  then show ?case using i sw0
    by (intro exI [of _ sws]) (auto simp: Let_def split: if_splits)
qed

lemma takeDynamic_fold:
  "\<forall>i \<in> set is. map_of (dmStates d) (nameOf d i) = Some i \<Longrightarrow> distinct is \<Longrightarrow>
     \<exists>tab. fold (takeDynamic changed) is (items, removed, d) =
         (items @ map (\<lambda>i. (i, False)) (filter (\<lambda>i. nameOf d i \<notin> set changed) is),
          removed @ map (nameOf d) (filter (\<lambda>i. nameOf d i \<notin> set changed) is), d\<lparr>dmStates := tab\<rparr>) \<and>
       map_of tab = (map_of (dmStates d)) |` (- (nameOf d ` {i \<in> set is. nameOf d i \<notin> set changed})) \<and>
       (distinct (map fst (dmStates d)) \<longrightarrow> distinct (map fst tab))"
proof (induction "is" arbitrary: items removed d)
  case Nil
  show ?case by (intro exI [of _ "dmStates d"]) simp
next
  case (Cons i "is")
  show ?case
  proof (cases "nameOf d i \<in> set changed")
    case True
    then have "takeDynamic changed i (items, removed, d) = (items, removed, d)"
      by (simp add: takeDynamic_def)
    moreover have "{j \<in> set (i # is). nameOf d j \<notin> set changed} = {j \<in> set is. nameOf d j \<notin> set changed}"
      using True by auto
    ultimately show ?thesis using Cons.IH [of d items removed] Cons.prems True by simp
  next
    case False
    let ?d = "d\<lparr>dmStates := mapDelete (nameOf d i) (dmStates d)\<rparr>"
    have i: "map_of (dmStates d) (nameOf d i) = Some i" using Cons.prems by simp
    have step: "takeDynamic changed i (items, removed, d) =
        (items @ [(i, False)], removed @ [nameOf d i], ?d)"
      using False i by (simp add: takeDynamic_def)
    have nm: "nameOf ?d = nameOf d" by (simp add: fun_eq_iff nameOf_def)
    have ne: "nameOf d j \<noteq> nameOf d i" if "j \<in> set is" for j
      using that Cons.prems i by (metis distinct.simps(2) list.set_intros(2) option.inject)
    have "\<forall>j \<in> set is. map_of (dmStates ?d) (nameOf ?d j) = Some j"
      using Cons.prems ne by (simp add: gomap_simps nm)
    from Cons.IH [OF this, of "items @ [(i, False)]" "removed @ [nameOf d i]"] Cons.prems(2)
    obtain tab where tab: "fold (takeDynamic changed) is (items @ [(i, False)], removed @ [nameOf d i], ?d) =
        (items @ [(i, False)] @ map (\<lambda>i. (i, False)) (filter (\<lambda>i. nameOf d i \<notin> set changed) is),
         removed @ [nameOf d i] @ map (nameOf d) (filter (\<lambda>i. nameOf d i \<notin> set changed) is), ?d\<lparr>dmStates := tab\<rparr>)"
      "map_of tab = (map_of (dmStates ?d)) |` (- (nameOf d ` {i \<in> set is. nameOf d i \<notin> set changed}))"
      "distinct (map fst (dmStates ?d)) \<longrightarrow> distinct (map fst tab)"
      by (auto simp: nm)
    have "map_of tab = (map_of (dmStates d)) |` (- (nameOf d ` {j \<in> set (i # is). nameOf d j \<notin> set changed}))"
      unfolding tab(2) using False by (auto simp: fun_eq_iff restrict_map_def gomap_simps)
    with tab show ?thesis using step False
      by (intro exI [of _ tab]) (auto simp: distinct_mapDelete)
  qed
qed

section \<open>Well-formed tables\<close>

text \<open>
  Each state is registered under its project's name, every registered state has a switch of its
  own, the numbers handed out are below the next one, and a state that has been retired is
  out of service: its supervisor is retired and holds no slot.
\<close>

definition outOfService :: "supervisor \<Rightarrow> bool" where
  "outOfService s \<longleftrightarrow> sRetired s \<and> mirrored s \<and> \<not> holdsSlotState (State s)"

definition wfTable :: "daemon \<Rightarrow> bool" where
  "wfTable d \<longleftrightarrow>
     distinct (map fst (dmStates d)) \<and>
     (\<forall>n i. map_of (dmStates d) n = Some i \<longrightarrow>
        nameOf d i = n \<and> i < dmNext d \<and>
        (\<exists>sw. psSwitch (dmProjects d i) = Some sw \<and> sw < dmNext d)) \<and>
     (\<forall>n m i j. map_of (dmStates d) n = Some i \<longrightarrow> map_of (dmStates d) m = Some j \<longrightarrow>
        psSwitch (dmProjects d i) = psSwitch (dmProjects d j) \<longrightarrow> n = m) \<and>
     (\<forall>i. mirrored (procOf d i)) \<and>
     (\<forall>i. psRetired (dmProjects d i) \<longrightarrow> outOfService (procOf d i))"

definition wfConfig :: "config \<Rightarrow> bool" where
  "wfConfig cfg \<longleftrightarrow>
     distinct (map fst (cProjects cfg)) \<and>
     (\<forall>n p. map_of (cProjects cfg) n = Some p \<longrightarrow> pName p = n)"

lemma in_ProjectNames: "n \<in> set (ProjectNames cfg) \<longleftrightarrow> map_of (cProjects cfg) n \<noteq> None"
  by (auto simp: ProjectNames_def map_of_eq_None_iff)

lemma distinct_ProjectNames: "wfConfig cfg \<Longrightarrow> distinct (ProjectNames cfg)"
  by (simp add: wfConfig_def ProjectNames_def)

lemma diff_sets:
  "n \<in> set (dfAdded (diffProjects d cfg)) \<longleftrightarrow>
     map_of (cProjects cfg) n \<noteq> None \<and> map_of (dmStates d) n = None"
  "n \<in> set (dfUnchanged (diffProjects d cfg)) \<longleftrightarrow>
     map_of (cProjects cfg) n \<noteq> None \<and> (\<exists>i. map_of (dmStates d) n = Some i \<and>
       \<not> psDynamic (dmProjects d i) \<and> projectEquivalent (psProject (dmProjects d i)) (projectOf cfg n))"
  "n \<in> set (dfChanged (diffProjects d cfg)) \<longleftrightarrow>
     map_of (cProjects cfg) n \<noteq> None \<and> (\<exists>i. map_of (dmStates d) n = Some i \<and>
       (psDynamic (dmProjects d i) \<or> \<not> projectEquivalent (psProject (dmProjects d i)) (projectOf cfg n)))"
  by (auto simp: diffProjects_def Let_def in_ProjectNames projectChange_def split: option.splits if_splits)

lemma diff_removed:
  "wfTable d \<Longrightarrow> n \<in> set (dfRemoved (diffProjects d cfg)) \<longleftrightarrow>
     map_of (cProjects cfg) n = None \<and> (\<exists>i. map_of (dmStates d) n = Some i \<and> \<not> psDynamic (dmProjects d i))"
  by (force simp: diffProjects_def wfTable_def Let_def image_iff)

lemma diff_distinct:
  "wfConfig cfg \<Longrightarrow> distinct (dfAdded (diffProjects d cfg))"
  "wfConfig cfg \<Longrightarrow> distinct (dfChanged (diffProjects d cfg))"
  "wfTable d \<Longrightarrow> distinct (dfRemoved (diffProjects d cfg))"
  by (simp_all add: diffProjects_def Let_def distinct_ProjectNames distinct_map_filter wfTable_def)

text \<open>The dynamic projects of the entries \<open>es\<close> that a reload drops.\<close>

definition dropsDynamic :: "string list \<Rightarrow> esId list \<Rightarrow> daemon \<Rightarrow> string \<Rightarrow> stId \<Rightarrow> bool" where
  "dropsDynamic changed es d n i \<longleftrightarrow>
     psDynamic (dmProjects d i) \<and> (\<exists>e \<in> set es. psEntry (dmProjects d i) = Some e) \<and> n \<notin> set changed"

definition keysOk :: "daemon \<Rightarrow> bool" where
  "keysOk d \<longleftrightarrow> distinct (map fst (dmStates d)) \<and> (\<forall>n i. map_of (dmStates d) n = Some i \<longrightarrow> nameOf d i = n)"

lemma wfTable_keysOk: "wfTable d \<Longrightarrow> keysOk d"
  by (simp add: wfTable_def keysOk_def)

lemma keysOk_sub:
  "keysOk d \<Longrightarrow> distinct (map fst tab) \<Longrightarrow> map_of tab = map_of (dmStates d) |` A \<Longrightarrow>
     keysOk (d\<lparr>dmStates := tab\<rparr>)"
  by (auto simp: keysOk_def nameOf_def restrict_map_def split: if_splits)

lemma set_dynamicStates:
  "keysOk d \<Longrightarrow> set (dynamicStatesLocked d e) =
     {i. \<exists>n. map_of (dmStates d) n = Some i \<and> psDynamic (dmProjects d i) \<and> psEntry (dmProjects d i) = Some e}"
  by (force simp: dynamicStatesLocked_def keysOk_def in_sortedStates)

lemma distinct_dynamicStates: "keysOk d \<Longrightarrow> distinct (dynamicStatesLocked d e)"
proof -
  assume k: "keysOk d"
  have "inj_on snd (set (dmStates d))"
  proof (rule inj_onI)
    fix p q assume "p \<in> set (dmStates d)" "q \<in> set (dmStates d)" "snd p = snd q"
    with k show "p = q" by (cases p; cases q) (simp add: keysOk_def, metis map_of_eq_Some_iff)
  qed
  then have "distinct (map snd (dmStates d))"
    using k by (auto simp: keysOk_def distinct_map)
  with k show ?thesis by (simp add: dynamicStatesLocked_def keysOk_def distinct_sortedStates)
qed

lemma takeEntry_ok:
  assumes "keysOk d"
  shows "\<exists>its tab. takeEntry changed e (items, removed, d) =
      (items @ its, removed @ map (nameOf d \<circ> fst) its, d\<lparr>dmStates := tab\<rparr>) \<and>
    (\<forall>j k. (j, k) \<in> set its \<longleftrightarrow> \<not> k \<and> (\<exists>n. map_of (dmStates d) n = Some j \<and> dropsDynamic changed [e] d n j)) \<and>
    map_of tab = map_of (dmStates d) |` {n. \<forall>j. map_of (dmStates d) n = Some j \<longrightarrow> \<not> dropsDynamic changed [e] d n j} \<and>
    distinct (map fst tab)"
proof -
  let ?is = "dynamicStatesLocked d e"
  have nm: "map_of (dmStates d) (nameOf d i) = Some i" if "i \<in> set ?is" for i
    using that assms by (auto simp: set_dynamicStates keysOk_def)
  from takeDynamic_fold [of ?is d changed items removed] nm distinct_dynamicStates [OF assms]
  obtain tab where tab: "fold (takeDynamic changed) ?is (items, removed, d) =
        (items @ map (\<lambda>i. (i, False)) (filter (\<lambda>i. nameOf d i \<notin> set changed) ?is),
         removed @ map (nameOf d) (filter (\<lambda>i. nameOf d i \<notin> set changed) ?is), d\<lparr>dmStates := tab\<rparr>)"
      "map_of tab = (map_of (dmStates d)) |` (- (nameOf d ` {i \<in> set ?is. nameOf d i \<notin> set changed}))"
      "distinct (map fst tab)"
    using assms by (auto simp: keysOk_def)
  have mem: "(\<exists>n. map_of (dmStates d) n = Some j \<and> dropsDynamic changed [e] d n j) \<longleftrightarrow>
      j \<in> set ?is \<and> nameOf d j \<notin> set changed" for j
    using assms by (auto simp: set_dynamicStates dropsDynamic_def keysOk_def)
  have "- (nameOf d ` {i \<in> set ?is. nameOf d i \<notin> set changed}) =
      {n. \<forall>j. map_of (dmStates d) n = Some j \<longrightarrow> \<not> dropsDynamic changed [e] d n j}" (is "?l = ?r")
  proof
    show "?l \<subseteq> ?r" using mem assms by (fastforce simp: keysOk_def)
    show "?r \<subseteq> ?l"
    proof
      fix n assume "n \<in> ?r"
      then have "n \<noteq> nameOf d i" if "i \<in> set ?is" "nameOf d i \<notin> set changed" for i
        using that nm [OF that(1)] assms
        by (auto simp: dropsDynamic_def set_dynamicStates)
      then show "n \<in> ?l" by auto
    qed
  qed
  with tab mem show ?thesis
    by (intro exI [of _ "map (\<lambda>i. (i, False)) (filter (\<lambda>i. nameOf d i \<notin> set changed) ?is)"] exI [of _ tab])
      (auto simp: takeEntry_def)
qed

lemma takeEntries_ok:
  "keysOk d \<Longrightarrow> \<exists>its tab. fold (takeEntry changed) es (items, removed, d) =
      (items @ its, removed @ map (nameOf d \<circ> fst) its, d\<lparr>dmStates := tab\<rparr>) \<and>
    (\<forall>j k. (j, k) \<in> set its \<longleftrightarrow> \<not> k \<and> (\<exists>n. map_of (dmStates d) n = Some j \<and> dropsDynamic changed es d n j)) \<and>
    map_of tab = map_of (dmStates d) |` {n. \<forall>j. map_of (dmStates d) n = Some j \<longrightarrow> \<not> dropsDynamic changed es d n j} \<and>
    distinct (map fst tab)"
proof (induction es arbitrary: items removed d)
  case Nil
  then show ?case
    by (intro exI [of _ "[]"] exI [of _ "dmStates d"])
      (auto simp: dropsDynamic_def keysOk_def restrict_map_def fun_eq_iff)
next
  case (Cons e es)
  obtain its tab where one: "takeEntry changed e (items, removed, d) =
      (items @ its, removed @ map (nameOf d \<circ> fst) its, d\<lparr>dmStates := tab\<rparr>)"
    "\<forall>j k. (j, k) \<in> set its \<longleftrightarrow> \<not> k \<and> (\<exists>n. map_of (dmStates d) n = Some j \<and> dropsDynamic changed [e] d n j)"
    "map_of tab = map_of (dmStates d) |` {n. \<forall>j. map_of (dmStates d) n = Some j \<longrightarrow> \<not> dropsDynamic changed [e] d n j}"
    "distinct (map fst tab)"
    using takeEntry_ok [OF Cons.prems, of changed e items removed] by blast
  let ?d = "d\<lparr>dmStates := tab\<rparr>"
  have same: "nameOf ?d = nameOf d" "dropsDynamic changed es' ?d = dropsDynamic changed es' d" for es'
    by (auto simp: fun_eq_iff nameOf_def dropsDynamic_def)
  have app: "dropsDynamic changed (e # es) d n j \<longleftrightarrow> dropsDynamic changed [e] d n j \<or> dropsDynamic changed es d n j" for n j
    by (auto simp: dropsDynamic_def)
  obtain its' tab' where rest: "fold (takeEntry changed) es (items @ its, removed @ map (nameOf d \<circ> fst) its, ?d) =
      ((items @ its) @ its', (removed @ map (nameOf d \<circ> fst) its) @ map (nameOf d \<circ> fst) its', ?d\<lparr>dmStates := tab'\<rparr>)"
    "\<forall>j k. (j, k) \<in> set its' \<longleftrightarrow> \<not> k \<and> (\<exists>n. map_of tab n = Some j \<and> dropsDynamic changed es d n j)"
    "map_of tab' = map_of tab |` {n. \<forall>j. map_of tab n = Some j \<longrightarrow> \<not> dropsDynamic changed es d n j}"
    "distinct (map fst tab')"
    using Cons.IH [OF keysOk_sub [OF Cons.prems one(4,3)], of "items @ its" "removed @ map (nameOf d \<circ> fst) its"]
    unfolding same by auto
  have "map_of tab' = map_of (dmStates d) |`
      {n. \<forall>j. map_of (dmStates d) n = Some j \<longrightarrow> \<not> dropsDynamic changed (e # es) d n j}"
    unfolding rest(3) one(3) by (auto simp: restrict_map_def fun_eq_iff app)
  moreover have "(j, k) \<in> set (its @ its') \<longleftrightarrow> \<not> k \<and> (\<exists>n. map_of (dmStates d) n = Some j \<and>
      dropsDynamic changed (e # es) d n j)" for j k
    using one(2) rest(2) by (auto simp: one(3) restrict_map_def app split: if_splits)
  ultimately show ?case
    using one(1) rest(1,4) by (intro exI [of _ "its @ its'"] exI [of _ tab']) simp
qed

text \<open>The names a reload takes out of the table, and the states it retires (with their route kept).\<close>

definition goneEntries :: "daemon \<Rightarrow> config \<Rightarrow> esId list" where
  "goneEntries d cfg =
     (let ef = diffEntries d (wantedEntries cfg)
      in map (\<lambda>n. the (map_of (dmEntries d) n)) (dfRemoved ef @ dfChanged ef))"

definition leaves :: "daemon \<Rightarrow> config \<Rightarrow> string \<Rightarrow> stId \<Rightarrow> bool" where
  "leaves d cfg n i \<longleftrightarrow>
     n \<in> set (dfRemoved (diffProjects d cfg)) \<or>
     dropsDynamic (dfChanged (diffProjects d cfg)) (goneEntries d cfg) d n i"

lemma takeOut_ok:
  assumes wf: "wfTable d" and "wfConfig cfg"
  defines "df \<equiv> diffProjects d cfg" and "ef \<equiv> diffEntries d (wantedEntries cfg)"
  shows "\<exists>items removed tab sws.
     takeOut cfg df (dmEntries d) (dfRemoved ef @ dfChanged ef) d =
       Some (items, removed, d\<lparr>dmStates := tab, dmSwitches := sws\<rparr>) \<and>
     (\<forall>j k. (j, k) \<in> set items \<longleftrightarrow>
        (\<exists>n. map_of (dmStates d) n = Some j \<and>
           (if n \<in> set (dfChanged df) then k = keepsRoute d cfg n j else leaves d cfg n j \<and> \<not> k))) \<and>
     map_of tab = map_of (dmStates d) |` {n. \<forall>j. map_of (dmStates d) n = Some j \<longrightarrow> \<not> leaves d cfg n j} \<and>
     (\<forall>w. (\<forall>n j. n \<in> set (dfChanged df) \<longrightarrow> map_of (dmStates d) n = Some j \<longrightarrow>
            psSwitch (dmProjects d j) \<noteq> Some w) \<longrightarrow> sws w = dmSwitches d w)"
proof -
  have dist: "distinct (dfRemoved df)" using wf by (simp add: df_def diff_distinct)
  have r: "\<forall>n \<in> set (dfRemoved df). map_of (dmStates d) n \<noteq> None"
    using wf by (auto simp: df_def diff_removed)
  obtain t1 where t1: "takeRemoved (dfRemoved df) d =
      Some (map (\<lambda>n. (the (map_of (dmStates d) n), False)) (dfRemoved df), d\<lparr>dmStates := t1\<rparr>)"
    "map_of t1 = map_of (dmStates d) |` (- set (dfRemoved df))" "distinct (map fst t1)"
    using takeRemoved_ok [OF dist r] wf by (auto simp: wfTable_def)
  let ?d1 = "d\<lparr>dmStates := t1\<rparr>"
  have disj: "n \<notin> set (dfRemoved df)" if "n \<in> set (dfChanged df)" for n
    using that wf by (auto simp: df_def diff_removed diff_sets)
  then have c: "map_of t1 n = map_of (dmStates d) n" if "n \<in> set (dfChanged df)" for n
    using that by (simp add: t1(2))
  have ch: "map_of (dmStates d) n \<noteq> None" if "n \<in> set (dfChanged df)" for n
    using that by (auto simp: df_def diff_sets)
  obtain sws where sws: "takeChanged cfg (dfChanged df) ?d1 =
      Some (map (\<lambda>n. (the (map_of t1 n), keepsRoute ?d1 cfg n (the (map_of t1 n)))) (dfChanged df),
            ?d1\<lparr>dmSwitches := sws\<rparr>)"
    "\<forall>w. (\<forall>n \<in> set (dfChanged df). keepsRoute ?d1 cfg n (the (map_of t1 n)) \<longrightarrow>
          psSwitch (dmProjects d (the (map_of t1 n))) \<noteq> Some w) \<longrightarrow> sws w = dmSwitches d w"
    using takeChanged_ok [of "dfChanged df" ?d1 cfg] c ch by auto
  let ?d2 = "?d1\<lparr>dmSwitches := sws\<rparr>"
  let ?r1 = "map (\<lambda>n. (the (map_of (dmStates d) n), False)) (dfRemoved df)"
  let ?r2 = "map (\<lambda>n. (the (map_of t1 n), keepsRoute ?d1 cfg n (the (map_of t1 n)))) (dfChanged df)"
  have k1: "keysOk ?d1" using keysOk_sub [OF wfTable_keysOk [OF wf] t1(3,2)] .
  then have k2: "keysOk ?d2" by (simp add: keysOk_def nameOf_def)
  have same: "dropsDynamic ch es ?d2 = dropsDynamic ch es d" for ch es
    by (simp add: fun_eq_iff dropsDynamic_def)
  obtain its tab where its: "fold (takeEntry (dfChanged df)) (goneEntries d cfg) (?r1 @ ?r2, dfRemoved df, ?d2) =
      ((?r1 @ ?r2) @ its, dfRemoved df @ map (nameOf ?d2 \<circ> fst) its, ?d2\<lparr>dmStates := tab\<rparr>)"
    "\<forall>j k. (j, k) \<in> set its \<longleftrightarrow> \<not> k \<and> (\<exists>n. map_of t1 n = Some j \<and>
        dropsDynamic (dfChanged df) (goneEntries d cfg) d n j)"
    "map_of tab = map_of t1 |` {n. \<forall>j. map_of t1 n = Some j \<longrightarrow>
        \<not> dropsDynamic (dfChanged df) (goneEntries d cfg) d n j}"
    using takeEntries_ok [OF k2, of "dfChanged df" "goneEntries d cfg" "?r1 @ ?r2" "dfRemoved df"]
    unfolding same by auto
  have out: "takeOut cfg df (dmEntries d) (dfRemoved ef @ dfChanged ef) d =
      Some ((?r1 @ ?r2) @ its, dfRemoved df @ map (nameOf ?d2 \<circ> fst) its, d\<lparr>dmStates := tab, dmSwitches := sws\<rparr>)"
    using its(1) unfolding goneEntries_def Let_def ef_def [symmetric] fold_map o_def
    by (simp add: takeOut_def t1(1) sws(1))
  have keep: "keepsRoute ?d1 = keepsRoute d" by (simp add: fun_eq_iff keepsRoute_def)
  have items: "(j, k) \<in> set ((?r1 @ ?r2) @ its) \<longleftrightarrow>
      (\<exists>n. map_of (dmStates d) n = Some j \<and>
         (if n \<in> set (dfChanged df) then k = keepsRoute d cfg n j else leaves d cfg n j \<and> \<not> k))" for j k
  proof -
    have 1: "(j, k) \<in> set ?r1 \<longleftrightarrow> \<not> k \<and> (\<exists>n. map_of (dmStates d) n = Some j \<and> n \<in> set (dfRemoved df))"
      using r by (force simp: image_iff)
    have 2: "(j, k) \<in> set ?r2 \<longleftrightarrow> (\<exists>n. map_of (dmStates d) n = Some j \<and> n \<in> set (dfChanged df) \<and>
        k = keepsRoute d cfg n j)"
      using c ch unfolding keep by (force simp: image_iff)
    have 3: "(j, k) \<in> set its \<longleftrightarrow> \<not> k \<and> (\<exists>n. map_of (dmStates d) n = Some j \<and> n \<notin> set (dfRemoved df) \<and>
        dropsDynamic (dfChanged df) (goneEntries d cfg) d n j)"
      unfolding its(2) [rule_format] t1(2) by (auto simp: restrict_map_def)
    have d: "dropsDynamic (dfChanged df) (goneEntries d cfg) d n j \<Longrightarrow> n \<notin> set (dfChanged df)" for n
      by (simp add: dropsDynamic_def)
    have "(j, k) \<in> set ((?r1 @ ?r2) @ its) \<longleftrightarrow> (\<exists>n. map_of (dmStates d) n = Some j \<and>
        ((n \<in> set (dfRemoved df) \<and> \<not> k) \<or> (n \<in> set (dfChanged df) \<and> k = keepsRoute d cfg n j) \<or>
         (n \<notin> set (dfRemoved df) \<and> dropsDynamic (dfChanged df) (goneEntries d cfg) d n j \<and> \<not> k)))"
      unfolding set_append Un_iff 1 2 3 by blast
    also have "\<dots> \<longleftrightarrow> (\<exists>n. map_of (dmStates d) n = Some j \<and>
        (if n \<in> set (dfChanged df) then k = keepsRoute d cfg n j else leaves d cfg n j \<and> \<not> k))"
      using disj d unfolding leaves_def df_def [symmetric] by (intro arg_cong [where f = Ex] ext) auto
    finally show ?thesis .
  qed
  have tab: "map_of tab = map_of (dmStates d) |` {n. \<forall>j. map_of (dmStates d) n = Some j \<longrightarrow> \<not> leaves d cfg n j}"
    unfolding its(3) t1(2) by (auto simp: fun_eq_iff restrict_map_def leaves_def df_def [symmetric])
  have sw: "\<forall>w. (\<forall>n j. n \<in> set (dfChanged df) \<longrightarrow> map_of (dmStates d) n = Some j \<longrightarrow>
      psSwitch (dmProjects d j) \<noteq> Some w) \<longrightarrow> sws w = dmSwitches d w"
    using sws(2) c ch by fastforce
  show ?thesis using out items tab sw by blast
qed

section \<open>Folding over names\<close>

text \<open>
  The contract of the loops that rebuild: one round changes the table at its own name only, no
  record and no switch made before it except the switches \<open>sw n\<close> it takes over, and only adds
  errors. \<open>ok\<close> is what a round may rely on; every round keeps it.
\<close>

locale table_fold =
  fixes step :: "string \<Rightarrow> reloadError list \<times> daemon \<Rightarrow> reloadError list \<times> daemon"
    and ok :: "daemon \<Rightarrow> bool"
    and names :: "string set"
    and sw :: "string \<Rightarrow> switchId set"
  assumes step_ok: "ok d \<Longrightarrow> n \<in> names \<Longrightarrow> ok (snd (step n (errs, d)))"
    and step_touches: "ok d \<Longrightarrow> n \<in> names \<Longrightarrow>
      touches {j. dmNext d \<le> j} ({w. dmNext d \<le> w} \<union> sw n) d (snd (step n (errs, d)))"
    and step_states: "ok d \<Longrightarrow> n \<in> names \<Longrightarrow> m \<noteq> n \<Longrightarrow>
      map_of (dmStates (snd (step n (errs, d)))) m = map_of (dmStates d) m"
    and step_errs: "ok d \<Longrightarrow> n \<in> names \<Longrightarrow> \<exists>es. fst (step n (errs, d)) = errs @ es"
begin

lemma fold_spec:
  "ok d \<Longrightarrow> set ns \<subseteq> names \<Longrightarrow>
     ok (snd (fold step ns (errs, d))) \<and>
     touches {j. dmNext d \<le> j} ({w. dmNext d \<le> w} \<union> \<Union> (sw ` set ns)) d (snd (fold step ns (errs, d))) \<and>
     (\<forall>m. m \<notin> set ns \<longrightarrow> map_of (dmStates (snd (fold step ns (errs, d)))) m = map_of (dmStates d) m) \<and>
     (\<exists>es. fst (fold step ns (errs, d)) = errs @ es)"
proof (induction ns arbitrary: errs d)
  case (Cons n ns)
  obtain errs1 d1 where s: "step n (errs, d) = (errs1, d1)" by fastforce
  have one: "ok d1" "touches {j. dmNext d \<le> j} ({w. dmNext d \<le> w} \<union> sw n) d d1"
    "\<forall>m. m \<noteq> n \<longrightarrow> map_of (dmStates d1) m = map_of (dmStates d) m" "\<exists>es. errs1 = errs @ es"
    using step_ok [of d n errs] step_touches [of d n errs] step_states [of d n _ errs]
      step_errs [of d n errs] Cons.prems s by auto
  let ?r = "fold step ns (errs1, d1)"
  have rest: "ok (snd ?r)"
    "touches {j. dmNext d1 \<le> j} ({w. dmNext d1 \<le> w} \<union> \<Union> (sw ` set ns)) d1 (snd ?r)"
    "\<forall>m. m \<notin> set ns \<longrightarrow> map_of (dmStates (snd ?r)) m = map_of (dmStates d1) m"
    "\<exists>es. fst ?r = errs1 @ es"
    using Cons.IH [OF one(1), of errs1] Cons.prems by auto
  have le: "dmNext d \<le> dmNext d1" using one(2) by (simp add: touches_def)
  let ?ws = "{w. dmNext d \<le> w} \<union> \<Union> (sw ` set (n # ns))"
  have "touches {j. dmNext d \<le> j} ?ws d (snd ?r)"
  proof (rule touches_seq [of _ _ d d1])
    show "touches {j. dmNext d \<le> j} ?ws d d1" by (rule touches_mono [OF one(2)]) auto
    show "touches {j. dmNext d \<le> j} ?ws d1 (snd ?r)"
      by (rule touches_mono [OF rest(2)]) (use le in auto)
  qed
  with one rest s show ?case by auto
qed simp

text \<open>What a round establishes about the table lasts, if nobody takes over its switch.\<close>

lemma fold_at:
  assumes "ok d" and "set ns \<subseteq> names" and "distinct ns" and "n \<in> set ns"
  obtains errs1 d1 where "ok d1" and "touches {j. dmNext d \<le> j} ({w. dmNext d \<le> w} \<union> \<Union> (sw ` (set ns - {n}))) d d1"
    and "map_of (dmStates d1) n = map_of (dmStates d) n" and "\<exists>es. errs1 = errs @ es"
    and "\<exists>es. fst (fold step ns (errs, d)) = fst (step n (errs1, d1)) @ es"
    and "touches {j. dmNext (snd (step n (errs1, d1))) \<le> j}
      ({w. dmNext (snd (step n (errs1, d1))) \<le> w} \<union> \<Union> (sw ` (set ns - {n})))
      (snd (step n (errs1, d1))) (snd (fold step ns (errs, d)))"
    and "map_of (dmStates (snd (fold step ns (errs, d)))) n = map_of (dmStates (snd (step n (errs1, d1)))) n"
proof -
  obtain pre post where ns: "ns = pre @ n # post" using assms(4) by (meson split_list)
  obtain errs1 d1 where s: "fold step pre (errs, d) = (errs1, d1)" by fastforce
  have pre: "set pre \<subseteq> names" "set pre \<subseteq> set ns - {n}" "n \<notin> set pre"
    and post: "set post \<subseteq> names" "set post \<subseteq> set ns - {n}" "n \<notin> set post" and n: "n \<in> names"
    using assms(2,3) ns by auto
  note a = fold_spec [OF assms(1) pre(1), of errs, unfolded s fst_conv snd_conv]
  obtain errs2 d2 where s2: "step n (errs1, d1) = (errs2, d2)" by fastforce
  have ok2: "ok d2" using step_ok [of d1 n errs1] a n s2 by simp
  note b = fold_spec [OF ok2 post(1), of errs2]
  have all: "fold step ns (errs, d) = fold step post (errs2, d2)" by (simp add: ns s s2)
  have t1: "touches {j. dmNext d \<le> j} ({w. dmNext d \<le> w} \<union> \<Union> (sw ` (set ns - {n}))) d d1"
    using a pre(2) by (blast intro: touches_mono)
  have t2: "touches {j. dmNext d2 \<le> j} ({w. dmNext d2 \<le> w} \<union> \<Union> (sw ` (set ns - {n}))) d2
      (snd (fold step post (errs2, d2)))"
    using b post(2) by (blast intro: touches_mono)
  show ?thesis
    using that [of d1 errs1, unfolded all s2 fst_conv snd_conv] a b t1 t2 pre(3) post(3) by blast
qed

end

lemma newProjectState_facts:
  assumes "newProjectState p tr d = (i, d1)"
  shows "i = dmNext d" "dmNext d1 = dmNext d + 1" "nameOf d1 i = pName p" "dmStates d1 = dmStates d"
    "touches {j. dmNext d \<le> j} {} d d1" "j \<noteq> i \<Longrightarrow> dmProjects d1 j = dmProjects d j"
  using assms by (auto simp: newProjectState_def setProject_def nameOf_def touches_def)

lemma build_fresh:
  assumes "newProjectState p tr d = (i, d1)" and "commission net i None d1 = (e, d2)"
  shows "touches {j. dmNext d \<le> j} {w. dmNext d \<le> w} d d2"
    and "dmStates d2 = (if e = None then mapPut (pName p) i (dmStates d) else dmStates d)"
    and "e = None \<Longrightarrow> inService d2 i p tr (dmNext d1)"
proof -
  note n = newProjectState_facts [OF assms(1)]
  have c: "touches {i} {dmNext d1} d1 d2"
    using touches_commission_fresh [of i d1 net] n(1,2) assms(2) by simp
  show "touches {j. dmNext d \<le> j} {w. dmNext d \<le> w} d d2"
  proof (rule touches_seq)
    show "touches {j. dmNext d \<le> j} {w. dmNext d \<le> w} d d1" by (rule touches_mono [OF n(5)]) auto
    show "touches {j. dmNext d \<le> j} {w. dmNext d \<le> w} d1 d2" by (rule touches_mono [OF c]) (auto simp: n(1,2))
  qed
  show "dmStates d2 = (if e = None then mapPut (pName p) i (dmStates d) else dmStates d)"
    using commission_states [of net i None d1] assms(2) n(3,4) by simp
  show "e = None \<Longrightarrow> inService d2 i p tr (dmNext d1)"
    using commission_fresh_inService [OF assms(1)] assms(2) by blast
qed

lemma build_inherited:
  assumes "newProjectState p tr d = (i, d1)" and "commission net i (Some old) d1 = (e, d2)"
    and "old < dmNext d"
  shows "e = None"
    and "touches {j. dmNext d \<le> j} (set_option (psSwitch (dmProjects d old))) d d2"
    and "dmStates d2 = mapPut (pName p) i (dmStates d)"
    and "psSwitch (dmProjects d old) = Some w \<Longrightarrow> w < dmNext d \<Longrightarrow> inService d2 i p tr w"
proof -
  note n = newProjectState_facts [OF assms(1)]
  have old: "old \<noteq> i" "dmProjects d1 old = dmProjects d old" using n(1,6) assms(3) by auto
  show e: "e = None" using assms(2) commission_inherited_ok [of net i old d1] by (metis fst_conv)
  have c: "touches {i} (set_option (psSwitch (dmProjects d old))) d1 d2"
    using touches_commission_inherited [of i d1 old net] assms(2) old by simp
  show "touches {j. dmNext d \<le> j} (set_option (psSwitch (dmProjects d old))) d d2"
  proof (rule touches_seq)
    show "touches {j. dmNext d \<le> j} (set_option (psSwitch (dmProjects d old))) d d1"
      by (rule touches_mono [OF n(5)]) auto
    show "touches {j. dmNext d \<le> j} (set_option (psSwitch (dmProjects d old))) d1 d2"
      by (rule touches_mono [OF c]) (auto simp: n(1))
  qed
  show "dmStates d2 = mapPut (pName p) i (dmStates d)"
    using commission_states [of net i "Some old" d1] assms(2) e n(3,4) by simp
  show "psSwitch (dmProjects d old) = Some w \<Longrightarrow> w < dmNext d \<Longrightarrow> inService d2 i p tr w"
    using commission_inherited_inService [OF assms(1)] assms(2) e old by blast
qed

section \<open>The rebuilding loops\<close>

lemma added_round:
  "touches {j. dmNext d \<le> j} {w. dmNext d \<le> w} d (snd (rebuildAdded net cfg n (errs, d)))"
  "pName (projectOf cfg n) = n \<Longrightarrow> m \<noteq> n \<Longrightarrow>
     map_of (dmStates (snd (rebuildAdded net cfg n (errs, d)))) m = map_of (dmStates d) m"
  "\<exists>es. fst (rebuildAdded net cfg n (errs, d)) = errs @ es"
  "fst (rebuildAdded net cfg n (errs, d)) = errs \<Longrightarrow> pName (projectOf cfg n) = n \<Longrightarrow>
     \<exists>i tr w. map_of (dmStates (snd (rebuildAdded net cfg n (errs, d)))) n = Some i \<and>
       inService (snd (rebuildAdded net cfg n (errs, d))) i (projectOf cfg n) tr w \<and>
       dmNext d \<le> i \<and> dmNext d \<le> w"
proof -
  obtain tr d1 where t: "newTrackerObj d = (tr, d1)" by fastforce
  obtain i d2 where p: "newProjectState (projectOf cfg n) tr d1 = (i, d2)" by fastforce
  obtain e d3 where c: "commission net i None d2 = (e, d3)" by fastforce
  have d1: "dmStates d1 = dmStates d" "dmNext d \<le> dmNext d1" "touches {} {} d d1"
    using t touches_new(1) [of d] by (auto simp: newTrackerObj_def)
  have r: "rebuildAdded net cfg n (errs, d) = (case e of None \<Rightarrow> (errs, d3) | Some x \<Rightarrow> (errs @ [ProjectError n x], d3))"
    using t p c by (simp add: rebuildAdded_def Let_def split: option.splits)
  then have sn: "snd (rebuildAdded net cfg n (errs, d)) = d3" by (simp split: option.splits)
  note b = build_fresh [OF p c]
  show "touches {j. dmNext d \<le> j} {w. dmNext d \<le> w} d (snd (rebuildAdded net cfg n (errs, d)))"
    unfolding sn
  proof (rule touches_seq)
    show "touches {j. dmNext d \<le> j} {w. dmNext d \<le> w} d d1" by (rule touches_mono [OF d1(3)]) auto
    show "touches {j. dmNext d \<le> j} {w. dmNext d \<le> w} d1 d3"
      by (rule touches_mono [OF b(1)]) (use d1(2) in auto)
  qed
  show "map_of (dmStates (snd (rebuildAdded net cfg n (errs, d)))) m = map_of (dmStates d) m"
    if "pName (projectOf cfg n) = n" "m \<noteq> n"
    using that b(2) d1(1) by (simp add: sn gomap_simps)
  show "\<exists>es. fst (rebuildAdded net cfg n (errs, d)) = errs @ es" by (simp add: r split: option.splits)
  show "\<exists>i tr w. map_of (dmStates (snd (rebuildAdded net cfg n (errs, d)))) n = Some i \<and>
       inService (snd (rebuildAdded net cfg n (errs, d))) i (projectOf cfg n) tr w \<and>
       dmNext d \<le> i \<and> dmNext d \<le> w"
    if "fst (rebuildAdded net cfg n (errs, d)) = errs" "pName (projectOf cfg n) = n"
  proof -
    have "e = None" using that(1) by (simp add: r split: option.splits)
    with b newProjectState_facts(1,2) [OF p] d1 that(2) show ?thesis
      unfolding sn by (intro exI [of _ i] exI [of _ tr] exI [of _ "dmNext d2"]) (simp add: gomap_simps)
  qed
qed

interpretation added: table_fold "rebuildAdded net cfg" "\<lambda>_. True" "{n. pName (projectOf cfg n) = n}" "\<lambda>_. {}"
  for net cfg
  by unfold_locales (use added_round in auto)

lemma entry_round:
  "touches {j. dmNext d \<le> j} {w. dmNext d \<le> w} d (snd (rebuildEntry net wanted n (errs, d)))"
  "dmStates (snd (rebuildEntry net wanted n (errs, d))) = dmStates d"
  "\<exists>es. fst (rebuildEntry net wanted n (errs, d)) = errs @ es"
proof -
  obtain e d1 where t: "newEntryState (the (map_of wanted n)) d = (e, d1)" by fastforce
  have d1: "touches {} {} d d1" "dmStates d1 = dmStates d"
    using t touches_new(3) [of d "the (map_of wanted n)"] by (auto simp: newEntryState_def)
  have sn: "snd (rebuildEntry net wanted n (errs, d)) = snd (bindEntry net e d1)"
    by (simp add: rebuildEntry_def t split: prod.splits option.splits)
  show "touches {j. dmNext d \<le> j} {w. dmNext d \<le> w} d (snd (rebuildEntry net wanted n (errs, d)))"
    unfolding sn by (rule touches_mono [OF touches_seq [OF d1(1) touches_entries(1)]]) auto
  show "dmStates (snd (rebuildEntry net wanted n (errs, d))) = dmStates d"
    unfolding sn by (simp add: d1(2))
  show "\<exists>es. fst (rebuildEntry net wanted n (errs, d)) = errs @ es"
    by (simp add: rebuildEntry_def t split: prod.splits option.splits)
qed

interpretation entries: table_fold "rebuildEntry net wanted" "\<lambda>_. True" UNIV "\<lambda>_. {}" for net wanted
  by unfold_locales (use entry_round in auto)

text \<open>The predecessors are still there, as far as their configuration, tracker and switch go.\<close>

definition oldOk :: "(string \<Rightarrow> stId option) \<Rightarrow> (stId \<Rightarrow> projectState) \<Rightarrow> daemon \<Rightarrow> bool" where
  "oldOk cur base d \<longleftrightarrow>
     (\<forall>n i. cur n = Some i \<longrightarrow>
        i < dmNext d \<and> psProject (dmProjects d i) = psProject (base i) \<and>
        psTracker (dmProjects d i) = psTracker (base i) \<and>
        psDynamic (dmProjects d i) = psDynamic (base i) \<and>
        psSwitch (dmProjects d i) = psSwitch (base i) \<and>
        (\<exists>w. psSwitch (base i) = Some w \<and> w < dmNext d))"

lemma oldOk_touches: "oldOk cur base d \<Longrightarrow> touches {j. dmNext d \<le> j} ws d e \<Longrightarrow> oldOk cur base e"
proof -
  assume a: "oldOk cur base d" "touches {j. dmNext d \<le> j} ws d e"
  have "dmProjects e i = dmProjects d i" if "cur n = Some i" for n i
    using a that unfolding touches_def oldOk_def by (metis mem_Collect_eq not_le)
  with a show ?thesis unfolding oldOk_def touches_def by (metis order_less_le_trans)
qed

definition changedNames :: "config \<Rightarrow> (string \<Rightarrow> stId option) \<Rightarrow> (stId \<Rightarrow> projectState) \<Rightarrow> string set" where
  "changedNames cfg cur base =
     {n. pName (projectOf cfg n) = n \<and> (\<exists>i. cur n = Some i \<and> pName (psProject (base i)) = n)}"

definition oldSwitch :: "(string \<Rightarrow> stId option) \<Rightarrow> (stId \<Rightarrow> projectState) \<Rightarrow> string \<Rightarrow> switchId set" where
  "oldSwitch cur base n = (case cur n of None \<Rightarrow> {} | Some i \<Rightarrow> set_option (psSwitch (base i)))"

lemma changed_round:
  assumes "oldOk cur base d" and "n \<in> changedNames cfg cur base" and "cur n = Some old"
    and "rebuildChanged net cfg cur n (errs, d) = (errs', d')"
  shows "touches {j. dmNext d \<le> j} ({w. dmNext d \<le> w} \<union> oldSwitch cur base n) d d'"
    and "m \<noteq> n \<Longrightarrow> map_of (dmStates d') m = map_of (dmStates d) m"
    and "(errs' = errs \<and> (\<exists>i w. map_of (dmStates d') n = Some i \<and>
           inService d' i (projectOf cfg n) (psTracker (base old)) w \<and>
           dmNext d \<le> i \<and> (dmNext d \<le> w \<or> psSwitch (base old) = Some w))) \<or>
         (\<exists>e. errs' = errs @ [KeptPrevious n e] \<and> (\<exists>i w. map_of (dmStates d') n = Some i \<and>
           inService d' i (psProject (base old)) (psTracker (base old)) w \<and>
           dmNext d \<le> i \<and> dmNext d \<le> w)) \<or>
         (\<exists>e e'. errs' = errs @ [KeptPrevious n e, RestoreFailed n e'] \<and> map_of (dmStates d') n = None)"
proof -
  obtain w0 where old: "old < dmNext d" "psProject (dmProjects d old) = psProject (base old)"
    "psTracker (dmProjects d old) = psTracker (base old)" "psSwitch (dmProjects d old) = Some w0"
    "psSwitch (base old) = Some w0" "w0 < dmNext d" "oldSwitch cur base n = {w0}"
    using assms(1,3) unfolding oldOk_def oldSwitch_def by (metis option.set(2) option.simps(5))
  have names: "pName (projectOf cfg n) = n" "pName (psProject (base old)) = n"
    using assms(2,3) by (auto simp: changedNames_def)
  let ?tr = "psTracker (base old)"
  obtain i d1 where p: "newProjectState (projectOf cfg n) ?tr d = (i, d1)" by fastforce
  note n1 = newProjectState_facts [OF p]
  have "touches {j. dmNext d \<le> j} ({w. dmNext d \<le> w} \<union> {w0}) d d' \<and>
    (m \<noteq> n \<longrightarrow> map_of (dmStates d') m = map_of (dmStates d) m) \<and>
    ((errs' = errs \<and> (\<exists>i w. map_of (dmStates d') n = Some i \<and> inService d' i (projectOf cfg n) ?tr w \<and>
        dmNext d \<le> i \<and> (dmNext d \<le> w \<or> w0 = w))) \<or>
     (\<exists>e. errs' = errs @ [KeptPrevious n e] \<and> (\<exists>i w. map_of (dmStates d') n = Some i \<and>
        inService d' i (psProject (base old)) ?tr w \<and> dmNext d \<le> i \<and> dmNext d \<le> w)) \<or>
     (\<exists>e e'. errs' = errs @ [KeptPrevious n e, RestoreFailed n e'] \<and> map_of (dmStates d') n = None))"
  proof (cases "keepsRoute d cfg n old")
    case True
    obtain e d2 where c: "commission net i (Some old) d1 = (e, d2)" by fastforce
    note b = build_inherited [OF p c old(1)]
    have "errs' = errs" "d' = d2"
      using assms(3,4) p c b(1) True by (simp_all add: rebuildChanged_def old(3))
    moreover have "touches {j. dmNext d \<le> j} ({w. dmNext d \<le> w} \<union> {w0}) d d2"
      by (rule touches_mono [OF b(2)]) (auto simp: old(4))
    ultimately show ?thesis
      using b(3) b(4) [OF old(4,6)] names(1) n1(1) by (auto simp: gomap_simps)
  next
    case False
    obtain e d2 where c: "commission net i None d1 = (e, d2)" by fastforce
    note b = build_fresh [OF p c]
    have t2: "touches {j. dmNext d \<le> j} ({w. dmNext d \<le> w} \<union> {w0}) d d2" by (rule touches_mono [OF b(1)]) auto
    have le2: "dmNext d \<le> dmNext d2" using b(1) by (simp add: touches_def)
    show ?thesis
    proof (cases e)
      case None
      have "errs' = errs" "d' = d2"
        using assms(3,4) p c None False by (simp_all add: rebuildChanged_def old(3))
      with t2 b(2,3) None names(1) n1(1,2) show ?thesis
        by (auto simp: gomap_simps intro!: exI [of _ "dmNext d1"])
    next
      case (Some x)
      have old2: "psProject (dmProjects d2 old) = psProject (base old)"
        using b(1) old(1,2) by (auto simp: touches_def)
      obtain j d3 where p2: "newProjectState (psProject (base old)) ?tr d2 = (j, d3)" by fastforce
      obtain e' d4 where c2: "commission net j None d3 = (e', d4)" by fastforce
      note b2 = build_fresh [OF p2 c2]
      note n2 = newProjectState_facts [OF p2]
      have t4: "touches {j. dmNext d \<le> j} ({w. dmNext d \<le> w} \<union> {w0}) d d4"
        by (rule touches_seq [OF t2 touches_mono [OF b2(1)]]) (use le2 in auto)
      have s2: "dmStates d2 = dmStates d" using b(2) Some by simp
      show ?thesis
      proof (cases e')
        case None
        have "errs' = errs @ [KeptPrevious n x]" "d' = d4"
          using assms(3,4) p c p2 c2 Some None False old2 by (simp_all add: rebuildChanged_def old(3))
        with t4 b2(2,3) None names(2) n2(1,2) le2 s2 show ?thesis
          by (auto simp: gomap_simps intro!: exI [of _ "dmNext d3"])
      next
        case (Some y)
        have "errs' = errs @ [KeptPrevious n x, RestoreFailed n y]" "d' = d4\<lparr>dmStates := mapDelete n (dmStates d4)\<rparr>"
          using assms(3,4) p c p2 c2 \<open>e = Some x\<close> Some False old2 by (simp_all add: rebuildChanged_def old(3))
        with t4 b2(2) Some s2 show ?thesis by (simp add: gomap_simps)
      qed
    qed
  qed
  then show "touches {j. dmNext d \<le> j} ({w. dmNext d \<le> w} \<union> oldSwitch cur base n) d d'"
    "m \<noteq> n \<Longrightarrow> map_of (dmStates d') m = map_of (dmStates d) m"
    "(errs' = errs \<and> (\<exists>i w. map_of (dmStates d') n = Some i \<and> inService d' i (projectOf cfg n) ?tr w \<and>
        dmNext d \<le> i \<and> (dmNext d \<le> w \<or> psSwitch (base old) = Some w))) \<or>
     (\<exists>e. errs' = errs @ [KeptPrevious n e] \<and> (\<exists>i w. map_of (dmStates d') n = Some i \<and>
        inService d' i (psProject (base old)) ?tr w \<and> dmNext d \<le> i \<and> dmNext d \<le> w)) \<or>
     (\<exists>e e'. errs' = errs @ [KeptPrevious n e, RestoreFailed n e'] \<and> map_of (dmStates d') n = None)"
    unfolding old(5,7) option.inject by blast+
qed

interpretation changed: table_fold "rebuildChanged net cfg cur" "oldOk cur base" "changedNames cfg cur base"
    "oldSwitch cur base" for net cfg cur base
proof unfold_locales
  fix d n m and errs :: "reloadError list"
  assume ok: "oldOk cur base d" and n: "n \<in> changedNames cfg cur base"
  obtain old where old: "cur n = Some old" using n by (auto simp: changedNames_def)
  obtain errs' d' where r: "rebuildChanged net cfg cur n (errs, d) = (errs', d')" by fastforce
  note c = changed_round [OF ok n old r]
  show "oldOk cur base (snd (rebuildChanged net cfg cur n (errs, d)))"
    using oldOk_touches [OF ok] c(1) r by auto
  show "touches {j. dmNext d \<le> j} ({w. dmNext d \<le> w} \<union> oldSwitch cur base n) d
      (snd (rebuildChanged net cfg cur n (errs, d)))"
    using c(1) r by simp
  show "map_of (dmStates (snd (rebuildChanged net cfg cur n (errs, d)))) m = map_of (dmStates d) m"
    if "m \<noteq> n" using c(2) that r by simp
  show "\<exists>es. fst (rebuildChanged net cfg cur n (errs, d)) = errs @ es" using c(3) r by auto
qed

section \<open>Retiring\<close>

text \<open>While a retirement waits, the supervisor takes steps of its own.\<close>

definition settles :: "(supervisor \<Rightarrow> supervisor) \<Rightarrow> bool" where
  "settles settle \<longleftrightarrow> (\<forall>s. supStep\<^sup>*\<^sup>* s (settle s))"

lemma outOfService_step: "supStep s t \<Longrightarrow> outOfService s \<Longrightarrow> outOfService t"
  by (induction rule: supStep.induct)
    (auto simp: outOfService_def holdsSlotState_def State_def mirrored_def sup_defs split: lifecycle.splits)

lemma outOfService_steps: "supStep\<^sup>*\<^sup>* s t \<Longrightarrow> outOfService s \<Longrightarrow> outOfService t"
  by (induction rule: rtranclp_induct) (auto intro: outOfService_step)

lemma retireProc_out:
  assumes "settles settle" and "mirrored (procOf d i)"
  shows "outOfService (procOf (retireProc settle i d) i)"
proof -
  have "mirrored (Retire (procOf d i))" using assms(2) by (simp add: mirrored_def Retire_def)
  moreover have "sRetired (snd (StopAsync (Retire (procOf d i))))"
    by (simp add: StopAsync_def Retire_def notifyWaitersLocked_def setStateLocked_def signalGroup_def
        Let_def split: lifecycle.splits)
  ultimately have "outOfService (snd (StopAsync (Retire (procOf d i))))"
    by (simp add: outOfService_def mirrored_StopAsync State_StopAsync)
  then show ?thesis
    using assms(1) outOfService_steps by (auto simp: retireProc_def settles_def)
qed

definition retiredOk :: "daemon \<Rightarrow> bool" where
  "retiredOk d \<longleftrightarrow>
     (\<forall>i. mirrored (procOf d i)) \<and> (\<forall>i. psRetired (dmProjects d i) \<longrightarrow> outOfService (procOf d i))"

lemma detach_record:
  "\<exists>b. dmProjects (detach i keep d) = (dmProjects d)(i := (dmProjects d i)\<lparr>psBind := b\<rparr>)"
proof -
  have "dmProjects (leaveBinding b p d) = dmProjects d" for b p
    using touches_leave(1) [of d b p] by (auto simp: touches_def)
  moreover have "dmProjects (suspendSwitch i d) = dmProjects d"
    by (simp add: suspendSwitch_def split: option.splits)
  moreover have "dmProjects d = (dmProjects d)(i := (dmProjects d i)\<lparr>psBind := psBind (dmProjects d i)\<rparr>)"
    by simp
  ultimately show ?thesis
    by (cases "psBind (dmProjects d i)") (auto simp: detach_def setProject_def Let_def)
qed

text \<open>A retirement keeps the configuration, the tracker, the switch and the origin of a state.\<close>

definition sameStatic :: "daemon \<Rightarrow> daemon \<Rightarrow> bool" where
  "sameStatic d e \<longleftrightarrow>
     (\<forall>j. psProject (dmProjects e j) = psProject (dmProjects d j) \<and>
        psTracker (dmProjects e j) = psTracker (dmProjects d j) \<and>
        psDynamic (dmProjects e j) = psDynamic (dmProjects d j) \<and>
        psSwitch (dmProjects e j) = psSwitch (dmProjects d j))"

lemma retire_one:
  assumes "settles settle" and "retiredOk d"
  shows "retiredOk (retire settle (i, keep) d)" and "psRetired (dmProjects (retire settle (i, keep) d) i)"
    and "sameStatic d (retire settle (i, keep) d)"
    and "psRetired (dmProjects d j) \<Longrightarrow> psRetired (dmProjects (retire settle (i, keep) d) j)"
proof -
  let ?r = "retire settle (i, keep) d"
  have "retiredOk ?r \<and> psRetired (dmProjects ?r i) \<and> sameStatic d ?r \<and>
    (\<forall>j. psRetired (dmProjects d j) \<longrightarrow> psRetired (dmProjects ?r j))"
  proof (cases "psRetired (dmProjects d i)")
    case True
    with assms(2) show ?thesis by (simp add: retire_def sameStatic_def)
  next
    case False
    define d2 where
      "d2 = detach i keep (setProject i ((dmProjects d i)\<lparr>psRetired := True, psActive := False\<rparr>) d)"
    obtain b where b: "dmProjects d2 =
        (dmProjects d)(i := (dmProjects d i)\<lparr>psRetired := True, psActive := False, psBind := b\<rparr>)"
      using detach_record [of i keep "setProject i ((dmProjects d i)\<lparr>psRetired := True, psActive := False\<rparr>) d"]
      by (auto simp: d2_def setProject_def)
    have r: "?r = retireProc settle i d2" using False by (simp add: retire_def d2_def)
    have p: "procOf d2 j = procOf d j" for j by (simp add: procOf_def b)
    have "outOfService (procOf ?r i)"
      unfolding r using retireProc_out [OF assms(1)] assms(2) by (simp add: retiredOk_def p)
    moreover have "procOf ?r j = procOf d j" if "j \<noteq> i" for j
      using that by (simp add: r retireProc_def p)
    moreover have "dmProjects ?r j = dmProjects d j" if "j \<noteq> i" for j
      using that by (simp add: r retireProc_def setProc_def setProject_def b)
    moreover have "psRetired (dmProjects ?r i)" "psProject (dmProjects ?r i) = psProject (dmProjects d i)"
      "psTracker (dmProjects ?r i) = psTracker (dmProjects d i)"
      "psDynamic (dmProjects ?r i) = psDynamic (dmProjects d i)"
      "psSwitch (dmProjects ?r i) = psSwitch (dmProjects d i)"
      by (simp_all add: r retireProc_def setProc_def setProject_def b)
    ultimately show ?thesis
      using assms(2) unfolding retiredOk_def sameStatic_def outOfService_def by metis
  qed
  then show "retiredOk ?r" "psRetired (dmProjects ?r i)" "sameStatic d ?r"
    "psRetired (dmProjects d j) \<Longrightarrow> psRetired (dmProjects ?r j)" by blast+
qed

lemma retireAll_spec:
  assumes "settles settle"
  shows "retiredOk d \<Longrightarrow> retiredOk (retireAll settle items d) \<and> sameStatic d (retireAll settle items d) \<and>
    (\<forall>j. psRetired (dmProjects d j) \<or> j \<in> fst ` set items \<longrightarrow>
       psRetired (dmProjects (retireAll settle items d) j))"
proof (induction items arbitrary: d)
  case Nil
  then show ?case by (simp add: retireAll_def sameStatic_def)
next
  case (Cons item items)
  obtain i k where item: "item = (i, k)" by (cases item)
  note one = retire_one [OF assms Cons.prems, where i = i and keep = k]
  have all: "retireAll settle (item # items) d = retireAll settle items (retire settle (i, k) d)"
    by (simp add: retireAll_def item)
  show ?case
    using Cons.IH [OF one(1)] one(2,3,4) unfolding all sameStatic_def
    by (auto simp: item)
qed

section \<open>The phases of a reload\<close>

lemma sameStatic_trans: "sameStatic d e \<Longrightarrow> sameStatic e f \<Longrightarrow> sameStatic d f"
  by (simp add: sameStatic_def)

lemma touches_none: "touches {} ws d e \<Longrightarrow> sameStatic d e \<and> procOf e = procOf d \<and> dmProjects e = dmProjects d"
  by (auto simp: touches_def sameStatic_def procOf_def fun_eq_iff)

lemma touches_unbinds: "touches {} {} d (fold (\<lambda>n. unbindEntry (f n)) ns d)"
  by (rule touches_fold) (rule touches_entries(2))

lemma states_unbinds [simp]: "dmStates (fold (\<lambda>n. unbindEntry (f n)) ns d) = dmStates d"
  by (rule states_fold) simp

lemma reload_phases:
  assumes wf: "wfTable d" "wfConfig cfg" and st: "settles settle"
  defines "df \<equiv> diffProjects d cfg" and "ef \<equiv> diffEntries d (wantedEntries cfg)"
  obtains errs d4 d5 removed where
    "ReloadWith net settle (\<lambda>x. x) now cfg d =
       (Applied \<lparr>rsDiff = df\<lparr>dfRemoved := sort removed\<rparr>,
          rsWildcards = (if wantedEntries cfg = [] \<and> dmEntries d = [] then None else Some ef), rsErrors = errs\<rparr>,
        d5\<lparr>dmLastReloadAt := now\<rparr>)"
    "rebuild net cfg df ef (dmStates d) d4 = (errs, d5)"
    "touches {j. \<exists>n. map_of (dmStates d) n = Some j \<and> (n \<in> set (dfChanged df) \<or> leaves d cfg n j)}
       {w. \<exists>n j. n \<in> set (dfChanged df) \<and> map_of (dmStates d) n = Some j \<and> psSwitch (dmProjects d j) = Some w}
       d d4"
    "map_of (dmStates d4) = map_of (dmStates d) |` {n. \<forall>j. map_of (dmStates d) n = Some j \<longrightarrow> \<not> leaves d cfg n j}"
    "sameStatic d d4"
    "\<And>n j. map_of (dmStates d) n = Some j \<Longrightarrow> n \<in> set (dfChanged df) \<or> leaves d cfg n j \<Longrightarrow>
       outOfService (procOf d4 j)"
proof -
  let ?J = "{j. \<exists>n. map_of (dmStates d) n = Some j \<and> (n \<in> set (dfChanged df) \<or> leaves d cfg n j)}"
  let ?W = "{w. \<exists>n j. n \<in> set (dfChanged df) \<and> map_of (dmStates d) n = Some j \<and> psSwitch (dmProjects d j) = Some w}"
  let ?gone = "dfRemoved ef @ dfChanged ef"
  obtain items removed tab sws where t: "takeOut cfg df (dmEntries d) ?gone d =
      Some (items, removed, d\<lparr>dmStates := tab, dmSwitches := sws\<rparr>)"
    "\<forall>j k. (j, k) \<in> set items \<longleftrightarrow> (\<exists>n. map_of (dmStates d) n = Some j \<and>
       (if n \<in> set (dfChanged df) then k = keepsRoute d cfg n j else leaves d cfg n j \<and> \<not> k))"
    "map_of tab = map_of (dmStates d) |` {n. \<forall>j. map_of (dmStates d) n = Some j \<longrightarrow> \<not> leaves d cfg n j}"
    "\<forall>w. (\<forall>n j. n \<in> set (dfChanged df) \<longrightarrow> map_of (dmStates d) n = Some j \<longrightarrow>
       psSwitch (dmProjects d j) \<noteq> Some w) \<longrightarrow> sws w = dmSwitches d w"
    using takeOut_ok [OF wf] unfolding df_def ef_def by blast
  define d1 where "d1 = d\<lparr>dmStates := tab, dmSwitches := sws\<rparr>"
  define kept where "kept = filter (\<lambda>(n, e). n \<in> set (dfUnchanged ef)) (dmEntries d)"
  define caps where "caps = List.map_filter (map_option (\<lambda>e. (dName e, dMaxRunning e))) (cDiscovery cfg)"
  define d2 where "d2 = applyBudget (cMaxRunning cfg) caps kept d1"
  define d3 where "d3 = retireAll settle items d2"
  define d4 where "d4 = fold (\<lambda>n. unbindEntry (the (map_of (dmEntries d) n))) ?gone d3"
  obtain errs d5 where r: "rebuild net cfg df ef (dmStates d) d4 = (errs, d5)" by fastforce
  have 1: "ReloadWith net settle (\<lambda>x. x) now cfg d =
       (Applied \<lparr>rsDiff = df\<lparr>dfRemoved := sort removed\<rparr>,
          rsWildcards = (if wantedEntries cfg = [] \<and> dmEntries d = [] then None else Some ef), rsErrors = errs\<rparr>,
        d5\<lparr>dmLastReloadAt := now\<rparr>)"
    using t(1) r unfolding d4_def d3_def d2_def caps_def kept_def d1_def
    by (simp add: ReloadWith_def Let_def df_def ef_def)
  have t1: "touches {} ?W d d1" using t(4) by (auto simp: touches_def d1_def)
  have t2: "touches {} ?W d1 d2" unfolding d2_def by (rule touches_mono [OF touches_applyBudget]) auto
  have t12: "touches {} ?W d d2" by (rule touches_seq [OF t1 t2])
  have p2: "dmProjects d2 = dmProjects d" "procOf d2 = procOf d" using touches_none [OF t12] by auto
  have item: "j \<in> ?J \<and> (k \<longrightarrow> set_option (psSwitch (dmProjects d2 j)) \<subseteq> ?W)" if jk: "(j, k) \<in> set items" for j k
  proof -
    obtain n where "map_of (dmStates d) n = Some j"
      "if n \<in> set (dfChanged df) then k = keepsRoute d cfg n j else leaves d cfg n j \<and> \<not> k"
      using t(2) jk by blast
    then show ?thesis by (auto simp: p2 split: if_splits)
  qed
  have "touches ?J ?W d2 d3"
    unfolding d3_def by (rule touches_retireAll) (use item in blast)
  then have t3: "touches ?J ?W d d3" using touches_seq [OF touches_mono [OF t12]] by blast
  have "touches ?J ?W d3 d4"
    unfolding d4_def by (rule touches_mono [OF touches_unbinds]) auto
  then have t4: "touches ?J ?W d d4" by (rule touches_seq [OF t3])
  have p4: "dmProjects d4 = dmProjects d3"
    unfolding d4_def by (rule touches_none [OF touches_unbinds, THEN conjunct2, THEN conjunct2])
  have "retiredOk d2" using wf(1) by (simp add: retiredOk_def wfTable_def p2)
  note ret = retireAll_spec [OF st this, of items, folded d3_def]
  have out: "outOfService (procOf d4 j)"
    if "map_of (dmStates d) n = Some j" "n \<in> set (dfChanged df) \<or> leaves d cfg n j" for n j
  proof -
    have "\<exists>k. (j, k) \<in> set items" using that t(2) by metis
    then have "psRetired (dmProjects d3 j)" using ret by force
    then show ?thesis using ret by (simp add: retiredOk_def procOf_def p4)
  qed
  have "sameStatic d d4" using ret by (simp add: sameStatic_def p2 p4)
  moreover have "map_of (dmStates d4) = map_of tab" by (simp add: d4_def d3_def d2_def d1_def)
  ultimately have 4: "map_of (dmStates d4) =
      map_of (dmStates d) |` {n. \<forall>j. map_of (dmStates d) n = Some j \<longrightarrow> \<not> leaves d cfg n j}" "sameStatic d d4"
    using t(3) by simp_all
  show ?thesis by (rule that [OF 1 r t4 4 out])
qed

text \<open>What becomes of a name the configuration adds, and of one it changes.\<close>

definition addedOutcome :: "config \<Rightarrow> reloadError list \<Rightarrow> stId \<Rightarrow> daemon \<Rightarrow> string \<Rightarrow> bool" where
  "addedOutcome cfg errs lo e n \<longleftrightarrow>
     (\<exists>i tr w. map_of (dmStates e) n = Some i \<and> inService e i (projectOf cfg n) tr w \<and> lo \<le> i) \<or>
     (\<exists>x. ProjectError n x \<in> set errs)"

definition changedOutcome ::
    "config \<Rightarrow> reloadError list \<Rightarrow> stId \<Rightarrow> daemon \<Rightarrow> string \<Rightarrow> projectState \<Rightarrow> bool" where
  "changedOutcome cfg errs lo e n old \<longleftrightarrow>
     (\<exists>i w. map_of (dmStates e) n = Some i \<and> lo \<le> i \<and>
        (inService e i (projectOf cfg n) (psTracker old) w \<or>
         (\<exists>x. KeptPrevious n x \<in> set errs) \<and> inService e i (psProject old) (psTracker old) w)) \<or>
     (\<exists>x. RestoreFailed n x \<in> set errs) \<and> map_of (dmStates e) n = None"

lemma wfTable_at:
  assumes "wfTable d" and "map_of (dmStates d) n = Some i"
  shows "pName (psProject (dmProjects d i)) = n" "i < dmNext d"
    "\<exists>w. psSwitch (dmProjects d i) = Some w \<and> w < dmNext d"
  using assms by (auto simp: wfTable_def nameOf_def)

lemma states_fold_entries:
  "fold (rebuildEntry net wanted) ns (errs, d) = (errs', d') \<Longrightarrow> dmStates d' = dmStates d"
proof (induction ns arbitrary: errs d)
  case (Cons n ns)
  obtain e1 d1 where r: "rebuildEntry net wanted n (errs, d) = (e1, d1)" by fastforce
  then have "dmStates d1 = dmStates d" using entry_round(2) [of net wanted n errs d] by simp
  with Cons r show ?case by simp
qed simp

lemma rebuild_spec:
  assumes wf: "wfTable d" "wfConfig cfg"
  defines "df \<equiv> diffProjects d cfg"
  assumes r: "rebuild net cfg df ef (dmStates d) d4 = (errs, d5)"
    and ok: "oldOk (map_of (dmStates d)) (dmProjects d) d4" and lo: "dmNext d \<le> dmNext d4"
  shows "touches {j. dmNext d4 \<le> j}
      ({w. dmNext d4 \<le> w} \<union> \<Union> (oldSwitch (map_of (dmStates d)) (dmProjects d) ` set (dfChanged df))) d4 d5"
    and "n \<notin> set (dfAdded df) \<Longrightarrow> n \<notin> set (dfChanged df) \<Longrightarrow> map_of (dmStates d5) n = map_of (dmStates d4) n"
    and "n \<in> set (dfAdded df) \<Longrightarrow> addedOutcome cfg errs (dmNext d4) d5 n"
    and "n \<in> set (dfChanged df) \<Longrightarrow> map_of (dmStates d) n = Some old \<Longrightarrow>
      changedOutcome cfg errs (dmNext d4) d5 n (dmProjects d old)"
proof -
  let ?cur = "map_of (dmStates d)" let ?base = "dmProjects d"
  let ?S = "\<lambda>ns. \<Union> (oldSwitch ?cur ?base ` ns)"
  have da_dist: "distinct (dfAdded df)" and dc_dist: "distinct (dfChanged df)"
    using diff_distinct(1,2) [OF wf(2)] by (simp_all add: df_def)
  obtain ea da where a: "fold (rebuildAdded net cfg) (dfAdded df) ([], d4) = (ea, da)" by fastforce
  obtain eb db where b: "fold (rebuildChanged net cfg ?cur) (dfChanged df) (ea, da) = (eb, db)" by fastforce
  have c: "fold (rebuildEntry net (wantedEntries cfg)) (dfAdded ef @ dfChanged ef) (eb, db) = (errs, d5)"
    using r by (simp add: rebuild_def a b)
  have nm: "pName (projectOf cfg m) = m" if "map_of (cProjects cfg) m \<noteq> None" for m
    using that wf(2) by (auto simp: wfConfig_def projectOf_def)
  have an: "set (dfAdded df) \<subseteq> {n. pName (projectOf cfg n) = n}"
    using nm by (auto simp: df_def diff_sets)
  have cn: "set (dfChanged df) \<subseteq> changedNames cfg ?cur ?base"
    using nm wfTable_at(1) [OF wf(1)] by (auto simp: df_def diff_sets changedNames_def simp del: map_of_eq_Some_iff)
  note fa = added.fold_spec [OF TrueI an, where net = net and errs = "[]" and d = d4, unfolded a fst_conv snd_conv]
  have oka: "oldOk ?cur ?base da" using fa by (blast intro: oldOk_touches [OF ok])
  note fb = changed.fold_spec [OF oka cn, where net = net and errs = ea, unfolded b fst_conv snd_conv]
  note fc = entries.fold_spec [OF TrueI subset_UNIV, where net = net and wanted = "wantedEntries cfg"
      and ns = "dfAdded ef @ dfChanged ef" and errs = eb and d = db, unfolded c fst_conv snd_conv]
  have le: "dmNext d4 \<le> dmNext da" "dmNext da \<le> dmNext db"
    using fa fb by (simp_all add: touches_def)
  let ?ws = "{w. dmNext d4 \<le> w} \<union> ?S (set (dfChanged df))"
  have ta: "touches {j. dmNext d4 \<le> j} ?ws d4 da" using fa by (blast intro: touches_mono)
  have tb: "touches {j. dmNext d4 \<le> j} ?ws da db"
    using fb le(1) by (intro touches_mono [of _ _ da db "{j. dmNext d4 \<le> j}" ?ws]) auto
  have tc: "touches {j. dmNext d4 \<le> j} ?ws db d5"
    using fc le by (intro touches_mono [of _ _ db d5 "{j. dmNext d4 \<le> j}" ?ws]) auto
  show "touches {j. dmNext d4 \<le> j} ?ws d4 d5" by (rule touches_seq [OF touches_seq [OF ta tb] tc])
  have sc: "map_of (dmStates d5) m = map_of (dmStates db) m" for m
    by (simp add: states_fold_entries [OF c])
  show "map_of (dmStates d5) n = map_of (dmStates d4) n"
    if "n \<notin> set (dfAdded df)" "n \<notin> set (dfChanged df)"
    using that fa fb sc by simp
  have bound: "oldSwitch ?cur ?base m \<subseteq> {w. w < dmNext d}" for m
    using wf(1) by (fastforce simp: oldSwitch_def wfTable_def split: option.splits)
  have sub_a: "set ea \<subseteq> set errs" and sub_b: "set eb \<subseteq> set errs" using fb fc by auto
  \<comment> \<open>a state in service after one phase is in service at the end\<close>
  have last_b: "inService d5 i p tr w" if "inService db i p tr w" for i p tr w
    using that fc by (intro inService_touches [OF that conjunct1 [OF conjunct2 [OF fc]]])
      (auto simp: inService_def)
  have last_a: "inService d5 i p tr w" if "inService da i p tr w" "dmNext d4 \<le> w" for i p tr w
  proof (rule last_b)
    show "inService db i p tr w"
    proof (rule inService_touches [OF that(1) conjunct1 [OF conjunct2 [OF fb]]])
      show "i \<notin> {j. dmNext da \<le> j}" using that(1) by (simp add: inService_def)
      show "w \<notin> {w. dmNext da \<le> w} \<union> ?S (set (dfChanged df))"
        using that bound lo by (fastforce simp: inService_def)
    qed
  qed
  show "addedOutcome cfg errs (dmNext d4) d5 n" if n: "n \<in> set (dfAdded df)"
  proof -
    have notc: "n \<notin> set (dfChanged df)" using n by (auto simp: df_def diff_sets)
    let ?r = "\<lambda>e1 d1. rebuildAdded net cfg n (e1, d1)"
    obtain e1 d1 where at: "touches {j. dmNext d4 \<le> j} {w. dmNext d4 \<le> w} d4 d1"
      "\<exists>es. ea = fst (?r e1 d1) @ es"
      "touches {j. dmNext (snd (?r e1 d1)) \<le> j} {w. dmNext (snd (?r e1 d1)) \<le> w} (snd (?r e1 d1)) da"
      "map_of (dmStates da) n = map_of (dmStates (snd (?r e1 d1))) n"
      by (rule added.fold_at [OF TrueI an da_dist n, where net = net and d = d4 and errs = "[]",
            unfolded a fst_conv snd_conv UN_empty2 Un_empty_right]) (rule that)
    show ?thesis
    proof (cases "fst (rebuildAdded net cfg n (e1, d1)) = e1")
      case True
      have pn: "pName (projectOf cfg n) = n" using an n by blast
      from added_round(4) [OF True pn] obtain i tr w where i: "map_of (dmStates da) n = Some i"
        "inService (snd (rebuildAdded net cfg n (e1, d1))) i (projectOf cfg n) tr w" "dmNext d1 \<le> i" "dmNext d1 \<le> w"
        unfolding at(4) by blast
      have "inService da i (projectOf cfg n) tr w"
        using i(2) by (intro inService_touches [OF i(2) at(3)]) (auto simp: inService_def)
      moreover have "dmNext d4 \<le> dmNext d1" using at(1) by (simp add: touches_def)
      moreover have "map_of (dmStates d5) n = Some i" using i(1) fb notc sc by simp
      ultimately show ?thesis unfolding addedOutcome_def using i last_a by (meson order_trans)
    next
      case False
      then obtain x where "fst (rebuildAdded net cfg n (e1, d1)) = e1 @ [ProjectError n x]"
        by (auto simp: rebuildAdded_def split: prod.splits option.splits)
      then have "ProjectError n x \<in> set errs" using at(2) sub_a by auto
      then show ?thesis unfolding addedOutcome_def by blast
    qed
  qed
  show "changedOutcome cfg errs (dmNext d4) d5 n (dmProjects d old)"
    if n: "n \<in> set (dfChanged df)" and old: "map_of (dmStates d) n = Some old"
  proof -
    obtain e1 d1 where at: "oldOk ?cur ?base d1" "touches {j. dmNext da \<le> j} ({w. dmNext da \<le> w} \<union> ?S (set (dfChanged df) - {n})) da d1"
      "\<exists>es. eb = fst (rebuildChanged net cfg ?cur n (e1, d1)) @ es"
      "touches {j. dmNext (snd (rebuildChanged net cfg ?cur n (e1, d1))) \<le> j}
         ({w. dmNext (snd (rebuildChanged net cfg ?cur n (e1, d1))) \<le> w} \<union> ?S (set (dfChanged df) - {n}))
         (snd (rebuildChanged net cfg ?cur n (e1, d1))) db"
      "map_of (dmStates db) n = map_of (dmStates (snd (rebuildChanged net cfg ?cur n (e1, d1)))) n"
      by (rule changed.fold_at [OF oka cn dc_dist n, where net = net and errs = ea, unfolded b fst_conv snd_conv])
        (rule that)
    obtain e2 d2 where r2: "rebuildChanged net cfg ?cur n (e1, d1) = (e2, d2)" by fastforce
    note at = at [unfolded r2 fst_conv snd_conv]
    have cnn: "n \<in> changedNames cfg ?cur ?base" using cn n by blast
    note round = changed_round [OF at(1) cnn old r2]
    have le1: "dmNext d4 \<le> dmNext d1" using at(2) le(1) by (simp add: touches_def)
    have keep: "inService d5 i p tr w"
      if "inService d2 i p tr w" "dmNext d1 \<le> w \<or> psSwitch (?base old) = Some w" for i p tr w
    proof (rule last_b, rule inService_touches [OF that(1) at(4)])
      show "i \<notin> {j. dmNext d2 \<le> j}" using that(1) by (simp add: inService_def)
      have "w \<notin> oldSwitch ?cur ?base m" if m: "m \<in> set (dfChanged df) - {n}" for m
        using \<open>dmNext d1 \<le> w \<or> psSwitch (?base old) = Some w\<close>
      proof
        assume "dmNext d1 \<le> w"
        then show ?thesis using bound [of m] le1 lo by fastforce
      next
        assume w: "psSwitch (?base old) = Some w"
        show ?thesis
        proof
          assume "w \<in> oldSwitch ?cur ?base m"
          then obtain j where "map_of (dmStates d) m = Some j" "psSwitch (?base j) = Some w"
            by (auto simp: oldSwitch_def split: option.splits)
          then have "m = n" using wf(1) old w unfolding wfTable_def by metis
          with m show False by simp
        qed
      qed
      then show "w \<notin> {w. dmNext d2 \<le> w} \<union> ?S (set (dfChanged df) - {n})"
        using that(1) by (auto simp: inService_def)
    qed
    have tab: "map_of (dmStates d5) n = map_of (dmStates d2) n" using at(5) sc by simp
    have "set e2 \<subseteq> set errs" using at(3) sub_b by auto
    consider
      (new) i w where "map_of (dmStates d2) n = Some i" "dmNext d1 \<le> i"
        "inService d2 i (projectOf cfg n) (psTracker (?base old)) w" "dmNext d1 \<le> w \<or> psSwitch (?base old) = Some w"
    | (kept) e i w where "e2 = e1 @ [KeptPrevious n e]" "map_of (dmStates d2) n = Some i" "dmNext d1 \<le> i"
        "inService d2 i (psProject (?base old)) (psTracker (?base old)) w" "dmNext d1 \<le> w"
    | (lost) e e' where "e2 = e1 @ [KeptPrevious n e, RestoreFailed n e']" "map_of (dmStates d2) n = None"
      using round(3) by blast
    then show ?thesis
    proof cases
      case new
      with keep [OF new(3,4)] tab le1 show ?thesis unfolding changedOutcome_def by (metis order_trans)
    next
      case kept
      then have "KeptPrevious n e \<in> set errs" using \<open>set e2 \<subseteq> set errs\<close> by auto
      with kept keep [OF kept(4)] tab le1 show ?thesis unfolding changedOutcome_def by (metis order_trans)
    next
      case lost
      then have "RestoreFailed n e' \<in> set errs" using \<open>set e2 \<subseteq> set errs\<close> by auto
      with lost tab show ?thesis unfolding changedOutcome_def by auto
    qed
  qed
qed

end
