(* ===== verification/ReloadProps.thy ===== *)
theory ReloadProps
  imports ReloadFacts
begin

text \<open>
  The properties of a whole reload: what it leaves alone, what it arrives at, that predecessors are
  out of service before they are replaced, and the race in which it panics.
\<close>

section \<open>The whole reload\<close>

text \<open>A quiet reload, in which nothing else happens between the snapshot and the lock.\<close>

lemma inService_frame [simp]: "inService (d\<lparr>dmLastReloadAt := t\<rparr>) i p tr w = inService d i p tr w"
  by (simp add: inService_def)

lemma oldOk_after:
  assumes "wfTable d" and "sameStatic d d4" and "dmNext d \<le> dmNext d4"
  shows "oldOk (map_of (dmStates d)) (dmProjects d) d4"
  unfolding oldOk_def
proof (intro allI impI)
  fix n i assume "map_of (dmStates d) n = Some i"
  from wfTable_at [OF assms(1) this] assms(2,3) show "i < dmNext d4 \<and>
      psProject (dmProjects d4 i) = psProject (dmProjects d i) \<and>
      psTracker (dmProjects d4 i) = psTracker (dmProjects d i) \<and>
      psDynamic (dmProjects d4 i) = psDynamic (dmProjects d i) \<and>
      psSwitch (dmProjects d4 i) = psSwitch (dmProjects d i) \<and>
      (\<exists>w. psSwitch (dmProjects d i) = Some w \<and> w < dmNext d4)"
    by (auto simp: sameStatic_def)
qed

lemma outcome_mono:
  "addedOutcome cfg errs hi e n \<Longrightarrow> lo \<le> hi \<Longrightarrow> addedOutcome cfg errs lo (e\<lparr>dmLastReloadAt := t\<rparr>) n"
  "changedOutcome cfg errs hi e n old \<Longrightarrow> lo \<le> hi \<Longrightarrow>
     changedOutcome cfg errs lo (e\<lparr>dmLastReloadAt := t\<rparr>) n old"
  unfolding addedOutcome_def changedOutcome_def by (auto intro: order_trans)

text \<open>Everything the properties need of one quiet reload.\<close>

lemma quiet_reload:
  assumes wf: "wfTable d" "wfConfig cfg" and st: "settles settle"
  obtains r d' where "ReloadWith net settle (\<lambda>x. x) now cfg d = (Applied r, d')"
    and "\<And>n. n \<in> set (dfAdded (diffProjects d cfg)) \<Longrightarrow> addedOutcome cfg (rsErrors r) (dmNext d) d' n"
    and "\<And>n old. n \<in> set (dfChanged (diffProjects d cfg)) \<Longrightarrow> map_of (dmStates d) n = Some old \<Longrightarrow>
      changedOutcome cfg (rsErrors r) (dmNext d) d' n (dmProjects d old)"
    and "\<And>n. n \<notin> set (dfAdded (diffProjects d cfg)) \<Longrightarrow> n \<notin> set (dfChanged (diffProjects d cfg)) \<Longrightarrow>
      map_of (dmStates d') n = (case map_of (dmStates d) n of
        Some i \<Rightarrow> if leaves d cfg n i then None else Some i | None \<Rightarrow> None)"
    and "\<And>n i. map_of (dmStates d) n = Some i \<Longrightarrow> n \<notin> set (dfChanged (diffProjects d cfg)) \<Longrightarrow>
      \<not> leaves d cfg n i \<Longrightarrow> dmProjects d' i = dmProjects d i \<and>
      (\<forall>w. psSwitch (dmProjects d i) = Some w \<longrightarrow> dmSwitches d' w = dmSwitches d w)"
    and "\<And>n i. map_of (dmStates d) n = Some i \<Longrightarrow>
      n \<in> set (dfChanged (diffProjects d cfg)) \<or> leaves d cfg n i \<Longrightarrow> outOfService (procOf d' i)"
proof -
  let ?df = "diffProjects d cfg"
  obtain errs d4 d5 removed where p:
    "ReloadWith net settle (\<lambda>x. x) now cfg d =
       (Applied \<lparr>rsDiff = ?df\<lparr>dfRemoved := sort removed\<rparr>,
          rsWildcards = (if wantedEntries cfg = [] \<and> dmEntries d = [] then None
            else Some (diffEntries d (wantedEntries cfg))), rsErrors = errs\<rparr>,
        d5\<lparr>dmLastReloadAt := now\<rparr>)"
    "rebuild net cfg ?df (diffEntries d (wantedEntries cfg)) (dmStates d) d4 = (errs, d5)"
    "touches {j. \<exists>n. map_of (dmStates d) n = Some j \<and> (n \<in> set (dfChanged ?df) \<or> leaves d cfg n j)}
       {w. \<exists>n j. n \<in> set (dfChanged ?df) \<and> map_of (dmStates d) n = Some j \<and> psSwitch (dmProjects d j) = Some w}
       d d4"
    "map_of (dmStates d4) = map_of (dmStates d) |` {n. \<forall>j. map_of (dmStates d) n = Some j \<longrightarrow> \<not> leaves d cfg n j}"
    "sameStatic d d4"
    "\<And>n j. map_of (dmStates d) n = Some j \<Longrightarrow> n \<in> set (dfChanged ?df) \<or> leaves d cfg n j \<Longrightarrow>
       outOfService (procOf d4 j)"
    by (rule reload_phases [OF wf st]) (rule that)
  have lo: "dmNext d \<le> dmNext d4" using p(3) by (simp add: touches_def)
  note ok = oldOk_after [OF wf(1) p(5) lo]
  note spec = rebuild_spec [OF wf p(2) ok lo]
  have proj5: "dmProjects d5 i = dmProjects d4 i" if "map_of (dmStates d) n = Some i" for n i
    using spec(1) wfTable_at(2) [OF wf(1) that] lo by (auto simp: touches_def)
  have tab: "map_of (dmStates d5) n = (case map_of (dmStates d) n of
      Some i \<Rightarrow> if leaves d cfg n i then None else Some i | None \<Rightarrow> None)"
    if "n \<notin> set (dfAdded ?df)" "n \<notin> set (dfChanged ?df)" for n
    using spec(2) [OF that] by (auto simp: p(4) restrict_map_def split: option.splits)
  have same: "dmProjects d5 i = dmProjects d i \<and>
      (\<forall>w. psSwitch (dmProjects d i) = Some w \<longrightarrow> dmSwitches d5 w = dmSwitches d w)"
    if i: "map_of (dmStates d) n = Some i" "n \<notin> set (dfChanged ?df)" "\<not> leaves d cfg n i" for n i
  proof -
    have other: "m = n" if "map_of (dmStates d) m = Some i" for m
      using wfTable_at(1) [OF wf(1) i(1)] wfTable_at(1) [OF wf(1) that] by simp
    have "i \<notin> {j. \<exists>n. map_of (dmStates d) n = Some j \<and> (n \<in> set (dfChanged ?df) \<or> leaves d cfg n j)}"
      using i other by blast
    then have "dmProjects d4 i = dmProjects d i" using p(3) unfolding touches_def by blast
    moreover have "dmSwitches d5 w = dmSwitches d w" if w: "psSwitch (dmProjects d i) = Some w" for w
    proof -
      have u: "m = n" if "map_of (dmStates d) m = Some j" "psSwitch (dmProjects d j) = Some w" for m j
        using wf(1) i(1) w that unfolding wfTable_def by metis
      have "w < dmNext d" using wfTable_at(3) [OF wf(1) i(1)] w by auto
      moreover have "w \<notin> oldSwitch (map_of (dmStates d)) (dmProjects d) m" if "m \<in> set (dfChanged ?df)" for m
        using u that i(2) by (auto simp: oldSwitch_def split: option.splits simp del: map_of_eq_Some_iff)
      ultimately have "dmSwitches d5 w = dmSwitches d4 w" using spec(1) lo by (auto simp: touches_def)
      moreover have "w \<notin> {w. \<exists>n j. n \<in> set (dfChanged ?df) \<and> map_of (dmStates d) n = Some j \<and>
          psSwitch (dmProjects d j) = Some w}"
        using u i(2) by blast
      then have "dmSwitches d4 w = dmSwitches d w" using p(3) unfolding touches_def by blast
      ultimately show ?thesis by simp
    qed
    ultimately show ?thesis using proj5 [OF i(1)] by simp
  qed
  have out: "outOfService (procOf d5 i)"
    if "map_of (dmStates d) n = Some i" "n \<in> set (dfChanged ?df) \<or> leaves d cfg n i" for n i
    using p(6) [OF that] proj5 [OF that(1)] by (simp add: procOf_def)
  show ?thesis
  proof (rule that [OF p(1)], goal_cases)
    case (1 n)
    then show ?case using outcome_mono(1) [OF spec(3) lo] by simp
  next
    case (2 n old)
    then show ?case using outcome_mono(2) [OF spec(4) lo] by simp
  next
    case (3 n)
    then show ?case using tab by simp
  next
    case (4 n i)
    then show ?case using same by simp
  next
    case (5 n i)
    then show ?case using out by (simp add: procOf_def)
  qed
qed

section \<open>Properties\<close>




lemma takeRemoved_absent:
  "takeRemoved ns d = Some (items, e) \<Longrightarrow> map_of (dmStates d) n = None \<Longrightarrow> map_of (dmStates e) n = None"
proof (induction ns arbitrary: d items)
  case (Cons m ns)
  then obtain i where "map_of (dmStates d) m = Some i" by (auto split: option.splits)
  with Cons.prems obtain its where "takeRemoved ns (d\<lparr>dmStates := mapDelete m (dmStates d)\<rparr>) = Some (its, e)"
    by (auto split: option.splits)
  from Cons.IH [OF this] Cons.prems(2) show ?case by (simp add: gomap_simps)
qed simp

lemma takeChanged_absent:
  "n \<in> set ns \<Longrightarrow> map_of (dmStates d) n = None \<Longrightarrow> takeChanged cfg ns d = None"
proof (induction ns arbitrary: d)
  case (Cons m ns)
  show ?case
  proof (cases "map_of (dmStates d) m")
    case (Some i)
    then have "n \<in> set ns" using Cons.prems by auto
    then have "takeChanged cfg ns e = None" if "dmStates e = dmStates d" for e
      using Cons.IH [of e] Cons.prems(2) that by simp
    with Some show ?thesis by (simp add: Let_def)
  qed simp
qed simp

text \<open>
  A reload panics when a worktree project it is about to replace is dropped under it. If the
  configuration now has a static project of the name of a live worktree project, and that project
  leaves the table (its directory vanished) between the snapshot of the tables and the lock, which
  the loading of the configuration separates, the reload dereferences the missing entry and panics,
  with the table lock held.
\<close>

theorem dropped_dynamic_panics_reload:
  assumes "map_of (dmStates d) n = Some i" and "psDynamic (dmProjects d i)"
    and "map_of (cProjects cfg) n = Some p" and "map_of (dmStates (world d)) n = None"
  shows "fst (ReloadWith net settle world now cfg d) = Panicked"
proof -
  have n: "n \<in> set (dfChanged (diffProjects d cfg))"
    using assms(1-3) by (simp add: diff_sets(3) del: map_of_eq_Some_iff)
  have "takeOut cfg (diffProjects d cfg) ents gone (world d) = None" for ents gone
  proof (cases "takeRemoved (dfRemoved (diffProjects d cfg)) (world d)")
    case (Some r)
    obtain items e where r: "r = (items, e)" by (cases r)
    have "takeChanged cfg (dfChanged (diffProjects d cfg)) e = None"
      using takeChanged_absent [OF n] takeRemoved_absent [OF Some [unfolded r] assms(4)] by simp
    with Some r show ?thesis by (simp add: takeOut_def)
  qed (simp add: takeOut_def)
  then show ?thesis by (simp add: ReloadWith_def Let_def)
qed

section \<open>A reload of three projects\<close>

text \<open>Live: a (state 0), b (1), x (2); the new configuration keeps a, changes b, adds c, drops x.\<close>

definition rlProject :: "string \<Rightarrow> int \<Rightarrow> project" where
  "rlProject name port = emptyProject\<lparr>pName := name, pSupervisorPort := port, pApplicationPort := port + 1\<rparr>"

definition rlState :: "stId \<Rightarrow> projectState" where
  "rlState i =
     (let p = rlProject (if i = 0 then ''a'' else if i = 1 then ''b'' else ''x'') (int i * 10 + 4000) in
      \<lparr>psProject = p, psProc = NewSupervisor p, psTracker = i, psSwitch = Some i, psBind = None,
       psActive = True, psDynamic = (i = 2), psEntry = None, psRetired = False\<rparr>)"

definition rlDaemon :: daemon where
  "rlDaemon = (demoDaemon [(''a'', 0), (''b'', 1), (''x'', 2)] 0)\<lparr>dmProjects := rlState\<rparr>"

definition rlConfig :: config where
  "rlConfig =
     \<lparr>cProjects = [(''a'', rlProject ''a'' 4000), (''b'', rlProject ''b'' 5000), (''c'', rlProject ''c'' 6000),
        (''x'', rlProject ''x'' 4020)],
      cMaxRunning = 0, cDiscovery = [], cPath = []\<rparr>"

lemma rl_simps [simp]:
  "dmStates rlDaemon = [(''a'', 0), (''b'', 1), (''x'', 2)]" "dmProjects rlDaemon = rlState"
  "dmNext rlDaemon = 9" "dmEntries rlDaemon = []"
  by (simp_all add: rlDaemon_def demoDaemon_def)

lemma rl_wfTable: "wfTable rlDaemon"
  by (auto simp: wfTable_def nameOf_def procOf_def rlState_def rlProject_def Let_def mirrored_def
      NewSupervisor_def split: if_splits)

lemma rl_wfConfig: "wfConfig rlConfig"
  by (auto simp: wfConfig_def rlConfig_def rlProject_def split: if_splits)

lemma rl_settles: "settles (\<lambda>s. s)"
  by (simp add: settles_def)

lemma rl_unchanged: "''a'' \<notin> set (dfChanged (diffProjects rlDaemon rlConfig))"
  by (simp add: diff_sets rlState_def rlConfig_def projectOf_def rlProject_def projectEquivalent_refl Let_def)

lemma rl_changed: "''b'' \<in> set (dfChanged (diffProjects rlDaemon rlConfig))"
  by (simp add: diff_sets rlState_def rlConfig_def projectOf_def rlProject_def projectEquivalent_def
      emptyProject_def Let_def)

lemma rl_stays: "\<not> leaves rlDaemon rlConfig ''a'' 0"
  by (simp add: leaves_def dropsDynamic_def diff_removed [OF rl_wfTable] rlState_def rlConfig_def Let_def)




theorem dropped_dynamic_panics_reload_witness:
  "fst (ReloadWith (\<lambda>_ _. None) (\<lambda>s. s) (\<lambda>d. d\<lparr>dmStates := mapDelete ''x'' (dmStates d)\<rparr>) 7 rlConfig rlDaemon) =
     Panicked"
  by (rule dropped_dynamic_panics_reload [where n = "''x''" and i = 2 and p = "rlProject ''x'' 4020"])
    (simp_all add: rlState_def rlConfig_def gomap_simps mapDelete_def Let_def)

end
