(* ===== verification/Resolver.thy ===== *)
theory Resolver
  imports DaemonState Backoff
begin

text \<open>
  Resolving a wildcard label once for all the requests that ask for it (\<open>resolver\<close>, \<open>resolve\<close> and
  \<open>await\<close> in \<open>internal/daemon/wildcard.go\<close>): the hold limit, the resolutions in flight, the
  remembered failures with their backoff, and the system of concurrent requests as a step relation.
  What a resolution does is \<open>Wildcard.materialise\<close>; here its outcome is any.
\<close>

section \<open>The resolver\<close>

text \<open>The three results of the code (handler, diagnostic, detail) are one of these three.\<close>

datatype resolution =
    Served handlerRef
  | Explained diagnostic string
  | GaveUp

record resolveFailure =
  rfDiag :: diagnostic
  rfDetail :: string
  rfCount :: int
  rfRetryAt :: time

type_synonym callId = nat

record resolver =
  rvMaxWait :: duration
  rvMaxHeld :: int
  rvTerse :: bool
  rvHeld :: int
  rvCalls :: "(string, callId) gomap"
  rvFailures :: "(string, resolveFailure) gomap"
  rvNextCall :: callId

text \<open>A probe project carries the template's limits with the defaults applied.\<close>

definition newResolver :: "string option \<Rightarrow> discovery \<Rightarrow> resolver" where
  "newResolver home e =
     (let p = ProjectFor home e ''probe'' (dDirectory e) 0 in
      \<lparr>rvMaxWait = wrap64 (pHoldMaxWaitSeconds p * timeSecond), rvMaxHeld = pHoldMaxRequests p,
       rvTerse = \<not> DiagnosticLogsEnabled p, rvHeld = 0, rvCalls = [], rvFailures = [],
       rvNextCall = 0\<rparr>)"

section \<open>The diagnostics of waiting\<close>

definition tooManyWaiting :: "resolver \<Rightarrow> string \<Rightarrow> diagnostic" where
  "tooManyWaiting rv label =
     emptyDiagnostic\<lparr>dgStatus := 503, dgProject := label, dgHint := '' '',
       dgReason := ''Too many requests are already waiting for this worktree to be resolved (limit '' @
         Itoa (rvMaxHeld rv) @ '', hold_max_requests). Retry shortly.''\<rparr>"

definition gaveUpWaiting :: "fmtLib \<Rightarrow> resolver \<Rightarrow> diagnostic" where
  "gaveUpWaiting fmt rv =
     emptyDiagnostic\<lparr>dgStatus := 503, dgHint := '' '',
       dgReason := ''Gave up waiting after '' @ fmtDuration fmt (rvMaxWait rv) @
         '' (hold_max_wait_seconds) for the worktree to be resolved.''\<rparr>"

definition remembered :: "fmtLib \<Rightarrow> time \<Rightarrow> resolveFailure \<Rightarrow> diagnostic" where
  "remembered fmt now f =
     (rfDiag f)\<lparr>dgHint := ''Automatic retry in '' @
        fmtDuration fmt (roundDuration (rfRetryAt f - now) (100 * timeMillisecond)) @
        '' (the next request after that resolves the worktree again).''\<rparr>"

section \<open>The steps of resolve\<close>

datatype lookup =
    JoinCall callId
  | StillFailing resolveFailure
  | Lead callId

text \<open>Under the resolver's lock.\<close>

definition lookupCall :: "time \<Rightarrow> string \<Rightarrow> resolver \<Rightarrow> lookup \<times> resolver" where
  "lookupCall now label rv =
     (case map_of (rvCalls rv) label of
        Some c \<Rightarrow> (JoinCall c, rv)
      | None \<Rightarrow>
          (let fresh = (Lead (rvNextCall rv),
                 rv\<lparr>rvCalls := mapPut label (rvNextCall rv) (rvCalls rv),
                    rvNextCall := rvNextCall rv + 1\<rparr>)
           in case map_of (rvFailures rv) label of
                Some f \<Rightarrow> if Before now (rfRetryAt f) then (StillFailing f, rv) else fresh
              | None \<Rightarrow> fresh))"

definition recordFailure :: "time \<Rightarrow> string \<Rightarrow> diagnostic \<Rightarrow> string \<Rightarrow> resolver \<Rightarrow> resolver" where
  "recordFailure now label diag detail rv =
     (let n = (case map_of (rvFailures rv) label of Some f \<Rightarrow> rfCount f | None \<Rightarrow> 0) + 1 in
      rv\<lparr>rvFailures := mapPut label
           \<lparr>rfDiag = diag, rfDetail = detail, rfCount = n, rfRetryAt = now + resolveBackoff n\<rparr>
           (rvFailures rv)\<rparr>)"

definition finishCall :: "time \<Rightarrow> string \<Rightarrow> resolution \<Rightarrow> resolver \<Rightarrow> resolver" where
  "finishCall now label res rv =
     (let rv1 = rv\<lparr>rvCalls := mapDelete label (rvCalls rv)\<rparr> in
      case res of
        Explained diag detail \<Rightarrow>
          if dgStatus diag = 404 then rv1\<lparr>rvFailures := mapDelete label (rvFailures rv1)\<rparr>
          else recordFailure now label diag detail rv1
      | _ \<Rightarrow> rv1\<lparr>rvFailures := mapDelete label (rvFailures rv1)\<rparr>)"

section \<open>Many requests\<close>

text \<open>
  Where a request is: not in \<open>resolve\<close>; refused and about to count itself out; past the hold limit;
  running the resolution; about to close the call's channel; waiting for a call; about to return.
\<close>

datatype phase =
    Outside
  | Refused
  | Admitted string
  | Leading string callId
  | Closing string callId resolution
  | Awaiting string callId
  | Leaving string resolution

record resolveSys =
  ryRv :: resolver
  ryReq :: "nat \<Rightarrow> phase"
  ryDone :: "callId \<Rightarrow> resolution option"

definition setPhase :: "nat \<Rightarrow> phase \<Rightarrow> resolveSys \<Rightarrow> resolveSys" where
  "setPhase i ph s = s\<lparr>ryReq := (ryReq s)(i := ph)\<rparr>"

definition addHeld :: "int \<Rightarrow> resolveSys \<Rightarrow> resolveSys" where
  "addHeld n s = s\<lparr>ryRv := (ryRv s)\<lparr>rvHeld := rvHeld (ryRv s) + n\<rparr>\<rparr>"

definition arrive :: "nat \<Rightarrow> string \<Rightarrow> resolveSys \<Rightarrow> resolveSys" where
  "arrive i label s =
     (let s1 = addHeld 1 s in
      if rvHeld (ryRv s1) > rvMaxHeld (ryRv s1) then setPhase i Refused s1
      else setPhase i (Admitted label) s1)"

definition look :: "fmtLib \<Rightarrow> time \<Rightarrow> nat \<Rightarrow> string \<Rightarrow> resolveSys \<Rightarrow> resolveSys" where
  "look fmt now i label s =
     (case lookupCall now label (ryRv s) of
        (JoinCall c, rv) \<Rightarrow> setPhase i (Awaiting label c) (s\<lparr>ryRv := rv\<rparr>)
      | (StillFailing f, rv) \<Rightarrow>
          setPhase i (Leaving label (Explained (remembered fmt now f) (rfDetail f))) (s\<lparr>ryRv := rv\<rparr>)
      | (Lead c, rv) \<Rightarrow> setPhase i (Leading label c) (s\<lparr>ryRv := rv\<rparr>))"

definition finish :: "time \<Rightarrow> nat \<Rightarrow> string \<Rightarrow> callId \<Rightarrow> resolution \<Rightarrow> resolveSys \<Rightarrow> resolveSys" where
  "finish now i label c res s =
     setPhase i (Closing label c res) (s\<lparr>ryRv := finishCall now label res (ryRv s)\<rparr>)"

definition closeDone :: "nat \<Rightarrow> string \<Rightarrow> callId \<Rightarrow> resolution \<Rightarrow> resolveSys \<Rightarrow> resolveSys" where
  "closeDone i label c res s =
     setPhase i (Leaving label res) (s\<lparr>ryDone := (ryDone s)(c := Some res)\<rparr>)"

definition leave :: "nat \<Rightarrow> resolveSys \<Rightarrow> resolveSys" where
  "leave i s = setPhase i Outside (addHeld (- 1) s)"

inductive resolveStep :: "fmtLib \<Rightarrow> resolveSys \<Rightarrow> resolveSys \<Rightarrow> bool" for fmt where
  arrives: "ryReq s i = Outside \<Longrightarrow> resolveStep fmt s (arrive i label s)"
| refused: "ryReq s i = Refused \<Longrightarrow> resolveStep fmt s (leave i s)"
| looks: "ryReq s i = Admitted label \<Longrightarrow> resolveStep fmt s (look fmt now i label s)"
| finishes: "ryReq s i = Leading label c \<Longrightarrow> resolveStep fmt s (finish now i label c res s)"
| closes: "ryReq s i = Closing label c res \<Longrightarrow> resolveStep fmt s (closeDone i label c res s)"
| answered: "ryReq s i = Awaiting label c \<Longrightarrow> ryDone s c = Some res \<Longrightarrow>
    resolveStep fmt s (setPhase i (Leaving label res) s)"
| timesOut: "ryReq s i = Awaiting label c \<Longrightarrow>
    resolveStep fmt s (setPhase i (Leaving label (Explained (gaveUpWaiting fmt (ryRv s)) [])) s)"
| clientLeft: "ryReq s i = Awaiting label c \<Longrightarrow>
    resolveStep fmt s (setPhase i (Leaving label GaveUp) s)"
| returns: "ryReq s i = Leaving label res \<Longrightarrow> resolveStep fmt s (leave i s)"

definition resolveInit :: "string option \<Rightarrow> discovery \<Rightarrow> resolveSys \<Rightarrow> bool" where
  "resolveInit home e s \<longleftrightarrow> s = \<lparr>ryRv = newResolver home e, ryReq = (\<lambda>_. Outside), ryDone = (\<lambda>_. None)\<rparr>"

section \<open>The invariant\<close>

text \<open>The call a request is responsible for, and the one it takes part in.\<close>

fun owns :: "phase \<Rightarrow> callId option" where
  "owns (Leading l c) = Some c"
| "owns (Closing l c res) = Some c"
| "owns _ = None"

fun callOf :: "phase \<Rightarrow> callId option" where
  "callOf (Awaiting l c) = Some c"
| "callOf ph = owns ph"

definition inside :: "resolveSys \<Rightarrow> nat set" where
  "inside s = {i. ryReq s i \<noteq> Outside}"

definition admitted :: "resolveSys \<Rightarrow> nat set" where
  "admitted s = {i. ryReq s i \<noteq> Outside \<and> ryReq s i \<noteq> Refused}"

definition heldInv :: "resolveSys \<Rightarrow> bool" where
  "heldInv s \<longleftrightarrow> finite (inside s) \<and> rvHeld (ryRv s) = int (card (inside s)) \<and>
     card (admitted s) \<le> nat (rvMaxHeld (ryRv s))"

definition leaderInv :: "resolveSys \<Rightarrow> bool" where
  "leaderInv s \<longleftrightarrow>
     (\<forall>l c. map_of (rvCalls (ryRv s)) l = Some c \<longleftrightarrow> (\<exists>i. ryReq s i = Leading l c)) \<and>
     (\<forall>i j c. owns (ryReq s i) = Some c \<longrightarrow> owns (ryReq s j) = Some c \<longrightarrow> i = j)"

definition freshInv :: "resolveSys \<Rightarrow> bool" where
  "freshInv s \<longleftrightarrow>
     (\<forall>i c. callOf (ryReq s i) = Some c \<longrightarrow> c < rvNextCall (ryRv s)) \<and>
     (\<forall>c. ryDone s c \<noteq> None \<longrightarrow> c < rvNextCall (ryRv s)) \<and>
     (\<forall>i c. owns (ryReq s i) = Some c \<longrightarrow> ryDone s c = None)"

definition waiterInv :: "resolveSys \<Rightarrow> bool" where
  "waiterInv s \<longleftrightarrow>
     (\<forall>i l c. ryReq s i = Awaiting l c \<longrightarrow>
        ryDone s c \<noteq> None \<or> (\<exists>j. ryReq s j = Leading l c \<or> (\<exists>res. ryReq s j = Closing l c res)))"

definition callInv :: "resolveSys \<Rightarrow> bool" where
  "callInv s \<longleftrightarrow> leaderInv s \<and> freshInv s \<and> waiterInv s"

lemmas sys_defs = setPhase_def addHeld_def arrive_def look_def finish_def closeDone_def leave_def

lemma inside_admitted: "admitted s = {i \<in> inside s. ryReq s i \<noteq> Refused}" "admitted s \<subseteq> inside s"
  by (auto simp: inside_def admitted_def)

text \<open>A step of one request changes its phase, the counter by as much as it goes in or out, and calls.\<close>

lemma finishCall_frame [simp]:
  "rvHeld (finishCall now l res rv) = rvHeld rv" "rvMaxHeld (finishCall now l res rv) = rvMaxHeld rv"
  "rvNextCall (finishCall now l res rv) = rvNextCall rv"
  "rvCalls (finishCall now l res rv) = mapDelete l (rvCalls rv)"
  by (simp_all add: finishCall_def recordFailure_def Let_def split: resolution.split)

lemma lookupCall_frame:
  "rvHeld (snd (lookupCall now l rv)) = rvHeld rv" "rvMaxHeld (snd (lookupCall now l rv)) = rvMaxHeld rv"
  by (simp_all add: lookupCall_def Let_def split: option.split)

lemma heldInv_stay:
  assumes "heldInv s" and "ryReq t = (ryReq s)(i := ph)" and "ryReq s i \<notin> {Outside, Refused}"
    and "ph \<notin> {Outside, Refused}" and "rvHeld (ryRv t) = rvHeld (ryRv s)"
    and "rvMaxHeld (ryRv t) = rvMaxHeld (ryRv s)"
  shows "heldInv t"
proof -
  have "inside t = inside s" "admitted t = admitted s" using assms(2-4) by (auto simp: inside_def admitted_def)
  with assms show ?thesis by (simp add: heldInv_def)
qed

lemma heldInv_leave:
  assumes "heldInv s" and "ryReq s i \<noteq> Outside"
  shows "heldInv (leave i s)"
proof -
  let ?t = "leave i s"
  have i: "i \<in> inside s" and t: "inside ?t = inside s - {i}" "admitted ?t = admitted s - {i}"
    using assms(2) by (auto simp: inside_def admitted_def sys_defs)
  have fin: "finite (inside s)" using assms(1) by (simp add: heldInv_def)
  have "card (admitted ?t) \<le> card (admitted s)"
    unfolding t using fin inside_admitted(2) [of s] by (intro card_mono) (auto intro: finite_subset)
  moreover have "0 < card (inside s)" using fin i by (auto simp: card_gt_0_iff)
  then have "int (card (inside s - {i})) = int (card (inside s)) - 1"
    using fin i by (simp add: of_nat_diff Suc_leI)
  ultimately show ?thesis
    using assms(1) fin by (auto simp: heldInv_def t) (auto simp: sys_defs)
qed

lemma heldInv_arrive:
  assumes "heldInv s" and "ryReq s i = Outside"
  shows "heldInv (arrive i l s)"
proof -
  let ?t = "arrive i l s"
  have fin: "finite (inside s)" and held: "rvHeld (ryRv s) = int (card (inside s))"
    using assms(1) by (simp_all add: heldInv_def)
  have i: "i \<notin> inside s" "i \<notin> admitted s" using assms(2) by (auto simp: inside_def admitted_def)
  have t: "inside ?t = insert i (inside s)" "rvHeld (ryRv ?t) = rvHeld (ryRv s) + 1"
    "rvMaxHeld (ryRv ?t) = rvMaxHeld (ryRv s)"
    using assms(2) by (auto simp: inside_def sys_defs Let_def)
  have fa: "finite (admitted s)" using fin inside_admitted(2) finite_subset by blast
  have "card (admitted ?t) \<le> nat (rvMaxHeld (ryRv s))"
  proof (cases "rvHeld (ryRv s) + 1 > rvMaxHeld (ryRv s)")
    case True
    then have "admitted ?t = admitted s" using assms(2) by (auto simp: admitted_def sys_defs)
    then show ?thesis using assms(1) by (simp add: heldInv_def)
  next
    case False
    then have "admitted ?t = insert i (admitted s)" using assms(2) by (auto simp: admitted_def sys_defs)
    then have "card (admitted ?t) = card (admitted s) + 1" using fa i by simp
    moreover have "card (admitted s) \<le> card (inside s)" using fin inside_admitted(2) card_mono by blast
    ultimately show ?thesis using False held by linarith
  qed
  with fin i held show ?thesis by (simp add: heldInv_def t)
qed

lemma look_shape:
  "ryReq s i = Admitted l \<Longrightarrow> \<exists>ph. ryReq (look fmt now i l s) = (ryReq s)(i := ph) \<and> ph \<notin> {Outside, Refused} \<and>
     rvHeld (ryRv (look fmt now i l s)) = rvHeld (ryRv s) \<and>
     rvMaxHeld (ryRv (look fmt now i l s)) = rvMaxHeld (ryRv s)"
  using lookupCall_frame [of now l "ryRv s"]
  by (auto simp: look_def setPhase_def split: prod.splits lookup.splits)

lemma heldInv_step: "heldInv s \<Longrightarrow> resolveStep fmt s t \<Longrightarrow> heldInv t"
proof (erule resolveStep.cases, goal_cases)
  case (3 s' i label now)
  with look_shape [of s i label fmt now] show ?case using heldInv_stay [of s t i] by auto
qed (auto intro: heldInv_arrive heldInv_leave elim: heldInv_stay
      simp: setPhase_def finish_def closeDone_def)

lemma owns_callOf: "owns ph = Some c \<Longrightarrow> callOf ph = Some c"
  by (cases ph) auto

lemma owns_cases: "owns ph = Some c \<longleftrightarrow> (\<exists>l. ph = Leading l c \<or> (\<exists>res. ph = Closing l c res))"
  by (cases ph) auto

lemma callInv_elims:
  assumes "callInv s"
  shows call_leads: "map_of (rvCalls (ryRv s)) l = Some c \<longleftrightarrow> (\<exists>i. ryReq s i = Leading l c)"
    and call_unique: "owns (ryReq s i) = Some c \<Longrightarrow> owns (ryReq s j) = Some c \<Longrightarrow> i = j"
    and call_fresh: "callOf (ryReq s i) = Some c \<Longrightarrow> c < rvNextCall (ryRv s)"
    and call_undone: "owns (ryReq s i) = Some c \<Longrightarrow> ryDone s c = None"
    and call_owed: "ryReq s i = Awaiting l c \<Longrightarrow>
      ryDone s c \<noteq> None \<or> (\<exists>j. ryReq s j = Leading l c \<or> (\<exists>res. ryReq s j = Closing l c res))"
  using assms unfolding callInv_def leaderInv_def freshInv_def waiterInv_def by blast+

text \<open>What a waiter relies on survives when it is kept, handed over, or done.\<close>

lemma waiterInv_upd:
  assumes "waiterInv s" and "ryReq t = (ryReq s)(i := ph)"
    and "\<And>c. ryDone s c \<noteq> None \<Longrightarrow> ryDone t c \<noteq> None"
    and "\<And>l c. ph = Awaiting l c \<Longrightarrow> \<exists>j. j \<noteq> i \<and> ryReq s j = Leading l c"
    and "\<And>l c. ryReq s i = Leading l c \<Longrightarrow> \<exists>res. ph = Closing l c res"
    and "\<And>l c res. ryReq s i = Closing l c res \<Longrightarrow> ryDone t c \<noteq> None"
  shows "waiterInv t"
  unfolding waiterInv_def
proof (intro allI impI)
  fix k l c
  assume k: "ryReq t k = Awaiting l c"
  show "ryDone t c \<noteq> None \<or> (\<exists>j. ryReq t j = Leading l c \<or> (\<exists>res. ryReq t j = Closing l c res))"
  proof (cases "k = i")
    case True
    with k assms(2) have "ph = Awaiting l c" by simp
    from assms(4) [OF this] obtain j where "j \<noteq> i" "ryReq s j = Leading l c" by blast
    then have "ryReq t j = Leading l c" using assms(2) by simp
    then show ?thesis by blast
  next
    case False
    with k assms(2) have "ryReq s k = Awaiting l c" by simp
    then consider "ryDone s c \<noteq> None" | j where "ryReq s j = Leading l c"
      | j res where "ryReq s j = Closing l c res"
      using assms(1) unfolding waiterInv_def by blast
    then show ?thesis
    proof cases
      case (2 j)
      then have "ryReq t j = Leading l c \<or> (\<exists>res. ryReq t j = Closing l c res)"
        using assms(2) assms(5) [of l c] by (cases "j = i") auto
      then show ?thesis by blast
    next
      case (3 j res)
      then have "ryReq t j = Closing l c res \<or> ryDone t c \<noteq> None"
        using assms(2) assms(6) [of l c res] by (cases "j = i") auto
      then show ?thesis by blast
    qed (use assms(3) in blast)
  qed
qed

lemma leaderInv_upd:
  assumes "callInv s" and "ryReq t = (ryReq s)(i := ph)"
    and "\<And>j c. owns ph = Some c \<Longrightarrow> j \<noteq> i \<Longrightarrow> owns (ryReq s j) \<noteq> Some c"
    and "\<And>l c. map_of (rvCalls (ryRv t)) l = Some c \<longleftrightarrow>
      (\<exists>j. j \<noteq> i \<and> ryReq s j = Leading l c) \<or> ph = Leading l c"
  shows "leaderInv t"
proof -
  have lead: "(\<exists>j. ryReq t j = Leading l c) \<longleftrightarrow> (\<exists>j. j \<noteq> i \<and> ryReq s j = Leading l c) \<or> ph = Leading l c" for l c
  proof
    assume "\<exists>j. ryReq t j = Leading l c"
    then obtain j where "ryReq t j = Leading l c" by blast
    then show "(\<exists>j. j \<noteq> i \<and> ryReq s j = Leading l c) \<or> ph = Leading l c"
      using assms(2) by (cases "j = i") auto
  next
    assume "(\<exists>j. j \<noteq> i \<and> ryReq s j = Leading l c) \<or> ph = Leading l c"
    then show "\<exists>j. ryReq t j = Leading l c"
    proof
      assume "\<exists>j. j \<noteq> i \<and> ryReq s j = Leading l c"
      then obtain j where "j \<noteq> i" "ryReq s j = Leading l c" by blast
      then have "ryReq t j = Leading l c" using assms(2) by simp
      then show ?thesis by blast
    next
      assume "ph = Leading l c"
      then have "ryReq t i = Leading l c" using assms(2) by simp
      then show ?thesis by blast
    qed
  qed
  have uniq: "a = b" if "owns (ryReq t a) = Some c" "owns (ryReq t b) = Some c" for a b c
  proof -
    have q: "ryReq t i = ph" "k \<noteq> i \<Longrightarrow> ryReq t k = ryReq s k" for k using assms(2) by simp_all
    consider "a = i" "b = i" | "a = i" "b \<noteq> i" | "a \<noteq> i" "b = i" | "a \<noteq> i" "b \<noteq> i" by blast
    then show ?thesis
    proof cases
      case 4
      then have "owns (ryReq s a) = Some c" "owns (ryReq s b) = Some c" using that q(2) by metis+
      then show ?thesis by (rule call_unique [OF assms(1)])
    next
      case 2
      then show ?thesis using that q(1) assms(3) [of c b] q(2) [of b] by metis
    next
      case 3
      then show ?thesis using that q(1) assms(3) [of c a] q(2) [of a] by metis
    qed simp
  qed
  show ?thesis
    unfolding leaderInv_def lead assms(4) by (intro conjI allI impI) (rule refl, erule (1) uniq)
qed

lemma leads_elsewhere:
  assumes "callInv s" and "\<And>c. ryReq s i \<noteq> Leading l c"
  shows "map_of (rvCalls (ryRv s)) l = Some c \<longleftrightarrow> (\<exists>j. j \<noteq> i \<and> ryReq s j = Leading l c)"
  using call_leads [OF assms(1), of l c] assms(2) by metis

text \<open>Steps that leave the calls and every responsibility as they are.\<close>

lemma callInv_move:
  assumes "callInv s" and "ryReq t = (ryReq s)(i := ph)" and "owns (ryReq s i) = None" and "callOf ph = None"
    and "rvCalls (ryRv t) = rvCalls (ryRv s)" and "rvNextCall (ryRv t) = rvNextCall (ryRv s)"
    and "ryDone t = ryDone s"
  shows "callInv t"
proof -
  have ph: "owns ph = None" "\<And>l c. ph \<noteq> Leading l c" "\<And>l c. ph \<noteq> Awaiting l c" "\<And>l c r. ph \<noteq> Closing l c r"
    using assms(4) by (cases ph; auto)+
  have i: "\<And>l c. ryReq s i \<noteq> Leading l c" "\<And>l c r. ryReq s i \<noteq> Closing l c r" using assms(3) by auto
  have "leaderInv t"
    using ph leads_elsewhere [OF assms(1) i(1)] by (intro leaderInv_upd [OF assms(1,2)]) (simp_all add: assms(5))
  moreover have "freshInv t"
    using assms(1) assms(4) ph unfolding callInv_def freshInv_def assms(2,6,7) by auto
  moreover have "waiterInv t"
    using assms(1,7) by (intro waiterInv_upd [OF _ assms(2)]) (simp_all add: callInv_def i ph)
  ultimately show ?thesis by (simp add: callInv_def)
qed

lemma callInv_join:
  assumes "callInv s" and "ryReq s i = Admitted l" and "map_of (rvCalls (ryRv s)) l = Some c"
  shows "callInv (setPhase i (Awaiting l c) s)"
proof -
  obtain j where j: "ryReq s j = Leading l c" using assms call_leads by blast
  then have "c < rvNextCall (ryRv s)" using call_fresh [OF assms(1), of j] by simp
  moreover have "leaderInv (setPhase i (Awaiting l c) s)"
    using leads_elsewhere [OF assms(1), of i] assms(2)
    by (intro leaderInv_upd [OF assms(1), of _ i "Awaiting l c"]) (simp_all add: setPhase_def)
  moreover have "j \<noteq> i" using j assms(2) by auto
  with j have "\<exists>j. j \<noteq> i \<and> ryReq s j = Leading l c" by blast
  then have "waiterInv (setPhase i (Awaiting l c) s)"
    using assms(1,2) by - (rule waiterInv_upd [of s _ i "Awaiting l c"],
        simp_all add: callInv_def setPhase_def)
  ultimately show ?thesis using assms(1) by (auto simp: callInv_def freshInv_def setPhase_def)
qed

lemma callInv_lead:
  assumes "callInv s" and "ryReq s i = Admitted l" and "map_of (rvCalls (ryRv s)) l = None"
    and "ryReq t = (ryReq s)(i := Leading l (rvNextCall (ryRv s)))" and "ryDone t = ryDone s"
    and "rvCalls (ryRv t) = mapPut l (rvNextCall (ryRv s)) (rvCalls (ryRv s))"
    and "rvNextCall (ryRv t) = rvNextCall (ryRv s) + 1"
  shows "callInv t"
proof -
  let ?n = "rvNextCall (ryRv s)"
  have fresh: "owns (ryReq s j) \<noteq> Some ?n" for j
    using assms(1) owns_callOf [of "ryReq s j" ?n] by (auto simp: callInv_def freshInv_def)
  have undone: "ryDone s ?n = None" using assms(1) by (auto simp: callInv_def freshInv_def)
  have none: "ryReq s j \<noteq> Leading l c" for j c
    using call_leads [OF assms(1), of l c] assms(3) by auto
  have "leaderInv t"
    using leads_elsewhere [OF assms(1), of i] assms(2) fresh none
    by (intro leaderInv_upd [OF assms(1,4)]) (auto simp: assms(6) map_of_mapPut)
  moreover have "freshInv t"
    using assms(1) undone unfolding callInv_def freshInv_def assms(4,5,7) by (auto simp: less_Suc_eq)
  moreover have "waiterInv t"
    using assms(1,2,5) by (intro waiterInv_upd [OF _ assms(4)]) (auto simp: callInv_def)
  ultimately show ?thesis by (simp add: callInv_def)
qed

lemma callInv_look:
  assumes "callInv s" and "ryReq s i = Admitted l"
  shows "callInv (look fmt now i l s)"
proof (cases "map_of (rvCalls (ryRv s)) l")
  case (Some c)
  then show ?thesis using callInv_join [OF assms Some] by (simp add: look_def lookupCall_def)
next
  case None
  show ?thesis
  proof (cases "\<exists>f. map_of (rvFailures (ryRv s)) l = Some f \<and> Before now (rfRetryAt f)")
    case True
    with None assms show ?thesis
      by (auto simp: look_def lookupCall_def setPhase_def intro!: callInv_move [OF assms(1), of _ i])
  next
    case False
    with None show ?thesis
      by (intro callInv_lead [OF assms None])
        (auto simp: look_def lookupCall_def setPhase_def Let_def split: option.splits)
  qed
qed

lemma callInv_finish:
  assumes "callInv s" and "ryReq s i = Leading l c"
  shows "callInv (finish now i l c res s)"
proof -
  let ?t = "finish now i l c res s"
  have q: "ryReq ?t = (ryReq s)(i := Closing l c res)" "rvCalls (ryRv ?t) = mapDelete l (rvCalls (ryRv s))"
    "rvNextCall (ryRv ?t) = rvNextCall (ryRv s)" "ryDone ?t = ryDone s"
    by (simp_all add: finish_def setPhase_def)
  have own: "owns (ryReq s i) = Some c" using assms(2) by simp
  have only: "ryReq s j = Leading l d \<Longrightarrow> j = i" for j d
  proof -
    assume "ryReq s j = Leading l d"
    then have "map_of (rvCalls (ryRv s)) l = Some d" "map_of (rvCalls (ryRv s)) l = Some c"
      using assms call_leads by blast+
    then show "j = i" using call_unique [OF assms(1), of j c i] own \<open>ryReq s j = _\<close> by simp
  qed
  have "leaderInv ?t"
  proof (rule leaderInv_upd [OF assms(1) q(1)])
    show "owns (ryReq s j) \<noteq> Some d" if "owns (Closing l c res) = Some d" "j \<noteq> i" for j d
      using that own call_unique [OF assms(1), of j d i] by auto
    show "map_of (rvCalls (ryRv ?t)) m = Some d \<longleftrightarrow>
        (\<exists>j. j \<noteq> i \<and> ryReq s j = Leading m d) \<or> Closing l c res = Leading m d" for m d
    proof (cases "m = l")
      case True
      then show ?thesis using only by (auto simp: q(2) map_of_mapDelete)
    next
      case False
      then have "\<And>d. ryReq s i \<noteq> Leading m d" using assms(2) by auto
      from leads_elsewhere [OF assms(1) this, of d] False show ?thesis by (simp add: q(2) map_of_mapDelete)
    qed
  qed
  moreover have "freshInv ?t"
    using assms(1) own call_fresh [OF assms(1), of i c] call_undone [OF assms(1), of i c]
    by (simp add: callInv_def freshInv_def q owns_callOf)
  moreover have "waiterInv ?t"
    using assms q(4) by (intro waiterInv_upd [OF _ q(1)]) (auto simp: callInv_def)
  ultimately show ?thesis by (simp add: callInv_def)
qed

lemma callInv_close:
  assumes "callInv s" and "ryReq s i = Closing l c res"
  shows "callInv (closeDone i l c res s)"
proof -
  let ?t = "closeDone i l c res s"
  have q: "ryReq ?t = (ryReq s)(i := Leaving l res)" "ryRv ?t = ryRv s" "ryDone ?t = (ryDone s)(c := Some res)"
    by (simp_all add: closeDone_def setPhase_def)
  have own: "owns (ryReq s j) = Some c \<longleftrightarrow> j = i" for j
    using assms(2) call_unique [OF assms(1), of j c i] by auto
  have c: "c < rvNextCall (ryRv s)" using call_fresh [OF assms(1), of i] assms(2) by simp
  have "leaderInv ?t"
    using leads_elsewhere [OF assms(1), of i] assms(2)
    by (intro leaderInv_upd [OF assms(1) q(1)]) (simp_all add: q(2))
  moreover have "freshInv ?t"
    using assms(1) c own by (auto simp: callInv_def freshInv_def q)
  moreover have "waiterInv ?t"
    using assms q(3) by (intro waiterInv_upd [OF _ q(1)]) (auto simp: callInv_def)
  ultimately show ?thesis by (simp add: callInv_def)
qed

lemma callInv_step: "callInv s \<Longrightarrow> resolveStep fmt s t \<Longrightarrow> callInv t"
proof (erule resolveStep.cases, goal_cases)
  case (1 s' i label)
  then show ?case
    by - (rule callInv_move [of s _ i "ryReq (arrive i label s) i"],
        simp_all add: arrive_def addHeld_def setPhase_def Let_def)
next
  case (2 s' i)
  then show ?case by - (rule callInv_move [of s _ i Outside],
        simp_all add: leave_def addHeld_def setPhase_def)
next
  case (6 s' i label c res)
  then show ?case by - (rule callInv_move [of s _ i "Leaving label res"],
        simp_all add: setPhase_def)
next
  case (7 s' i label c)
  then show ?case
    by - (rule callInv_move [of s _ i "Leaving label (Explained (gaveUpWaiting fmt (ryRv s)) [])"],
        simp_all add: setPhase_def)
next
  case (8 s' i label c)
  then show ?case by - (rule callInv_move [of s _ i "Leaving label GaveUp"],
        simp_all add: setPhase_def)
next
  case (9 s' i label res)
  then show ?case by - (rule callInv_move [of s _ i Outside],
        simp_all add: leave_def addHeld_def setPhase_def)
qed (simp_all add: callInv_look callInv_finish callInv_close)

definition resolveInv :: "resolveSys \<Rightarrow> bool" where
  "resolveInv s \<longleftrightarrow> heldInv s \<and> callInv s"

lemma resolveInv_init: "resolveInit home e s \<Longrightarrow> resolveInv s"
  by (auto simp: resolveInit_def resolveInv_def heldInv_def callInv_def leaderInv_def freshInv_def
      waiterInv_def inside_def admitted_def newResolver_def Let_def)

interpretation resolving: inductive_invariant "resolveInit home e" "resolveStep fmt" resolveInv for home e fmt
  by unfold_locales (blast intro: resolveInv_init, auto simp: resolveInv_def intro: heldInv_step callInv_step)

section \<open>Properties\<close>

text \<open>
  C38. One resolution per label at a time, whatever requests arrive, wait, time out or leave in
  whatever order: two requests never run the resolution of one label together, at most
  \<open>hold_max_requests\<close> requests are past the limit at any moment, and the counter is the number of
  requests inside \<open>resolve\<close>, so it comes back to where it was when they have gone.
\<close>

theorem resolution_single_flight:
  assumes "reachable (resolveInit home e) (resolveStep fmt) s"
  shows "(\<forall>i j l c c'. ryReq s i = Leading l c \<longrightarrow> ryReq s j = Leading l c' \<longrightarrow> i = j) \<and>
    card (admitted s) \<le> nat (rvMaxHeld (ryRv s)) \<and>
    rvHeld (ryRv s) = int (card {i. ryReq s i \<noteq> Outside})"
proof -
  have inv: "callInv s" "heldInv s" using resolving.reachable_inv [OF assms] by (simp_all add: resolveInv_def)
  have "i = j" if "ryReq s i = Leading l c" "ryReq s j = Leading l c'" for i j l c c'
  proof -
    have "c = c'" using call_leads [OF inv(1)] that by (metis option.inject)
    then show ?thesis using call_unique [OF inv(1)] that by simp
  qed
  with inv(2) show ?thesis by (auto simp: heldInv_def inside_def)
qed

text \<open>
  C39. Nobody waits for a resolution that will not answer: a waiting request's call either has its
  outcome already, and the request can return with it, or some request is still resolving it or about
  to close it, and from there the steps that finish it lead to the waiting request returning with the
  very outcome that request got.
\<close>

theorem resolution_waiters_served:
  assumes "reachable (resolveInit home e) (resolveStep fmt) s" and "ryReq s i = Awaiting l c"
  shows "(\<exists>res. ryDone s c = Some res \<and> resolveStep fmt s (setPhase i (Leaving l res) s)) \<or>
    (\<exists>j. j \<noteq> i \<and> (\<forall>now res. ryReq s j = Leading l c \<longrightarrow>
        resolveStep fmt s (finish now j l c res s) \<and>
        resolveStep fmt (finish now j l c res s) (closeDone j l c res (finish now j l c res s)) \<and>
        resolveStep fmt (closeDone j l c res (finish now j l c res s))
          (setPhase i (Leaving l res) (closeDone j l c res (finish now j l c res s)))) \<and>
      (\<forall>res. ryReq s j = Closing l c res \<longrightarrow>
        resolveStep fmt s (closeDone j l c res s) \<and>
        resolveStep fmt (closeDone j l c res s) (setPhase i (Leaving l res) (closeDone j l c res s))) \<and>
      owns (ryReq s j) = Some c)"
proof -
  have inv: "callInv s" using resolving.reachable_inv [OF assms(1)] by (simp add: resolveInv_def)
  from call_owed [OF this assms(2)] consider res where "ryDone s c = Some res"
    | j where "ryReq s j = Leading l c \<or> (\<exists>res. ryReq s j = Closing l c res)" by auto
  then show ?thesis
  proof cases
    case (1 res)
    then show ?thesis using resolveStep.answered [OF assms(2) 1] by blast
  next
    case (2 j)
    then have "j \<noteq> i" "owns (ryReq s j) = Some c" using assms(2) by auto
    moreover have "resolveStep fmt (closeDone j l c res t) (setPhase i (Leaving l res) (closeDone j l c res t))"
      if "ryReq t i = Awaiting l c" for t res
      using that \<open>j \<noteq> i\<close> by (intro resolveStep.answered [where c = c]) (auto simp: closeDone_def setPhase_def)
    moreover have "resolveStep fmt t (finish now j l c res t)" if "ryReq t j = Leading l c" for t now res
      using that by (rule resolveStep.finishes)
    moreover have "resolveStep fmt t (closeDone j l c res t)" if "ryReq t j = Closing l c res" for t res
      using that by (rule resolveStep.closes)
    moreover have "ryReq (finish now j l c res s) j = Closing l c res"
      "ryReq (finish now j l c res s) i = Awaiting l c" for now res
      using assms(2) \<open>j \<noteq> i\<close> by (simp_all add: finish_def setPhase_def)
    ultimately show ?thesis using assms(2) by blast
  qed
qed

text \<open>The resolution failed with a 503 each time: when, and the page and log line it gave.\<close>

definition failAll ::
    "string \<Rightarrow> (time \<times> diagnostic \<times> string) list \<Rightarrow> resolver \<Rightarrow> resolver" where
  "failAll label fs rv = fold (\<lambda>(now, diag, detail). finishCall now label (Explained diag detail)) fs rv"

lemma failAll_record:
  assumes "\<forall>(now, diag, detail) \<in> set fs. dgStatus diag \<noteq> 404" and "fs \<noteq> []"
  shows "map_of (rvFailures (failAll label fs rv)) label =
    (case last fs of (now, diag, detail) \<Rightarrow>
       let n = (case map_of (rvFailures rv) label of Some f \<Rightarrow> rfCount f | None \<Rightarrow> 0) + int (length fs) in
       Some \<lparr>rfDiag = diag, rfDetail = detail, rfCount = n, rfRetryAt = now + resolveBackoff n\<rparr>)"
  using assms
proof (induction fs rule: rev_induct)
  case (snoc f fs)
  obtain now diag detail where f: "f = (now, diag, detail)" by (cases f)
  have step: "failAll label (fs @ [f]) rv = finishCall now label (Explained diag detail) (failAll label fs rv)"
    by (simp add: failAll_def f)
  note step = step [unfolded f]
  show ?case
  proof (cases "fs = []")
    case True
    then show ?thesis using snoc.prems f
      by (simp add: step failAll_def finishCall_def recordFailure_def Let_def map_of_mapPut split: option.split)
  next
    case False
    obtain now' diag' detail' where l: "last fs = (now', diag', detail')" by (metis prod_cases3)
    show ?thesis using snoc f False
      by (simp add: step finishCall_def recordFailure_def Let_def map_of_mapPut l algebra_simps split: option.split)
  qed
qed simp

text \<open>
  A failing label is left alone longer and longer: after n failures in a row (each answered with
  a 503) the label is not resolved again before \<open>resolveBackoff n\<close> from the last one, and every
  request meanwhile gets the remembered page; from that moment on the next request resolves it. A
  success or a 404 forgets the failures at once.
\<close>

theorem failed_label_backs_off:
  assumes "\<forall>(now, diag, detail) \<in> set fs. dgStatus diag \<noteq> 404" and "fs \<noteq> []"
    and "last fs = (t0, d0, r0)" and "map_of (rvFailures rv) label = None"
    and "map_of (rvCalls rv) label = None"
  shows "fst (lookupCall now label (failAll label fs rv)) =
      (if now < t0 + resolveBackoff (int (length fs))
       then StillFailing \<lparr>rfDiag = d0, rfDetail = r0, rfCount = int (length fs),
              rfRetryAt = t0 + resolveBackoff (int (length fs))\<rparr>
       else Lead (rvNextCall rv)) \<and>
    fst (lookupCall now label (finishCall t1 label (Served h) (failAll label fs rv))) = Lead (rvNextCall rv) \<and>
    (dgStatus d1 = 404 \<longrightarrow>
      fst (lookupCall now label (finishCall t1 label (Explained d1 r1) (failAll label fs rv))) =
        Lead (rvNextCall rv))"
proof -
  have frame: "rvNextCall (failAll label gs v) = rvNextCall v" for gs v
    by (induction gs arbitrary: v) (auto simp: failAll_def)
  have "map_of (rvCalls (failAll label gs v)) label = None" if "map_of (rvCalls v) label = None" for gs v
    using that by (induction gs arbitrary: v) (auto simp: failAll_def map_of_mapDelete)
  then have calls: "map_of (rvCalls (failAll label fs rv)) label = None" using assms(5) by blast
  have "fst (lookupCall now label (failAll label fs rv)) =
      (if now < t0 + resolveBackoff (int (length fs))
       then StillFailing \<lparr>rfDiag = d0, rfDetail = r0, rfCount = int (length fs),
              rfRetryAt = t0 + resolveBackoff (int (length fs))\<rparr>
       else Lead (rvNextCall rv))"
    using failAll_record [OF assms(1,2), of label rv] assms(3,4)
    by (simp add: lookupCall_def calls frame Let_def Before_def)
  moreover have "fst (lookupCall now label (finishCall t1 label res (failAll label fs rv))) = Lead (rvNextCall rv)"
    if "res = Served h \<or> (\<exists>d1 r1. res = Explained d1 r1 \<and> dgStatus d1 = 404)" for res
    using that by (auto simp: lookupCall_def finishCall_def map_of_mapDelete frame Let_def)
  ultimately show ?thesis by blast
qed

section \<open>Two requests for one label\<close>

definition demoSys :: resolveSys where
  "demoSys = \<lparr>ryRv = newResolver None emptyDiscovery, ryReq = (\<lambda>_. Outside), ryDone = (\<lambda>_. None)\<rparr>"

definition demoFmt :: fmtLib where
  "demoFmt = \<lparr>fmtQuote = id, fmtDuration = (\<lambda>_. ''1s'')\<rparr>"

definition demoTwo :: resolveSys where
  "demoTwo = look demoFmt 0 1 ''a'' (arrive 1 ''a'' (look demoFmt 0 0 ''a'' (arrive 0 ''a'' demoSys)))"

lemma demo_limit: "rvMaxHeld (newResolver None emptyDiscovery) = 100"
  by (simp add: newResolver_def ProjectFor_def emptyDiscovery_def emptyProject_def applyDefaults_def default_consts Let_def)

lemma demo_steps:
  "ryReq demoTwo 0 = Leading ''a'' 0" "ryReq demoTwo 1 = Awaiting ''a'' 0"
  "reachable (resolveInit None emptyDiscovery) (resolveStep demoFmt) demoTwo"
proof -
  let ?s1 = "arrive 0 ''a'' demoSys" let ?s2 = "look demoFmt 0 0 ''a'' ?s1" let ?s3 = "arrive 1 ''a'' ?s2"
  have lim: "rvMaxHeld (newResolver None emptyDiscovery) = 100" by (rule demo_limit)
  have z: "rvHeld (newResolver None emptyDiscovery) = 0" "rvCalls (newResolver None emptyDiscovery) = []"
    "rvFailures (newResolver None emptyDiscovery) = []" "rvNextCall (newResolver None emptyDiscovery) = 0"
    by (simp_all add: newResolver_def Let_def)
  have r1: "ryReq ?s1 0 = Admitted ''a''" "ryReq ?s1 1 = Outside" "rvHeld (ryRv ?s1) = 1"
      "rvMaxHeld (ryRv ?s1) = 100" "rvCalls (ryRv ?s1) = []" "rvFailures (ryRv ?s1) = []" "rvNextCall (ryRv ?s1) = 0"
    using lim z by (simp_all add: arrive_def demoSys_def addHeld_def setPhase_def Let_def)
  then have r2: "ryReq ?s2 0 = Leading ''a'' 0" "ryReq ?s2 1 = Outside" "rvHeld (ryRv ?s2) = 1"
      "rvMaxHeld (ryRv ?s2) = 100" "rvCalls (ryRv ?s2) = [(''a'', 0)]"
    by (simp_all add: look_def lookupCall_def setPhase_def Let_def mapPut_def mapDelete_def)
  then have r3: "ryReq ?s3 0 = Leading ''a'' 0" "ryReq ?s3 1 = Admitted ''a''" "rvCalls (ryRv ?s3) = [(''a'', 0)]"
    by (simp_all add: arrive_def addHeld_def setPhase_def Let_def)
  then show "ryReq demoTwo 0 = Leading ''a'' 0" "ryReq demoTwo 1 = Awaiting ''a'' 0"
    by (simp_all add: demoTwo_def look_def lookupCall_def setPhase_def)
  have "reachable (resolveInit None emptyDiscovery) (resolveStep demoFmt) demoSys"
    by (rule reach_init) (simp add: resolveInit_def demoSys_def)
  moreover have "resolveStep demoFmt demoSys ?s1" by (rule arrives) (simp add: demoSys_def)
  moreover have "resolveStep demoFmt ?s1 ?s2" by (rule looks) (rule r1)
  moreover have "resolveStep demoFmt ?s2 ?s3" by (rule arrives) (rule r2)
  moreover have "resolveStep demoFmt ?s3 demoTwo" unfolding demoTwo_def by (rule looks) (rule r3)
  ultimately show "reachable (resolveInit None emptyDiscovery) (resolveStep demoFmt) demoTwo"
    by (blast intro: reach_step)
qed

theorem resolution_single_flight_witness:
  "ryReq demoTwo 0 = Leading ''a'' 0 \<and> (\<forall>c. ryReq demoTwo 1 \<noteq> Leading ''a'' c) \<and>
   card (admitted demoTwo) \<le> nat (rvMaxHeld (ryRv demoTwo))"
  using resolution_single_flight [OF demo_steps(3)] demo_steps(1) by force

theorem resolution_waiters_served_witness:
  "\<exists>j. j \<noteq> 1 \<and> owns (ryReq demoTwo j) = Some 0"
proof -
  have "ryDone demoTwo 0 = None"
    using call_undone [of demoTwo 0 0] resolving.reachable_inv [OF demo_steps(3)] demo_steps(1)
    by (simp add: resolveInv_def)
  then show ?thesis using resolution_waiters_served [OF demo_steps(3,2)] by auto
qed

theorem failed_label_backs_off_witness:
  "fst (lookupCall (11 * timeSecond) ''a''
     (failAll ''a'' [(0, emptyDiagnostic\<lparr>dgStatus := 503\<rparr>, []), (10 * timeSecond, emptyDiagnostic\<lparr>dgStatus := 503\<rparr>, ''x'')]
       (newResolver None emptyDiscovery))) =
   StillFailing \<lparr>rfDiag = emptyDiagnostic\<lparr>dgStatus := 503\<rparr>, rfDetail = ''x'', rfCount = 2, rfRetryAt = 12 * timeSecond\<rparr>"
proof -
  have b: "resolveBackoff 2 = 2 * timeSecond"
    by (simp add: resolveBackoff_def backoff_consts numeral_2_eq_2)
  show ?thesis
    using failed_label_backs_off [of "[(0, emptyDiagnostic\<lparr>dgStatus := 503\<rparr>, []),
        (10 * timeSecond, emptyDiagnostic\<lparr>dgStatus := 503\<rparr>, ''x'')]" "10 * timeSecond"
        "emptyDiagnostic\<lparr>dgStatus := 503\<rparr>" "''x''" "newResolver None emptyDiscovery" "''a''" "11 * timeSecond"]
    by (simp add: b newResolver_def Let_def time_simps)
qed

end
