(* ===== verification/WorktreeScan.thy ===== *)
theory WorktreeScan
  imports DiscoveryConfig "HOL-Library.List_Lexorder" "HOL-Library.Char_ord"
begin

text \<open>
  Which subdirectories are worktrees (\<open>internal/discovery/scan.go\<close>): the rules for one
  subdirectory, the on-demand check of one label and the scan of the whole directory. What the
  code asks of the file system is the record \<open>osView\<close>, and \<open>links\<close> for \<open>filepath.EvalSymlinks\<close>
  (\<open>None\<close>: its error).
\<close>

section \<open>The .git file of a worktree\<close>

text \<open>
  The lines of \<open>bufio.Scanner\<close>: without the line feed and one carriage return before it, no line
  after the last line feed when nothing follows it.
\<close>

definition dropCR :: "string \<Rightarrow> string" where
  "dropCR l = trimSuffix l [CHR 0x0D]"

definition scannerLines :: "string \<Rightarrow> string list" where
  "scannerLines s =
     (let ls = splitByte (CHR 0x0A) s in if last ls = [] then butlast ls else ls)"

text \<open>The scanner gives up at a line that does not fit its buffer.\<close>

definition MaxScanTokenSize :: nat where
  "MaxScanTokenSize = 64 * 1024"

datatype gitdirError = CannotOpen | LineTooLong | NoGitdirLine

fun gitdirOf :: "string list \<Rightarrow> gitdirError + string" where
  "gitdirOf [] = Inl NoGitdirLine"
| "gitdirOf (raw # ls) =
     (if MaxScanTokenSize \<le> length raw then Inl LineTooLong
      else (case cutPrefix (TrimSpace (dropCR raw)) ''gitdir:'' of
              None \<Rightarrow> gitdirOf ls
            | Some rest \<Rightarrow> if TrimSpace rest \<noteq> [] then Inr (TrimSpace rest) else gitdirOf ls))"

definition readGitdir :: "osView \<Rightarrow> string \<Rightarrow> gitdirError + string" where
  "readGitdir os path =
     (case osReadFile os path of
        None \<Rightarrow> Inl CannotOpen
      | Some text \<Rightarrow> gitdirOf (scannerLines text))"

section \<open>The rules for one subdirectory\<close>

datatype rejection =
    IsExcluded
  | NoSuchDirectory
  | NotADirectory
  | NotGit
  | StandaloneRepository
  | UnreadableGitFile gitdirError
  | StaleWorktree string
  | OtherRepository string
  | MissingFiles "string list"
  | NotADNSLabel

record inspector =
  inEntry :: discovery
  inWorktreesDir :: string

definition resolvedOr :: "(string \<Rightarrow> string option) \<Rightarrow> string \<Rightarrow> string" where
  "resolvedOr links p = (case links p of Some r \<Rightarrow> r | None \<Rightarrow> p)"

definition newInspector :: "(string \<Rightarrow> string option) \<Rightarrow> discovery \<Rightarrow> inspector" where
  "newInspector links d =
     \<lparr>inEntry = d,
      inWorktreesDir =
        (if dRepository d = [] then []
         else resolvedOr links (filepathJoin [resolvedOr links (dRepository d), ''.git'', ''worktrees'']))\<rparr>"

definition missingFiles :: "osView \<Rightarrow> string \<Rightarrow> string list \<Rightarrow> string list" where
  "missingFiles os dir files = filter (\<lambda>f. osStat os (filepathJoin [dir, f]) = None) files"

text \<open>The repository filter: the \<open>.git\<close> file must point into the repository's worktrees.\<close>

definition checkLinked ::
    "osView \<Rightarrow> (string \<Rightarrow> string option) \<Rightarrow> inspector \<Rightarrow> string \<Rightarrow> fileKind \<Rightarrow> rejection option" where
  "checkLinked os links ins dir gitInfo =
     (if dRepository (inEntry ins) = [] then None
      else if gitInfo = Directory then Some StandaloneRepository
      else (case readGitdir os (filepathJoin [dir, ''.git'']) of
              Inl e \<Rightarrow> Some (UnreadableGitFile e)
            | Inr g \<Rightarrow>
                (let gitdir = (if IsAbs g then g else filepathJoin [dir, g])
                 in (case links gitdir of
                       None \<Rightarrow> Some (StaleWorktree gitdir)
                     | Some resolved \<Rightarrow>
                         if hasPrefix resolved (inWorktreesDir ins @ [slash]) then None
                         else Some (OtherRepository gitdir)))))"

text \<open>The path, why it is no candidate, and whether a scan stays silent about it.\<close>

definition inspect ::
    "osView \<Rightarrow> (string \<Rightarrow> string option) \<Rightarrow> inspector \<Rightarrow> string \<Rightarrow>
      string \<times> rejection option \<times> bool" where
  "inspect os links ins name =
     (let d = inEntry ins; dir = filepathJoin [dDirectory d, name] in
      if Excluded os d name then (dir, Some IsExcluded, True)
      else (case osStat os dir of
              None \<Rightarrow> (dir, Some NoSuchDirectory, True)
            | Some k \<Rightarrow>
                if k \<noteq> Directory then (dir, Some NotADirectory, True)
                else (case osStat os (filepathJoin [dir, ''.git'']) of
                        None \<Rightarrow> (dir, Some NotGit, True)
                      | Some gitInfo \<Rightarrow>
                          (case checkLinked os links ins dir gitInfo of
                             Some r \<Rightarrow> (dir, Some r, False)
                           | None \<Rightarrow>
                               (let missing = missingFiles os dir (dRequireFiles d) in
                                if missing \<noteq> [] then (dir, Some (MissingFiles missing), False)
                                else if \<not> IsDNSLabel name then (dir, Some NotADNSLabel, False)
                                else (dir, None, False))))))"

definition Check ::
    "osView \<Rightarrow> (string \<Rightarrow> string option) \<Rightarrow> discovery \<Rightarrow> string \<Rightarrow> string \<times> rejection option" where
  "Check os links d label =
     (if \<not> IsDNSLabel label then (filepathJoin [dDirectory d, label], Some NotADNSLabel)
      else (let (dir, reason, _) = inspect os links (newInspector links d) label in (dir, reason)))"

section \<open>The scan\<close>

record skip =
  skName :: string
  skDirectory :: string
  skReason :: rejection

text \<open>A candidate is its name and its directory. \<open>sort.Slice\<close> is given distinct names.\<close>

type_synonym worktree = "string \<times> string"

definition scanEntry ::
    "osView \<Rightarrow> (string \<Rightarrow> string option) \<Rightarrow> inspector \<Rightarrow> string \<Rightarrow>
      worktree list \<times> skip list \<Rightarrow> worktree list \<times> skip list" where
  "scanEntry os links ins name = (\<lambda>(cs, sks).
     case inspect os links ins name of
       (dir, None, _) \<Rightarrow> (cs @ [(name, dir)], sks)
     | (dir, Some r, silent) \<Rightarrow>
         if silent then (cs, sks)
         else (cs, sks @ [\<lparr>skName = name, skDirectory = dir, skReason = r\<rparr>]))"

text \<open>\<open>None\<close>: the directory cannot be read.\<close>

definition scan ::
    "osView \<Rightarrow> (string \<Rightarrow> string option) \<Rightarrow> discovery \<Rightarrow> (worktree list \<times> skip list) option" where
  "scan os links d =
     (case osReadDir os (dDirectory d) of
        Some (Inr entries) \<Rightarrow>
          (let (cs, sks) = fold (scanEntry os links (newInspector links d)) (map fst entries) ([], [])
           in Some (sort_key fst cs, sort_key skName sks))
      | _ \<Rightarrow> None)"

section \<open>Lemmas\<close>

lemma sort_key_map: "sort_key f (map g xs) = map g (sort_key (\<lambda>x. f (g x)) xs)"
proof -
  have "insort_key f (g x) (map g ys) = map g (insort_key (\<lambda>x. f (g x)) x ys)" for x ys
    by (induction ys) auto
  then show ?thesis by (induction xs) simp_all
qed

lemma inspect_dir: "fst (inspect os links ins name) = filepathJoin [dDirectory (inEntry ins), name]"
  by (simp add: inspect_def Let_def split: option.split)

text \<open>What it takes to be accepted.\<close>

definition linkedInto :: "osView \<Rightarrow> (string \<Rightarrow> string option) \<Rightarrow> discovery \<Rightarrow> string \<Rightarrow> bool" where
  "linkedInto os links d dir \<longleftrightarrow>
     osStat os (filepathJoin [dir, ''.git'']) \<noteq> Some Directory \<and>
     (\<exists>g target rest. readGitdir os (filepathJoin [dir, ''.git'']) = Inr g \<and>
        links (if IsAbs g then g else filepathJoin [dir, g]) = Some target \<and>
        target = inWorktreesDir (newInspector links d) @ slash # rest)"

definition servable :: "osView \<Rightarrow> (string \<Rightarrow> string option) \<Rightarrow> discovery \<Rightarrow> string \<Rightarrow> bool" where
  "servable os links d name \<longleftrightarrow>
     (let dir = filepathJoin [dDirectory d, name] in
      IsDNSLabel name \<and> \<not> Excluded os d name \<and> osStat os dir = Some Directory \<and>
      osStat os (filepathJoin [dir, ''.git'']) \<noteq> None \<and>
      (\<forall>f \<in> set (dRequireFiles d). osStat os (filepathJoin [dir, f]) \<noteq> None) \<and>
      (dRepository d \<noteq> [] \<longrightarrow> linkedInto os links d dir))"

lemma checkLinked_None:
  assumes "inEntry ins = d" and "ins = newInspector links d"
    and "osStat os (filepathJoin [dir, ''.git'']) = Some gitInfo"
  shows "checkLinked os links ins dir gitInfo = None \<longleftrightarrow> (dRepository d \<noteq> [] \<longrightarrow> linkedInto os links d dir)"
  using assms
  by (auto simp: checkLinked_def linkedInto_def Let_def hasPrefix_iff split: sum.split option.split)

lemma missingFiles_Nil: "missingFiles os dir fs = [] \<longleftrightarrow> (\<forall>f \<in> set fs. osStat os (filepathJoin [dir, f]) \<noteq> None)"
  by (simp add: missingFiles_def filter_empty_conv)

lemma inspect_accepts: "fst (snd (inspect os links (newInspector links d) name)) = None \<longleftrightarrow> servable os links d name"
proof -
  have e: "inEntry (newInspector links d) = d" by (simp add: newInspector_def)
  show ?thesis
    by (auto simp: inspect_def servable_def Let_def e checkLinked_None [OF e refl] missingFiles_Nil
        split: option.splits)
      (use checkLinked_None [OF e refl] in \<open>metis option.distinct(1)\<close>)+
qed

lemma Check_accepts: "snd (Check os links d label) = None \<longleftrightarrow> servable os links d label"
  using inspect_accepts [of os links d label]
  by (auto simp: Check_def servable_def Let_def split: prod.splits)

lemma Check_dir: "fst (Check os links d label) = filepathJoin [dDirectory d, label]"
  using inspect_dir [of os links "newInspector links d" label]
  by (auto simp: Check_def newInspector_def Let_def split: prod.splits)

text \<open>The skipped names: rejected for a reason worth reporting.\<close>

definition reported :: "osView \<Rightarrow> (string \<Rightarrow> string option) \<Rightarrow> discovery \<Rightarrow> string \<Rightarrow> bool" where
  "reported os links d name \<longleftrightarrow>
     (let (_, r, silent) = inspect os links (newInspector links d) name in r \<noteq> None \<and> \<not> silent)"

lemma scanEntry_eq:
  "scanEntry os links (newInspector links d) n (cs, sks) =
     (if servable os links d n then (cs @ [(n, filepathJoin [dDirectory d, n])], sks)
      else if reported os links d n
      then (cs, sks @ [\<lparr>skName = n, skDirectory = filepathJoin [dDirectory d, n],
               skReason = the (fst (snd (inspect os links (newInspector links d) n)))\<rparr>])
      else (cs, sks))"
  and reported_rejected: "reported os links d n \<Longrightarrow> \<not> servable os links d n"
proof -
  obtain dir r silent where i: "inspect os links (newInspector links d) n = (dir, r, silent)"
    by (metis prod_cases3)
  then have "dir = filepathJoin [dDirectory d, n]" "r = None \<longleftrightarrow> servable os links d n"
    using inspect_dir [of os links "newInspector links d" n] inspect_accepts [of os links d n]
    by (simp_all add: newInspector_def)
  with i show "scanEntry os links (newInspector links d) n (cs, sks) =
     (if servable os links d n then (cs @ [(n, filepathJoin [dDirectory d, n])], sks)
      else if reported os links d n
      then (cs, sks @ [\<lparr>skName = n, skDirectory = filepathJoin [dDirectory d, n],
               skReason = the (fst (snd (inspect os links (newInspector links d) n)))\<rparr>])
      else (cs, sks))" "reported os links d n \<Longrightarrow> \<not> servable os links d n"
    by (cases r; auto simp: scanEntry_def reported_def)+
qed

lemma scan_fold:
  "fold (scanEntry os links (newInspector links d)) ns (cs, sks) =
     (cs @ map (\<lambda>n. (n, filepathJoin [dDirectory d, n])) (filter (servable os links d) ns),
      sks @ map (\<lambda>n. \<lparr>skName = n, skDirectory = filepathJoin [dDirectory d, n],
               skReason = the (fst (snd (inspect os links (newInspector links d) n)))\<rparr>)
            (filter (reported os links d) ns))"
  by (induction ns arbitrary: cs sks) (auto simp: scanEntry_eq reported_rejected)

section \<open>Properties\<close>

text \<open>
  A label is served only from a worktree of the entry: the on-demand check accepts a label
  exactly when it is a DNS label, not excluded, names a directory directly under the entry's
  directory with something called \<open>.git\<close> and every required file in it, and, with a repository
  filter, that \<open>.git\<close> is a file whose \<open>gitdir:\<close> line resolves, through every symbolic link, to a
  path strictly below the repository's own \<open>.git/worktrees\<close>. The path it answers is that directory.
\<close>

theorem check_accepts_exactly_worktrees:
  "(snd (Check os links d label) = None \<longleftrightarrow> servable os links d label) \<and>
   fst (Check os links d label) = filepathJoin [dDirectory d, label]"
  by (simp add: Check_accepts Check_dir)

text \<open>
  Scanning and checking agree: a sync finds exactly the subdirectories whose name the on-demand
  check accepts, in the order of their names; it reports only rejected ones, in order, each once.
\<close>

theorem scan_agrees_with_check:
  assumes "osReadDir os (dDirectory d) = Some (Inr entries)" and "scan os links d = Some (cs, sks)"
  shows "cs = map (\<lambda>n. (n, fst (Check os links d n)))
           (sort (filter (\<lambda>n. snd (Check os links d n) = None) (map fst entries)))"
    and "map skName sks = sort (filter (reported os links d) (map fst entries))"
    and "sk \<in> set sks \<Longrightarrow> snd (Check os links d (skName sk)) \<noteq> None"
proof -
  let ?f = "\<lambda>n. (n, filepathJoin [dDirectory d, n])"
  let ?g = "\<lambda>n. \<lparr>skName = n, skDirectory = filepathJoin [dDirectory d, n],
               skReason = the (fst (snd (inspect os links (newInspector links d) n)))\<rparr>"
  have s: "cs = sort_key fst (map ?f (filter (servable os links d) (map fst entries)))"
    "sks = sort_key skName (map ?g (filter (reported os links d) (map fst entries)))"
    using assms by (simp_all add: scan_def scan_fold)
  show "cs = map (\<lambda>n. (n, fst (Check os links d n)))
           (sort (filter (\<lambda>n. snd (Check os links d n) = None) (map fst entries)))"
    by (simp add: s(1) sort_key_map Check_dir Check_accepts)
  show names: "map skName sks = sort (filter (reported os links d) (map fst entries))"
    by (simp add: s(2) sort_key_map comp_def)
  show "snd (Check os links d (skName sk)) \<noteq> None" if "sk \<in> set sks"
  proof -
    have "skName sk \<in> set (map skName sks)" using that by simp
    then have "reported os links d (skName sk)" unfolding names by simp
    then have "\<not> servable os links d (skName sk)" by (rule reported_rejected)
    then show ?thesis by (simp add: Check_accepts)
  qed
qed

section \<open>One worktree of a repository\<close>

definition wtOS :: osView where
  "wtOS =
     \<lparr>osHome = None, osCwd = ''/'', 
      osStat = (\<lambda>p. if p \<in> {''/w/feat'', ''/w/Bad'', ''/w/main'', ''/w/main/.git''} then Some Directory
                    else if p \<in> {''/w/feat/.git'', ''/w/Bad/.git''} then Some RegularFile else None),
      osReadDir = (\<lambda>p. Some (Inr [(''main'', True), (''feat'', True), (''Bad'', True), (''note'', False)])),
      osReadFile = (\<lambda>p. Some ''gitdir: /r/.git/worktrees/x''),
      osURL = (\<lambda>_. None), osLoopbackIP = (\<lambda>_. False), osGlob = (\<lambda>_ _. Some False)\<rparr>"

definition wtEntry :: discovery where
  "wtEntry = emptyDiscovery\<lparr>dDirectory := ''/w'', dRepository := ''/r''\<rparr>"

lemma wt_fields [simp]:
  "dDirectory wtEntry = ''/w''" "dRepository wtEntry = ''/r''" "dRequireFiles wtEntry = []"
  "dExclude wtEntry = None"
  by (simp_all add: wtEntry_def emptyDiscovery_def)

lemma wt_paths:
  "filepathJoin [''/w'', ''feat''] = ''/w/feat''" "filepathJoin [''/w'', ''main''] = ''/w/main''"
  "filepathJoin [''/w'', ''Bad''] = ''/w/Bad''" "filepathJoin [''/w'', ''note''] = ''/w/note''"
  "filepathJoin [''/w/feat'', ''.git''] = ''/w/feat/.git''" "filepathJoin [''/w/main'', ''.git''] = ''/w/main/.git''"
  "filepathJoin [''/w/Bad'', ''.git''] = ''/w/Bad/.git''"
  "filepathJoin [''/r'', ''.git'', ''worktrees''] = ''/r/.git/worktrees''"
  by code_simp+

lemma wt_gitdir: "gitdirOf (scannerLines ''gitdir: /r/.git/worktrees/x'') = Inr ''/r/.git/worktrees/x''"
proof -
  have s: "spaceWidth '' /r/.git/worktrees/x'' = 1" "drop 1 '' /r/.git/worktrees/x'' = ''/r/.git/worktrees/x''"
    by (simp_all add: asciiSpace_def)
  have t: "TrimSpace ''/r/.git/worktrees/x'' = ''/r/.git/worktrees/x''"
    "TrimSpace ''gitdir: /r/.git/worktrees/x'' = ''gitdir: /r/.git/worktrees/x''"
    by (rule TrimSpace_printable; simp add: printable_def)+
  have "trimLeftSpace '' /r/.git/worktrees/x'' = trimLeftSpace ''/r/.git/worktrees/x''"
    using s by (subst trimLeftSpace.simps) simp
  then have u: "TrimSpace '' /r/.git/worktrees/x'' = ''/r/.git/worktrees/x''"
    using t(1) by (simp add: TrimSpace_def)
  have l: "scannerLines ''gitdir: /r/.git/worktrees/x'' = [''gitdir: /r/.git/worktrees/x'']"
    by (simp add: scannerLines_def)
  show ?thesis
    by (simp add: l dropCR_def trimSuffix_def cutSuffix_def hasSuffix_def MaxScanTokenSize_def t u
        cutPrefix_def hasPrefix_def)
qed

lemma wt_labels: "IsDNSLabel ''feat''" "\<not> IsDNSLabel ''Bad''"
  by code_simp+

lemma wt_inspect:
  "inspect wtOS Some (newInspector Some wtEntry) ''feat'' = (''/w/feat'', None, False)"
  "inspect wtOS Some (newInspector Some wtEntry) ''main'' = (''/w/main'', Some StandaloneRepository, False)"
  "inspect wtOS Some (newInspector Some wtEntry) ''Bad'' = (''/w/Bad'', Some NotADNSLabel, False)"
  "inspect wtOS Some (newInspector Some wtEntry) ''note'' = (''/w/note'', Some NoSuchDirectory, True)"
  by (simp_all add: inspect_def newInspector_def checkLinked_def wtOS_def Excluded_def wt_paths Let_def
      readGitdir_def wt_gitdir resolvedOr_def hasPrefix_def IsAbs_def slash_def missingFiles_def wt_labels)

lemma wt_scan: "\<exists>cs sks. scan wtOS Some wtEntry = Some (cs, sks) \<and>
    \<lparr>skName = ''main'', skDirectory = ''/w/main'', skReason = StandaloneRepository\<rparr> \<in> set sks"
  by (simp add: scan_def wtOS_def [THEN arg_cong, of osReadDir] scanEntry_def wt_inspect)

theorem scan_agrees_with_check_witness:
  "snd (Check wtOS Some wtEntry ''main'') \<noteq> None"
proof -
  obtain cs sks where r: "scan wtOS Some wtEntry = Some (cs, sks)"
    "\<lparr>skName = ''main'', skDirectory = ''/w/main'', skReason = StandaloneRepository\<rparr> \<in> set sks"
    using wt_scan by blast
  have d: "osReadDir wtOS (dDirectory wtEntry) =
      Some (Inr [(''main'', True), (''feat'', True), (''Bad'', True), (''note'', False)])"
    by (simp add: wtOS_def)
  from scan_agrees_with_check(3) [OF d r] show ?thesis by simp
qed

end
