(* ===== verification/PortCommand.thy ===== *)
theory PortCommand
  imports EnvFile "HOL-Library.List_Lexorder"
begin

text \<open>
  Finding a development server's port (\<open>internal/discovery/portcmd.go\<close>): running the entry's
  \<open>port_command\<close> and reading the port out of what it prints. The shell is a parameter, and
  \<open>url.Parse\<close> one that answers scheme and host.
\<close>

section \<open>Reading the output\<close>

datatype portError =
    PrintedNothing
  | PortOutOfRange int string
  | NonNumericURLPort string
  | NoPortFound string

definition checkPort :: "int \<Rightarrow> string \<Rightarrow> portError + int" where
  "checkPort port source =
     (if port < 1 \<or> port > 65535 then Inl (PortOutOfRange port source) else Inr port)"

definition isDigit :: "char \<Rightarrow> bool" where
  "isDigit c \<longleftrightarrow> digitVal c \<noteq> None"

text \<open>The submatch of the expression \<open>(\d+)\s*$\<close>, leftmost and greedy: the digits before the white space at the end.\<close>

definition regexpSpace :: "char \<Rightarrow> bool" where
  "regexpSpace c \<longleftrightarrow> c \<in> set [CHR 0x09, CHR 0x0A, CHR 0x0C, CHR 0x0D, CHR 0x20]"

definition trailingInteger :: "string \<Rightarrow> string option" where
  "trailingInteger s =
     (let digits = rev (takeWhile isDigit (dropWhile regexpSpace (rev s)))
      in if digits = [] then None else Some digits)"

text \<open>\<open>(*url.URL).Port\<close>: what follows the last colon of the host, when it is only digits.\<close>

definition urlPort :: "string \<Rightarrow> string" where
  "urlPort host =
     (case lastIndexByte (CHR '':'') host of
        None \<Rightarrow> []
      | Some i \<Rightarrow> (let p = drop (Suc i) host in if list_all isDigit p then p else []))"

definition portOfURL :: "string \<Rightarrow> string \<Rightarrow> string \<Rightarrow> portError + int" where
  "portOfURL scheme host source =
     (if urlPort host \<noteq> []
      then (case Atoi (urlPort host) of
              None \<Rightarrow> Inl (NonNumericURLPort source)
            | Some port \<Rightarrow> checkPort port source)
      else if scheme = ''https'' then Inr 443 else Inr 80)"

definition lastLine :: "string \<Rightarrow> string" where
  "lastLine trimmed = TrimSpace (last (splitByte (CHR 0x0A) trimmed))"

definition parsePort :: "(string \<Rightarrow> (string \<times> string) option) \<Rightarrow> string \<Rightarrow> portError + int" where
  "parsePort url output =
     (let trimmed = TrimSpace output; source = lastLine trimmed;
          fallback =
            (case trailingInteger trimmed of
               None \<Rightarrow> Inl (NoPortFound source)
             | Some digits \<Rightarrow>
                 (case Atoi digits of
                    None \<Rightarrow> Inl (NoPortFound source)
                  | Some port \<Rightarrow> checkPort port source))
      in if trimmed = [] then Inl PrintedNothing
         else (case Atoi source of
                 Some port \<Rightarrow> checkPort port source
               | None \<Rightarrow>
                   (case url source of
                      Some (scheme, host) \<Rightarrow>
                        if (scheme = ''http'' \<or> scheme = ''https'') \<and> host \<noteq> []
                        then portOfURL scheme host source else fallback
                    | None \<Rightarrow> fallback)))"

section \<open>Running the command\<close>

text \<open>The ellipsis in UTF-8.\<close>

definition ellipsis :: string where
  "ellipsis = [CHR 0xE2, CHR 0x80, CHR 0xA6]"

definition outputHint :: "string \<Rightarrow> string \<Rightarrow> string" where
  "outputHint stderr stdout =
     (let out = (if TrimSpace stderr = [] then TrimSpace stdout else TrimSpace stderr) in
      if out = [] then []
      else (let ls = splitByte (CHR 0x0A) out;
                shown = (if 5 < length ls then ellipsis # drop (length ls - 5) ls else ls)
            in '': '' @ joinStrings shown '' / ''))"

text \<open>What a run of the shell ends in: the time limit, an error with the output so far, or success.\<close>

datatype shellResult =
    TimedOut
  | Failed string string string
  | Exited string

datatype runError =
    EnvUnusable envError
  | CommandTimedOut string
  | CommandFailed string string string
  | BadOutput string portError

text \<open>\<open>shell dir env command\<close>: one bounded run in the directory with that environment.\<close>

type_synonym shell = "string \<Rightarrow> string list \<Rightarrow> string \<Rightarrow> shellResult"

definition RunPortCommand ::
    "envOS \<Rightarrow> (string \<Rightarrow> (string \<times> string) option) \<Rightarrow> shell \<Rightarrow> string \<Rightarrow> string \<Rightarrow> project \<Rightarrow>
      runError + int" where
  "RunPortCommand eos url sh dir command template =
     (case fst (ChildEnv eos template dir) of
        Inl e \<Rightarrow> Inl (EnvUnusable e)
      | Inr env \<Rightarrow>
          (case sh dir env command of
             TimedOut \<Rightarrow> Inl (CommandTimedOut command)
           | Failed err stdout stderr \<Rightarrow> Inl (CommandFailed command err (outputHint stderr stdout))
           | Exited stdout \<Rightarrow>
               (case parsePort url stdout of
                  Inl e \<Rightarrow> Inl (BadOutput command e)
                | Inr port \<Rightarrow> Inr port)))"

section \<open>Lemmas\<close>

lemma checkPort_Inr: "checkPort p s = Inr q \<longleftrightarrow> q = p \<and> 1 \<le> p \<and> p \<le> 65535"
  by (auto simp: checkPort_def)

lemma parsePort_range: "parsePort url output = Inr p \<Longrightarrow> 1 \<le> p \<and> p \<le> 65535"
  by (auto simp: parsePort_def portOfURL_def checkPort_Inr Let_def split: if_splits option.splits)

lemma showNat_digits: "c \<in> set (showNat n) \<Longrightarrow> \<exists>d < 10. c = digitChar d"
proof (induction n rule: showNat.induct)
  case (1 n)
  show ?case
  proof (cases "n < 10")
    case True
    then show ?thesis using 1(2) by (subst (asm) showNat.simps) auto
  next
    case False
    then have "c \<in> set (showNat (n div 10)) \<or> c = digitChar (n mod 10)"
      using 1(2) by (subst (asm) showNat.simps) auto
    then show ?thesis
    proof
      assume "c = digitChar (n mod 10)"
      then show ?thesis by (intro exI [of _ "n mod 10"]) simp
    qed (use 1(1) False in simp)
  qed
qed

lemma digitChar_code: "d < 10 \<Longrightarrow> (of_char (digitChar d) :: nat) = 48 + d"
  by (simp add: digitChar_def)

lemma showNat_printable:
  assumes "c \<in> set (showNat n)"
  shows "printable c \<and> c \<noteq> CHR 0x0A"
proof -
  obtain d where d: "d < 10" "c = digitChar d" using showNat_digits [OF assms] by blast
  then have "(of_char c :: nat) = 48 + d" by (simp add: digitChar_code)
  then show ?thesis using d(1) by (auto simp: printable_def)
qed

lemma TrimSpace_showNat: "TrimSpace (showNat n) = showNat n"
  using showNat_printable [of "hd (showNat n)" n] showNat_printable [of "last (showNat n)" n]
  by (intro TrimSpace_printable) (auto simp: hd_in_set last_in_set)

text \<open>What trimming leaves of an output whose last line is printable.\<close>

lemma spaceWidth_within: "u \<noteq> [] \<Longrightarrow> spaceWidth (u @ CHR 0x0A # x) \<le> length u"
proof -
  have no: "\<not> spaceRune3 a b (CHR 0x0A)" "\<not> spaceRune3 a (CHR 0x0A) b" for a b
    by (auto simp: spaceRune3_def)
  assume "u \<noteq> []"
  then obtain a u1 where u: "u = a # u1" by (cases u) auto
  show ?thesis
  proof (cases u1)
    case Nil
    then show ?thesis by (auto simp: u no split: list.split)
  next
    case (Cons b u2)
    then show ?thesis by (cases u2) (auto simp: u no)
  qed
qed

lemma trimLeft_keeps_tail:
  assumes "x \<noteq> []" and "printable (hd x)"
  shows "trimLeftSpace (u @ CHR 0x0A # x) = x \<or> (\<exists>v. trimLeftSpace (u @ CHR 0x0A # x) = v @ CHR 0x0A # x)"
proof (induction "length u" arbitrary: u rule: less_induct)
  case less
  have x: "trimLeftSpace x = x"
    using assms by (cases x) (simp_all add: trimLeftSpace_id spaceWidth_printable del: spaceWidth.simps)
  show ?case
  proof (cases "u = [] \<or> spaceWidth (u @ CHR 0x0A # x) = 0")
    case True
    then show ?thesis
    proof
      assume "u = []"
      then have "trimLeftSpace (u @ CHR 0x0A # x) = trimLeftSpace x"
        by (subst trimLeftSpace.simps) (simp add: asciiSpace_def)
      then show ?thesis using x by simp
    qed (auto simp: trimLeftSpace_id)
  next
    case False
    let ?k = "spaceWidth (u @ CHR 0x0A # x)"
    have k: "?k \<le> length u" "0 < ?k" using False spaceWidth_within by simp_all
    then have "trimLeftSpace (u @ CHR 0x0A # x) = trimLeftSpace (drop ?k u @ CHR 0x0A # x)"
      by (subst trimLeftSpace.simps) simp
    moreover have "length (drop ?k u) < length u" using k False by simp
    ultimately show ?thesis using less [of "drop ?k u"] by simp
  qed
qed

lemma trimRight_spaces:
  assumes "s \<noteq> []" and "printable (last s)" and "list_all asciiSpace w"
  shows "trimRightSpace (s @ w) = s"
  using assms(3)
proof (induction w rule: rev_induct)
  case Nil
  then show ?case using assms by (simp add: trimRightSpace_id spaceWidthEnd_printable)
next
  case (snoc c w)
  then have "spaceWidthEnd (s @ w @ [c]) = 1" by (simp add: spaceWidthEnd_def)
  then have "trimRightSpace (s @ w @ [c]) = trimRightSpace (s @ w)"
    by (subst trimRightSpace.simps) (simp del: append_assoc add: append_assoc [symmetric])
  with snoc show ?case by simp
qed

lemma last_splitByte: "last (splitByte c (s @ c # t)) = last (splitByte c t)"
proof -
  have "\<exists>p ps. splitByte c (s @ c # t) = p # ps \<and> ps \<noteq> [] \<and> last ps = last (splitByte c t)"
    by (induction s) auto
  then show ?thesis by auto
qed

text \<open>The right trim comes after the left one; on a tail of ASCII space the order is the same.\<close>

lemma TrimSpace_tail:
  assumes "x \<noteq> []" "printable (hd x)" "printable (last x)" "list_all asciiSpace w"
  shows "TrimSpace (u @ CHR 0x0A # x @ w) = x \<or> (\<exists>v. TrimSpace (u @ CHR 0x0A # x @ w) = v @ CHR 0x0A # x)"
proof -
  have "x @ w \<noteq> []" "printable (hd (x @ w))" using assms by simp_all
  from trimLeft_keeps_tail [OF this, of u] show ?thesis
  proof
    assume "trimLeftSpace (u @ CHR 0x0A # x @ w) = x @ w"
    then show ?thesis using trimRight_spaces [of x w] assms by (simp add: TrimSpace_def)
  next
    assume "\<exists>v. trimLeftSpace (u @ CHR 0x0A # x @ w) = v @ CHR 0x0A # x @ w"
    then obtain v where "trimLeftSpace (u @ CHR 0x0A # x @ w) = (v @ CHR 0x0A # x) @ w" by auto
    then show ?thesis using trimRight_spaces [of "v @ CHR 0x0A # x" w] assms by (simp add: TrimSpace_def)
  qed
qed

lemma showNat_ends: "printable (hd (showNat n))" "printable (last (showNat n))" "CHR 0x0A \<notin> set (showNat n)"
  using showNat_printable [of _ n] by auto

section \<open>Properties\<close>

text \<open>
  Whatever a port command prints, a port that is accepted is between 1 and 65535: the numbers
  are read at 64 bits and checked on every path, and the ports implied by a URL scheme are in range.
\<close>

theorem port_command_in_range:
  assumes "RunPortCommand eos url sh dir command template = Inr p"
  shows "1 \<le> p \<and> p \<le> 65535"
  using assms
  by (auto simp: RunPortCommand_def split: sum.splits shellResult.splits dest: parsePort_range)

text \<open>
  A command may print what it likes before the port: when its last line that is not blank is a
  port number, that number is the answer, whatever came before and however much white space follows.
\<close>

theorem last_line_port_is_read:
  assumes "1 \<le> n" and "n \<le> 65535" and "list_all asciiSpace w"
  shows "parsePort url (u @ CHR 0x0A # showNat n @ w) = Inr (int n)"
proof -
  let ?t = "TrimSpace (u @ CHR 0x0A # showNat n @ w)"
  have "?t = showNat n \<or> (\<exists>v. ?t = v @ CHR 0x0A # showNat n)"
    using assms(3) by (intro TrimSpace_tail showNat_nonempty showNat_ends)
  then have "last (splitByte (CHR 0x0A) ?t) = showNat n"
    by (auto simp: last_splitByte splitByte_none showNat_ends)
  then have line: "lastLine ?t = showNat n" by (simp add: lastLine_def TrimSpace_showNat)
  have "?t \<noteq> []" using \<open>?t = showNat n \<or> _\<close> by auto
  moreover have "Atoi (showNat n) = Some (int n)" using assms(2) by (intro Atoi_showNat) simp
  ultimately show ?thesis using assms(1,2) line by (simp add: parsePort_def checkPort_def Let_def)
qed

section \<open>Three commands\<close>

definition plainEnvOS :: envOS where
  "plainEnvOS =
     \<lparr>eoRead = (\<lambda>_. NotExist), eoMode = (\<lambda>_. None), eoIsDir = (\<lambda>_. False),
      eoEnviron = [], eoPATH = []\<rparr>"

theorem port_command_in_range_witness:
  "RunPortCommand plainEnvOS (\<lambda>_. Some (''https'', ''a.test'')) (\<lambda>_ _ _. Exited ''https://a.test'') ''/w'' ''c'' emptyProject =
     Inr 443 \<and> 1 \<le> (443 :: int) \<and> (443 :: int) \<le> 65535"
proof -
  have "RunPortCommand plainEnvOS (\<lambda>_. Some (''https'', ''a.test'')) (\<lambda>_ _ _. Exited ''https://a.test'') ''/w'' ''c'' emptyProject =
      Inr 443" by code_simp
  then show ?thesis using port_command_in_range by blast
qed

theorem last_line_port_is_read_witness:
  "parsePort (\<lambda>_. None) (''starting'' @ CHR 0x0A # showNat 5173 @ [CHR 0x0A]) = Inr 5173"
  using last_line_port_is_read [of 5173 "[CHR 0x0A]" "\<lambda>_. None" "''starting''"] by (simp add: asciiSpace_def del: showNat.simps)

end
