(* ===== verification/Wildcard.thy ===== *)
theory Wildcard
  imports Resolver WorktreeScan PortCommand Service
begin

text \<open>
  Serving worktrees on demand (\<open>internal/daemon/wildcard.go\<close>): what the listener's resolver does for
  a host, materialising a project, finding and checking its port, the public wording of a failure,
  the guard in front of a dynamic project and its removal.

  The outside is the record \<open>wildWorld\<close>. The phases of a materialisation run on the daemon as it is
  at that moment: \<open>env k\<close> is what the other goroutines did before phase \<open>k\<close>.
\<close>

record wildWorld =
  wwOS :: osView
  wwLinks :: "string \<Rightarrow> string option"
  wwEnvOS :: envOS
  wwShell :: shell
  wwFmt :: fmtLib
  \<comment> \<open>the wording of a failed candidate rule, and of an error of the port command\<close>
  wwRejection :: "rejection \<Rightarrow> string"
  wwRunError :: "runError \<Rightarrow> string"

definition CheckIn :: "wildWorld \<Rightarrow> discovery \<Rightarrow> string \<Rightarrow> string \<times> rejection option" where
  "CheckIn w e label = Check (wwOS w) (wwLinks w) e label"

section \<open>What a stranger is told\<close>

definition noWorktreeReason :: string where
  "noWorktreeReason = ''There is no servable worktree for this hostname.''"

definition noWorktreeHint :: string where
  "noWorktreeHint = ''Check the daemon log on the host for the rule that rejected it.''"

definition noPortReason :: string where
  "noPortReason = ''herd-wake could not determine a usable dev server port for this worktree.''"

definition noPortHint :: string where "noPortHint = ''See the daemon log on the host.''"

definition nameTakenReason :: string where
  "nameTakenReason =
     ''A project of this name is already registered, so the worktree cannot be served through the wildcard listener.''"

definition nameTakenHint :: string where "nameTakenHint = ''See the daemon log on the host.''"

definition public :: "bool \<Rightarrow> diagnostic \<Rightarrow> string \<Rightarrow> string \<Rightarrow> string \<Rightarrow> diagnostic \<times> string" where
  "public terse full title reason hint =
     (if \<not> terse then (full, [])
      else (full\<lparr>dgTitle := (if title \<noteq> [] then title else dgTitle full), dgReason := reason,
                 dgHint := hint\<rparr>, dgReason full))"

definition noWorktree :: "wildWorld \<Rightarrow> bool \<Rightarrow> discovery \<Rightarrow> string \<Rightarrow> string \<Rightarrow> string \<Rightarrow> diagnostic \<times> string" where
  "noWorktree w terse e label dir reason =
     public terse
       (emptyDiagnostic
          \<lparr>dgStatus := 404,
           dgTitle := ''no worktree named '' @ fmtQuote (wwFmt w) label @ '' under '' @ dDirectory e,
           dgReason := PublicURL e label @ '' resolves to '' @ dir @
             '', which is not a worktree herd-wake can serve: '' @ reason @ ''.'',
           dgHint := ''Create the worktree (it is served on the next request), or check the discovery entry's rules: repository, require_files, exclude.''\<rparr>)
       (''no worktree named '' @ fmtQuote (wwFmt w) label) noWorktreeReason noWorktreeHint"

text \<open>\<open>other\<close> is the state registered under the name; \<open>es\<close> the entry that resolves.\<close>

definition nameTaken :: "wildWorld \<Rightarrow> bool \<Rightarrow> esId \<Rightarrow> string \<Rightarrow> projectState \<Rightarrow> diagnostic \<times> string" where
  "nameTaken w terse es label other =
     (let q = fmtQuote (wwFmt w) label in
      if psDynamic other \<and> psEntry other = Some es
      then public terse
        (emptyDiagnostic
           \<lparr>dgStatus := 503, dgProject := label,
            dgReason := ''Worktree '' @ q @
              '' is being taken out of service (its directory vanished or it was reconfigured) and its process is still stopping.'',
            dgHint := ''Retry in a moment.''\<rparr>)
        [] (''Worktree '' @ q @ '' is being taken out of service; retry in a moment.'') '' ''
      else public terse
        (emptyDiagnostic
           \<lparr>dgStatus := 503, dgProject := label,
            dgTitle := ''worktree '' @ q @ '' cannot be served'',
            dgReason := ''A project named '' @ q @ '' is already registered (from '' @
              pSource (psProject other) @
              ''), so the worktree of that name cannot be served through the wildcard listener.'',
            dgHint := ''Rename the worktree, or remove the conflicting project.''\<rparr>)
        (''worktree '' @ q @ '' cannot be served'') nameTakenReason nameTakenHint)"

section \<open>Ports\<close>

datatype portUse =
    ProjectSupervisorPort string
  | ProjectApplicationPort string
  | EntrySupervisorPort string

definition projectUse :: "daemon \<Rightarrow> int \<Rightarrow> string \<times> stId \<Rightarrow> portUse option" where
  "projectUse d port = (\<lambda>(name, i).
     if port = pSupervisorPort (psProject (dmProjects d i)) then Some (ProjectSupervisorPort name)
     else if port = pApplicationPort (psProject (dmProjects d i)) then Some (ProjectApplicationPort name)
     else None)"

definition entryUse :: "daemon \<Rightarrow> int \<Rightarrow> string \<times> esId \<Rightarrow> portUse option" where
  "entryUse d port = (\<lambda>(name, e).
     if SupervisorPort (esEntry (dmEntryStates d e)) = port then Some (EntrySupervisorPort name) else None)"

fun firstSome :: "('a \<Rightarrow> 'b option) \<Rightarrow> 'a list \<Rightarrow> 'b option" where
  "firstSome f [] = None"
| "firstSome f (x # xs) = (case f x of None \<Rightarrow> firstSome f xs | Some y \<Rightarrow> Some y)"

definition portOwner :: "daemon \<Rightarrow> int \<Rightarrow> string \<Rightarrow> portUse option" where
  "portOwner d port except =
     (case firstSome (projectUse d port) (filter (\<lambda>(name, i). name \<noteq> except) (dmStates d)) of
        Some u \<Rightarrow> Some u
      | None \<Rightarrow> firstSome (entryUse d port) (dmEntries d))"

definition describeUse :: "fmtLib \<Rightarrow> portUse \<Rightarrow> string" where
  "describeUse fmt u =
     (case u of
        ProjectSupervisorPort name \<Rightarrow> ''project '' @ fmtQuote fmt name @ '' (supervisor_port)''
      | ProjectApplicationPort name \<Rightarrow> ''project '' @ fmtQuote fmt name @ '' (application_port)''
      | EntrySupervisorPort name \<Rightarrow> ''wildcard entry '' @ fmtQuote fmt name @ '' (supervisor_port)'')"

datatype discoverError = PortCommandFailed runError | RangeExhausted "int list"

text \<open>
  \<open>view port\<close> is the daemon when that port of the range is looked up: the table lock is taken anew for
  each.
\<close>

definition discoverPort ::
    "wildWorld \<Rightarrow> (int \<Rightarrow> daemon) \<Rightarrow> discovery \<Rightarrow> string \<Rightarrow> string \<Rightarrow> discoverError + int" where
  "discoverPort w view e label dir =
     (if dPortCommand e \<noteq> []
      then (case RunPortCommand (wwEnvOS w) (osURL (wwOS w)) (wwShell w) dir (dPortCommand e) (dTemplate e) of
              Inl err \<Rightarrow> Inl (PortCommandFailed err)
            | Inr port \<Rightarrow> Inr port)
      else (case find (\<lambda>port. portOwner (view port) port label = None)
                  [dApplicationPortRange e ! 0 .. dApplicationPortRange e ! 1] of
              Some port \<Rightarrow> Inr port
            | None \<Rightarrow> Inl (RangeExhausted (dApplicationPortRange e))))"

definition discoverErrorText :: "wildWorld \<Rightarrow> discoverError \<Rightarrow> string" where
  "discoverErrorText w err =
     (case err of
        PortCommandFailed e \<Rightarrow> ''port_command '' @ wwRunError w e
      | RangeExhausted rng \<Rightarrow>
          ''application_port_range ['' @ joinStrings (map Itoa rng) '' '' @ ''] is exhausted'')"

definition noPort :: "wildWorld \<Rightarrow> bool \<Rightarrow> string \<Rightarrow> string \<Rightarrow> discoverError \<Rightarrow> diagnostic \<times> string" where
  "noPort w terse label dir err =
     public terse
       (emptyDiagnostic
          \<lparr>dgStatus := 503, dgProject := label,
           dgTitle := ''worktree '' @ fmtQuote (wwFmt w) label @ '' cannot be served'',
           dgReason := ''herd-wake could not determine the dev server port for '' @ dir @ '': '' @
             discoverErrorText w err @ ''.'',
           dgHint := ''Fix the worktree (or the discovery entry's port_command) and retry.''\<rparr>)
       [] noPortReason noPortHint"

definition portInUse :: "wildWorld \<Rightarrow> bool \<Rightarrow> string \<Rightarrow> string \<Rightarrow> int \<Rightarrow> portUse \<Rightarrow> diagnostic \<times> string" where
  "portInUse w terse label dir port u =
     public terse
       (emptyDiagnostic
          \<lparr>dgStatus := 503, dgProject := label,
           dgTitle := ''worktree '' @ fmtQuote (wwFmt w) label @ '' cannot be served'',
           dgReason := ''The dev server port for '' @ dir @ '' is '' @ Itoa port @ '', which '' @
             describeUse (wwFmt w) u @ '' already uses; two servers cannot share it.'',
           dgHint := ''Give the worktree a port of its own (see the discovery entry's port_command / application_port_range) and retry.''\<rparr>)
       [] noPortReason noPortHint"

section \<open>Materialising\<close>

text \<open>The new project's state, not registered yet.\<close>

definition dynamicState :: "wildWorld \<Rightarrow> esId \<Rightarrow> string \<Rightarrow> string \<Rightarrow> int \<Rightarrow> daemon \<Rightarrow> stId \<times> daemon" where
  "dynamicState w es label dir port d =
     (let (tr, d1) = newTrackerObj d;
          (i, d2) = newProjectState
            (ProjectFor (osHome (wwOS w)) (esEntry (dmEntryStates d es)) label dir port) tr d1;
          d3 = setProject i ((dmProjects d2 i)\<lparr>psDynamic := True, psEntry := Some es\<rparr>) d2
      in (i, freshSwitch i d3))"

text \<open>Under the table lock, with the name still free.\<close>

definition registerDynamic :: "esId \<Rightarrow> string \<Rightarrow> stId \<Rightarrow> daemon \<Rightarrow> daemon" where
  "registerDynamic es label i d =
     (let d1 = d\<lparr>dmStates := mapPut label i (dmStates d)\<rparr> in
      case esBind (dmEntryStates d es) of
        None \<Rightarrow> d1
      | Some b \<Rightarrow>
          setBinding b ((dmBinds d1 b)\<lparr>bdMembers := bdMembers (dmBinds d1 b) + 1\<rparr>)
            (setProject i ((dmProjects d1 i)\<lparr>psBind := Some b\<rparr>) d1))"

definition guardOf :: "daemon \<Rightarrow> stId \<Rightarrow> string \<Rightarrow> string \<Rightarrow> esId \<Rightarrow> handlerRef" where
  "guardOf d i dir label es = GuardHandler dir (the (psSwitch (dmProjects d i))) label es"

definition installRoute :: "esId \<Rightarrow> stId \<Rightarrow> handlerRef \<Rightarrow> daemon \<Rightarrow> daemon" where
  "installRoute es i h d =
     (case esBind (dmEntryStates d es) of
        None \<Rightarrow> d
      | Some b \<Rightarrow> updateRouter b (setHost (pHost (psProject (dmProjects d i))) h) d)"

definition explain :: "diagnostic \<times> string \<Rightarrow> resolution" where
  "explain = (\<lambda>(diag, detail). Explained diag detail)"

definition materialise ::
    "wildWorld \<Rightarrow> (nat \<Rightarrow> daemon \<Rightarrow> daemon) \<Rightarrow> (int \<Rightarrow> daemon) \<Rightarrow> bool \<Rightarrow> esId \<Rightarrow> string \<Rightarrow> daemon \<Rightarrow>
      resolution \<times> daemon" where
  "materialise w env view terse es label d =
     (let e = esEntry (dmEntryStates d es) in
      case CheckIn w e label of
        (dir, Some r) \<Rightarrow> (explain (noWorktree w terse e label dir (wwRejection w r)), d)
      | (dir, None) \<Rightarrow>
          (let d0 = env 0 d in
           case map_of (dmStates d0) label of
             Some other \<Rightarrow> (explain (nameTaken w terse es label (dmProjects d0 other)), d0)
           | None \<Rightarrow>
               (case discoverPort w view e label dir of
                  Inl err \<Rightarrow> (explain (noPort w terse label dir err), d0)
                | Inr port \<Rightarrow>
                    (let d1 = env 1 d0 in
                     case portOwner d1 port label of
                       Some u \<Rightarrow> (explain (portInUse w terse label dir port u), d1)
                     | None \<Rightarrow>
                         (let (i, d2) = dynamicState w es label dir port (env 2 d1) in
                          case map_of (dmStates d2) label of
                            Some other \<Rightarrow> (explain (nameTaken w terse es label (dmProjects d2 other)), d2)
                          | None \<Rightarrow>
                              (let d3 = env 3 (registerDynamic es label i d2);
                                   h = guardOf d3 i dir label es
                               in (Served h, activate i (installRoute es i h d3))))))))"

section \<open>The listener's answer\<close>

datatype wildAnswer =
    AnswerPage diagnostic
  | Forwarded handlerRef
  | NoAnswer

text \<open>The dash in UTF-8, with its spaces.\<close>

definition dash :: string where
  "dash = [CHR 0x20, CHR 0xE2, CHR 0x80, CHR 0x94, CHR 0x20]"

definition notALabel :: "wildWorld \<Rightarrow> bool \<Rightarrow> discovery \<Rightarrow> string \<Rightarrow> string \<Rightarrow> diagnostic" where
  "notALabel w terse e addr host =
     fst (public terse
       (emptyDiagnostic
          \<lparr>dgStatus := 404, dgTitle := ''no project for host '' @ fmtQuote (wwFmt w) host,
           dgReason := ''The herd-wake listener on '' @ addr @ '' serves the git worktrees under '' @
             dDirectory e @ '' at '' @ URLPattern e @ dash @ ''exactly one label, directly under '' @
             dBaseDomain e @ dash @ ''and '' @ fmtQuote (wwFmt w) host @ '' is not such a hostname.'',
           dgHint := ''Open https://<worktree>.'' @ dBaseDomain e @
             '', where <worktree> is a directory name under '' @ dDirectory e @ ''.''\<rparr>)
       [] noWorktreeReason noWorktreeHint)"

definition shuttingDownPage :: "string \<Rightarrow> diagnostic" where
  "shuttingDownPage label =
     emptyDiagnostic\<lparr>dgStatus := 503, dgProject := label,
       dgReason := ''The herd-wake daemon is shutting down.'', dgHint := '' ''\<rparr>"

text \<open>The answer, and the reason the daemon logs; \<open>resolved\<close> is what \<open>resolve\<close> gives for the label.\<close>

definition serveWild ::
    "wildWorld \<Rightarrow> bool \<Rightarrow> bool \<Rightarrow> discovery \<Rightarrow> string \<Rightarrow> string \<Rightarrow> (string \<Rightarrow> resolution) \<Rightarrow>
      wildAnswer \<times> string option" where
  "serveWild w terse draining e addr host resolved =
     (case Label e host of
        None \<Rightarrow> (AnswerPage (notALabel w terse e addr host), None)
      | Some label \<Rightarrow>
          if draining then (AnswerPage (shuttingDownPage label), None)
          else (case resolved label of
                  Explained diag detail \<Rightarrow>
                    (AnswerPage diag, Some (if detail = [] then dgReason diag else detail))
                | GaveUp \<Rightarrow> (NoAnswer, None)
                | Served h \<Rightarrow> (Forwarded h, None)))"

section \<open>Worktrees that vanish\<close>

text \<open>
  The guard: its answer, and whether it starts the removal (\<open>sync.Once\<close>: \<open>started\<close> says whether it
  has before).
\<close>

definition guardServe :: "wildWorld \<Rightarrow> bool \<Rightarrow> discovery \<Rightarrow> bool \<Rightarrow> handlerRef \<Rightarrow> wildAnswer \<times> bool" where
  "guardServe w terse e started h =
     (case h of
        GuardHandler dir sw label es \<Rightarrow>
          if osStat (wwOS w) dir = None
          then (let r = (case snd (CheckIn w e label) of Some r \<Rightarrow> wwRejection w r | None \<Rightarrow> [])
                in (AnswerPage (fst (noWorktree w terse e label dir r)), \<not> started))
          else (Forwarded (SwitchHandler sw), False)
      | SwitchHandler sw \<Rightarrow> (Forwarded h, False))"

definition dropDynamic ::
    "(supervisor \<Rightarrow> supervisor) \<Rightarrow> (daemon \<Rightarrow> daemon) \<Rightarrow> stId \<Rightarrow> daemon \<Rightarrow> daemon" where
  "dropDynamic settle world i d =
     (let d1 = world (retire settle (i, False) d); name = nameOf d i in
      if map_of (dmStates d1) name = Some i then d1\<lparr>dmStates := mapDelete name (dmStates d1)\<rparr> else d1)"

definition dropDynamicByName ::
    "(supervisor \<Rightarrow> supervisor) \<Rightarrow> (daemon \<Rightarrow> daemon) \<Rightarrow> string \<Rightarrow> esId \<Rightarrow> daemon \<Rightarrow> daemon" where
  "dropDynamicByName settle world label es d =
     (case map_of (dmStates d) label of
        None \<Rightarrow> d
      | Some i \<Rightarrow>
          if psDynamic (dmProjects d i) \<and> psEntry (dmProjects d i) = Some es
          then dropDynamic settle world i d else d)"

definition dropIfVanished ::
    "osView \<Rightarrow> (supervisor \<Rightarrow> supervisor) \<Rightarrow> (daemon \<Rightarrow> daemon) \<Rightarrow> stId \<Rightarrow> daemon \<Rightarrow> daemon" where
  "dropIfVanished os settle world i d =
     (if osStat os (pWorkingDirectory (psProject (dmProjects d i))) = None
      then dropDynamic settle world i d else d)"

section \<open>Lemmas on ports\<close>

lemma firstSome_None: "firstSome f xs = None \<longleftrightarrow> (\<forall>x \<in> set xs. f x = None)"
  by (induction xs) (auto split: option.splits)

lemma portOwner_None:
  "portOwner d port except = None \<longleftrightarrow>
     (\<forall>p \<in> set (dmStates d). fst p \<noteq> except \<longrightarrow> projectUse d port p = None) \<and>
     (\<forall>p \<in> set (dmEntries d). entryUse d port p = None)"
proof -
  have "portOwner d port except = None \<longleftrightarrow>
      firstSome (projectUse d port) (filter (\<lambda>(name, i). name \<noteq> except) (dmStates d)) = None \<and>
      firstSome (entryUse d port) (dmEntries d) = None"
    by (simp add: portOwner_def split: option.split)
  then show ?thesis unfolding firstSome_None by auto
qed

lemma projectUse_None:
  "projectUse d port (name, i) = None \<longleftrightarrow>
     port \<noteq> pSupervisorPort (psProject (dmProjects d i)) \<and> port \<noteq> pApplicationPort (psProject (dmProjects d i))"
  by (simp add: projectUse_def)

lemma entryUse_None:
  "entryUse d port (name, e) = None \<longleftrightarrow> SupervisorPort (esEntry (dmEntryStates d e)) \<noteq> port"
  by (simp add: entryUse_def)

text \<open>The new state, as it is registered.\<close>

lemma dynamicState_fields:
  assumes "dynamicState w es label dir port d = (i, d')"
  shows "i = dmNext d + 1" and "dmNext d' = dmNext d + 3" and "dmStates d' = dmStates d"
    and "dmEntries d' = dmEntries d" and "dmEntryStates d' = dmEntryStates d" and "dmBinds d' = dmBinds d"
    and "dmBindings d' = dmBindings d" and "dmStarts d' = dmStarts d"
    and "dmProjects d' = (dmProjects d)(i :=
      (let p = ProjectFor (osHome (wwOS w)) (esEntry (dmEntryStates d es)) label dir port in
       \<lparr>psProject = p, psProc = NewSupervisor p, psTracker = dmNext d, psSwitch = Some (dmNext d + 2),
        psBind = None, psActive = False, psDynamic = True, psEntry = Some es, psRetired = False\<rparr>))"
    and "dmTrackers d' = (dmTrackers d)(dmNext d := NewTracker)"
    and "dmSwitches d' = (dmSwitches d)(dmNext d + 2 := Handling i)"
  using assms
  by (auto simp: dynamicState_def newTrackerObj_def newProjectState_def freshSwitch_def setProject_def Let_def)

lemma materialise_Served:
  assumes "materialise w env view terse es label d = (Served h, d')"
  obtains dir port i d2 d3 where "CheckIn w (esEntry (dmEntryStates d es)) label = (dir, None)"
    and "map_of (dmStates (env 0 d)) label = None"
    and "discoverPort w view (esEntry (dmEntryStates d es)) label dir = Inr port"
    and "portOwner (env 1 (env 0 d)) port label = None"
    and "dynamicState w es label dir port (env 2 (env 1 (env 0 d))) = (i, d2)"
    and "map_of (dmStates d2) label = None"
    and "d3 = env 3 (registerDynamic es label i d2)"
    and "h = guardOf d3 i dir label es" and "d' = activate i (installRoute es i h d3)"
  using assms
  by (auto simp: materialise_def explain_def Let_def split: prod.splits option.splits sum.splits)

lemma registerDynamic_fields:
  "dmStates (registerDynamic es label i d) = mapPut label i (dmStates d)"
  "dmSwitches (registerDynamic es label i d) = dmSwitches d" "dmTrackers (registerDynamic es label i d) = dmTrackers d"
  "dmEntryStates (registerDynamic es label i d) = dmEntryStates d" "dmEntries (registerDynamic es label i d) = dmEntries d"
  "dmProjects (registerDynamic es label i d) =
     (case esBind (dmEntryStates d es) of None \<Rightarrow> dmProjects d
      | Some b \<Rightarrow> (dmProjects d)(i := (dmProjects d i)\<lparr>psBind := Some b\<rparr>))"
  "dmBinds (registerDynamic es label i d) =
     (case esBind (dmEntryStates d es) of None \<Rightarrow> dmBinds d
      | Some b \<Rightarrow> (dmBinds d)(b := (dmBinds d b)\<lparr>bdMembers := bdMembers (dmBinds d b) + 1\<rparr>))"
  by (simp_all add: registerDynamic_def setBinding_def setProject_def Let_def split: option.split)

lemma installRoute_fields [simp]:
  "dmStates (installRoute es i h d) = dmStates d" "dmSwitches (installRoute es i h d) = dmSwitches d"
  "dmProjects (installRoute es i h d) = dmProjects d" "dmTrackers (installRoute es i h d) = dmTrackers d"
  "dmEntryStates (installRoute es i h d) = dmEntryStates d" "dmEntries (installRoute es i h d) = dmEntries d"
  by (simp_all add: installRoute_def updateRouter_def setBinding_def split: option.split)

lemma activate_fields [simp]:
  "dmStates (activate i d) = dmStates d" "dmSwitches (activate i d) = dmSwitches d"
  "dmProjects (activate i d) = (dmProjects d)(i := (dmProjects d i)\<lparr>psActive := True\<rparr>)"
  "dmTrackers (activate i d) = dmTrackers d" "dmBinds (activate i d) = dmBinds d"
  "dmEntryStates (activate i d) = dmEntryStates d" "dmEntries (activate i d) = dmEntries d"
  by (simp_all add: activate_def setProject_def Let_def)

text \<open>A dynamic project in service, as the resolver leaves it.\<close>

definition servedDynamic :: "daemon \<Rightarrow> stId \<Rightarrow> esId \<Rightarrow> project \<Rightarrow> handlerRef \<Rightarrow> string \<Rightarrow> bool" where
  "servedDynamic d i es p h dir \<longleftrightarrow>
     (\<exists>tr sw. dmProjects d i =
        \<lparr>psProject = p, psProc = NewSupervisor p, psTracker = tr, psSwitch = Some sw,
         psBind = esBind (dmEntryStates d es), psActive = True, psDynamic = True, psEntry = Some es,
         psRetired = False\<rparr> \<and>
        dmTrackers d tr = NewTracker \<and> dmSwitches d sw = Handling i \<and>
        h = GuardHandler dir sw (pName p) es)"

lemma ProjectFor_name: "pName (ProjectFor home e label dir port) = label"
  by (simp add: ProjectFor_def)

lemma registered_served:
  assumes "dynamicState w es label dir port d = (i, d2)"
    and "d3 = registerDynamic es label i d2" and "h = guardOf d3 i dir label es"
    and "d' = activate i (installRoute es i h d3)"
  shows "servedDynamic d' i es (ProjectFor (osHome (wwOS w)) (esEntry (dmEntryStates d es)) label dir port) h dir"
    and "dmStates d' = mapPut label i (dmStates d)" and "j \<noteq> i \<Longrightarrow> dmProjects d' j = dmProjects d j"
    and "dmEntryStates d' = dmEntryStates d" and "dmEntries d' = dmEntries d"
    and "esBind (dmEntryStates d es) = Some b \<Longrightarrow> dmBinds d' b = (dmBinds d b)
      \<lparr>bdMembers := bdMembers (dmBinds d b) + 1,
       bdRouter := setHost (pHost (ProjectFor (osHome (wwOS w)) (esEntry (dmEntryStates d es)) label dir port)) h
         (bdRouter (dmBinds d b))\<rparr>"
proof -
  note f = dynamicState_fields [OF assms(1)]
  show "servedDynamic d' i es (ProjectFor (osHome (wwOS w)) (esEntry (dmEntryStates d es)) label dir port) h dir"
    using f by (simp add: assms(2-4) servedDynamic_def registerDynamic_fields guardOf_def ProjectFor_name Let_def split: option.split)
  show "dmStates d' = mapPut label i (dmStates d)" "dmEntryStates d' = dmEntryStates d" "dmEntries d' = dmEntries d"
    using f by (simp_all add: assms(2,4) registerDynamic_fields)
  show "j \<noteq> i \<Longrightarrow> dmProjects d' j = dmProjects d j"
    using f by (simp add: assms(2,4) registerDynamic_fields split: option.split)
  show "esBind (dmEntryStates d es) = Some b \<Longrightarrow> dmBinds d' b = (dmBinds d b)
      \<lparr>bdMembers := bdMembers (dmBinds d b) + 1,
       bdRouter := setHost (pHost (ProjectFor (osHome (wwOS w)) (esEntry (dmEntryStates d es)) label dir port)) h
         (bdRouter (dmBinds d b))\<rparr>"
    using f by (simp add: assms(2,4) registerDynamic_fields installRoute_def updateRouter_def setBinding_def Let_def)
qed

end
