(* ===== verification/WildcardProps.thy ===== *)
theory WildcardProps
  imports Wildcard
begin

text \<open>
  What serving worktrees on demand promises: what a materialisation leaves behind, what the public
  pages may depend on, and two interleavings that break the promise of one port and one project per
  worktree.
\<close>

section \<open>Materialising undisturbed\<close>

lemma find_upto:
  assumes "find P [a .. b :: int] = Some x"
  shows "P x" and "a \<le> x" and "x \<le> b" and "a \<le> y \<Longrightarrow> y < x \<Longrightarrow> \<not> P y"
proof -
  from assms obtain k where k: "k < length [a .. b]" "P ([a .. b] ! k)" "x = [a .. b] ! k"
      "\<forall>j < k. \<not> P ([a .. b] ! j)"
    by (auto simp: find_Some_iff)
  then have x: "x = a + int k" by (simp add: nth_upto)
  show "P x" "a \<le> x" "x \<le> b" using k x by auto
  show "\<not> P y" if "a \<le> y" "y < x"
  proof -
    have "nat (y - a) < k" using that x by linarith
    then have "\<not> P ([a .. b] ! nat (y - a))" using k(4) by blast
    moreover have "[a .. b] ! nat (y - a) = y" using that \<open>x \<le> b\<close> by (simp add: nth_upto)
    ultimately show ?thesis by simp
  qed
qed

definition undisturbed :: "nat \<Rightarrow> daemon \<Rightarrow> daemon" where
  "undisturbed k d = d"


section \<open>What the public pages depend on\<close>

text \<open>The pages of a terse resolver, for a label as it is quoted.\<close>

definition tersePages :: "fmtLib \<Rightarrow> string \<Rightarrow> diagnostic set" where
  "tersePages fmt label =
     (let q = fmtQuote fmt label; page = emptyDiagnostic\<lparr>dgStatus := 503, dgProject := label\<rparr> in
      {emptyDiagnostic\<lparr>dgStatus := 404, dgTitle := ''no worktree named '' @ q,
         dgReason := noWorktreeReason, dgHint := noWorktreeHint\<rparr>,
       page\<lparr>dgTitle := ''worktree '' @ q @ '' cannot be served'', dgReason := noPortReason, dgHint := noPortHint\<rparr>,
       page\<lparr>dgTitle := ''worktree '' @ q @ '' cannot be served'', dgReason := nameTakenReason,
         dgHint := nameTakenHint\<rparr>,
       page\<lparr>dgReason := ''Worktree '' @ q @ '' is being taken out of service; retry in a moment.'', dgHint := '' ''\<rparr>})"

lemma terse_pages:
  "fst (noWorktree w True e label dir r) \<in> tersePages (wwFmt w) label"
  "fst (nameTaken w True es label other) \<in> tersePages (wwFmt w) label"
  "fst (noPort w True label dir err) \<in> tersePages (wwFmt w) label"
  "fst (portInUse w True label dir port u) \<in> tersePages (wwFmt w) label"
  by (auto simp: noWorktree_def nameTaken_def noPort_def portInUse_def public_def tersePages_def
      emptyDiagnostic_def Let_def noPortReason_def noPortHint_def)

lemma terse_detail:
  "snd (noWorktree w True e label dir r) = dgReason (fst (noWorktree w False e label dir r))"
  "snd (nameTaken w True es label other) = dgReason (fst (nameTaken w False es label other))"
  "snd (noPort w True label dir err) = dgReason (fst (noPort w False label dir err))"
  "snd (portInUse w True label dir port u) = dgReason (fst (portInUse w False label dir port u))"
  by (simp_all add: noWorktree_def nameTaken_def noPort_def portInUse_def public_def Let_def)

text \<open>
  With \<open>diagnostic_logs: false\<close> the wildcard listener tells a stranger nothing but the label: every
  page of a failed resolution, and of the guard of a vanished worktree, is one of four that are the
  same for every directory, rule, port, port owner, conflicting project and command output; and the
  daemon's log keeps, word for word, the reason the page would have given without it.
\<close>

theorem terse_resolver_reveals_only_label:
  "(case fst (materialise w env view True es label d) of
      Explained diag detail \<Rightarrow> diag \<in> tersePages (wwFmt w) label \<and>
        (\<exists>full. fst (materialise w env view False es label d) = Explained full [] \<and> detail = dgReason full)
    | res \<Rightarrow> fst (materialise w env view False es label d) = res) \<and>
   (case fst (guardServe w True e started (GuardHandler dir sw label es)) of
      AnswerPage diag \<Rightarrow> diag \<in> tersePages (wwFmt w) label
    | a \<Rightarrow> a = Forwarded (SwitchHandler sw))"
proof -
  have no: "snd (noWorktree w False e label dir r) = []" "snd (nameTaken w False es label other) = []"
    "snd (noPort w False label dir err) = []" "snd (portInUse w False label dir port u) = []"
    for e dir r other err port u
    by (simp_all add: noWorktree_def nameTaken_def noPort_def portInUse_def public_def Let_def)
  have ex: "explain p = Explained (fst p) (snd p)" for p by (simp add: explain_def split: prod.split)
  have "case fst (materialise w env view True es label d) of
      Explained diag detail \<Rightarrow> diag \<in> tersePages (wwFmt w) label \<and>
        (\<exists>full. fst (materialise w env view False es label d) = Explained full [] \<and> detail = dgReason full)
    | res \<Rightarrow> fst (materialise w env view False es label d) = res"
    by (simp add: materialise_def ex terse_pages terse_detail no Let_def
        split: prod.split option.split sum.split)
  moreover have "case fst (guardServe w True e started (GuardHandler dir sw label es)) of
      AnswerPage diag \<Rightarrow> diag \<in> tersePages (wwFmt w) label
    | a \<Rightarrow> a = Forwarded (SwitchHandler sw)"
    by (simp add: guardServe_def terse_pages Let_def split: option.split)
  ultimately show ?thesis by blast
qed

section \<open>Two resolutions at once\<close>

lemma servedDynamic_project: "servedDynamic d i es p h dir \<Longrightarrow> psProject (dmProjects d i) = p \<and> psEntry (dmProjects d i) = Some es"
  by (auto simp: servedDynamic_def)

lemma ProjectFor_port: "pApplicationPort (ProjectFor home e label dir port) = port"
  by (simp add: ProjectFor_def)

text \<open>
  Two worktrees can be given one port: the port is chosen before the table is locked to register
  the project and not looked at again. When a second label of the same range is resolved between the
  two, both are served, each from its own directory, with the same application port, so the proxies
  of both forward to whichever server binds it first.
\<close>

theorem concurrent_resolutions_share_port:
  assumes "e = esEntry (dmEntryStates d es)" and "dPortCommand e = []" and "a \<noteq> b"
    and "servable (wwOS w) (wwLinks w) e a" and "servable (wwOS w) (wwLinks w) e b"
    and "map_of (dmStates d) a = None" and "map_of (dmStates d) b = None"
    and "find (\<lambda>p. portOwner d p a = None) [dApplicationPortRange e ! 0 .. dApplicationPortRange e ! 1] = Some port"
  shows "\<exists>h d' i j. materialise w
       (\<lambda>k x. if k = 2 then snd (materialise w undisturbed (\<lambda>_. d) terse es b x) else x)
       (\<lambda>_. d) terse es a d = (Served h, d') \<and>
     map_of (dmStates d') a = Some i \<and> map_of (dmStates d') b = Some j \<and> i \<noteq> j \<and>
     pApplicationPort (psProject (dmProjects d' i)) = port \<and>
     pApplicationPort (psProject (dmProjects d' j)) = port"
proof -
  have free: "portOwner d p b = portOwner d p a" for p
  proof -
    have "filter (\<lambda>(name, i). name \<noteq> x) (dmStates d) = dmStates d" if "map_of (dmStates d) x = None" for x
      using that by (auto simp: map_of_eq_None_iff filter_id_conv intro: rev_image_eqI)
    then show ?thesis using assms(6,7) by (simp add: portOwner_def)
  qed
  have f: "find (\<lambda>p. portOwner d p x = None)
      [dApplicationPortRange e ! 0 .. dApplicationPortRange e ! 1] = Some port" if "x = a \<or> x = b" for x
    using assms(8) that by (auto simp: free)
  have own: "portOwner d port x = None" if "x = a \<or> x = b" for x using find_upto(1) [OF f [OF that]] .
  have check: "CheckIn w e x = (filepathJoin [dDirectory e, x], None)" if "x = a \<or> x = b" for x
    using that assms(4,5) Check_accepts [of "wwOS w" "wwLinks w" e x] Check_dir [of "wwOS w" "wwLinks w" e x]
    by (auto simp: CheckIn_def intro: prod_eqI)
  have disc: "discoverPort w (\<lambda>_. d) e x dir = Inr port" if "x = a \<or> x = b" for x dir
    using f [OF that] assms(2) by (simp add: discoverPort_def)
  let ?env = "\<lambda>k x. if k = 2 then snd (materialise w undisturbed (\<lambda>_. d) terse es b x) else x"
  let ?dir = "\<lambda>x. filepathJoin [dDirectory e, x]"
  obtain j d1 where j: "dynamicState w es b (?dir b) port d = (j, d1)" by fastforce
  let ?d2 = "registerDynamic es b j d1" let ?h = "guardOf ?d2 j (?dir b) b es"
  let ?db = "activate j (installRoute es j ?h ?d2)"
  note jf = dynamicState_fields [OF j]
  have b: "materialise w undisturbed (\<lambda>_. d) terse es b d = (Served ?h, ?db)"
    using assms(7) jf(3) by (simp add: materialise_def undisturbed_def assms(1) [symmetric] check disc own j Let_def)
  obtain i d3 where i: "dynamicState w es a (?dir a) port ?db = (i, d3)" by fastforce
  let ?d4 = "registerDynamic es a i d3" let ?g = "guardOf ?d4 i (?dir a) a es"
  let ?da = "activate i (installRoute es i ?g ?d4)"
  note iff = dynamicState_fields [OF i]
  note regb = registered_served [OF j refl refl refl] and rega = registered_served [OF i refl refl refl]
  have none: "map_of (dmStates d3) a = None"
    using assms(3,6) iff(3) regb(2) by (simp add: map_of_mapPut)
  have a: "materialise w ?env (\<lambda>_. d) terse es a d = (Served ?g, ?da)"
    using assms(6) none by (subst materialise_def) (simp add: assms(1) [symmetric] check disc own b i Let_def)
  have ij: "i \<noteq> j"
  proof -
    have "dmNext ?db = dmNext d + 3"
      using jf(2) by (simp add: activate_def setProject_def installRoute_def updateRouter_def setBinding_def
          registerDynamic_def Let_def split: option.split)
    then show ?thesis using iff(1) jf(1) by simp
  qed
  have "map_of (dmStates ?da) a = Some i" "map_of (dmStates ?da) b = Some j"
    using rega(2) regb(2) assms(3) by (simp_all add: map_of_mapPut)
  moreover have "pApplicationPort (psProject (dmProjects ?da i)) = port"
    using servedDynamic_project [OF rega(1)] by (simp only: ProjectFor_port)
  moreover have "dmProjects ?da j = dmProjects ?db j" using ij by (intro rega(3)) simp
  then have "pApplicationPort (psProject (dmProjects ?da j)) = port"
    using servedDynamic_project [OF regb(1)] by (simp only: ProjectFor_port)
  ultimately show ?thesis using a ij by blast
qed

text \<open>
  A resolution that outlives its entry blocks its label: when a reload replaces the entry while a
  label is being resolved (running the port command, say), the project is still registered, for the
  entry that is gone and on its closed listener. From then on the entry that took its place answers
  every request for the label with a 503, whatever state the worktree is in, and nothing else changes.
\<close>

theorem resolution_outliving_entry_blocks_label:
  assumes "materialise w env view terse es label d = (Served h, d')"
    and "\<And>x. env 3 x = x" and "es' \<noteq> es"
    and "servable (wwOS w') (wwLinks w') (esEntry (dmEntryStates d' es')) label"
  shows "\<exists>diag detail. materialise w' undisturbed view' terse' es' label d' = (Explained diag detail, d') \<and>
    dgStatus diag = 503"
proof -
  from assms(1) obtain i where i: "map_of (dmStates d') label = Some i"
    "psEntry (dmProjects d' i) = Some es"
  proof (cases rule: materialise_Served, goal_cases)
    case (1 dir port i d2 d3)
    note reg = registered_served [OF 1(6) 1(8) [unfolded assms(2)] 1(9,10)]
    show ?case using 1(1) [of i] reg(1,2) by (auto simp: servedDynamic_def map_of_mapPut)
  qed
  have "snd (CheckIn w' (esEntry (dmEntryStates d' es')) label) = None"
    using assms(4) by (simp add: CheckIn_def Check_accepts)
  then show ?thesis using i assms(3)
    by (auto simp: materialise_def undisturbed_def nameTaken_def explain_def public_def emptyDiagnostic_def Let_def
        split: prod.split)
qed

section \<open>One entry, two worktrees\<close>

definition wpOS :: osView where
  "wpOS =
     \<lparr>osHome = None, osCwd = ''/'', osStat = (\<lambda>_. Some Directory), osReadDir = (\<lambda>_. None),
      osReadFile = (\<lambda>_. None), osURL = (\<lambda>_. None), osLoopbackIP = (\<lambda>_. False),
      osGlob = (\<lambda>_ _. Some False)\<rparr>"

definition wpWorld :: wildWorld where
  "wpWorld =
     \<lparr>wwOS = wpOS, wwLinks = Some, wwEnvOS = plainEnvOS, wwShell = (\<lambda>_ _ _. TimedOut), wwFmt = demoFmt,
      wwRejection = (\<lambda>_. ''no''), wwRunError = (\<lambda>_. ''no'')\<rparr>"

definition wpEntry :: discovery where
  "wpEntry = emptyDiscovery\<lparr>dDirectory := ''/w'', dBaseDomain := ''t'', dApplicationPortRange := [5000, 5001]\<rparr>"

definition wpDaemon :: daemon where
  "wpDaemon = (demoDaemon [] 0)\<lparr>dmEntryStates := (\<lambda>_. \<lparr>esEntry = wpEntry, esBind = Some 5, esMaxRunning = 0\<rparr>)\<rparr>"

lemma wp_servable: "servable wpOS Some wpEntry ''a''" "servable wpOS Some wpEntry ''b''"
proof -
  have "IsDNSLabel ''a''" "IsDNSLabel ''b''" by code_simp+
  then show "servable wpOS Some wpEntry ''a''" "servable wpOS Some wpEntry ''b''"
    by (simp_all add: servable_def wpOS_def wpEntry_def emptyDiscovery_def Excluded_def Let_def)
qed

lemma wp_fields [simp]:
  "dmStates wpDaemon = []" "dmEntries wpDaemon = []"
  "dmEntryStates wpDaemon = (\<lambda>_. \<lparr>esEntry = wpEntry, esBind = Some 5, esMaxRunning = 0\<rparr>)"
  "dPortCommand wpEntry = []" "dApplicationPortRange wpEntry = [5000, 5001]"
  "wwOS wpWorld = wpOS" "wwLinks wpWorld = Some" "wwFmt wpWorld = demoFmt" "dDirectory wpEntry = ''/w''"
  by (simp_all add: wpDaemon_def demoDaemon_def wpEntry_def emptyDiscovery_def wpWorld_def)

lemma wp_free [simp]: "portOwner wpDaemon q x = None"
  by (simp add: portOwner_def)

lemma wp_find: "find (\<lambda>p. portOwner wpDaemon p x = None) [5000 .. 5001] = Some (5000 :: int)"
  by (simp add: upto.simps)

lemma wp_check: "CheckIn wpWorld wpEntry ''a'' = (filepathJoin [''/w'', ''a''], None)"
  using Check_accepts [of wpOS Some wpEntry "''a''"] Check_dir [of wpOS Some wpEntry "''a''"] wp_servable(1)
  by (auto simp: CheckIn_def intro: prod_eqI)

lemma wp_served: "\<exists>h d'. materialise wpWorld undisturbed (\<lambda>_. wpDaemon) True 0 ''a'' wpDaemon = (Served h, d')"
proof -
  obtain i d2 where i: "dynamicState wpWorld 0 ''a'' (filepathJoin [''/w'', ''a'']) 5000 wpDaemon = (i, d2)"
    by fastforce
  have o: "portOwner wpDaemon 5000 ''a'' = None" by (simp add: portOwner_def)
  have p: "discoverPort wpWorld (\<lambda>_. wpDaemon) wpEntry ''a'' (filepathJoin [''/w'', ''a'']) = Inr 5000"
    by (simp add: discoverPort_def wp_find)
  show ?thesis
    using dynamicState_fields(3) [OF i] by (simp add: materialise_def undisturbed_def wp_check p o i Let_def)
qed


theorem concurrent_resolutions_share_port_witness:
  "\<exists>h d' i j. materialise wpWorld
       (\<lambda>k x. if k = 2 then snd (materialise wpWorld undisturbed (\<lambda>_. wpDaemon) True 0 ''b'' x) else x)
       (\<lambda>_. wpDaemon) True 0 ''a'' wpDaemon = (Served h, d') \<and>
     map_of (dmStates d') ''a'' = Some i \<and> map_of (dmStates d') ''b'' = Some j \<and> i \<noteq> j \<and>
     pApplicationPort (psProject (dmProjects d' i)) = 5000 \<and>
     pApplicationPort (psProject (dmProjects d' j)) = 5000"
  by (rule concurrent_resolutions_share_port [where e = wpEntry]) (simp_all add: wp_servable wp_find)

theorem resolution_outliving_entry_blocks_label_witness:
  "\<exists>h d' diag detail. materialise wpWorld undisturbed (\<lambda>_. wpDaemon) True 0 ''a'' wpDaemon = (Served h, d') \<and>
     materialise wpWorld undisturbed (\<lambda>_. d') True 1 ''a'' d' = (Explained diag detail, d') \<and> dgStatus diag = 503"
proof -
  obtain h d' where r: "materialise wpWorld undisturbed (\<lambda>_. wpDaemon) True 0 ''a'' wpDaemon = (Served h, d')"
    using wp_served by blast
  have "dmEntryStates d' = dmEntryStates wpDaemon"
    using r
  proof (cases rule: materialise_Served, goal_cases)
    case (1 dir port i d2 d3)
    show ?case
      using registered_served(4) [OF 1(5) 1(7) [unfolded undisturbed_def] 1(8,9)] by (simp add: undisturbed_def)
  qed
  then have s: "servable (wwOS wpWorld) (wwLinks wpWorld) (esEntry (dmEntryStates d' 1)) ''a''"
    by (simp add: wp_servable)
  have "\<exists>diag detail. materialise wpWorld undisturbed (\<lambda>_. d') True 1 ''a'' d' = (Explained diag detail, d') \<and>
      dgStatus diag = 503"
    by (rule resolution_outliving_entry_blocks_label [OF r _ _ s]) (simp_all add: undisturbed_def)
  with r show ?thesis by blast
qed

end
