(* ===== verification/Provider.thy ===== *)
theory Provider
  imports Wildcard
begin

text \<open>
  The operations of the control API on the daemon (\<open>control.Provider\<close>, implemented in
  \<open>internal/daemon/state.go\<close>, \<open>wildcard.go\<close> and \<open>budget.go\<close>): starting, stopping and restarting a
  project by hand, leases, logs and the status. Waiting is explicit: \<open>ticks\<close> is what the passes of
  the reservation loop observe, \<open>reply\<close> the outcome a start's channel gives (\<open>None\<close>: the caller's
  context ends first), \<open>settle\<close> what the supervisor's goroutines do while a stop is awaited.
\<close>

section \<open>Status\<close>

record projectStatus =
  stName :: string
  stPublicURL :: string
  stHost :: string
  stSupervisorPort :: int
  stApplicationPort :: int
  stWorkingDirectory :: string
  stSource :: string
  stDynamic :: bool
  stState :: lifecycle
  stPID :: int
  stLastExit :: string
  stLastError :: "supError option"
  stAlwaysOn :: bool
  stInflight :: int
  stLastActivityAt :: time
  stLeaseUntil :: time
  stUptime :: duration
  stIdleStopAt :: time

definition projectStatusOf :: "time \<Rightarrow> daemon \<Rightarrow> stId \<Rightarrow> projectStatus" where
  "projectStatusOf now d i =
     (let p = psProject (dmProjects d i); snap = Snapshot (procOf d i); t = trackerOf d i in
      \<lparr>stName = pName p, stPublicURL = pPublicURL p, stHost = pHost p,
       stSupervisorPort = pSupervisorPort p, stApplicationPort = pApplicationPort p,
       stWorkingDirectory = pWorkingDirectory p, stSource = pSource p,
       stDynamic = psDynamic (dmProjects d i), stState = snState snap, stPID = snPID snap,
       stLastExit = snLastExit snap, stLastError = snLastError snap, stAlwaysOn = pAlwaysOn p,
       stInflight = tInflight t, stLastActivityAt = LastActivity t, stLeaseUntil = LeaseUntil now t,
       stUptime = (if IsZero (snStartedAt snap) then 0 else now - snStartedAt snap),
       stIdleStopAt =
         (if snState snap = Running \<and> \<not> IsZero (snStartedAt snap) \<and> \<not> pAlwaysOn p \<and> \<not> Parked now t
          then Deadline (snStartedAt snap) (IdleTimeout p) t else zeroTime)\<rparr>)"

record wildcardStatus =
  wsName :: string
  wsBaseDomain :: string
  wsURLPattern :: string
  wsDirectory :: string
  wsSupervisorPort :: int
  wsProjects :: nat
  wsRunning :: nat
  wsMaxRunning :: int
  wsNextEviction :: string

definition wildcardStatusLocked :: "time \<Rightarrow> daemon \<Rightarrow> esId \<Rightarrow> wildcardStatus" where
  "wildcardStatusLocked now d es =
     (let states = dynamicStatesLocked d es; e = esEntry (dmEntryStates d es) in
      \<lparr>wsName = dName e, wsBaseDomain = dBaseDomain e, wsURLPattern = URLPattern e,
       wsDirectory = dDirectory e, wsSupervisorPort = SupervisorPort e, wsProjects = length states,
       wsRunning = fst (countRunning d states None), wsMaxRunning = esMaxRunning (dmEntryStates d es),
       wsNextEviction = nextEviction now d states\<rparr>)"

record budgetStatus =
  bsMaxRunning :: int
  bsRunning :: nat
  bsNextEviction :: string

definition budgetStatusLocked :: "time \<Rightarrow> daemon \<Rightarrow> budgetStatus" where
  "budgetStatusLocked now d =
     (let states = sortedStatesLocked d in
      \<lparr>bsMaxRunning = dmMaxRunning d, bsRunning = fst (countRunning d states None),
       bsNextEviction = nextEviction now d states\<rparr>)"

record statusResponse =
  srVersion :: string
  srPID :: int
  srStartedAt :: time
  srUptime :: duration
  srConfigPath :: string
  srLastReloadAt :: time
  srProjects :: "projectStatus list"
  srWildcards :: "wildcardStatus list"
  srBudget :: budgetStatus

definition Status :: "string \<Rightarrow> int \<Rightarrow> time \<Rightarrow> time \<Rightarrow> daemon \<Rightarrow> statusResponse" where
  "Status version pid startedAt now d =
     \<lparr>srVersion = version, srPID = pid, srStartedAt = startedAt, srUptime = now - startedAt,
      srConfigPath = dmConfigPath d, srLastReloadAt = dmLastReloadAt d,
      srProjects = map (projectStatusOf now d) (sortedStatesLocked d),
      srWildcards = map (wildcardStatusLocked now d) (sortedEntriesLocked d),
      srBudget = budgetStatusLocked now d\<rparr>"

section \<open>Starting and stopping by hand\<close>

datatype providerError =
    UnknownProject string
  | StartError supError
  | NoCapacity capacityError
  | ContextEnded
  | StopError string
  | NotServable string rejection
  | PortCommandError runError
  | PortTaken int portUse
  | ReplacedMeanwhile
  | NotYetDecided

type_synonym replies = "chan \<Rightarrow> supError option option"

text \<open>A nil channel never answers.\<close>

definition awaitStart :: "replies \<Rightarrow> chan option \<Rightarrow> providerError option" where
  "awaitStart reply ch =
     (case ch of
        None \<Rightarrow> Some ContextEnded
      | Some c \<Rightarrow>
          (case reply c of
             None \<Rightarrow> Some ContextEnded
           | Some None \<Rightarrow> None
           | Some (Some e) \<Rightarrow> Some (StartError e)))"

type_synonym ticks = "((nat \<Rightarrow> daemon \<Rightarrow> daemon) \<times> (daemon \<Rightarrow> daemon) \<times> time \<times> pollCase) list"

definition startManual ::
    "time \<Rightarrow> spawnOutcome \<Rightarrow> ticks \<Rightarrow> replies \<Rightarrow> stId \<Rightarrow> daemon \<Rightarrow> providerError option \<times> daemon" where
  "startManual now out ticks reply i d =
     (case reserve (EnsureStarted now out) i ticks d of
        (Reserved ch, d1) \<Rightarrow> (awaitStart reply ch, d1)
      | (CapacityFull e, d1) \<Rightarrow> (Some (NoCapacity e), d1)
      | (ReserveCancelled, d1) \<Rightarrow> (Some ContextEnded, d1)
      | (StillWaiting, d1) \<Rightarrow> (Some NotYetDecided, d1))"

text \<open>\<open>(*Supervisor).Stop\<close>: begin the stop and wait; \<open>failed\<close> is the context's error, if it ends first.\<close>

definition stopProc :: "(supervisor \<Rightarrow> supervisor) \<Rightarrow> stId \<Rightarrow> daemon \<Rightarrow> daemon" where
  "stopProc settle i d = setProc i (settle (snd (StopAsync (procOf d i)))) d"

definition restart ::
    "(supervisor \<Rightarrow> supervisor) \<Rightarrow> string option \<Rightarrow> time \<Rightarrow> spawnOutcome \<Rightarrow> ticks \<Rightarrow> replies \<Rightarrow> stId \<Rightarrow>
      daemon \<Rightarrow> providerError option \<times> daemon" where
  "restart settle failed now out ticks reply i d =
     (let d1 = stopProc settle i d in
      case failed of
        Some e \<Rightarrow> (Some (StopError e), d1)
      | None \<Rightarrow> startManual now out ticks reply i d1)"

type_synonym provided = "(providerError + projectStatus) \<times> daemon"

definition statusOr :: "time \<Rightarrow> stId \<Rightarrow> providerError option \<times> daemon \<Rightarrow> provided" where
  "statusOr now i = (\<lambda>(err, d).
     (case err of Some e \<Rightarrow> Inl e | None \<Rightarrow> Inr (projectStatusOf now d i), d))"

definition StartProject ::
    "time \<Rightarrow> spawnOutcome \<Rightarrow> ticks \<Rightarrow> replies \<Rightarrow> string \<Rightarrow> daemon \<Rightarrow> provided" where
  "StartProject now out ticks reply name d =
     (case findProject d name of
        None \<Rightarrow> (Inl (UnknownProject name), d)
      | Some i \<Rightarrow> statusOr now i (startManual now out ticks reply i d))"

definition StopProject ::
    "osView \<Rightarrow> (supervisor \<Rightarrow> supervisor) \<Rightarrow> (daemon \<Rightarrow> daemon) \<Rightarrow> string option \<Rightarrow> time \<Rightarrow> string \<Rightarrow>
      daemon \<Rightarrow> provided" where
  "StopProject os settle world failed now name d =
     (case findProject d name of
        None \<Rightarrow> (Inl (UnknownProject name), d)
      | Some i \<Rightarrow>
          (let d1 = stopProc settle i d in
           case failed of
             Some e \<Rightarrow> (Inl (StopError e), d1)
           | None \<Rightarrow>
               (Inr (projectStatusOf now d1 i),
                if psDynamic (dmProjects d1 i) then dropIfVanished os settle world i d1 else d1)))"

text \<open>
  \<open>restartDynamic\<close>: \<open>env 0\<close> is what happened before the new port is looked up, \<open>env 1\<close> before the
  table is locked.
\<close>

definition swapDynamic ::
    "wildWorld \<Rightarrow> listens \<Rightarrow> (supervisor \<Rightarrow> supervisor) \<Rightarrow> esId \<Rightarrow> string \<Rightarrow> int \<Rightarrow> stId \<Rightarrow> daemon \<Rightarrow>
      stId \<times> daemon" where
  "swapDynamic w net settle es dir port i d =
     (let d1 = retire settle (i, True) (suspendSwitch i d);
          (n, d2) = newProjectState
            (ProjectFor (osHome (wwOS w)) (esEntry (dmEntryStates d es)) (nameOf d i) dir port)
            (psTracker (dmProjects d1 i)) d1;
          d3 = setProject n ((dmProjects d2 n)\<lparr>psDynamic := True, psEntry := Some es\<rparr>) d2
      in (n, snd (commission net n (Some i) d3)))"

definition restartDynamic ::
    "wildWorld \<Rightarrow> listens \<Rightarrow> (supervisor \<Rightarrow> supervisor) \<Rightarrow> (nat \<Rightarrow> daemon \<Rightarrow> daemon) \<Rightarrow> string option \<Rightarrow>
      time \<Rightarrow> spawnOutcome \<Rightarrow> ticks \<Rightarrow> replies \<Rightarrow> stId \<Rightarrow> daemon \<Rightarrow> provided" where
  "restartDynamic w net settle env failed now out ticks reply i d =
     (let es = the (psEntry (dmProjects d i)); e = esEntry (dmEntryStates d es); label = nameOf d i;
          old = pApplicationPort (psProject (dmProjects d i));
          (dir, reason) = CheckIn w e label;
          found = (if dPortCommand e \<noteq> []
                   then RunPortCommand (wwEnvOS w) (osURL (wwOS w)) (wwShell w) dir (dPortCommand e) (dTemplate e)
                   else Inr old)
      in case reason of
           Some r \<Rightarrow> (Inl (NotServable dir r), dropDynamic settle (env 0) i d)
         | None \<Rightarrow>
             (case found of
                Inl err \<Rightarrow> (Inl (PortCommandError err), d)
              | Inr port \<Rightarrow>
                  if port = old then statusOr now i (restart settle failed now out ticks reply i d)
                  else (let d0 = env 0 d in
                    case portOwner d0 port label of
                      Some u \<Rightarrow> (Inl (PortTaken port u), d0)
                    | None \<Rightarrow>
                        (let d1 = env 1 d0 in
                         if map_of (dmStates d1) label \<noteq> Some i then (Inl ReplacedMeanwhile, d1)
                         else (let (n, d2) = swapDynamic w net settle es dir port i d1
                               in statusOr now n (startManual now out ticks reply n d2))))))"

definition RestartProject ::
    "wildWorld \<Rightarrow> listens \<Rightarrow> (supervisor \<Rightarrow> supervisor) \<Rightarrow> (nat \<Rightarrow> daemon \<Rightarrow> daemon) \<Rightarrow> string option \<Rightarrow>
      time \<Rightarrow> spawnOutcome \<Rightarrow> ticks \<Rightarrow> replies \<Rightarrow> string \<Rightarrow> daemon \<Rightarrow> provided" where
  "RestartProject w net settle env failed now out ticks reply name d =
     (case findProject d name of
        None \<Rightarrow> (Inl (UnknownProject name), d)
      | Some i \<Rightarrow>
          if psDynamic (dmProjects d i)
          then restartDynamic w net settle env failed now out ticks reply i d
          else statusOr now i (restart settle failed now out ticks reply i d))"

section \<open>Leases and logs\<close>

definition LeaseProject :: "time \<Rightarrow> string \<Rightarrow> duration \<Rightarrow> daemon \<Rightarrow> provided" where
  "LeaseProject now name ttl d =
     (case findProject d name of
        None \<Rightarrow> (Inl (UnknownProject name), d)
      | Some i \<Rightarrow>
          (let d1 = setTracker i (snd (Lease now ttl (trackerOf d i))) d
           in (Inr (projectStatusOf now d1 i), d1)))"

definition ReleaseProjectLease :: "time \<Rightarrow> string \<Rightarrow> daemon \<Rightarrow> provided" where
  "ReleaseProjectLease now name d =
     (case findProject d name of
        None \<Rightarrow> (Inl (UnknownProject name), d)
      | Some i \<Rightarrow>
          (let d1 = setTracker i (ReleaseLease (trackerOf d i)) d
           in (Inr (projectStatusOf now d1 i), d1)))"

record logsResponse =
  lrName :: string
  lrLogFile :: string
  lrLines :: "string list"

definition ProjectLogs :: "string \<Rightarrow> string \<Rightarrow> int \<Rightarrow> daemon \<Rightarrow> providerError + logsResponse" where
  "ProjectLogs logDir name maxLines d =
     (case findProject d name of
        None \<Rightarrow> Inl (UnknownProject name)
      | Some i \<Rightarrow>
          Inr \<lparr>lrName = name, lrLogFile = filepathJoin [logDir, nameOf d i @ ''.log''],
               lrLines = Logs (procOf d i) maxLines\<rparr>)"

end
