(* ===== verification/ProviderProps.thy ===== *)
theory ProviderProps
  imports Provider ReloadFacts
begin

text \<open>
  What the control API promises: the idle stop it announces is the one the idle monitor makes, and a
  restart of a worktree project on a new port swaps it in place.
\<close>

section \<open>The announced idle stop\<close>

text \<open>A tick of the monitor at \<open>now\<close> with nothing else going on.\<close>

definition quietTick :: "duration \<Rightarrow> time \<Rightarrow> supervisor \<Rightarrow> tracker \<Rightarrow> supervisor tickResult" where
  "quietTick timeout now s t =
     tick supervisorView (NewMonitor timeout) \<lparr>oNow = now, oProc = s, oTracker = t\<rparr>
       \<lparr>oNow = now, oProc = s, oTracker = t\<rparr> (\<lambda>t'. \<lparr>oNow = now, oProc = s, oTracker = t'\<rparr>)"

lemma quietTick_stops:
  assumes "mirrored s" and "tGate t = None"
  shows "rStopped (quietTick timeout now s t) \<noteq> None \<longleftrightarrow>
     \<not> notStoppable (Snapshot s) \<and> \<not> Parked now t \<and> Deadline (snStartedAt (Snapshot s)) timeout t \<le> now"
proof -
  have st: "State s = Running" if "\<not> notStoppable (Snapshot s)"
    using that assms(1) by (simp add: notStoppable_def Snapshot_def State_def mirrored_def)
  let ?t1 = "t\<lparr>tGate := Some (tNextGate t), tNextGate := tNextGate t + 1\<rparr>"
  have p: "Parked now (t\<lparr>tGate := g, tNextGate := k\<rparr>) = Parked now t" for g k
    by (simp add: Parked_def LeaseUntil_def)
  have d: "Deadline x y (t\<lparr>tGate := g, tNextGate := k\<rparr>) = Deadline x y t" for x y g k
    by (simp add: Deadline_def activityBase_def LastActivity_def)
  have b: "BeginStop now t = (if Parked now t then (None, closeGate (tNextGate t) ?t1) else (Some (tNextGate t), ?t1))"
    using assms(2) by (simp add: BeginStop_def Let_def p)
  have "rStopped (quietTick timeout now s t) = Some q \<longleftrightarrow>
      State s = Running \<and> \<not> notStoppable (Snapshot s) \<and> \<not> Parked now t \<and>
      Deadline (snStartedAt (Snapshot s)) timeout t \<le> now \<and> q = snd (StopAsync s)" for q
    by (auto simp: quietTick_def tick_stops_iff b d supervisorView_def Let_def)
  then show ?thesis using st by blast
qed

text \<open>
  The idle stop the status announces is the one the monitor makes: when a project has an
  \<open>idle_stop_at\<close> (and no stop is under way), a tick of its monitor at any later moment, with nothing
  else happening, stops it if and only if that moment has come; and while the status announces none,
  a tick at that moment does not stop it, unless the project is \<open>always_on\<close> and has no monitor.
\<close>

theorem announced_idle_stop_is_the_monitors:
  assumes "mirrored (procOf d i)" and "tGate (trackerOf d i) = None" and "now \<le> later"
    and "\<not> pAlwaysOn (psProject (dmProjects d i))" and "0 < now"
    and "0 \<le> IdleTimeout (psProject (dmProjects d i))"
    and "0 \<le> snStartedAt (Snapshot (procOf d i)) \<or> IsZero (snStartedAt (Snapshot (procOf d i)))"
  shows "let at = stIdleStopAt (projectStatusOf now d i);
      stops = (\<lambda>t. rStopped (quietTick (IdleTimeout (psProject (dmProjects d i))) t (procOf d i) (trackerOf d i)) \<noteq> None)
    in (at \<noteq> zeroTime \<longrightarrow> (stops later \<longleftrightarrow> at \<le> later)) \<and> (at = zeroTime \<longrightarrow> \<not> stops now)"
proof -
  let ?p = "psProject (dmProjects d i)" let ?s = "procOf d i" let ?t = "trackerOf d i"
  let ?snap = "Snapshot ?s"
  note q = quietTick_stops [OF assms(1,2)]
  have later: "\<not> Parked later ?t" if "\<not> Parked now ?t"
    using that assms(3,5) by (auto simp: Parked_def LeaseUntil_def IsZero_def After_def zeroTime_def split: if_splits)
  have base: "snStartedAt ?snap \<le> activityBase (snStartedAt ?snap) ?t"
    by (simp add: activityBase_def After_def)
  have at: "stIdleStopAt (projectStatusOf now d i) =
      (if \<not> notStoppable ?snap \<and> \<not> Parked now ?t then Deadline (snStartedAt ?snap) (IdleTimeout ?p) ?t else zeroTime)"
    using assms(4) by (simp add: projectStatusOf_def notStoppable_def Let_def)
  show ?thesis
  proof (cases "\<not> notStoppable ?snap \<and> \<not> Parked now ?t")
    case True
    then have "0 \<le> snStartedAt ?snap" using assms(7) by (simp add: notStoppable_def)
    then have "Deadline (snStartedAt ?snap) (IdleTimeout ?p) ?t \<noteq> zeroTime"
      using base assms(6) by (simp add: Deadline_def zeroTime_def)
    then show ?thesis using True later unfolding Let_def q at by simp
  next
    case False
    then show ?thesis unfolding Let_def q at by auto
  qed
qed

section \<open>Restarting on a new port\<close>

lemma dmNext_retire: "dmNext d \<le> dmNext (retire settle (i, keep) d)"
  using touches_retire [of i keep d settle] by (simp add: touches_def)

text \<open>
  When a worktree's port command names another port, a restart swaps the project in place: the
  predecessor is retired and out of service before its successor is registered, and the successor, on
  the new port, has the name, the entry, the activity tracker (its lease included) and the very route
  of the predecessor, so the requests that were parked meanwhile reach it; no other project's record
  changes.
\<close>

theorem restart_swaps_in_place:
  assumes "settles settle" and "retiredOk d" and "i < dmNext d"
    and "psSwitch (dmProjects d i) = Some sw" and "\<not> psRetired (dmProjects d i)"
    and "swapDynamic w net settle es dir port i d = (n, d')"
  shows "outOfService (procOf d' i) \<and> n \<noteq> i \<and> map_of (dmStates d') (nameOf d i) = Some n \<and>
    psProject (dmProjects d' n) =
      ProjectFor (osHome (wwOS w)) (esEntry (dmEntryStates d es)) (nameOf d i) dir port \<and>
    psProc (dmProjects d' n) = NewSupervisor (psProject (dmProjects d' n)) \<and>
    psTracker (dmProjects d' n) = psTracker (dmProjects d i) \<and>
    psDynamic (dmProjects d' n) \<and> psEntry (dmProjects d' n) = Some es \<and>
    psSwitch (dmProjects d' n) = Some sw \<and> dmSwitches d' sw = Handling n \<and>
    (\<forall>j. j \<noteq> i \<longrightarrow> j \<noteq> n \<longrightarrow> dmProjects d' j = dmProjects d j)"
proof -
  let ?d0 = "suspendSwitch i d" let ?d1 = "retire settle (i, True) ?d0"
  have s0: "dmProjects ?d0 = dmProjects d" "dmNext ?d0 = dmNext d"
    by (simp_all add: suspendSwitch_def split: option.split)
  then have ok0: "retiredOk ?d0" using assms(2) by (simp add: retiredOk_def procOf_def)
  note one = retire_one [OF assms(1) ok0, where i = i and keep = True]
  have out: "outOfService (procOf ?d1 i)" using one(1,2) by (simp add: retiredOk_def)
  have same: "psTracker (dmProjects ?d1 i) = psTracker (dmProjects d i)"
    "psSwitch (dmProjects ?d1 i) = Some sw"
    using one(3) assms(4) by (simp_all add: sameStatic_def s0)
  have others: "dmProjects ?d1 j = dmProjects d j" if "j \<noteq> i" for j
    using touches_retire [of i True ?d0 settle] that by (simp add: touches_def s0)
  let ?p = "ProjectFor (osHome (wwOS w)) (esEntry (dmEntryStates d es)) (nameOf d i) dir port"
  have n: "n = dmNext ?d1" and d': "d' = snd (commission net n (Some i)
      (setProject n ((dmProjects (snd (newProjectState ?p (psTracker (dmProjects ?d1 i)) ?d1)) n)
        \<lparr>psDynamic := True, psEntry := Some es\<rparr>) (snd (newProjectState ?p (psTracker (dmProjects ?d1 i)) ?d1))))"
    using assms(6) by (auto simp: swapDynamic_def newProjectState_def Let_def)
  have ni: "n \<noteq> i" using assms(3) dmNext_retire [of ?d0 settle i True] s0 by (simp add: n)
  have name: "pName ?p = nameOf d i" by (simp add: ProjectFor_name)
  have rec: "dmProjects d' = (dmProjects ?d1)(n :=
      \<lparr>psProject = ?p, psProc = NewSupervisor ?p, psTracker = psTracker (dmProjects d i), psSwitch = Some sw,
       psBind = psBind (dmProjects ?d1 i), psActive = True, psDynamic = True, psEntry = Some es,
       psRetired = False\<rparr>)"
    "map_of (dmStates d') (nameOf d i) = Some n" "dmSwitches d' sw = Handling n"
    using ni same
    by (simp_all add: d' commission_def newProjectState_def setProject_def activate_def n [symmetric] name
        map_of_mapPut Let_def)
  then show ?thesis using ni out others by (simp add: procOf_def)
qed

section \<open>A worktree project and its restart\<close>

definition pvState0 :: projectState where
  "pvState0 =
     \<lparr>psProject = emptyProject\<lparr>pName := ''a'', pApplicationPort := 5000\<rparr>, psProc = demoProc 1, psTracker = 1,
      psSwitch = Some 3, psBind = None, psActive = True, psDynamic = True, psEntry = Some 0, psRetired = False\<rparr>"

definition pvDaemon :: daemon where
  "pvDaemon = (demoDaemon [(''a'', 1)] 0)\<lparr>dmProjects := (\<lambda>_. pvState0)\<rparr>"

lemma pv_simps: "dmProjects pvDaemon i = pvState0" "procOf pvDaemon i = demoProc 1" "dmNext pvDaemon = 9"
  "nameOf pvDaemon i = ''a''" "trackerOf pvDaemon i = NewTracker"
  by (simp_all add: pvDaemon_def procOf_def demoDaemon_def pvState0_def nameOf_def trackerOf_def)

theorem restart_swaps_in_place_witness:
  "\<exists>n d'. swapDynamic \<lparr>wwOS = wtOS, wwLinks = Some, wwEnvOS = plainEnvOS, wwShell = (\<lambda>_ _ _. TimedOut),
       wwFmt = demoFmt, wwRejection = (\<lambda>_. []), wwRunError = (\<lambda>_. [])\<rparr>
       (\<lambda>_ _. None) (\<lambda>s. s) 0 ''/w/a'' 5001 1 pvDaemon = (n, d') \<and>
     map_of (dmStates d') ''a'' = Some n \<and> dmSwitches d' 3 = Handling n"
proof -
  let ?w = "\<lparr>wwOS = wtOS, wwLinks = Some, wwEnvOS = plainEnvOS, wwShell = (\<lambda>_ _ _. TimedOut),
       wwFmt = demoFmt, wwRejection = (\<lambda>_. []), wwRunError = (\<lambda>_. [])\<rparr>"
  obtain n d' where r: "swapDynamic ?w (\<lambda>_ _. None) (\<lambda>s. s) 0 ''/w/a'' 5001 1 pvDaemon = (n, d')" by fastforce
  have st: "settles (\<lambda>s. s)" by (simp add: settles_def)
  have ok: "retiredOk pvDaemon" by (simp add: retiredOk_def pv_simps demoProc_mirrored pvState0_def)
  have "map_of (dmStates d') (nameOf pvDaemon 1) = Some n \<and> dmSwitches d' 3 = Handling n"
    using restart_swaps_in_place [OF st ok _ _ _ r, of 3] by (simp add: pv_simps pvState0_def)
  with r show ?thesis by (auto simp: pv_simps)
qed

theorem announced_idle_stop_is_the_monitors_witness:
  "stIdleStopAt (projectStatusOf (2 * timeSecond) pvDaemon 1) = timeSecond \<and>
   rStopped (quietTick 0 (3 * timeSecond) (demoProc 1) NewTracker) \<noteq> None"
proof -
  have t: "IdleTimeout (psProject pvState0) = 0"
    by (simp add: IdleTimeout_def pvState0_def emptyProject_def time_simps wrap64_def)
  have r: "snState (Snapshot (demoProc 1)) = Running"
    using demoProc_State [of 1] demoProc_mirrored [of 1] by (simp add: Snapshot_def State_def mirrored_def)
  have at: "stIdleStopAt (projectStatusOf (2 * timeSecond) pvDaemon 1) = timeSecond"
    using r demoProc_started [of 1] t
    by (simp add: projectStatusOf_def pv_simps Let_def Parked_def NewTracker_def LeaseUntil_def Deadline_def
        activityBase_def LastActivity_def After_def IsZero_def zeroTime_def time_simps pvState0_def emptyProject_def)
  have "timeSecond \<noteq> zeroTime" by (simp add: time_simps zeroTime_def)
  moreover have "\<not> pAlwaysOn (psProject pvState0)" by (simp add: pvState0_def emptyProject_def)
  moreover have "tGate NewTracker = None" by (simp add: NewTracker_def)
  ultimately show ?thesis
    using announced_idle_stop_is_the_monitors [of pvDaemon 1 "2 * timeSecond" "3 * timeSecond"]
      demoProc_started [of 1] at t
    by (simp add: pv_simps demoProc_mirrored time_simps Let_def)
qed

end
