(* ===== verification/Herd.thy ===== *)
theory Herd
  imports PortCommand Validation
begin

text \<open>
  Laravel Herd's command-line tool (\<open>internal/herd/herd.go\<close>): site names, reading a site file, the
  cached listings, the conflict check and the commands. \<open>herd\<close> itself, the JSON decoder, the files it
  writes and the URL and IP parsers are the record \<open>herdWorld\<close>; a run may depend on the runs before
  it, which are the \<open>clRuns\<close> of the tool.
\<close>

section \<open>The outside\<close>

datatype jsonItem =
    JsonString string
  | JsonObject "(string, string) gomap"
  | JsonOther

text \<open>
  \<open>hwRun\<close>: what the command prints, or its error. \<open>hwRead\<close>: the file as the runs have left it.
  \<open>hwStrings s old\<close>: decoding into a list variable that holds \<open>old\<close>: whether it succeeds, and what
  the variable holds afterwards. \<open>JsonObject\<close> has the string-valued fields of an object.
\<close>

record herdWorld =
  hwRun :: "string list list \<Rightarrow> string list \<Rightarrow> string + string"
  hwRead :: "string list list \<Rightarrow> string \<Rightarrow> readResult"
  hwOS :: osView
  hwHostname :: "string \<Rightarrow> string option"
  hwIsIP :: "string \<Rightarrow> bool"
  hwStrings :: "string \<Rightarrow> string list \<Rightarrow> bool \<times> string list"
  hwItems :: "string \<Rightarrow> jsonItem list option"

type_synonym listing = "string + string list"

record cli =
  clConfigDir :: string
  clPaths :: "listing option"
  clLinks :: "listing option"
  clRuns :: "string list list"

definition newCLI :: "string \<Rightarrow> cli" where
  "newCLI dir = \<lparr>clConfigDir = dir, clPaths = None, clLinks = None, clRuns = []\<rparr>"

section \<open>Finding the tool\<close>

text \<open>\<open>detBundled\<close>: the bundled file exists, is no directory and is executable.\<close>

record detectIn =
  detBinary :: string
  detConfigDir :: string
  detHome :: string
  detUserHome :: "string option"
  detLookPath :: "string \<Rightarrow> string option"
  detGOOS :: string
  detBundled :: "string \<Rightarrow> bool"

definition Detect :: "detectIn \<Rightarrow> string option \<times> cli" where
  "Detect x =
     (let home = (if detHome x = [] then (case detUserHome x of Some h \<Rightarrow> h | None \<Rightarrow> []) else detHome x);
          darwin = (detGOOS x = ''darwin'');
          dir = (if detConfigDir x = []
                 then filepathJoin [home, ''Library'', ''Application Support'', ''Herd'', ''config'', ''valet'']
                 else detConfigDir x);
          bundled = filepathJoin [home, ''Library'', ''Application Support'', ''Herd'', ''bin'', ''herd''];
          binary = (if detBinary x \<noteq> [] then detBinary x
                    else (case detLookPath x ''herd'' of
                            Some found \<Rightarrow> found
                          | None \<Rightarrow> if darwin \<and> detBundled x bundled then bundled else []))
      in (if binary = [] then None else Some binary, newCLI dir))"

section \<open>Names\<close>

definition SiteFile :: "cli \<Rightarrow> string \<Rightarrow> string" where
  "SiteFile c host = filepathJoin [clConfigDir c, ''Nginx'', host]"

definition SiteName :: "string \<Rightarrow> string option" where
  "SiteName host =
     (case lastIndexByte (CHR ''.'') host of
        None \<Rightarrow> None
      | Some i \<Rightarrow> if i = 0 \<or> i = length host - 1 then None else Some (take i host))"

text \<open>Host, name (empty unless ok) and whether it is a Herd site.\<close>

definition SiteFromURL :: "herdWorld \<Rightarrow> string \<Rightarrow> string \<times> string \<times> bool" where
  "SiteFromURL w url =
     (case hwHostname w url of
        None \<Rightarrow> ([], [], False)
      | Some h \<Rightarrow>
          (let host = ToLower h in
           if hwIsIP w host then (host, [], False)
           else (case SiteName host of None \<Rightarrow> (host, [], False) | Some n \<Rightarrow> (host, n, True))))"

definition proxyArg :: "int \<Rightarrow> string" where
  "proxyArg port = ''http://127.0.0.1:'' @ Itoa port"

definition ProxyCommand :: "string \<Rightarrow> int \<Rightarrow> string" where
  "ProxyCommand name port = ''herd proxy '' @ name @ '' '' @ proxyArg port @ '' --secure''"

definition UnproxyCommand :: "string \<Rightarrow> string" where
  "UnproxyCommand name = ''herd unproxy '' @ name"

section \<open>Running\<close>

definition run :: "herdWorld \<Rightarrow> string list \<Rightarrow> cli \<Rightarrow> (string + string) \<times> cli" where
  "run w args c = (hwRun w (clRuns c) args, c\<lparr>clRuns := clRuns c @ [args]\<rparr>)"

definition errOf :: "string + 'a \<Rightarrow> string option" where
  "errOf r = (case r of Inl e \<Rightarrow> Some e | Inr _ \<Rightarrow> None)"

definition Proxy :: "herdWorld \<Rightarrow> string \<Rightarrow> int \<Rightarrow> cli \<Rightarrow> string option \<times> cli" where
  "Proxy w name port c =
     (let (r, c1) = run w [''proxy'', name, proxyArg port, ''--secure''] c in (errOf r, c1))"

definition Unproxy :: "herdWorld \<Rightarrow> string \<Rightarrow> cli \<Rightarrow> string option \<times> cli" where
  "Unproxy w name c = (let (r, c1) = run w [''unproxy'', name] c in (errOf r, c1))"

section \<open>Site files\<close>

definition dquote :: char where "dquote = CHR 0x22"

text \<open>
  The expression \<open>proxy_pass\s+"?([^\s;"]+)"?\s*;\<close> at the front: the group and what follows the match.
  Its classes exclude each other, so there is one way to match.
\<close>

definition targetChar :: "char \<Rightarrow> bool" where
  "targetChar c \<longleftrightarrow> \<not> regexpSpace c \<and> c \<noteq> CHR '';'' \<and> c \<noteq> dquote"

definition skipQuote :: "string \<Rightarrow> string" where
  "skipQuote s = (case s of c # r \<Rightarrow> if c = dquote then r else s | [] \<Rightarrow> [])"

definition matchProxyPass :: "string \<Rightarrow> (string \<times> string) option" where
  "matchProxyPass s =
     (case cutPrefix s ''proxy_pass'' of
        None \<Rightarrow> None
      | Some r \<Rightarrow>
          (let r1 = skipQuote (dropWhile regexpSpace r);
               target = takeWhile targetChar r1;
               r2 = dropWhile regexpSpace (skipQuote (dropWhile targetChar r1))
           in if (r = [] \<or> \<not> regexpSpace (hd r)) \<or> target = [] then None
              else (case r2 of
                      c # rest \<Rightarrow> if c = CHR '';'' then Some (target, rest) else None
                    | [] \<Rightarrow> None)))"

lemma matchProxyPass_shorter: "matchProxyPass s = Some (t, r) \<Longrightarrow> length r < length s"
proof -
  assume m: "matchProxyPass s = Some (t, r)"
  then obtain p where p: "s = ''proxy_pass'' @ p" "cutPrefix s ''proxy_pass'' = Some p"
    by (auto simp: matchProxyPass_def cutPrefix_Some split: option.splits)
  have sk: "length (skipQuote x) \<le> length x" for x by (simp add: skipQuote_def split: list.split)
  let ?r1 = "skipQuote (dropWhile regexpSpace p)"
  let ?r2 = "dropWhile regexpSpace (skipQuote (dropWhile targetChar ?r1))"
  have "length ?r2 \<le> length p"
    using sk [of "dropWhile targetChar ?r1"] sk [of "dropWhile regexpSpace p"]
      length_dropWhile_le [of regexpSpace "skipQuote (dropWhile targetChar ?r1)"]
      length_dropWhile_le [of targetChar ?r1] length_dropWhile_le [of regexpSpace p]
    by linarith
  moreover have "\<exists>c. ?r2 = c # r"
    using m p(2) by (auto simp: matchProxyPass_def Let_def split: if_splits list.splits)
  ultimately show ?thesis using p(1) by auto
qed

text \<open>\<open>FindAllSubmatch\<close>: the groups of the successive matches.\<close>

function proxyTargets :: "string \<Rightarrow> string list" where
  "proxyTargets [] = []"
| "proxyTargets (c # s) =
     (case matchProxyPass (c # s) of
        Some (t, r) \<Rightarrow> t # proxyTargets r
      | None \<Rightarrow> proxyTargets s)"
  by pat_completeness auto
termination
  by (relation "measure length") (auto dest: matchProxyPass_shorter)

definition targetPort :: "herdWorld \<Rightarrow> string \<Rightarrow> int option" where
  "targetPort w target =
     (case osURL (hwOS w) target of
        None \<Rightarrow> None
      | Some (scheme, host) \<Rightarrow> if urlPort host = [] then None else Atoi (urlPort host))"

text \<open>\<open>Inl\<close> is a read error; otherwise the port (0: the file is no proxy) and whether the file exists.\<close>

definition ProxyTarget :: "herdWorld \<Rightarrow> cli \<Rightarrow> string \<Rightarrow> string + int \<times> bool" where
  "ProxyTarget w c host =
     (case hwRead w (clRuns c) (SiteFile c host) of
        NotExist \<Rightarrow> Inr (0, False)
      | ReadFailed e \<Rightarrow> Inl e
      | FileData text \<Rightarrow>
          (case List.map_filter (targetPort w) (proxyTargets text) of
             p # _ \<Rightarrow> Inr (p, True)
           | [] \<Rightarrow> Inr (0, True)))"

section \<open>Listings\<close>

fun dedup :: "string list \<Rightarrow> string list \<Rightarrow> string list" where
  "dedup seen [] = []"
| "dedup seen (p # ps) = (if p \<in> set seen then dedup seen ps else p # dedup (p # seen) ps)"

definition cleanPaths :: "string list \<Rightarrow> string list" where
  "cleanPaths paths =
     dedup [] (map (\<lambda>p. if 1 < length p then dropTrailing slash p else p)
       (filter (\<lambda>p. p \<noteq> []) (map TrimSpace paths)))"

definition parsePaths :: "herdWorld \<Rightarrow> string \<Rightarrow> string list" where
  "parsePaths w out =
     (let trimmed = TrimSpace out; (ok, ps) = hwStrings w trimmed [] in
      if ok then cleanPaths ps
      else (let (ok2, ps2) = (case indexByte (CHR ''['') trimmed of
                                Some i \<Rightarrow> hwStrings w (drop i trimmed) ps
                              | None \<Rightarrow> (False, ps))
            in if ok2 then cleanPaths ps2
               else cleanPaths (ps2 @ filter (\<lambda>l. hasPrefix l ''/'' \<or> hasPrefix l ''~'')
                      (map TrimSpace (splitByte (CHR 0x0A) trimmed)))))"

definition siteOf :: "herdWorld \<Rightarrow> string \<Rightarrow> string list" where
  "siteOf w url = (case SiteFromURL w url of (_, name, ok) \<Rightarrow> if ok then [name] else [])"

definition itemNames :: "herdWorld \<Rightarrow> jsonItem \<Rightarrow> string list" where
  "itemNames w item =
     (case item of
        JsonString s \<Rightarrow> [s]
      | JsonObject fs \<Rightarrow>
          concat (map (\<lambda>key. case map_of fs key of Some s \<Rightarrow> if s \<noteq> [] then [s] else [] | None \<Rightarrow> [])
            [''site'', ''Site'', ''name'', ''Name'']) @
          concat (map (\<lambda>key. case map_of fs key of Some s \<Rightarrow> siteOf w s | None \<Rightarrow> [])
            [''url'', ''URL'', ''Url''])
      | JsonOther \<Rightarrow> [])"

definition rowNames :: "herdWorld \<Rightarrow> string \<Rightarrow> string list" where
  "rowNames w row =
     (if CHR ''|'' \<notin> set row then []
      else (case filter (\<lambda>c. c \<noteq> []) (map TrimSpace (splitByte (CHR ''|'') row)) of
              [] \<Rightarrow> []
            | site # cells \<Rightarrow>
                if EqualFold site ''site'' then []
                else site # concat (map (siteOf w)
                       (filter (\<lambda>c. hasPrefix c ''http://'' \<or> hasPrefix c ''https://'') cells))))"

definition sortedKeys :: "string list \<Rightarrow> string list" where
  "sortedKeys names = sort (remdups names)"

definition parseLinks :: "herdWorld \<Rightarrow> string \<Rightarrow> string list" where
  "parseLinks w out =
     (let trimmed = TrimSpace out;
          table = sortedKeys (concat (map (rowNames w) (splitByte (CHR 0x0A) trimmed)))
      in if hasPrefix trimmed ''[''
         then (case hwItems w trimmed of
                 Some items \<Rightarrow> sortedKeys (concat (map (itemNames w) items))
               | None \<Rightarrow> table)
         else table)"

definition Paths :: "herdWorld \<Rightarrow> cli \<Rightarrow> listing \<times> cli" where
  "Paths w c =
     (case clPaths c of
        Some l \<Rightarrow> (l, c)
      | None \<Rightarrow>
          (let (r, c1) = run w [''paths''] c;
               l = (case r of Inl e \<Rightarrow> Inl e | Inr out \<Rightarrow> Inr (parsePaths w out))
           in (l, c1\<lparr>clPaths := Some l\<rparr>)))"

definition Links :: "herdWorld \<Rightarrow> cli \<Rightarrow> listing \<times> cli" where
  "Links w c =
     (case clLinks c of
        Some l \<Rightarrow> (l, c)
      | None \<Rightarrow>
          (let (r, c1) = run w [''links''] c;
               l = (case r of Inl e \<Rightarrow> Inl e | Inr out \<Rightarrow> Inr (parseLinks w out))
           in (l, c1\<lparr>clLinks := Some l\<rparr>)))"

section \<open>Conflicts\<close>

datatype conflict = ParkedDirectory string string | LinkedSite string

datatype listError = PathsFailed string | LinksFailed string

definition Conflict :: "herdWorld \<Rightarrow> string \<Rightarrow> cli \<Rightarrow> (listError + conflict option) \<times> cli" where
  "Conflict w name c =
     (case Paths w c of
        (Inl e, c1) \<Rightarrow> (Inl (PathsFailed e), c1)
      | (Inr paths, c1) \<Rightarrow>
          (case find (\<lambda>parked. osStat (hwOS w) (filepathJoin [parked, name]) = Some Directory) paths of
             Some parked \<Rightarrow> (Inr (Some (ParkedDirectory parked name)), c1)
           | None \<Rightarrow>
               (case Links w c1 of
                  (Inl e, c2) \<Rightarrow> (Inl (LinksFailed e), c2)
                | (Inr links, c2) \<Rightarrow>
                    (Inr (if name \<in> set links then Some (LinkedSite name) else None), c2))))"

end
