(* ===== verification/Sync.thy ===== *)
theory Sync
  imports WorktreeScan Herd ConfigFile
begin

text \<open>
  \<open>herd-wake sync\<close> for the entries of mode proxy (\<open>internal/discovery/discovery.go\<close>): allocating ports,
  building the project of a worktree, keeping the managed file, and the Herd proxies. The files of the
  configuration directory, the herd tool and the ports in use are the state \<open>syncer\<close>; the rest of the
  machine, the YAML decoder and encoder are the record \<open>syncEnv\<close>.
\<close>

section \<open>State and outside\<close>

text \<open>Where an atomic write fails, if it does.\<close>

datatype writeFault =
    MkdirFails string | CreateFails string | WriteFails string string | SyncFails string
  | CloseFails string | ChmodFails string | RenameFails string

type_synonym files = "string \<Rightarrow> readResult"

record wildcardState =
  wdBaseDomain :: string
  wdSupervisorPort :: int

record syncState =
  ssWildcards :: "(string, wildcardState) gomap"
  ssProxyNotes :: "(string, wildcardState) gomap"

text \<open>
  \<open>seHerd\<close> is used while \<open>soHerd\<close> holds (the tool is not nil); its state is the \<open>syCli\<close> of the syncer.
  \<open>seFault\<close> and \<open>seRemoveFails\<close> say how the file system fails, \<open>seTmp\<close> names the temporary file of a path.
\<close>

record syncEnv =
  seOS :: osView
  seLinks :: "string \<Rightarrow> string option"
  seEnvOS :: envOS
  seShell :: shell
  seHerd :: herdWorld
  seDecode :: "string \<Rightarrow> string + rawConfig"
  seEncode :: "(string, project) gomap \<Rightarrow> string + string"
  seFault :: "string \<Rightarrow> writeFault option"
  seTmp :: "string \<Rightarrow> string"
  seQuote :: "string \<Rightarrow> string"
  seDecodeState :: "string \<Rightarrow> string + syncState"
  seEncodeState :: "syncState \<Rightarrow> string + string"
  seRemoveFails :: "string \<Rightarrow> string option"
  seGOOS :: string

record syncOptions =
  soHerd :: bool
  soHerdNote :: string
  soHerdUnavailable :: bool
  soGOOS :: string
  soDryRun :: bool

record syncer =
  syUsed :: "(int, string) gomap"
  syState :: syncState
  syFiles :: files
  syCli :: cli

section \<open>Files\<close>

text \<open>
  \<open>writeAtomic\<close> as the sequence of states the file system goes through, with the error it ends in: the
  temporary file is created, filled (to \<open>part\<close> when the write fails), and renamed or removed.
\<close>

definition writeAtomic :: "writeFault option \<Rightarrow> string \<Rightarrow> string \<Rightarrow> string \<Rightarrow> files \<Rightarrow> string option \<times> files list" where
  "writeAtomic fault tmp path data fs =
     (let made = fs(tmp := FileData []); full = fs(tmp := FileData data); gone = fs(tmp := NotExist) in
      case fault of
        Some (MkdirFails e) \<Rightarrow> (Some e, [])
      | Some (CreateFails e) \<Rightarrow> (Some e, [])
      | Some (WriteFails part e) \<Rightarrow> (Some e, [made, fs(tmp := FileData part), gone])
      | Some (SyncFails e) \<Rightarrow> (Some e, [made, full, gone])
      | Some (CloseFails e) \<Rightarrow> (Some e, [made, full, gone])
      | Some (ChmodFails e) \<Rightarrow> (Some e, [made, full, gone])
      | Some (RenameFails e) \<Rightarrow> (Some e, [made, full, gone])
      | None \<Rightarrow> (None, [made, full, fs(tmp := NotExist, path := FileData data)]))"

definition writeFile :: "syncEnv \<Rightarrow> string \<Rightarrow> string \<Rightarrow> files \<Rightarrow> string option \<times> files" where
  "writeFile env path data fs =
     (let (err, states) = writeAtomic (seFault env path) (seTmp env path) path data fs
      in (err, if states = [] then fs else last states))"

definition fileExists :: "syncEnv \<Rightarrow> files \<Rightarrow> string \<Rightarrow> bool" where
  "fileExists env fs path =
     (case fs path of
        FileData _ \<Rightarrow> True
      | NotExist \<Rightarrow> False
      | ReadFailed _ \<Rightarrow> (case osStat (seOS env) path of None \<Rightarrow> False | Some k \<Rightarrow> k \<noteq> Directory))"

definition managedMarker :: string where
  "managedMarker = ''# Managed by herd-wake sync''"

definition emDash :: string where "emDash = [CHR 0xE2, CHR 0x80, CHR 0x94]"
definition rightArrow :: string where "rightArrow = [CHR 0xE2, CHR 0x86, CHR 0x92]"
definition lf :: string where "lf = [CHR 0x0A]"

definition ManagedHeader :: "syncEnv \<Rightarrow> discovery \<Rightarrow> string \<Rightarrow> string" where
  "ManagedHeader env d configPath =
     managedMarker @ '' '' @ emDash @ '' do not edit.'' @ lf @
     ''# Discovery '' @ seQuote env (dName d) @ '' ('' @ dDirectory d @
     ''): every `herd-wake sync` rewrites this file from the'' @ lf @
     ''# discovery template in '' @ configPath @ '', so hand edits are lost.'' @ lf"

text \<open>\<open>Inl\<close> is a read error.\<close>

definition IsManagedFile :: "files \<Rightarrow> string \<Rightarrow> string + bool" where
  "IsManagedFile fs path =
     (case fs path of
        NotExist \<Rightarrow> Inr True
      | ReadFailed e \<Rightarrow> Inl e
      | FileData text \<Rightarrow>
          (let t = TrimSpace text in Inr (t = [] \<or> hasPrefix t managedMarker)))"

text \<open>The projects registered so far: none when there is no file.\<close>

definition readFragment :: "syncEnv \<Rightarrow> files \<Rightarrow> string \<Rightarrow> configError + (string, project) gomap" where
  "readFragment env fs path =
     DecodeFragment (\<lambda>p. case fs p of
         NotExist \<Rightarrow> Inl ''file does not exist''
       | ReadFailed e \<Rightarrow> Inl e
       | FileData text \<Rightarrow> seDecode env text) path"

definition decodeExisting :: "syncEnv \<Rightarrow> files \<Rightarrow> string \<Rightarrow> configError + (string, project) gomap" where
  "decodeExisting env fs path = (if fs path = NotExist then Inr [] else readFragment env fs path)"

definition render :: "syncEnv \<Rightarrow> string \<Rightarrow> (string, project) gomap \<Rightarrow> string + string" where
  "render env header projects = map_sum id (\<lambda>body. header @ body) (seEncode env projects)"

section \<open>Ports\<close>

definition usedBy :: "(int, string) gomap \<Rightarrow> int \<Rightarrow> string" where
  "usedBy used port = (case map_of used port of None \<Rightarrow> [] | Some n \<Rightarrow> n)"

definition release :: "string \<Rightarrow> int \<Rightarrow> (int, string) gomap \<Rightarrow> (int, string) gomap" where
  "release name port used = (if usedBy used port = name then mapDelete port used else used)"

definition allocate :: "int list \<Rightarrow> string \<Rightarrow> (int, string) gomap \<Rightarrow> int option \<times> (int, string) gomap" where
  "allocate rng name used =
     (if length rng \<noteq> 2 then (None, used)
      else (case find (\<lambda>port. usedBy used port = []) [rng ! 0 .. rng ! 1] of
              Some port \<Rightarrow> (Some port, mapPut port name used)
            | None \<Rightarrow> (None, used)))"

section \<open>The project of a worktree\<close>

datatype siteConflict = Shadows conflict | NonProxySiteFile string

datatype herdError = CannotCheck listError | CannotInspect string string

definition herdConflict :: "herdWorld \<Rightarrow> string \<Rightarrow> cli \<Rightarrow> (herdError + siteConflict option) \<times> cli" where
  "herdConflict w url c =
     (let (host, site, ok) = SiteFromURL w url in
      if \<not> ok then (Inr None, c)
      else (case Conflict w site c of
              (Inl e, c1) \<Rightarrow> (Inl (CannotCheck e), c1)
            | (Inr (Some r), c1) \<Rightarrow> (Inr (Some (Shadows r)), c1)
            | (Inr None, c1) \<Rightarrow>
                (case ProxyTarget w c1 host of
                   Inl e \<Rightarrow> (Inl (CannotInspect host e), c1)
                 | Inr (port, exists) \<Rightarrow>
                     (Inr (if exists \<and> port = 0 then Some (NonProxySiteFile host) else None), c1))))"

datatype skipReason =
    RuleRejected rejection
  | DefinedElsewhere string
  | HerdUnchecked herdError
  | HerdClaimRefused siteConflict
  | SupervisorRangeExhausted "int list"
  | ApplicationRangeExhausted "int list"
  | PortCommandFailing runError
  | PortOfProject int string
  | PortIsSupervisorPort int

text \<open>\<open>skKept\<close>: the previous registration is kept.\<close>

record skipped =
  spName :: string
  spDirectory :: string
  spReason :: skipReason
  spKept :: bool

definition templateFor :: "discovery \<Rightarrow> worktree \<Rightarrow> project" where
  "templateFor d c =
     (dTemplate d)\<lparr>pName := fst c, pPublicURL := PublicURL d (fst c), pWorkingDirectory := snd c\<rparr>"

text \<open>Giving up on a candidate: its allocations are returned; \<open>keep\<close> asks to keep what it had.\<close>

type_synonym built = "(project option \<times> skipped option) \<times> syncer"

definition skipWith ::
    "worktree \<Rightarrow> project option \<Rightarrow> int list \<Rightarrow> bool \<Rightarrow> skipReason \<Rightarrow> syncer \<Rightarrow> built" where
  "skipWith c prev allocated keep reason s =
     (let s1 = s\<lparr>syUsed := fold (release (fst c)) allocated (syUsed s)\<rparr>; kept = (keep \<and> prev \<noteq> None)
      in ((if kept then prev else None,
           Some \<lparr>spName = fst c, spDirectory = snd c, spReason = reason, spKept = kept\<rparr>), s1))"

text \<open>Never claim a Herd site that belongs to something else.\<close>

definition claimSite ::
    "syncEnv \<Rightarrow> syncOptions \<Rightarrow> discovery \<Rightarrow> worktree \<Rightarrow> project option \<Rightarrow> syncer \<Rightarrow>
      skipReason option \<times> syncer" where
  "claimSite env opts d c prev s =
     (if prev = None \<and> soHerd opts
      then (case herdConflict (seHerd env) (PublicURL d (fst c)) (syCli s) of
              (Inl e, cl) \<Rightarrow> (Some (HerdUnchecked e), s\<lparr>syCli := cl\<rparr>)
            | (Inr (Some r), cl) \<Rightarrow> (Some (HerdClaimRefused r), s\<lparr>syCli := cl\<rparr>)
            | (Inr None, cl) \<Rightarrow> (None, s\<lparr>syCli := cl\<rparr>))
      else (None, s))"

text \<open>Whether the name may be claimed at all.\<close>

definition claimName ::
    "syncEnv \<Rightarrow> syncOptions \<Rightarrow> config \<Rightarrow> discovery \<Rightarrow> worktree \<Rightarrow> project option \<Rightarrow> syncer \<Rightarrow>
      skipReason option \<times> syncer" where
  "claimName env opts cfg d c prev s =
     (case map_of (cProjects cfg) (fst c) of
        Some other \<Rightarrow>
          if pSource other \<noteq> SourceOf d then (Some (DefinedElsewhere (pSource other)), s)
          else claimSite env opts d c prev s
      | None \<Rightarrow> claimSite env opts d c prev s)"

text \<open>The ports: the candidate's project, or why it is skipped. \<open>allocated\<close>: what it was given here.\<close>

definition choosePort ::
    "syncEnv \<Rightarrow> discovery \<Rightarrow> worktree \<Rightarrow> project option \<Rightarrow> int list \<Rightarrow> int \<Rightarrow> syncer \<Rightarrow> built" where
  "choosePort env d c prev allocated supervisorPort s =
     (let p = (templateFor d c)\<lparr>pSupervisorPort := supervisorPort\<rparr> in
      if dPortCommand d \<noteq> []
      then (case RunPortCommand (seEnvOS env) (osURL (seOS env)) (seShell env) (snd c) (dPortCommand d) (dTemplate d) of
              Inl e \<Rightarrow> skipWith c prev allocated True (PortCommandFailing e) s
            | Inr port \<Rightarrow>
                (let owner = usedBy (syUsed s) port in
                 if owner \<noteq> [] \<and> owner \<noteq> fst c
                 then skipWith c prev allocated True (PortOfProject port owner) s
                 else if port = supervisorPort
                 then skipWith c prev allocated True (PortIsSupervisorPort port) s
                 else ((Some (p\<lparr>pApplicationPort := port\<rparr>), None),
                       s\<lparr>syUsed := mapPut port (fst c) (syUsed s)\<rparr>)))
      else (case prev of
              Some q \<Rightarrow> ((Some (p\<lparr>pApplicationPort := pApplicationPort q\<rparr>), None), s)
            | None \<Rightarrow>
                (case allocate (dApplicationPortRange d) (fst c) (syUsed s) of
                   (None, _) \<Rightarrow>
                     skipWith c prev allocated False (ApplicationRangeExhausted (dApplicationPortRange d)) s
                 | (Some port, used) \<Rightarrow>
                     ((Some (p\<lparr>pApplicationPort := port\<rparr>), None), s\<lparr>syUsed := used\<rparr>))))"

definition build ::
    "syncEnv \<Rightarrow> syncOptions \<Rightarrow> config \<Rightarrow> discovery \<Rightarrow> worktree \<Rightarrow> project option \<Rightarrow> syncer \<Rightarrow> built" where
  "build env opts cfg d c prev s =
     (case claimName env opts cfg d c prev s of
        (Some reason, s1) \<Rightarrow> skipWith c prev [] False reason s1
      | (None, s1) \<Rightarrow>
          (case prev of
             Some q \<Rightarrow> choosePort env d c prev [] (pSupervisorPort q) s1
           | None \<Rightarrow>
               (case allocate (dSupervisorPortRange d) (fst c) (syUsed s1) of
                  (None, _) \<Rightarrow>
                    skipWith c prev [] False (SupervisorRangeExhausted (dSupervisorPortRange d)) s1
                | (Some port, used) \<Rightarrow> choosePort env d c prev [port] port (s1\<lparr>syUsed := used\<rparr>))))"

section \<open>Results\<close>

datatype herdStatus = HerdDone | HerdSkipped | HerdDryRun | HerdManual | HerdRefused

datatype actionDetail =
    NoDetail
  | HerdOffForEntry
  | HerdNote string
  | HerdFailure string
  | AlreadyProxied int
  | SiteFileNoProxy string
  | Repointed int
  | RepointFailed int string
  | NotAHerdSite
  | NoSiteFile string
  | ProxiesElsewhere string int
  | ConflictUnchecked listError
  | WouldShadow conflict

record herdAction =
  haAction :: string
  haSite :: string
  haProject :: string
  haPort :: int
  haCommand :: string
  haStatus :: herdStatus
  haDetail :: actionDetail

record summary =
  smName :: string
  smDirectory :: string
  smPublicURL :: string
  smSupervisorPort :: int
  smApplicationPort :: int
  smDetail :: string

definition summarize :: "project \<Rightarrow> summary" where
  "summarize p =
     \<lparr>smName = pName p, smDirectory = pWorkingDirectory p, smPublicURL = pPublicURL p,
      smSupervisorPort = pSupervisorPort p, smApplicationPort = pApplicationPort p, smDetail = []\<rparr>"

definition describeChange :: "project \<Rightarrow> project \<Rightarrow> string" where
  "describeChange a b =
     (let to = '' '' @ rightArrow @ '' '';
          parts =
            (if pApplicationPort a \<noteq> pApplicationPort b
             then [''application_port '' @ Itoa (pApplicationPort a) @ to @ Itoa (pApplicationPort b)] else []) @
            (if pSupervisorPort a \<noteq> pSupervisorPort b
             then [''supervisor_port '' @ Itoa (pSupervisorPort a) @ to @ Itoa (pSupervisorPort b)] else []) @
            (if pPublicURL a \<noteq> pPublicURL b
             then [''public_url '' @ pPublicURL a @ to @ pPublicURL b] else [])
      in joinStrings (if parts = [] then [''template settings changed''] else parts) '', '')"

datatype syncError =
    CannotRead string string
  | Unmanaged string
  | CannotDecode configError
  | CannotScan string
  | CannotRender string string
  | CannotWrite string string
  | RefusedSiteFile string
  | RefusedShadow string conflict

record entryResult =
  erName :: string
  erWildcard :: bool
  erDirectory :: string
  erFile :: string
  erBaseDomain :: string
  erSupervisorPort :: int
  erURLPattern :: string
  erRetired :: bool
  erStale :: "string option"
  erChanged :: bool
  erWritten :: bool
  erAdded :: "summary list"
  erUpdated :: "summary list"
  erUnchanged :: "summary list"
  erRemoved :: "summary list"
  erSkipped :: "skipped list"
  erHerd :: "herdAction list"
  erErrors :: "syncError list"

definition emptyEntryResult :: entryResult where
  "emptyEntryResult =
     \<lparr>erName = [], erWildcard = False, erDirectory = [], erFile = [], erBaseDomain = [],
      erSupervisorPort = 0, erURLPattern = [], erRetired = False, erStale = None, erChanged = False,
      erWritten = False, erAdded = [], erUpdated = [], erUnchanged = [], erRemoved = [],
      erSkipped = [], erHerd = [], erErrors = []\<rparr>"

section \<open>Herd actions\<close>

definition herdQuiet :: "syncOptions \<Rightarrow> bool option \<Rightarrow> bool" where
  "herdQuiet opts setting \<longleftrightarrow>
     \<not> soHerd opts \<and> soHerdUnavailable opts \<and> soGOOS opts \<noteq> ''darwin'' \<and> setting = None"

definition herdOff :: "syncOptions \<Rightarrow> discovery \<Rightarrow> bool" where
  "herdOff opts d = herdQuiet opts (dHerd d)"

text \<open>\<open>f\<close> is the mutation; the joined detail of a failure after a re-pointing is \<open>RepointFailed\<close>.\<close>

definition runHerd ::
    "syncOptions \<Rightarrow> (cli \<Rightarrow> string option \<times> cli) \<Rightarrow> herdAction \<Rightarrow> syncer \<Rightarrow> herdAction \<times> syncer" where
  "runHerd opts f a s =
     (if soDryRun opts then (a\<lparr>haStatus := HerdDryRun\<rparr>, s)
      else (case f (syCli s) of
              (Some e, cl) \<Rightarrow>
                (a\<lparr>haStatus := HerdManual,
                   haDetail := (case haDetail a of Repointed p \<Rightarrow> RepointFailed p e | _ \<Rightarrow> HerdFailure e)\<rparr>,
                 s\<lparr>syCli := cl\<rparr>)
            | (None, cl) \<Rightarrow> (a\<lparr>haStatus := HerdDone\<rparr>, s\<lparr>syCli := cl\<rparr>)))"

definition proxyAction ::
    "syncEnv \<Rightarrow> syncOptions \<Rightarrow> discovery \<Rightarrow> project \<Rightarrow> string \<Rightarrow> string \<Rightarrow> syncer \<Rightarrow> herdAction \<times> syncer" where
  "proxyAction env opts d p host site s =
     (let w = seHerd env;
          a = \<lparr>haAction = ''proxy'', haSite = site, haProject = pName p, haPort = pSupervisorPort p,
               haCommand = ProxyCommand site (pSupervisorPort p), haStatus = HerdManual, haDetail = NoDetail\<rparr>
      in if \<not> HerdEnabled d then (a\<lparr>haDetail := HerdOffForEntry\<rparr>, s)
         else if \<not> soHerd opts then (a\<lparr>haDetail := HerdNote (soHerdNote opts)\<rparr>, s)
         else (case ProxyTarget w (syCli s) host of
                 Inl e \<Rightarrow> (a\<lparr>haDetail := HerdFailure e\<rparr>, s)
               | Inr (port, exists) \<Rightarrow>
                   if exists \<and> port = pSupervisorPort p
                   then (a\<lparr>haStatus := HerdSkipped, haDetail := AlreadyProxied port\<rparr>, s)
                   else if exists \<and> port = 0
                   then (a\<lparr>haDetail := SiteFileNoProxy (SiteFile (syCli s) host)\<rparr>, s)
                   else runHerd opts (Proxy w site (pSupervisorPort p))
                          (a\<lparr>haDetail := (if exists then Repointed port else NoDetail)\<rparr>) s))"

definition unproxyAction ::
    "syncEnv \<Rightarrow> syncOptions \<Rightarrow> bool \<Rightarrow> project \<Rightarrow> syncer \<Rightarrow> herdAction \<times> syncer" where
  "unproxyAction env opts enabled p s =
     (let w = seHerd env; (host, site, ok) = SiteFromURL w (pPublicURL p);
          a = \<lparr>haAction = ''unproxy'', haSite = site, haProject = pName p, haPort = pSupervisorPort p,
               haCommand = UnproxyCommand site, haStatus = HerdManual, haDetail = NoDetail\<rparr>
      in if \<not> ok then (a\<lparr>haStatus := HerdSkipped, haDetail := NotAHerdSite\<rparr>, s)
         else if \<not> enabled then (a\<lparr>haDetail := HerdOffForEntry\<rparr>, s)
         else if \<not> soHerd opts then (a\<lparr>haDetail := HerdNote (soHerdNote opts)\<rparr>, s)
         else (case ProxyTarget w (syCli s) host of
                 Inl e \<Rightarrow> (a\<lparr>haDetail := HerdFailure e\<rparr>, s)
               | Inr (port, exists) \<Rightarrow>
                   if \<not> exists then (a\<lparr>haStatus := HerdSkipped, haDetail := NoSiteFile host\<rparr>, s)
                   else if port \<noteq> pSupervisorPort p
                   then (a\<lparr>haStatus := HerdSkipped,
                           haDetail := ProxiesElsewhere (SiteFile (syCli s) host) (pSupervisorPort p)\<rparr>, s)
                   else runHerd opts (Unproxy w site) a s))"

definition sortedNames :: "(string, project) gomap \<Rightarrow> string list" where
  "sortedNames m = sort (map fst m)"

definition proxyStep ::
    "syncEnv \<Rightarrow> syncOptions \<Rightarrow> discovery \<Rightarrow> project \<Rightarrow> herdAction list \<times> syncer \<Rightarrow> herdAction list \<times> syncer" where
  "proxyStep env opts d p = (\<lambda>(as, s).
     let (host, site, ok) = SiteFromURL (seHerd env) (pPublicURL p) in
     if \<not> ok then (as, s)
     else (let (a, s1) = proxyAction env opts d p host site s in (as @ [a], s1)))"

definition unproxyStep ::
    "syncEnv \<Rightarrow> syncOptions \<Rightarrow> discovery \<Rightarrow> project \<Rightarrow> herdAction list \<times> syncer \<Rightarrow> herdAction list \<times> syncer" where
  "unproxyStep env opts d p = (\<lambda>(as, s).
     let (a, s1) = unproxyAction env opts (HerdEnabled d) p s in (as @ [a], s1))"

definition herdActions ::
    "syncEnv \<Rightarrow> syncOptions \<Rightarrow> discovery \<Rightarrow> (string, project) gomap \<Rightarrow> (string, project) gomap \<Rightarrow> syncer \<Rightarrow>
      herdAction list \<times> syncer" where
  "herdActions env opts d final existing s =
     (if herdOff opts d then ([], s)
      else fold (\<lambda>n. unproxyStep env opts d (the (map_of existing n)))
             (filter (\<lambda>n. map_of final n = None) (sortedNames existing))
             (fold (\<lambda>n. proxyStep env opts d (the (map_of final n))) (sortedNames final) ([], s)))"

end
