(* ===== verification/SyncRun.thy ===== *)
theory SyncRun
  imports Sync
begin

text \<open>
  A whole \<open>herd-wake sync\<close>: one proxy-mode entry (\<open>internal/discovery/discovery.go\<close>), the wildcard entries
  with the sync state file (\<open>internal/discovery/wildcard.go\<close>), and \<open>herd-wake project:remove\<close>
  (\<open>internal/discovery/remove.go\<close>).
\<close>

section \<open>A proxy-mode entry\<close>

text \<open>The projects of the file to write, with what is reported of each worktree.\<close>

record plan =
  plFinal :: "(string, project) gomap"
  plAdded :: "summary list"
  plUpdated :: "summary list"
  plUnchanged :: "summary list"
  plSkipped :: "skipped list"

definition emptyPlan :: plan where
  "emptyPlan = \<lparr>plFinal = [], plAdded = [], plUpdated = [], plUnchanged = [], plSkipped = []\<rparr>"

definition note_built ::
    "string \<Rightarrow> project option \<Rightarrow> project option \<times> skipped option \<Rightarrow> plan \<Rightarrow> plan" where
  "note_built name prev b pl =
     (case b of
        (gen, Some sk) \<Rightarrow>
          (case (prev, gen) of
             (Some q, Some _) \<Rightarrow>
               pl\<lparr>plSkipped := plSkipped pl @ [sk], plFinal := mapPut name q (plFinal pl),
                  plUnchanged := plUnchanged pl @ [summarize q]\<rparr>
           | _ \<Rightarrow> pl\<lparr>plSkipped := plSkipped pl @ [sk]\<rparr>)
      | (Some p, None) \<Rightarrow>
          (let pl1 = pl\<lparr>plFinal := mapPut name p (plFinal pl)\<rparr> in
           case prev of
             None \<Rightarrow> pl1\<lparr>plAdded := plAdded pl @ [summarize p]\<rparr>
           | Some q \<Rightarrow>
               if projectEquivalent q p
               then pl1\<lparr>plUnchanged := plUnchanged pl @ [summarize p]\<rparr>
               else pl1\<lparr>plUpdated := plUpdated pl @ [(summarize p)\<lparr>smDetail := describeChange q p\<rparr>]\<rparr>)
      | (None, None) \<Rightarrow> pl)"

definition planStep ::
    "syncEnv \<Rightarrow> syncOptions \<Rightarrow> config \<Rightarrow> discovery \<Rightarrow> (string, project) gomap \<Rightarrow> worktree \<Rightarrow>
      plan \<times> syncer \<Rightarrow> plan \<times> syncer" where
  "planStep env opts cfg d existing c = (\<lambda>(pl, s).
     let prev = map_of existing (fst c); (b, s1) = build env opts cfg d c prev s
     in (note_built (fst c) prev b pl, s1))"

definition planEntry ::
    "syncEnv \<Rightarrow> syncOptions \<Rightarrow> config \<Rightarrow> discovery \<Rightarrow> (string, project) gomap \<Rightarrow> worktree list \<Rightarrow>
      syncer \<Rightarrow> plan \<times> syncer" where
  "planEntry env opts cfg d existing cs s = fold (planStep env opts cfg d existing) cs (emptyPlan, s)"

definition ruleSkip :: "skip \<Rightarrow> skipped" where
  "ruleSkip k =
     \<lparr>spName = skName k, spDirectory = skDirectory k, spReason = RuleRejected (skReason k), spKept = False\<rparr>"

definition removedOf :: "(string, project) gomap \<Rightarrow> (string, project) gomap \<Rightarrow> summary list" where
  "removedOf existing final =
     map (\<lambda>n. summarize (the (map_of existing n)))
       (filter (\<lambda>n. map_of final n = None) (sortedNames existing))"

definition proxyModeNote :: "syncEnv \<Rightarrow> discovery \<Rightarrow> entryResult \<Rightarrow> string" where
  "proxyModeNote env d res =
     (let ls = map (\<lambda>p. ''  '' @ smPublicURL p @ '' '' @ rightArrow @ '' http://127.0.0.1:'' @
                 Itoa (smSupervisorPort p)) (erAdded res @ erUpdated res)
      in if ls = [] then []
         else ''no Herd CLI found; point your proxy at herd-wake yourself for the new URLs of discovery '' @
              seQuote env (dName d) @ '' (see README '' @ [dquote] @ ''Bring your own proxy'' @ [dquote] @
              '' for the nginx and Caddy blocks):'' @ lf @ joinStrings ls lf)"

text \<open>The outcome up to writing the file; \<open>Inr\<close> has the projects before and after.\<close>

definition contentsOf :: "files \<Rightarrow> string \<Rightarrow> string" where
  "contentsOf fs path = (case fs path of FileData t \<Rightarrow> t | _ \<Rightarrow> [])"

definition storeEntry ::
    "syncEnv \<Rightarrow> syncOptions \<Rightarrow> string \<Rightarrow> entryResult \<Rightarrow> syncer \<Rightarrow> (entryResult \<times> bool) \<times> syncer" where
  "storeEntry env opts content res s =
     (let changed = (contentsOf (syFiles s) (erFile res) \<noteq> content); res1 = res\<lparr>erChanged := changed\<rparr> in
      if changed \<and> \<not> soDryRun opts
      then (case writeFile env (erFile res) content (syFiles s) of
              (Some e, fs) \<Rightarrow>
                ((res1\<lparr>erErrors := erErrors res1 @ [CannotWrite (erFile res) e]\<rparr>, False), s\<lparr>syFiles := fs\<rparr>)
            | (None, fs) \<Rightarrow> ((res1\<lparr>erWritten := True\<rparr>, True), s\<lparr>syFiles := fs\<rparr>))
      else ((res1, True), s))"

definition startEntry :: "config \<Rightarrow> discovery \<Rightarrow> entryResult" where
  "startEntry cfg d =
     emptyEntryResult\<lparr>erName := dName d, erDirectory := dDirectory d, erFile := ManagedPath (cPath cfg) d\<rparr>"

definition failEntry :: "entryResult \<Rightarrow> syncError \<Rightarrow> syncer \<Rightarrow> (entryResult \<times> string) \<times> syncer" where
  "failEntry res e s = ((res\<lparr>erErrors := erErrors res @ [e]\<rparr>, []), s)"

text \<open>The result as planned, before anything is written.\<close>

definition plannedEntry ::
    "config \<Rightarrow> discovery \<Rightarrow> (string, project) gomap \<Rightarrow> skip list \<Rightarrow> plan \<Rightarrow> entryResult" where
  "plannedEntry cfg d existing skips pl =
     (startEntry cfg d)
       \<lparr>erAdded := plAdded pl, erUpdated := plUpdated pl,
        erUnchanged := sort_key smName (plUnchanged pl),
        erRemoved := removedOf existing (plFinal pl),
        erSkipped := map ruleSkip skips @ plSkipped pl\<rparr>"

text \<open>From the plan on.\<close>

definition finishEntry ::
    "syncEnv \<Rightarrow> syncOptions \<Rightarrow> config \<Rightarrow> discovery \<Rightarrow> (string, project) gomap \<Rightarrow> skip list \<Rightarrow>
      plan \<Rightarrow> syncer \<Rightarrow> (entryResult \<times> string) \<times> syncer" where
  "finishEntry env opts cfg d existing skips pl s =
     (let res = plannedEntry cfg d existing skips pl
      in case render env (ManagedHeader env d (cPath cfg)) (plFinal pl) of
           Inl e \<Rightarrow> failEntry res (CannotRender (erFile res) e) s
         | Inr content \<Rightarrow>
             (case storeEntry env opts content res s of
                ((res1, False), s1) \<Rightarrow> ((res1, []), s1)
              | ((res1, True), s1) \<Rightarrow>
                  (let (as, s2) = herdActions env opts d (plFinal pl) existing s1;
                       res2 = res1\<lparr>erHerd := as\<rparr>
                   in ((res2, if herdOff opts d then proxyModeNote env d res2 else []), s2))))"

definition syncEntry ::
    "syncEnv \<Rightarrow> syncOptions \<Rightarrow> config \<Rightarrow> discovery \<Rightarrow> syncer \<Rightarrow> (entryResult \<times> string) \<times> syncer" where
  "syncEntry env opts cfg d s =
     (let res = startEntry cfg d; file = erFile res in
      case IsManagedFile (syFiles s) file of
        Inl e \<Rightarrow> failEntry res (CannotRead file e) s
      | Inr False \<Rightarrow> failEntry res (Unmanaged file) s
      | Inr True \<Rightarrow>
          (case decodeExisting env (syFiles s) file of
             Inl e \<Rightarrow> failEntry res (CannotDecode e) s
           | Inr existing \<Rightarrow>
               (case scan (seOS env) (seLinks env) d of
                  None \<Rightarrow> failEntry res (CannotScan (dDirectory d)) s
                | Some (cs, skips) \<Rightarrow>
                    (let (pl, s1) = planEntry env opts cfg d existing cs s
                     in finishEntry env opts cfg d existing skips pl s1))))"

section \<open>The sync state file\<close>

definition StateFileName :: string where "StateFileName = ''sync-state.yaml''"

definition StatePath :: "string \<Rightarrow> string" where
  "StatePath configPath = filepathJoin [filepathDir configPath, StateFileName]"

datatype stateError = ReadState string string | ParseState string string | WriteState string

definition loadState :: "syncEnv \<Rightarrow> files \<Rightarrow> string \<Rightarrow> stateError + syncState" where
  "loadState env fs path =
     (case fs path of
        NotExist \<Rightarrow> Inr \<lparr>ssWildcards = [], ssProxyNotes = []\<rparr>
      | ReadFailed e \<Rightarrow> Inl (ReadState path e)
      | FileData text \<Rightarrow> map_sum (ParseState path) id (seDecodeState env text))"

definition stateEmpty :: "syncState \<Rightarrow> bool" where
  "stateEmpty st \<longleftrightarrow> ssWildcards st = [] \<and> ssProxyNotes st = []"

definition stateHeader :: string where
  "stateHeader =
     ''# Written by herd-wake sync: the wildcard Herd proxies it registered, so a'' @ lf @
     ''# removed wildcard entry is unproxied on the next sync, and the proxy notes'' @ lf @
     ''# it has shown for entries synced without a Herd CLI. Do not edit.'' @ lf"

definition saveState :: "syncEnv \<Rightarrow> string \<Rightarrow> syncState \<Rightarrow> files \<Rightarrow> string option \<times> files" where
  "saveState env path st fs =
     (if stateEmpty st
      then (if fs path = NotExist then (None, fs)
            else (case seRemoveFails env path of
                    Some e \<Rightarrow> (Some e, fs)
                  | None \<Rightarrow> (None, fs(path := NotExist))))
      else (case seEncodeState env st of
              Inl e \<Rightarrow> (Some e, fs)
            | Inr body \<Rightarrow> writeFile env path (stateHeader @ body) fs))"

section \<open>Wildcard entries\<close>

definition listenerOf :: "discovery \<Rightarrow> wildcardState" where
  "listenerOf d = \<lparr>wdBaseDomain = dBaseDomain d, wdSupervisorPort = SupervisorPort d\<rparr>"

definition siteNameOf :: "string \<Rightarrow> string" where
  "siteNameOf host = (case SiteName host of None \<Rightarrow> [] | Some n \<Rightarrow> n)"

definition proxyNote :: "syncEnv \<Rightarrow> syncOptions \<Rightarrow> discovery \<Rightarrow> syncState \<Rightarrow> string \<times> syncState" where
  "proxyNote env opts d st =
     (if soHerd opts \<or> \<not> soHerdUnavailable opts \<or> \<not> HerdEnabled d
      then ([], st\<lparr>ssProxyNotes := mapDelete (dName d) (ssProxyNotes st)\<rparr>)
      else if map_of (ssProxyNotes st) (dName d) = Some (listenerOf d) then ([], st)
      else (''no Herd CLI found; point your proxy at herd-wake yourself for discovery '' @
              seQuote env (dName d) @ '': *.'' @ dBaseDomain d @ '' '' @ rightArrow @ '' http://127.0.0.1:'' @
              Itoa (SupervisorPort d) @ '' (see README '' @ [dquote] @ ''Bring your own proxy'' @ [dquote] @
              '' for the nginx and Caddy blocks)'' @
              (if soGOOS opts = ''darwin''
               then ''; or install Laravel Herd and run: '' @
                    ProxyCommand (siteNameOf (dBaseDomain d)) (SupervisorPort d)
               else []),
            st\<lparr>ssProxyNotes := mapPut (dName d) (listenerOf d) (ssProxyNotes st)\<rparr>))"

text \<open>The proxy of a wildcard entry, with the error that reports a refusal.\<close>

definition wildcardAction ::
    "syncEnv \<Rightarrow> syncOptions \<Rightarrow> discovery \<Rightarrow> syncer \<Rightarrow> (herdAction \<times> syncError list) \<times> syncer" where
  "wildcardAction env opts d s =
     (let w = seHerd env; host = dBaseDomain d; site = siteNameOf host; sup = SupervisorPort d;
          a = \<lparr>haAction = ''proxy'', haSite = site, haProject = dName d, haPort = sup,
               haCommand = ProxyCommand site sup, haStatus = HerdManual, haDetail = NoDetail\<rparr>;
          go = (\<lambda>a s. let (b, s1) = runHerd opts (Proxy w site sup) a s in ((b, []), s1))
      in if \<not> HerdEnabled d then ((a\<lparr>haDetail := HerdOffForEntry\<rparr>, []), s)
         else if \<not> soHerd opts then ((a\<lparr>haDetail := HerdNote (soHerdNote opts)\<rparr>, []), s)
         else (case ProxyTarget w (syCli s) host of
                 Inl e \<Rightarrow> ((a\<lparr>haDetail := HerdFailure e\<rparr>, []), s)
               | Inr (port, exists) \<Rightarrow>
                   if exists \<and> port = sup
                   then ((a\<lparr>haStatus := HerdSkipped, haDetail := AlreadyProxied port\<rparr>, []), s)
                   else if exists \<and> port = 0
                   then ((a\<lparr>haStatus := HerdRefused, haDetail := SiteFileNoProxy (SiteFile (syCli s) host)\<rparr>,
                          [RefusedSiteFile host]), s)
                   else if exists then go (a\<lparr>haDetail := Repointed port\<rparr>) s
                   else (case Conflict w site (syCli s) of
                           (Inl e, c1) \<Rightarrow> ((a\<lparr>haDetail := ConflictUnchecked e\<rparr>, []), s\<lparr>syCli := c1\<rparr>)
                         | (Inr (Some r), c1) \<Rightarrow>
                             ((a\<lparr>haStatus := HerdRefused, haDetail := WouldShadow r\<rparr>, [RefusedShadow host r]),
                              s\<lparr>syCli := c1\<rparr>)
                         | (Inr None, c1) \<Rightarrow> go a (s\<lparr>syCli := c1\<rparr>))))"

definition startWildcard :: "syncEnv \<Rightarrow> config \<Rightarrow> discovery \<Rightarrow> files \<Rightarrow> entryResult" where
  "startWildcard env cfg d fs =
     (let stale = ManagedPath (cPath cfg) d in
      emptyEntryResult
        \<lparr>erName := dName d, erWildcard := True, erDirectory := dDirectory d, erBaseDomain := dBaseDomain d,
         erSupervisorPort := SupervisorPort d, erURLPattern := URLPattern d,
         erStale := (if fileExists env fs stale then Some stale else None)\<rparr>)"

definition syncWildcard ::
    "syncEnv \<Rightarrow> syncOptions \<Rightarrow> config \<Rightarrow> discovery \<Rightarrow> syncer \<Rightarrow> (entryResult \<times> string) \<times> syncer" where
  "syncWildcard env opts cfg d s =
     (let res = startWildcard env cfg d (syFiles s);
          (note, st) = proxyNote env opts d (syState s);
          s1 = s\<lparr>syState := st\<rparr>
      in if herdOff opts d then ((res, note), s1)
         else (case wildcardAction env opts d s1 of ((a, errs), s2) \<Rightarrow>
                 ((res\<lparr>erHerd := [a], erErrors := errs\<rparr>, note),
                  if haStatus a \<in> {HerdDone, HerdSkipped, HerdDryRun}
                  then s2\<lparr>syState := (syState s2)\<lparr>ssWildcards :=
                         mapPut (dName d) (listenerOf d) (ssWildcards (syState s2))\<rparr>\<rparr>
                  else s2)))"

text \<open>The wildcard entries by name; the last of a name counts.\<close>

definition discoveries :: "config \<Rightarrow> discovery list" where
  "discoveries cfg = List.map_filter id (cDiscovery cfg)"

definition liveWildcards :: "config \<Rightarrow> (string, discovery) gomap" where
  "liveWildcards cfg = fold (\<lambda>d m. if Wildcard d then mapPut (dName d) d m else m) (discoveries cfg) []"

definition retireOne ::
    "syncEnv \<Rightarrow> syncOptions \<Rightarrow> string \<Rightarrow> wildcardState \<Rightarrow> syncer \<Rightarrow> entryResult \<times> syncer" where
  "retireOne env opts name prev s =
     (let site = siteNameOf (wdBaseDomain prev);
          p = emptyProject\<lparr>pName := name, pPublicURL := ''https://'' @ wdBaseDomain prev,
                pSupervisorPort := wdSupervisorPort prev\<rparr>;
          (a0, s1) = unproxyAction env opts True p s;
          a = a0\<lparr>haSite := site, haProject := name\<rparr>;
          res = emptyEntryResult
            \<lparr>erName := name, erWildcard := True, erRetired := True, erBaseDomain := wdBaseDomain prev,
             erSupervisorPort := wdSupervisorPort prev,
             erURLPattern := ''https://'' @ LabelPlaceholder @ ''.'' @ wdBaseDomain prev, erHerd := [a]\<rparr>
      in (res,
          if haStatus a \<in> {HerdDone, HerdSkipped} \<and> map_of (ssWildcards (syState s1)) name = Some prev
          then s1\<lparr>syState := (syState s1)\<lparr>ssWildcards := mapDelete name (ssWildcards (syState s1))\<rparr>\<rparr>
          else s1))"

definition retireStep ::
    "syncEnv \<Rightarrow> syncOptions \<Rightarrow> (string, discovery) gomap \<Rightarrow> (string, wildcardState) gomap \<Rightarrow> string \<Rightarrow>
      entryResult list \<times> syncer \<Rightarrow> entryResult list \<times> syncer" where
  "retireStep env opts live previous name = (\<lambda>(rs, s).
     let prev = the (map_of previous name) in
     case map_of live name of
       Some d \<Rightarrow>
         if dBaseDomain d = wdBaseDomain prev then (rs, s)
         else (let (r, s1) = retireOne env opts name prev s in (rs @ [r], s1))
     | None \<Rightarrow> (let (r, s1) = retireOne env opts name prev s in (rs @ [r], s1)))"

definition retireWildcards ::
    "syncEnv \<Rightarrow> syncOptions \<Rightarrow> config \<Rightarrow> (string, wildcardState) gomap \<Rightarrow> syncer \<Rightarrow>
      entryResult list \<times> syncer" where
  "retireWildcards env opts cfg previous s =
     (let live = liveWildcards cfg;
          notes = filter (\<lambda>(n, _). map_of live n \<noteq> None) (ssProxyNotes (syState s))
      in fold (retireStep env opts live previous) (sort (map fst previous))
           ([], s\<lparr>syState := (syState s)\<lparr>ssProxyNotes := notes\<rparr>\<rparr>))"

section \<open>Sync\<close>

record syncResult =
  resConfigPath :: string
  resDryRun :: bool
  resHerdAvailable :: bool
  resHerdNote :: string
  resProxyNotes :: "string list"
  resEntries :: "entryResult list"

definition HasErrors :: "syncResult \<Rightarrow> bool" where
  "HasErrors r = list_ex (\<lambda>e. erErrors e \<noteq> []) (resEntries r)"

definition resultChanged :: "syncResult \<Rightarrow> bool" where
  "resultChanged r = list_ex erChanged (resEntries r)"

definition ManualCommands :: "syncResult \<Rightarrow> string list" where
  "ManualCommands r =
     concat (map (\<lambda>e. map haCommand (filter (\<lambda>a. haStatus a = HerdManual) (erHerd e))) (resEntries r))"

datatype syncFailure = NoConfigFile | StateFailed stateError

definition usedByProject :: "project \<Rightarrow> (int, string) gomap \<Rightarrow> (int, string) gomap" where
  "usedByProject p used = mapPut (pApplicationPort p) (pName p) (mapPut (pSupervisorPort p) (pName p) used)"

definition usedByEntry :: "discovery \<Rightarrow> (int, string) gomap \<Rightarrow> (int, string) gomap" where
  "usedByEntry d used = (if Wildcard d then mapPut (SupervisorPort d) (DynamicSource d) used else used)"

definition initialUsed :: "config \<Rightarrow> (int, string) gomap" where
  "initialUsed cfg = fold usedByEntry (discoveries cfg) (fold (usedByProject \<circ> snd) (cProjects cfg) [])"

definition syncStep ::
    "syncEnv \<Rightarrow> syncOptions \<Rightarrow> config \<Rightarrow> discovery \<Rightarrow>
      (entryResult list \<times> string list) \<times> syncer \<Rightarrow> (entryResult list \<times> string list) \<times> syncer" where
  "syncStep env opts cfg d = (\<lambda>((es, notes), s).
     let ((e, note), s1) =
           (if Wildcard d then syncWildcard env opts cfg d s else syncEntry env opts cfg d s)
     in ((es @ [e], if note \<noteq> [] then notes @ [note] else notes), s1))"

definition withGOOS :: "syncEnv \<Rightarrow> syncOptions \<Rightarrow> syncOptions" where
  "withGOOS env opts = (if soGOOS opts = [] then opts\<lparr>soGOOS := seGOOS env\<rparr> else opts)"

definition Sync ::
    "syncEnv \<Rightarrow> syncOptions \<Rightarrow> config \<Rightarrow> files \<Rightarrow> cli \<Rightarrow> (syncFailure + syncResult) \<times> files \<times> cli" where
  "Sync env opts0 cfg fs cl =
     (if cPath cfg = [] then (Inl NoConfigFile, fs, cl)
      else
        let opts = withGOOS env opts0; path = StatePath (cPath cfg) in
        case loadState env fs path of
          Inl e \<Rightarrow> (Inl (StateFailed e), fs, cl)
        | Inr st \<Rightarrow>
            let ((es, notes), s1) = fold (syncStep env opts cfg) (discoveries cfg)
                  (([], []), \<lparr>syUsed = initialUsed cfg, syState = st, syFiles = fs, syCli = cl\<rparr>);
                (rs, s2) = retireWildcards env opts cfg (ssWildcards st) s1;
                res = \<lparr>resConfigPath = cPath cfg, resDryRun = soDryRun opts, resHerdAvailable = soHerd opts,
                       resHerdNote = soHerdNote opts, resProxyNotes = notes, resEntries = es @ rs\<rparr>
            in if soDryRun opts then (Inr res, syFiles s2, syCli s2)
               else (case saveState env path (syState s2) (syFiles s2) of
                       (Some e, fs2) \<Rightarrow> (Inl (StateFailed (WriteState e)), fs2, syCli s2)
                     | (None, fs2) \<Rightarrow> (Inr res, fs2, syCli s2)))"

section \<open>Remove\<close>

record removeOptions =
  roHerd :: bool
  roHerdNote :: string
  roHerdUnavailable :: bool
  roGOOS :: string
  roKeepHerd :: bool

datatype removeError =
    RemoveNeedsFile
  | ErrNoSuchProject string
  | MainConfigError string string
  | FragmentUnreadable configError
  | MarkerUnreadable string
  | RemoveRenderFailed string
  | RemoveWriteFailed string

record removeResult =
  rmName :: string
  rmSource :: string
  rmFile :: string
  rmManaged :: bool
  rmHerd :: "herdAction list"

definition herdSettingFor :: "config \<Rightarrow> project \<Rightarrow> bool option" where
  "herdSettingFor cfg p =
     (case find (\<lambda>d. SourceOf d = pSource p) (discoveries cfg) of None \<Rightarrow> None | Some d \<Rightarrow> dHerd d)"

definition hasManagedMarker :: "files \<Rightarrow> string \<Rightarrow> string + bool" where
  "hasManagedMarker fs path =
     (case fs path of
        NotExist \<Rightarrow> Inl ''file does not exist''
      | ReadFailed e \<Rightarrow> Inl e
      | FileData text \<Rightarrow> Inr (hasPrefix (TrimSpace text) managedMarker))"

definition existingHeader :: "files \<Rightarrow> string \<Rightarrow> string" where
  "existingHeader fs path =
     (case fs path of
        FileData text \<Rightarrow>
          concat (map (\<lambda>l. l @ lf) (takeWhile (\<lambda>l. hasPrefix l ''#'') (splitByte (CHR 0x0A) text)))
      | _ \<Rightarrow> managedMarker @ '' '' @ emDash @ '' do not edit.'' @ lf)"

definition removeOpts :: "syncEnv \<Rightarrow> removeOptions \<Rightarrow> syncOptions" where
  "removeOpts env ro =
     \<lparr>soHerd = roHerd ro, soHerdNote = roHerdNote ro, soHerdUnavailable = roHerdUnavailable ro,
      soGOOS = (if roGOOS ro = [] then seGOOS env else roGOOS ro), soDryRun = False\<rparr>"

definition emptySyncer :: "files \<Rightarrow> cli \<Rightarrow> syncer" where
  "emptySyncer fs cl =
     \<lparr>syUsed = [], syState = \<lparr>ssWildcards = [], ssProxyNotes = []\<rparr>, syFiles = fs, syCli = cl\<rparr>"

definition removeUnproxy ::
    "syncEnv \<Rightarrow> config \<Rightarrow> removeOptions \<Rightarrow> project \<Rightarrow> files \<Rightarrow> cli \<Rightarrow> herdAction list \<times> cli" where
  "removeUnproxy env cfg ro p fs cl =
     (let opts = removeOpts env ro in
      if roKeepHerd ro \<or> herdQuiet opts (herdSettingFor cfg p) then ([], cl)
      else (let (a, s) = unproxyAction env opts True p (emptySyncer fs cl) in ([a], syCli s)))"

definition removeFile :: "config \<Rightarrow> string \<Rightarrow> string" where
  "removeFile cfg rel = filepathJoin [ProjectsDir (cPath cfg), rel]"

definition Remove ::
    "syncEnv \<Rightarrow> config \<Rightarrow> string \<Rightarrow> removeOptions \<Rightarrow> files \<Rightarrow> cli \<Rightarrow>
      (removeError + removeResult) \<times> files \<times> cli" where
  "Remove env cfg name ro fs cl =
     (if cPath cfg = [] then (Inl RemoveNeedsFile, fs, cl)
      else case map_of (cProjects cfg) name of
        None \<Rightarrow> (Inl (ErrNoSuchProject name), fs, cl)
      | Some p \<Rightarrow>
          (case cutPrefix (pSource p) (ProjectsDirName @ ''/'') of
             None \<Rightarrow> (Inl (MainConfigError name (cPath cfg)), fs, cl)
           | Some rel \<Rightarrow>
               let file = removeFile cfg rel in
               (case readFragment env fs file of
                  Inl e \<Rightarrow> (Inl (FragmentUnreadable e), fs, cl)
                | Inr projects \<Rightarrow>
                    (case hasManagedMarker fs file of
                       Inl e \<Rightarrow> (Inl (MarkerUnreadable e), fs, cl)
                     | Inr managed \<Rightarrow>
                         let header = (if managed then existingHeader fs file else []) in
                         (case render env header (mapDelete name projects) of
                            Inl e \<Rightarrow> (Inl (RemoveRenderFailed e), fs, cl)
                          | Inr content \<Rightarrow>
                              (case writeFile env file content fs of
                                 (Some e, fs1) \<Rightarrow> (Inl (RemoveWriteFailed e), fs1, cl)
                               | (None, fs1) \<Rightarrow>
                                   let (as, cl1) = removeUnproxy env cfg ro p fs1 cl in
                                   (Inr \<lparr>rmName = name, rmSource = pSource p, rmFile = file,
                                         rmManaged = managed, rmHerd = as\<rparr>, fs1, cl1)))))))"

section \<open>The configuration on the files\<close>

text \<open>The configuration as the files have it.\<close>

definition decodeFiles :: "syncEnv \<Rightarrow> files \<Rightarrow> string \<Rightarrow> string + rawConfig" where
  "decodeFiles env fs path =
     (case fs path of
        FileData t \<Rightarrow> seDecode env t
      | NotExist \<Rightarrow> Inl ''file does not exist''
      | ReadFailed e \<Rightarrow> Inl e)"

end
