(* ===== verification/SyncFacts.thy ===== *)
theory SyncFacts
  imports SyncRun
begin

text \<open>
  What a sync leaves alone, and what it may touch: the herd tool (only listings on a dry run, each at
  most once), the files (only managed files, the state file and temporaries), and the table of ports
  (a taken port stays with its project).
\<close>

section \<open>Runs of the herd tool\<close>

inductive herdMoves :: "herdWorld \<Rightarrow> bool \<Rightarrow> cli \<Rightarrow> cli \<Rightarrow> bool" for w :: herdWorld and mutate :: bool where
  stay: "herdMoves w mutate c c"
| paths: "herdMoves w mutate c c1 \<Longrightarrow> herdMoves w mutate c (snd (Paths w c1))"
| links: "herdMoves w mutate c c1 \<Longrightarrow> herdMoves w mutate c (snd (Links w c1))"
| proxy: "herdMoves w mutate c c1 \<Longrightarrow> mutate \<Longrightarrow> herdMoves w mutate c (snd (Proxy w site port c1))"
| unproxy: "herdMoves w mutate c c1 \<Longrightarrow> mutate \<Longrightarrow> herdMoves w mutate c (snd (Unproxy w site c1))"

lemma herdMoves_trans:
  assumes "herdMoves w m b c" "herdMoves w m a b"
  shows "herdMoves w m a c"
  using assms by (induction rule: herdMoves.induct) (auto intro: herdMoves.intros)

lemma Conflict_moves:
  assumes "Conflict w site c = (r, c1)"
  shows "herdMoves w m c c1"
proof -
  have p: "herdMoves w m c (snd (Paths w c))" by (rule herdMoves.paths) (rule herdMoves.stay)
  have l: "herdMoves w m c (snd (Links w (snd (Paths w c))))" by (rule herdMoves.links) (rule p)
  obtain rp cp where P: "Paths w c = (rp, cp)" by (cases "Paths w c")
  obtain rl cl where L: "Links w cp = (rl, cl)" by (cases "Links w cp")
  have "c1 = cp \<or> c1 = cl"
    using assms P L by (auto simp: Conflict_def split: sum.splits option.splits prod.splits)
  with p l P L show ?thesis by auto
qed

lemma herdConflict_moves:
  assumes "herdConflict w url c = (r, c1)"
  shows "herdMoves w m c c1"
  using assms
  by (auto simp: herdConflict_def Let_def split: prod.splits sum.splits option.splits if_splits
      intro: herdMoves.stay Conflict_moves)

lemma newCLI_fields: "clRuns (newCLI dir) = []" "clPaths (newCLI dir) = None" "clLinks (newCLI dir) = None"
  by (simp_all add: newCLI_def)

text \<open>The invariant of the cache.\<close>

definition listedOnce :: "cli \<Rightarrow> bool" where
  "listedOnce c \<longleftrightarrow>
     length (filter (\<lambda>r. r = [''paths'']) (clRuns c)) = (if clPaths c = None then 0 else 1) \<and>
     length (filter (\<lambda>r. r = [''links'']) (clRuns c)) = (if clLinks c = None then 0 else 1)"

lemma herdMoves_listedOnce:
  assumes "herdMoves w m a b" "listedOnce a"
  shows "listedOnce b"
  using assms
  by (induction rule: herdMoves.induct)
    (auto simp: listedOnce_def Paths_def Links_def Proxy_def Unproxy_def run_def Let_def split: option.splits)

lemma herdMoves_listings:
  assumes "herdMoves w False a b"
  shows "\<exists>rs. clRuns b = clRuns a @ rs \<and> set rs \<subseteq> {[''paths''], [''links'']}"
  using assms
proof (induction rule: herdMoves.induct)
  case (paths c c1)
  then obtain rs where "clRuns c1 = clRuns c @ rs" "set rs \<subseteq> {[''paths''], [''links'']}" by blast
  then show ?case
    by (cases "clPaths c1") (auto simp: Paths_def run_def Let_def)
next
  case (links c c1)
  then obtain rs where "clRuns c1 = clRuns c @ rs" "set rs \<subseteq> {[''paths''], [''links'']}" by blast
  then show ?case
    by (cases "clLinks c1") (auto simp: Links_def run_def Let_def)
qed auto

section \<open>Building\<close>

lemma skipWith_same:
  "syFiles (snd (skipWith c prev ps keep r s)) = syFiles s"
  "syCli (snd (skipWith c prev ps keep r s)) = syCli s"
  "syState (snd (skipWith c prev ps keep r s)) = syState s"
  by (simp_all add: skipWith_def Let_def)

lemma choosePort_same:
  assumes "choosePort env d c prev ps sp s = (b, s1)"
  shows "syFiles s1 = syFiles s" "syCli s1 = syCli s" "syState s1 = syState s"
proof -
  have "syFiles (snd (choosePort env d c prev ps sp s)) = syFiles s \<and>
      syCli (snd (choosePort env d c prev ps sp s)) = syCli s \<and>
      syState (snd (choosePort env d c prev ps sp s)) = syState s"
    by (simp add: choosePort_def Let_def skipWith_same split: sum.splits option.splits prod.splits)
  with assms show "syFiles s1 = syFiles s" "syCli s1 = syCli s" "syState s1 = syState s" by simp_all
qed

lemma claimName_cases:
  assumes "claimName env opts cfg d c prev s = (r, s1)"
  shows "s1 = s \<or> (\<exists>q cl. herdConflict (seHerd env) (PublicURL d (fst c)) (syCli s) = (q, cl) \<and> s1 = s\<lparr>syCli := cl\<rparr>)"
  using assms
  by (auto simp: claimName_def claimSite_def split: option.splits prod.splits sum.splits if_splits)

lemma claimName_same:
  assumes "claimName env opts cfg d c prev s = (r, s1)"
  shows "syFiles s1 = syFiles s" "syState s1 = syState s" "syUsed s1 = syUsed s"
    "herdMoves (seHerd env) m (syCli s) (syCli s1)"
  using claimName_cases[OF assms] by (auto intro: herdMoves.stay herdConflict_moves)

lemma build_same:
  assumes "build env opts cfg d c prev s = (b, s1)"
  shows "syFiles s1 = syFiles s" "syState s1 = syState s"
    "herdMoves (seHerd env) m (syCli s) (syCli s1)"
proof -
  obtain r s0 where cn: "claimName env opts cfg d c prev s = (r, s0)"
    by (cases "claimName env opts cfg d c prev s")
  have eq: "syFiles s1 = syFiles s0 \<and> syState s1 = syState s0 \<and> syCli s1 = syCli s0"
  proof -
    have "syFiles (snd (build env opts cfg d c prev s)) = syFiles s0 \<and>
        syState (snd (build env opts cfg d c prev s)) = syState s0 \<and>
        syCli (snd (build env opts cfg d c prev s)) = syCli s0"
      by (simp add: build_def cn skipWith_same choosePort_same[OF surjective_pairing]
          split: option.split prod.split)
    with assms show ?thesis by simp
  qed
  with claimName_same[OF cn] show "syFiles s1 = syFiles s" "syState s1 = syState s"
    "herdMoves (seHerd env) m (syCli s) (syCli s1)" by simp_all
qed

lemma planStep_same:
  assumes "planStep env opts cfg d existing c (pl, s) = (pl1, s1)"
  shows "syFiles s1 = syFiles s" "syState s1 = syState s"
    "herdMoves (seHerd env) m (syCli s) (syCli s1)"
  using assms
  by (auto simp: planStep_def Let_def split: prod.splits dest: build_same)

lemma planFold_same:
  "syFiles (snd (fold (planStep env opts cfg d existing) cs (pl, s))) = syFiles s \<and>
   syState (snd (fold (planStep env opts cfg d existing) cs (pl, s))) = syState s \<and>
   herdMoves (seHerd env) m (syCli s) (syCli (snd (fold (planStep env opts cfg d existing) cs (pl, s))))"
proof (induction cs arbitrary: pl s)
  case (Cons c cs)
  obtain pl1 s1 where st: "planStep env opts cfg d existing c (pl, s) = (pl1, s1)"
    by (cases "planStep env opts cfg d existing c (pl, s)")
  note h = planStep_same[OF st]
  show ?case
    using Cons[of pl1 s1] h by (simp add: st) (blast intro: herdMoves_trans)
qed (simp add: herdMoves.stay)

lemma planEntry_same:
  assumes "planEntry env opts cfg d existing cs s = (pl, s1)"
  shows "syFiles s1 = syFiles s" "syState s1 = syState s"
    "herdMoves (seHerd env) m (syCli s) (syCli s1)"
  using planFold_same[of env opts cfg d existing cs emptyPlan s m] assms by (simp_all add: planEntry_def)

section \<open>Herd actions\<close>

lemma runHerd_moves:
  assumes "runHerd opts f a s = (b, s1)"
    and "\<And>c. \<not> soDryRun opts \<Longrightarrow> herdMoves w m c (snd (f c))"
  shows "herdMoves w m (syCli s) (syCli s1)" "syUsed s1 = syUsed s" "syFiles s1 = syFiles s"
    "syState s1 = syState s"
proof -
  have "s1 = s \<or> (\<not> soDryRun opts \<and> s1 = s\<lparr>syCli := snd (f (syCli s))\<rparr>)"
    using assms(1) by (auto simp: runHerd_def split: if_splits prod.splits option.splits)
  with assms(2)[of "syCli s"] show "herdMoves w m (syCli s) (syCli s1)" "syUsed s1 = syUsed s"
    "syFiles s1 = syFiles s" "syState s1 = syState s" by (auto intro: herdMoves.stay)
qed

lemma proxyAction_moves:
  assumes "proxyAction env opts d p host site s = (b, s1)"
  shows "herdMoves (seHerd env) (\<not> soDryRun opts) (syCli s) (syCli s1)" "syUsed s1 = syUsed s"
    "syFiles s1 = syFiles s" "syState s1 = syState s"
proof -
  have m: "herdMoves (seHerd env) (\<not> soDryRun opts) c (snd (Proxy (seHerd env) site n c))"
    if "\<not> soDryRun opts" for c n
    using that by (intro herdMoves.proxy herdMoves.stay)
  have "s1 = s \<or> (\<exists>a. runHerd opts (Proxy (seHerd env) site (pSupervisorPort p)) a s = (b, s1))"
    using assms by (auto simp: proxyAction_def Let_def split: if_splits sum.splits prod.splits)
  then show "herdMoves (seHerd env) (\<not> soDryRun opts) (syCli s) (syCli s1)" "syUsed s1 = syUsed s"
    "syFiles s1 = syFiles s" "syState s1 = syState s"
    by (auto intro: herdMoves.stay dest: runHerd_moves[OF _ m])
qed

lemma unproxyAction_moves:
  assumes "unproxyAction env opts en p s = (b, s1)"
  shows "herdMoves (seHerd env) (\<not> soDryRun opts) (syCli s) (syCli s1)" "syUsed s1 = syUsed s"
    "syFiles s1 = syFiles s" "syState s1 = syState s"
proof -
  have m: "herdMoves (seHerd env) (\<not> soDryRun opts) c (snd (Unproxy (seHerd env) site c))"
    if "\<not> soDryRun opts" for c site
    using that by (intro herdMoves.unproxy herdMoves.stay)
  have "s1 = s \<or> (\<exists>a site. runHerd opts (Unproxy (seHerd env) site) a s = (b, s1))"
    using assms by (auto simp: unproxyAction_def Let_def split: if_splits sum.splits prod.splits)
  then show "herdMoves (seHerd env) (\<not> soDryRun opts) (syCli s) (syCli s1)" "syUsed s1 = syUsed s"
    "syFiles s1 = syFiles s" "syState s1 = syState s"
    by (auto intro: herdMoves.stay dest: runHerd_moves[OF _ m])
qed

text \<open>What a part of a sync that only talks to the herd tool leaves alone.\<close>

definition onlyHerd :: "syncEnv \<Rightarrow> syncOptions \<Rightarrow> syncer \<Rightarrow> syncer \<Rightarrow> bool" where
  "onlyHerd env opts s s1 \<longleftrightarrow>
     herdMoves (seHerd env) (\<not> soDryRun opts) (syCli s) (syCli s1) \<and>
     syUsed s1 = syUsed s \<and> syFiles s1 = syFiles s \<and> syState s1 = syState s"

lemma onlyHerd_refl: "onlyHerd env opts s s"
  by (simp add: onlyHerd_def herdMoves.stay)

lemma onlyHerd_trans: "onlyHerd env opts a b \<Longrightarrow> onlyHerd env opts b c \<Longrightarrow> onlyHerd env opts a c"
  by (auto simp: onlyHerd_def intro: herdMoves_trans)

lemma onlyHerd_actions:
  "proxyAction env opts d p host site s = (b, s1) \<Longrightarrow> onlyHerd env opts s s1"
  "unproxyAction env opts en p s = (b, s1) \<Longrightarrow> onlyHerd env opts s s1"
  by (simp_all add: onlyHerd_def proxyAction_moves unproxyAction_moves)

lemma onlyHerd_fold:
  assumes "\<And>x acc. onlyHerd env opts (snd acc) (snd (f x acc))"
  shows "onlyHerd env opts (snd acc) (snd (fold f xs acc))"
proof (induction xs arbitrary: acc)
  case (Cons x xs)
  show ?case using onlyHerd_trans[OF assms[of acc x] Cons] by simp
qed (simp add: onlyHerd_refl)

lemma onlyHerd_steps:
  "onlyHerd env opts (snd acc) (snd (proxyStep env opts d p acc))"
  "onlyHerd env opts (snd acc) (snd (unproxyStep env opts d p acc))"
  by (cases acc; auto simp: proxyStep_def unproxyStep_def Let_def onlyHerd_refl split: prod.split
      intro: onlyHerd_actions)+

lemma onlyHerd_herdActions: "onlyHerd env opts s (snd (herdActions env opts d final existing s))"
proof -
  have "onlyHerd env opts s (snd (fold (\<lambda>n. proxyStep env opts d (the (map_of final n))) xs ([], s)))" for xs
    using onlyHerd_fold[of env opts "\<lambda>n. proxyStep env opts d (the (map_of final n))" "([], s)" xs]
    by (simp add: onlyHerd_steps)
  then show ?thesis
    by (auto simp: herdActions_def onlyHerd_refl
        intro!: onlyHerd_trans[OF _ onlyHerd_fold] onlyHerd_steps)
qed

section \<open>Files\<close>

lemma writeFile_other:
  assumes "writeFile env path data fs = (e, fs1)" "q \<noteq> path" "q \<noteq> seTmp env path"
  shows "fs1 q = fs q"
  using assms
  by (auto simp: writeFile_def writeAtomic_def Let_def split: option.splits writeFault.splits if_splits)

lemma storeEntry_same:
  assumes "storeEntry env opts content res s = (r, s1)"
  shows "syCli s1 = syCli s" "syUsed s1 = syUsed s" "syState s1 = syState s"
    "soDryRun opts \<Longrightarrow> syFiles s1 = syFiles s"
    "q \<noteq> erFile res \<Longrightarrow> q \<noteq> seTmp env (erFile res) \<Longrightarrow> syFiles s1 q = syFiles s q"
  using assms
  by (auto simp: storeEntry_def Let_def split: if_splits prod.splits option.splits dest: writeFile_other)

text \<open>What every part of a sync keeps to, for files \<open>q\<close> that are not the part's own.\<close>

definition spares :: "syncEnv \<Rightarrow> syncOptions \<Rightarrow> string set \<Rightarrow> syncer \<Rightarrow> syncer \<Rightarrow> bool" where
  "spares env opts q s s1 \<longleftrightarrow>
     herdMoves (seHerd env) (\<not> soDryRun opts) (syCli s) (syCli s1) \<and>
     (soDryRun opts \<longrightarrow> syFiles s1 = syFiles s) \<and> (\<forall>x \<in> q. syFiles s1 x = syFiles s x)"

lemma spares_refl: "spares env opts q s s"
  by (simp add: spares_def herdMoves.stay)

lemma spares_trans: "spares env opts q a b \<Longrightarrow> spares env opts q b c \<Longrightarrow> spares env opts q a c"
  by (auto simp: spares_def intro: herdMoves_trans)

lemma onlyHerd_spares: "onlyHerd env opts s s1 \<Longrightarrow> spares env opts q s s1"
  by (simp add: onlyHerd_def spares_def)

lemma plannedEntry_fields [simp]:
  "erFile (plannedEntry cfg d existing skips pl) = ManagedPath (cPath cfg) d"
  "erErrors (plannedEntry cfg d existing skips pl) = []"
  "erAdded (plannedEntry cfg d existing skips pl) = plAdded pl"
  "erUpdated (plannedEntry cfg d existing skips pl) = plUpdated pl"
  "erUnchanged (plannedEntry cfg d existing skips pl) = sort_key smName (plUnchanged pl)"
  "erRemoved (plannedEntry cfg d existing skips pl) = removedOf existing (plFinal pl)"
  "erSkipped (plannedEntry cfg d existing skips pl) = map ruleSkip skips @ plSkipped pl"
  by (simp_all add: plannedEntry_def startEntry_def emptyEntryResult_def)

text \<open>After the plan the entry fails to render, fails to write, or goes on to Herd.\<close>

lemma finishEntry_cases:
  assumes "finishEntry env opts cfg d existing skips pl s = (r, s1)"
  obtains (render) e where
      "render env (ManagedHeader env d (cPath cfg)) (plFinal pl) = Inl e"
      "r = ((plannedEntry cfg d existing skips pl)\<lparr>erErrors := [CannotRender (ManagedPath (cPath cfg) d) e]\<rparr>, [])" "s1 = s"
  | (unwritten) content res1 where
      "render env (ManagedHeader env d (cPath cfg)) (plFinal pl) = Inr content"
      "storeEntry env opts content (plannedEntry cfg d existing skips pl) s = ((res1, False), s1)" "r = (res1, [])"
  | (written) content res1 s0 as nt where
      "render env (ManagedHeader env d (cPath cfg)) (plFinal pl) = Inr content"
      "storeEntry env opts content (plannedEntry cfg d existing skips pl) s = ((res1, True), s0)"
      "herdActions env opts d (plFinal pl) existing s0 = (as, s1)" "r = (res1\<lparr>erHerd := as\<rparr>, nt)"
proof -
  let ?res = "plannedEntry cfg d existing skips pl"
  note unf = assms[symmetric, unfolded finishEntry_def Let_def]
  show thesis
  proof (cases "render env (ManagedHeader env d (cPath cfg)) (plFinal pl)")
    case (Inl e)
    show thesis by (rule render[OF Inl]) (use unf in \<open>simp_all add: Inl failEntry_def\<close>)
  next
    case (Inr content)
    obtain res1 ok s0 where st: "storeEntry env opts content ?res s = ((res1, ok), s0)"
      by (metis prod.exhaust)
    show thesis
    proof (cases ok)
      case False
      show thesis by (rule unwritten[OF Inr, of res1]) (use unf in \<open>simp_all add: Inr st False\<close>)
    next
      case True
      obtain as s2 where ha: "herdActions env opts d (plFinal pl) existing s0 = (as, s2)"
        by (cases "herdActions env opts d (plFinal pl) existing s0")
      have rs: "(r, s1) = ((res1\<lparr>erHerd := as\<rparr>,
          if herdOff opts d then proxyModeNote env d (res1\<lparr>erHerd := as\<rparr>) else []), s2)"
        by (simp add: unf Inr st True ha)
      have st1: "storeEntry env opts content ?res s = ((res1, True), s0)" using st True by simp
      have ha1: "herdActions env opts d (plFinal pl) existing s0 = (as, s1)" using rs ha by simp
      have "r = (res1\<lparr>erHerd := as\<rparr>, if herdOff opts d then proxyModeNote env d (res1\<lparr>erHerd := as\<rparr>) else [])"
        using rs by simp
      then show thesis by (rule written[OF Inr st1 ha1])
    qed
  qed
qed

lemma finishEntry_spares:
  assumes "finishEntry env opts cfg d existing skips pl s = (r, s1)"
    and "ManagedPath (cPath cfg) d \<notin> q" "seTmp env (ManagedPath (cPath cfg) d) \<notin> q"
  shows "spares env opts q s s1"
proof -
  have store: "spares env opts q s s0"
    if st: "storeEntry env opts content (plannedEntry cfg d existing skips pl) s = (x, s0)" for content x s0
  proof -
    have oth: "syFiles s0 y = syFiles s y" if "y \<in> q" for y
      using that assms(2,3) by (intro storeEntry_same(5)[OF st]) auto
    show ?thesis using storeEntry_same(1-4)[OF st] oth by (simp add: spares_def herdMoves.stay)
  qed
  from assms(1) show ?thesis
  proof (cases rule: finishEntry_cases)
    case (render e)
    then show ?thesis by (simp add: spares_refl)
  next
    case (unwritten content res1)
    from store[OF unwritten(2)] show ?thesis .
  next
    case (written content res1 s0 as nt)
    have "spares env opts q s0 s1"
      using onlyHerd_herdActions[of env opts s0 d "plFinal pl" existing] written(3)
      by (simp add: onlyHerd_spares)
    with store[OF written(2)] show ?thesis by (rule spares_trans)
  qed
qed

text \<open>An entry either fails before the plan, or is planned and finished.\<close>

lemma syncEntry_cases:
  assumes "syncEntry env opts cfg d s = (r, s1)"
  obtains (failed) x where "r = ((startEntry cfg d)\<lparr>erErrors := [x]\<rparr>, [])" "s1 = s"
  | (run) existing cs skips pl s0 where
      "IsManagedFile (syFiles s) (ManagedPath (cPath cfg) d) = Inr True"
      "decodeExisting env (syFiles s) (ManagedPath (cPath cfg) d) = Inr existing"
      "scan (seOS env) (seLinks env) d = Some (cs, skips)"
      "planEntry env opts cfg d existing cs s = (pl, s0)"
      "finishEntry env opts cfg d existing skips pl s0 = (r, s1)"
proof -
  let ?f = "ManagedPath (cPath cfg) d"
  have fail: thesis if "(r, s1) = failEntry (startEntry cfg d) x s" for x
    using that by (intro failed[of x]) (simp_all add: failEntry_def startEntry_def emptyEntryResult_def)
  note unf = assms[symmetric, unfolded syncEntry_def Let_def]
  have mfile: "erFile (startEntry cfg d) = ?f" by (simp add: startEntry_def)
  show thesis
  proof (cases "IsManagedFile (syFiles s) ?f")
    case (Inl e)
    show thesis by (rule fail[of "CannotRead ?f e"]) (simp add: unf mfile Inl)
  next
    case m: (Inr managed)
    show thesis
    proof (cases managed)
      case False
      show thesis by (rule fail[of "Unmanaged ?f"]) (simp add: unf mfile m False)
    next
      case True
      show thesis
      proof (cases "decodeExisting env (syFiles s) ?f")
        case (Inl e)
        show thesis by (rule fail[of "CannotDecode e"]) (simp add: unf mfile m True Inl)
      next
        case ex: (Inr existing)
        show thesis
        proof (cases "scan (seOS env) (seLinks env) d")
          case None
          show thesis by (rule fail[of "CannotScan (dDirectory d)"]) (simp add: unf mfile m True ex None)
        next
          case (Some x)
          obtain cs skips where x: "x = (cs, skips)" by (cases x)
          obtain pl s0 where pe: "planEntry env opts cfg d existing cs s = (pl, s0)"
            by (cases "planEntry env opts cfg d existing cs s")
          have fe: "finishEntry env opts cfg d existing skips pl s0 = (r, s1)"
            by (simp add: unf mfile m True ex Some x pe)
          have mt: "IsManagedFile (syFiles s) ?f = Inr True" using m True by simp
          show thesis by (rule run[OF mt ex Some[unfolded x] pe fe])
        qed
      qed
    qed
  qed
qed

lemma syncEntry_spares:
  assumes "syncEntry env opts cfg d s = (r, s1)" "seTmp env (ManagedPath (cPath cfg) d) \<notin> q"
    and "ManagedPath (cPath cfg) d \<notin> q \<or> IsManagedFile (syFiles s) (ManagedPath (cPath cfg) d) \<noteq> Inr True"
  shows "spares env opts q s s1"
  using assms(1)
proof (cases rule: syncEntry_cases)
  case (failed x)
  then show ?thesis by (simp add: spares_refl)
next
  case (run existing cs skips pl s0)
  have "spares env opts q s s0" using planEntry_same[OF run(4)] by (simp add: spares_def)
  moreover have "spares env opts q s0 s1"
    using finishEntry_spares[OF run(5) _ assms(2)] run(1) assms(3) by auto
  ultimately show ?thesis by (rule spares_trans)
qed

lemma wildcardAction_onlyHerd:
  assumes "wildcardAction env opts d s = (r, s1)"
  shows "onlyHerd env opts s s1"
proof -
  have m: "herdMoves (seHerd env) (\<not> soDryRun opts) c (snd (Proxy (seHerd env) site n c))"
    if "\<not> soDryRun opts" for c site n
    using that by (intro herdMoves.proxy herdMoves.stay)
  have rh: "onlyHerd env opts s0 s1" if "runHerd opts (Proxy (seHerd env) site n) a s0 = (b, s1)" for s0 a b site n
    using runHerd_moves[OF that m] by (simp add: onlyHerd_def)
  have cf: "onlyHerd env opts s (s\<lparr>syCli := c1\<rparr>)"
    if "Conflict (seHerd env) (siteNameOf (dBaseDomain d)) (syCli s) = (x, c1)" for x c1
    using Conflict_moves[OF that] by (simp add: onlyHerd_def)
  from assms show ?thesis
    by (auto simp: wildcardAction_def Let_def onlyHerd_refl
        split: if_splits sum.splits prod.splits option.splits
        dest: rh cf intro: onlyHerd_trans[OF cf rh])
qed

lemma syncWildcard_spares:
  assumes "syncWildcard env opts cfg d s = (r, s1)"
  shows "spares env opts q s s1" "syUsed s1 = syUsed s"
proof -
  obtain nt st where pn: "proxyNote env opts d (syState s) = (nt, st)"
    by (cases "proxyNote env opts d (syState s)")
  obtain a errs s2 where wa: "wildcardAction env opts d (s\<lparr>syState := st\<rparr>) = ((a, errs), s2)"
    by (metis prod.exhaust)
  note oh = wildcardAction_onlyHerd[OF wa]
  have "s1 = s\<lparr>syState := st\<rparr> \<or> s1 = s2 \<or> (\<exists>x. s1 = s2\<lparr>syState := x\<rparr>)"
    using assms pn wa by (auto simp: syncWildcard_def Let_def split: if_splits)
  then show "spares env opts q s s1" "syUsed s1 = syUsed s"
    using oh by (auto simp: onlyHerd_def spares_def herdMoves.stay)
qed

lemma retireOne_spares:
  assumes "retireOne env opts name prev s = (r, s1)"
  shows "spares env opts q s s1" "syUsed s1 = syUsed s"
proof -
  let ?p = "emptyProject\<lparr>pName := name, pPublicURL := ''https://'' @ wdBaseDomain prev,
                pSupervisorPort := wdSupervisorPort prev\<rparr>"
  obtain a s2 where ua: "unproxyAction env opts True ?p s = (a, s2)"
    by (cases "unproxyAction env opts True ?p s")
  note oh = onlyHerd_actions(2)[OF ua]
  have "s1 = s2 \<or> (\<exists>x. s1 = s2\<lparr>syState := x\<rparr>)"
    using assms ua by (auto simp: retireOne_def Let_def split: if_splits)
  then show "spares env opts q s s1" "syUsed s1 = syUsed s"
    using oh by (auto simp: onlyHerd_def spares_def)
qed

lemma retireFold_spares:
  "spares env opts q (snd acc) (snd (fold (retireStep env opts live previous) ns acc)) \<and>
   syUsed (snd (fold (retireStep env opts live previous) ns acc)) = syUsed (snd acc)"
proof (induction ns arbitrary: acc)
  case (Cons n ns)
  obtain rs s where acc: "acc = (rs, s)" by (cases acc)
  obtain r s1 where ro: "retireOne env opts n (the (map_of previous n)) s = (r, s1)"
    by (cases "retireOne env opts n (the (map_of previous n)) s")
  let ?acc1 = "retireStep env opts live previous n acc"
  have st: "spares env opts q s (snd ?acc1) \<and> syUsed (snd ?acc1) = syUsed s"
    using retireOne_spares[OF ro]
    by (simp add: acc retireStep_def Let_def ro spares_refl split: option.split)
  show ?case using Cons[of ?acc1] st spares_trans[of env opts q s] by (auto simp: acc)
qed (simp add: spares_refl)

lemma retireWildcards_spares:
  "spares env opts q s (snd (retireWildcards env opts cfg previous s))"
proof -
  let ?s0 = "s\<lparr>syState := (syState s)\<lparr>ssProxyNotes :=
      filter (\<lambda>(n, _). map_of (liveWildcards cfg) n \<noteq> None) (ssProxyNotes (syState s))\<rparr>\<rparr>"
  have "spares env opts q s ?s0" by (simp add: spares_def herdMoves.stay)
  moreover have "spares env opts q ?s0 (snd (retireWildcards env opts cfg previous s))"
    using retireFold_spares[of env opts q "([], ?s0)" "liveWildcards cfg" previous "sort (map fst previous)"]
    by (simp add: retireWildcards_def Let_def)
  ultimately show ?thesis by (rule spares_trans)
qed

lemma syncStep_spares:
  assumes "\<not> Wildcard d \<Longrightarrow> ManagedPath (cPath cfg) d \<notin> q \<or>
      IsManagedFile (syFiles (snd acc)) (ManagedPath (cPath cfg) d) \<noteq> Inr True"
    and "\<And>p. seTmp env p \<notin> q"
  shows "spares env opts q (snd acc) (snd (syncStep env opts cfg d acc))"
proof -
  obtain es nts s where acc: "acc = ((es, nts), s)" by (metis prod.exhaust)
  show ?thesis
  proof (cases "Wildcard d")
    case True
    obtain r nt s1 where sw: "syncWildcard env opts cfg d s = ((r, nt), s1)" by (metis prod.exhaust)
    show ?thesis using syncWildcard_spares(1)[OF sw] True by (simp add: acc syncStep_def sw)
  next
    case False
    obtain r nt s1 where se: "syncEntry env opts cfg d s = ((r, nt), s1)" by (metis prod.exhaust)
    show ?thesis using syncEntry_spares[OF se assms(2)] assms(1) False by (simp add: acc syncStep_def se)
  qed
qed

lemma IsManagedFile_cong: "fs q = fs1 q \<Longrightarrow> IsManagedFile fs q = IsManagedFile fs1 q"
  by (simp add: IsManagedFile_def)

lemma syncFold_spares:
  assumes "\<And>d. d \<in> set ds \<Longrightarrow> \<not> Wildcard d \<Longrightarrow>
      ManagedPath (cPath cfg) d \<notin> q \<or>
      IsManagedFile (syFiles (snd acc)) (ManagedPath (cPath cfg) d) \<noteq> Inr True"
    and "\<And>p. seTmp env p \<notin> q"
  shows "spares env opts q (snd acc) (snd (fold (syncStep env opts cfg) ds acc))"
  using assms(1)
proof (induction ds arbitrary: acc)
  case (Cons d ds)
  let ?acc1 = "syncStep env opts cfg d acc"
  have st: "spares env opts q (snd acc) (snd ?acc1)"
    using Cons.prems[of d] by (intro syncStep_spares assms(2)) simp
  then have eq: "IsManagedFile (syFiles (snd ?acc1)) x = IsManagedFile (syFiles (snd acc)) x" if "x \<in> q" for x
    using that by (intro IsManagedFile_cong) (simp add: spares_def)
  have "spares env opts q (snd ?acc1) (snd (fold (syncStep env opts cfg) ds ?acc1))"
    by (rule Cons.IH) (use Cons.prems eq in auto)
  with st show ?case by (simp add: spares_trans)
qed (simp add: spares_refl)

text \<open>A sync is its entries, the retirements, and saving the state.\<close>

lemma Sync_cases:
  assumes "Sync env opts cfg fs cl = (r, fs1, cl1)"
  obtains (early) e where "r = Inl e" "fs1 = fs" "cl1 = cl"
  | (run) st acc where
      "acc = fold (syncStep env (withGOOS env opts) cfg) (discoveries cfg)
         (([], []), \<lparr>syUsed = initialUsed cfg, syState = st, syFiles = fs, syCli = cl\<rparr>)"
      "cl1 = syCli (snd (retireWildcards env (withGOOS env opts) cfg (ssWildcards st) (snd acc)))"
      "soDryRun opts \<Longrightarrow> fs1 = syFiles (snd (retireWildcards env (withGOOS env opts) cfg (ssWildcards st) (snd acc)))"
      "\<not> soDryRun opts \<Longrightarrow> fs1 = snd (saveState env (StatePath (cPath cfg))
         (syState (snd (retireWildcards env (withGOOS env opts) cfg (ssWildcards st) (snd acc))))
         (syFiles (snd (retireWildcards env (withGOOS env opts) cfg (ssWildcards st) (snd acc)))))"
      "\<And>x. r = Inr x \<Longrightarrow> resEntries x = fst (fst acc) @
         fst (retireWildcards env (withGOOS env opts) cfg (ssWildcards st) (snd acc))"
proof (cases "cPath cfg = []")
  case True
  then show thesis using assms by (intro early[of NoConfigFile]) (auto simp: Sync_def)
next
  case False
  show thesis
  proof (cases "loadState env fs (StatePath (cPath cfg))")
    case (Inl e)
    then show thesis using assms False by (intro early[of "StateFailed e"]) (auto simp: Sync_def Let_def)
  next
    case (Inr st)
    define o1 where "o1 = withGOOS env opts"
    define acc where "acc = fold (syncStep env o1 cfg) (discoveries cfg)
         (([], []), \<lparr>syUsed = initialUsed cfg, syState = st, syFiles = fs, syCli = cl\<rparr>)"
    obtain es nts s where acc: "acc = ((es, nts), s)" by (metis prod.exhaust)
    obtain rs s2 where rw: "retireWildcards env o1 cfg (ssWildcards st) s = (rs, s2)"
      by (cases "retireWildcards env o1 cfg (ssWildcards st) s")
    obtain e fs2 where ss: "saveState env (StatePath (cPath cfg)) (syState s2) (syFiles s2) = (e, fs2)"
      by (cases "saveState env (StatePath (cPath cfg)) (syState s2) (syFiles s2)")
    have dry: "soDryRun o1 = soDryRun opts" by (simp add: o1_def withGOOS_def)
    have eq: "Sync env opts cfg fs cl =
        (let res = \<lparr>resConfigPath = cPath cfg, resDryRun = soDryRun o1, resHerdAvailable = soHerd o1,
                    resHerdNote = soHerdNote o1, resProxyNotes = nts, resEntries = es @ rs\<rparr>
         in if soDryRun o1 then (Inr res, syFiles s2, syCli s2)
            else (case (e, fs2) of
                    (Some e, fs2) \<Rightarrow> (Inl (StateFailed (WriteState e)), fs2, syCli s2)
                  | (None, fs2) \<Rightarrow> (Inr res, fs2, syCli s2)))"
      using False Inr acc rw ss by (simp add: Sync_def Let_def o1_def[symmetric] acc_def[symmetric])
    show thesis
      by (rule run[OF acc_def[unfolded o1_def]])
        (use assms acc rw ss dry eq in \<open>auto simp: Let_def o1_def split: if_splits option.splits\<close>)
  qed
qed

text \<open>The whole of a sync up to the state file, and the herd tool.\<close>

lemma Sync_spares:
  assumes "Sync env opts cfg fs cl = (r, fs1, cl1)"
    and "\<And>d. d \<in> set (discoveries cfg) \<Longrightarrow> \<not> Wildcard d \<Longrightarrow>
      ManagedPath (cPath cfg) d \<notin> q \<or> IsManagedFile fs (ManagedPath (cPath cfg) d) \<noteq> Inr True"
    and "\<And>p. seTmp env p \<notin> q" "StatePath (cPath cfg) \<notin> q"
  shows "herdMoves (seHerd env) (\<not> soDryRun opts) cl cl1" "soDryRun opts \<Longrightarrow> fs1 = fs"
    "\<And>x. x \<in> q \<Longrightarrow> fs1 x = fs x"
proof -
  let ?o = "withGOOS env opts"
  have dry: "soDryRun ?o = soDryRun opts" by (simp add: withGOOS_def)
  have "herdMoves (seHerd env) (\<not> soDryRun opts) cl cl1 \<and> (soDryRun opts \<longrightarrow> fs1 = fs) \<and> (\<forall>x \<in> q. fs1 x = fs x)"
    using assms(1)
  proof (cases rule: Sync_cases)
    case (early e)
    then show ?thesis by (simp add: herdMoves.stay)
  next
    case (run st acc)
    let ?s0 = "\<lparr>syUsed = initialUsed cfg, syState = st, syFiles = fs, syCli = cl\<rparr>"
    define s2 where "s2 = snd (retireWildcards env ?o cfg (ssWildcards st) (snd acc))"
    have "spares env ?o q ?s0 (snd acc)"
      using syncFold_spares[of "discoveries cfg" cfg q "(([], []), ?s0)" env ?o] assms(2,3)
      by (simp add: run(1))
    then have sp: "spares env ?o q ?s0 s2"
      unfolding s2_def by (rule spares_trans) (rule retireWildcards_spares)
    have sv: "snd (saveState env (StatePath (cPath cfg)) (syState s2) (syFiles s2)) x = syFiles s2 x"
      if "x \<in> q" for x
    proof -
      have "x \<noteq> StatePath (cPath cfg)" "x \<noteq> seTmp env (StatePath (cPath cfg))" using that assms(3,4) by auto
      then show ?thesis
        using writeFile_other[OF surjective_pairing, of x "StatePath (cPath cfg)" env]
        by (auto simp: saveState_def split: option.split sum.split)
    qed
    show ?thesis
      using run(2,3,4) sp sv unfolding s2_def[symmetric] by (cases "soDryRun opts") (auto simp: spares_def dry)
  qed
  then show "herdMoves (seHerd env) (\<not> soDryRun opts) cl cl1" "soDryRun opts \<Longrightarrow> fs1 = fs"
    "\<And>x. x \<in> q \<Longrightarrow> fs1 x = fs x" by auto
qed

end
