(* ===== verification/SyncPorts.thy ===== *)
theory SyncPorts
  imports SyncFacts
begin

text \<open>
  The ports a sync hands out: what the table of ports promises the code that builds projects, and that
  no two projects of a sync share a port.
\<close>

section \<open>The table of ports\<close>

text \<open>A table that records the owner of a port; the empty name is nobody.\<close>

locale port_table =
  fixes owner :: "'t \<Rightarrow> int \<Rightarrow> string" and claim :: "int \<Rightarrow> string \<Rightarrow> 't \<Rightarrow> 't"
    and give :: "string \<Rightarrow> int \<Rightarrow> 't \<Rightarrow> 't"
  assumes owner_claim: "owner (claim p n t) q = (if q = p then n else owner t q)"
    and owner_give: "owner (give n p t) q = (if q = p \<and> owner t p = n then [] else owner t q)"
begin

definition keeps :: "'t \<Rightarrow> 't \<Rightarrow> bool" where
  "keeps t u \<longleftrightarrow> (\<forall>p. owner t p \<noteq> [] \<longrightarrow> owner u p = owner t p)"

lemma keeps_refl: "keeps t t"
  by (simp add: keeps_def)

lemma keeps_trans: "keeps t u \<Longrightarrow> keeps u v \<Longrightarrow> keeps t v"
  by (simp add: keeps_def)

lemma keeps_owner: "keeps t u \<Longrightarrow> owner t p = n \<Longrightarrow> n \<noteq> [] \<Longrightarrow> owner u p = n"
  by (simp add: keeps_def)

lemma keeps_claim: "keeps t u \<Longrightarrow> owner u p = [] \<or> owner u p = n \<Longrightarrow> keeps t (claim p n u)"
  by (auto simp: keeps_def owner_claim)

lemma keeps_gives:
  "keeps t u \<Longrightarrow> (\<And>p. p \<in> set ps \<Longrightarrow> owner t p = []) \<Longrightarrow> keeps t (fold (give n) ps u)"
proof (induction ps arbitrary: u)
  case (Cons p ps)
  have "keeps t (give n p u)" using Cons.prems by (auto simp: keeps_def owner_give)
  then show ?case using Cons by simp
qed simp

lemma disjoint_owners:
  "owner t p = n \<Longrightarrow> owner t q = m \<Longrightarrow> n \<noteq> m \<Longrightarrow> p \<noteq> q"
  by auto

end

lemma usedBy_mapPut: "usedBy (mapPut p n used) q = (if q = p then n else usedBy used q)"
  by (simp add: usedBy_def map_of_mapPut)

lemma usedBy_release: "usedBy (release n p used) q = (if q = p \<and> usedBy used p = n then [] else usedBy used q)"
  by (simp add: usedBy_def release_def map_of_mapDelete)

interpretation ports: port_table usedBy mapPut release
  by unfold_locales (simp_all add: usedBy_mapPut usedBy_release)

text \<open>The lowest free port of the range.\<close>

lemma allocate_Some:
  assumes "allocate rng name used = (Some p, used1)"
  shows "length rng = 2" "usedBy used p = []" "used1 = mapPut p name used" "rng ! 0 \<le> p" "p \<le> rng ! 1"
    "\<And>q. rng ! 0 \<le> q \<Longrightarrow> q < p \<Longrightarrow> usedBy used q \<noteq> []"
proof -
  have l: "length rng = 2" and f: "find (\<lambda>port. usedBy used port = []) [rng ! 0 .. rng ! 1] = Some p"
    and u: "used1 = mapPut p name used"
    using assms by (auto simp: allocate_def split: if_splits option.splits)
  from f obtain i where i: "i < length [rng ! 0 .. rng ! 1]" "usedBy used ([rng ! 0 .. rng ! 1] ! i) = []"
    "p = [rng ! 0 .. rng ! 1] ! i" "\<And>j. j < i \<Longrightarrow> usedBy used ([rng ! 0 .. rng ! 1] ! j) \<noteq> []"
    by (auto simp: find_Some_iff)
  then have p: "p = rng ! 0 + int i" "p \<le> rng ! 1" by (auto simp: nth_upto)
  show "length rng = 2" "usedBy used p = []" "used1 = mapPut p name used" "rng ! 0 \<le> p" "p \<le> rng ! 1"
    using l u i p by simp_all
  fix q assume q: "rng ! 0 \<le> q" "q < p"
  let ?j = "nat (q - rng ! 0)"
  have "?j < i" "[rng ! 0 .. rng ! 1] ! ?j = q" using q p by (auto simp: nth_upto)
  with i(4)[of ?j] show "usedBy used q \<noteq> []" by simp
qed

lemma allocate_None:
  assumes "allocate rng name used = (None, used1)" "length rng = 2"
  shows "rng ! 0 \<le> q \<Longrightarrow> q \<le> rng ! 1 \<Longrightarrow> usedBy used q \<noteq> []"
  using assms by (auto simp: allocate_def find_None_iff split: option.splits)

section \<open>Building one project\<close>

definition holdsPorts :: "(int, string) gomap \<Rightarrow> string \<Rightarrow> project \<Rightarrow> bool" where
  "holdsPorts used n p \<longleftrightarrow>
     usedBy used (pSupervisorPort p) = n \<and> usedBy used (pApplicationPort p) = n \<and>
     pSupervisorPort p \<noteq> pApplicationPort p"

lemma holdsPorts_keeps: "ports.keeps t u \<Longrightarrow> holdsPorts t n p \<Longrightarrow> n \<noteq> [] \<Longrightarrow> holdsPorts u n p"
  by (auto simp: holdsPorts_def intro: ports.keeps_owner)

lemma skipWith_keeps:
  assumes "skipWith c prev ps keep r s = ((gen, sk), s1)"
    and "ports.keeps t (syUsed s)" "\<And>p. p \<in> set ps \<Longrightarrow> usedBy t p = []"
  shows "ports.keeps t (syUsed s1)" "sk \<noteq> None" "gen = None \<or> gen = prev"
  using assms ports.keeps_gives[OF assms(2,3)]
  by (auto simp: skipWith_def Let_def split: if_splits)

lemma templateFor_fields [simp]:
  "pName (templateFor d c) = fst c" "pWorkingDirectory (templateFor d c) = snd c"
  "pPublicURL (templateFor d c) = PublicURL d (fst c)"
  by (simp_all add: templateFor_def)

text \<open>What building a project promises of the table and of the project.\<close>

definition builtWell ::
    "(int, string) gomap \<Rightarrow> worktree \<Rightarrow> project option \<Rightarrow> built \<Rightarrow> bool" where
  "builtWell t c prev = (\<lambda>((gen, sk), s1).
     ports.keeps t (syUsed s1) \<and>
     (case sk of
        Some _ \<Rightarrow> gen = None \<or> gen = prev
      | None \<Rightarrow> (\<exists>p. gen = Some p \<and> pName p = fst c \<and> holdsPorts (syUsed s1) (fst c) p)))"

lemma builtWell_skip:
  assumes "ports.keeps t (syUsed s)" "\<And>p. p \<in> set ps \<Longrightarrow> usedBy t p = []"
  shows "builtWell t c prev (skipWith c prev ps keep r s)"
proof -
  obtain gen sk s1 where e: "skipWith c prev ps keep r s = ((gen, sk), s1)" by (metis prod.exhaust)
  from skipWith_keeps[OF e assms] show ?thesis by (auto simp: builtWell_def e)
qed

lemma choosePort_well:
  assumes "ports.keeps t (syUsed s)" "\<And>p. p \<in> set ps \<Longrightarrow> usedBy t p = []" "fst c \<noteq> []"
    and "usedBy (syUsed s) sp = fst c"
    and "\<And>q. prev = Some q \<Longrightarrow> usedBy (syUsed s) (pApplicationPort q) = fst c \<and> pApplicationPort q \<noteq> sp"
  shows "builtWell t c prev (choosePort env d c prev ps sp s)"
proof (cases "dPortCommand d \<noteq> []")
  case True
  show ?thesis
  proof (cases "RunPortCommand (seEnvOS env) (osURL (seOS env)) (seShell env) (snd c) (dPortCommand d) (dTemplate d)")
    case (Inl e)
    then show ?thesis using True by (simp add: choosePort_def Let_def builtWell_skip assms(1,2))
  next
    case (Inr port)
    let ?taken = "usedBy (syUsed s) port \<noteq> [] \<and> usedBy (syUsed s) port \<noteq> fst c"
    show ?thesis
    proof (cases "?taken \<or> port = sp")
      case True
      then show ?thesis using Inr \<open>dPortCommand d \<noteq> []\<close>
        by (auto simp: choosePort_def Let_def builtWell_skip assms(1,2))
    next
      case False
      then have "ports.keeps t (mapPut port (fst c) (syUsed s))"
        using assms(1) by (intro ports.keeps_claim) auto
      then show ?thesis using Inr \<open>dPortCommand d \<noteq> []\<close> False assms(4)
        by (auto simp: choosePort_def Let_def builtWell_def holdsPorts_def usedBy_mapPut)
    qed
  qed
next
  case noCommand: False
  show ?thesis
  proof (cases prev)
    case (Some q)
    then show ?thesis using noCommand assms(1,4) assms(5)[OF Some]
      by (auto simp: choosePort_def Let_def builtWell_def holdsPorts_def)
  next
    case None
    obtain r used1 where al: "allocate (dApplicationPortRange d) (fst c) (syUsed s) = (r, used1)"
      by (cases "allocate (dApplicationPortRange d) (fst c) (syUsed s)")
    show ?thesis
    proof (cases r)
      case None
      then show ?thesis using noCommand \<open>prev = None\<close> al
        by (simp add: choosePort_def Let_def builtWell_skip assms(1,2))
    next
      case (Some port)
      note a = allocate_Some[OF al[unfolded Some]]
      have "ports.keeps t used1" using assms(1) a by (auto intro: ports.keeps_claim)
      moreover have "sp \<noteq> port" using a(2) assms(3,4) by auto
      ultimately show ?thesis using noCommand \<open>prev = None\<close> al Some a assms(4)
        by (auto simp: choosePort_def Let_def builtWell_def holdsPorts_def usedBy_mapPut)
    qed
  qed
qed

lemma build_well:
  assumes "fst c \<noteq> []" and "\<And>q. prev = Some q \<Longrightarrow> holdsPorts (syUsed s) (fst c) q"
  shows "builtWell (syUsed s) c prev (build env opts cfg d c prev s)"
proof -
  obtain r s0 where cn: "claimName env opts cfg d c prev s = (r, s0)"
    by (cases "claimName env opts cfg d c prev s")
  have u: "syUsed s0 = syUsed s" by (rule claimName_same(3)[OF cn])
  show ?thesis
  proof (cases r)
    case (Some reason)
    have "builtWell (syUsed s) c prev (skipWith c prev [] False reason s0)"
      by (rule builtWell_skip) (simp_all add: u ports.keeps_refl)
    with Some show ?thesis by (simp add: build_def cn)
  next
    case None
    show ?thesis
    proof (cases prev)
      case (Some q)
      have "builtWell (syUsed s) c prev (choosePort env d c prev [] (pSupervisorPort q) s0)"
        using assms Some by (intro choosePort_well) (auto simp: u ports.keeps_refl holdsPorts_def)
      then show ?thesis using None Some cn by (simp add: build_def)
    next
      case noPrev: None
      obtain x used1 where al: "allocate (dSupervisorPortRange d) (fst c) (syUsed s0) = (x, used1)"
        by (cases "allocate (dSupervisorPortRange d) (fst c) (syUsed s0)")
      show ?thesis
      proof (cases x)
        case None
        have "builtWell (syUsed s) c prev (skipWith c prev [] False reason s0)" for reason
          by (rule builtWell_skip) (simp_all add: u ports.keeps_refl)
        then show ?thesis using \<open>r = None\<close> noPrev al None cn by (simp add: build_def)
      next
        case (Some port)
        note a = allocate_Some[OF al[unfolded Some]]
        have "builtWell (syUsed s) c prev (choosePort env d c prev [port] port (s0\<lparr>syUsed := used1\<rparr>))"
          using a assms(1) u noPrev
          by (intro choosePort_well) (auto simp: usedBy_mapPut intro: ports.keeps_claim ports.keeps_refl)
        then show ?thesis using \<open>r = None\<close> noPrev al Some cn by (simp add: build_def)
      qed
    qed
  qed
qed

section \<open>The projects of an entry\<close>

definition holdsSummary :: "(int, string) gomap \<Rightarrow> summary \<Rightarrow> bool" where
  "holdsSummary used sm \<longleftrightarrow>
     smName sm \<noteq> [] \<and> usedBy used (smSupervisorPort sm) = smName sm \<and>
     usedBy used (smApplicationPort sm) = smName sm \<and> smSupervisorPort sm \<noteq> smApplicationPort sm"

lemma holdsSummary_keeps: "ports.keeps t u \<Longrightarrow> holdsSummary t sm \<Longrightarrow> holdsSummary u sm"
  by (auto simp: holdsSummary_def intro: ports.keeps_owner)

lemma holdsSummary_summarize:
  "holdsSummary used (summarize p) \<longleftrightarrow> pName p \<noteq> [] \<and> holdsPorts used (pName p) p"
  "holdsSummary used ((summarize p)\<lparr>smDetail := x\<rparr>) \<longleftrightarrow> pName p \<noteq> [] \<and> holdsPorts used (pName p) p"
  by (auto simp: holdsSummary_def holdsPorts_def summarize_def)

definition planned :: "plan \<Rightarrow> summary set" where
  "planned pl = set (plAdded pl) \<union> set (plUpdated pl) \<union> set (plUnchanged pl)"

definition reportedBy :: "entryResult \<Rightarrow> summary set" where
  "reportedBy e = set (erAdded e) \<union> set (erUpdated e) \<union> set (erUnchanged e)"

lemma reportedBy_update [simp]:
  "reportedBy (e\<lparr>erErrors := x\<rparr>) = reportedBy e" "reportedBy (e\<lparr>erHerd := a\<rparr>) = reportedBy e"
  "reportedBy (e\<lparr>erChanged := b\<rparr>) = reportedBy e" "reportedBy (e\<lparr>erWritten := b\<rparr>) = reportedBy e"
  by (simp_all add: reportedBy_def)

text \<open>The projects registered before hold their ports.\<close>

definition existingHeld :: "(int, string) gomap \<Rightarrow> (string, project) gomap \<Rightarrow> bool" where
  "existingHeld used existing \<longleftrightarrow>
     (\<forall>n q. map_of existing n = Some q \<longrightarrow> pName q = n \<and> holdsPorts used n q)"

lemma existingHeld_keeps:
  assumes "ports.keeps t u" "existingHeld t existing" "n \<noteq> []" "map_of existing n = Some q"
  shows "pName q = n \<and> holdsPorts u n q"
  using assms holdsPorts_keeps[OF assms(1)] by (auto simp: existingHeld_def)

lemma note_built_planned:
  assumes "prev = None \<or> (\<exists>q. prev = Some q \<and> pName q = fst c \<and> holdsPorts u (fst c) q)"
    and "builtWell t c prev (b, s1)" "syUsed s1 = u" "fst c \<noteq> []"
    and "sm \<in> planned (note_built (fst c) prev b pl)" "sm \<notin> planned pl"
  shows "holdsSummary u sm"
  using assms
  by (auto simp: note_built_def planned_def builtWell_def Let_def holdsSummary_summarize
      split: option.splits prod.splits if_splits)

lemma planStep_well:
  assumes "ports.keeps t (syUsed s)" "existingHeld t existing" "fst c \<noteq> []"
    and "planStep env opts cfg d existing c (pl, s) = (pl1, s1)"
    and "\<forall>sm \<in> planned pl. holdsSummary (syUsed s) sm"
  shows "ports.keeps t (syUsed s1)" "\<forall>sm \<in> planned pl1. holdsSummary (syUsed s1) sm"
    "ports.keeps (syUsed s) (syUsed s1)"
proof -
  let ?prev = "map_of existing (fst c)"
  obtain b where b: "build env opts cfg d c ?prev s = (b, s1)" "pl1 = note_built (fst c) ?prev b pl"
    using assms(4) by (auto simp: planStep_def Let_def split: prod.splits)
  have prev: "pName q = fst c \<and> holdsPorts (syUsed s) (fst c) q" if "?prev = Some q" for q
    using existingHeld_keeps[OF assms(1,2,3) that] .
  then have well: "builtWell (syUsed s) c ?prev (b, s1)"
    using build_well[of c ?prev s env opts cfg d] assms(3) b by auto
  then show k: "ports.keeps (syUsed s) (syUsed s1)" by (auto simp: builtWell_def split: prod.splits)
  then show "ports.keeps t (syUsed s1)" using assms(1) ports.keeps_trans by blast
  have "?prev = None \<or> (\<exists>q. ?prev = Some q \<and> pName q = fst c \<and> holdsPorts (syUsed s1) (fst c) q)"
    using prev holdsPorts_keeps[OF k] assms(3) by (cases ?prev) auto
  then show "\<forall>sm \<in> planned pl1. holdsSummary (syUsed s1) sm"
    using note_built_planned[OF _ well refl assms(3)] b(2) assms(5) holdsSummary_keeps[OF k] by blast
qed

lemma planFold_well:
  assumes "ports.keeps t (syUsed s)" "existingHeld t existing" "\<forall>c \<in> set cs. fst c \<noteq> []"
    and "fold (planStep env opts cfg d existing) cs (pl, s) = (pl1, s1)"
    and "\<forall>sm \<in> planned pl. holdsSummary (syUsed s) sm"
  shows "ports.keeps t (syUsed s1) \<and> (\<forall>sm \<in> planned pl1. holdsSummary (syUsed s1) sm) \<and>
    ports.keeps (syUsed s) (syUsed s1)"
  using assms(1,3-5)
proof (induction cs arbitrary: pl s)
  case (Cons c cs)
  obtain pl2 s2 where st: "planStep env opts cfg d existing c (pl, s) = (pl2, s2)"
    by (cases "planStep env opts cfg d existing c (pl, s)")
  note w = planStep_well[OF Cons.prems(1) assms(2) _ st Cons.prems(4)]
  have "ports.keeps t (syUsed s1) \<and> (\<forall>sm \<in> planned pl1. holdsSummary (syUsed s1) sm) \<and>
      ports.keeps (syUsed s2) (syUsed s1)"
    by (rule Cons.IH[of s2 pl2]) (use w Cons.prems st in auto)
  then show ?case using w(3) Cons.prems(2) ports.keeps_trans by auto
qed (auto simp: ports.keeps_refl)

lemma scan_servable:
  assumes "scan os links d = Some (cs, sks)" "c \<in> set cs"
  shows "servable os links d (fst c)" "fst c \<noteq> []"
proof -
  obtain entries where "osReadDir os (dDirectory d) = Some (Inr entries)"
    using assms(1) by (auto simp: scan_def split: option.splits sum.splits)
  then show "servable os links d (fst c)"
    using assms by (auto simp: scan_def scan_fold)
  then show "fst c \<noteq> []" by (auto simp: servable_def Let_def IsDNSLabel_def)
qed

lemma storeEntry_reports: "reportedBy (fst (fst (storeEntry env opts content res s))) = reportedBy res"
  by (simp add: storeEntry_def Let_def split: prod.split option.split)

lemma finishEntry_reports:
  assumes "finishEntry env opts cfg d existing skips pl s = ((e, nt), s1)"
  shows "syUsed s1 = syUsed s" "reportedBy e = planned pl"
proof -
  have pl: "reportedBy (plannedEntry cfg d existing skips pl) = planned pl"
    by (simp add: reportedBy_def planned_def)
  have "syUsed s1 = syUsed s \<and> reportedBy e = planned pl"
    using assms
  proof (cases rule: finishEntry_cases)
    case (render x)
    then show ?thesis by (simp add: pl)
  next
    case (unwritten content res1)
    then show ?thesis
      using storeEntry_same(2)[OF unwritten(2)] storeEntry_reports[of env opts content _ s] pl
      by (metis fst_conv prod.inject)
  next
    case (written content res1 s0 as n1)
    have "reportedBy res1 = planned pl"
      using storeEntry_reports[of env opts content "plannedEntry cfg d existing skips pl" s] written(2) pl by simp
    moreover have "syUsed s1 = syUsed s0"
      using onlyHerd_herdActions[of env opts s0 d "plFinal pl" existing] written(3) by (simp add: onlyHerd_def)
    ultimately show ?thesis using storeEntry_same(2)[OF written(2)] written(4) by simp
  qed
  then show "syUsed s1 = syUsed s" "reportedBy e = planned pl" by simp_all
qed

lemma syncEntry_well:
  assumes "ports.keeps t (syUsed s)"
    and "\<And>existing. decodeExisting env (syFiles s) (ManagedPath (cPath cfg) d) = Inr existing \<Longrightarrow> existingHeld t existing"
    and "syncEntry env opts cfg d s = ((e, nt), s1)"
  shows "ports.keeps t (syUsed s1)" "\<forall>sm \<in> reportedBy e. holdsSummary (syUsed s1) sm"
    "ports.keeps (syUsed s) (syUsed s1)"
proof -
  have "ports.keeps t (syUsed s1) \<and> (\<forall>sm \<in> reportedBy e. holdsSummary (syUsed s1) sm) \<and> ports.keeps (syUsed s) (syUsed s1)"
    using assms(3)
  proof (cases rule: syncEntry_cases)
    case (failed x)
    then have "reportedBy e = {}" by (simp add: startEntry_def emptyEntryResult_def reportedBy_def)
    with failed assms(1) show ?thesis by (simp add: ports.keeps_refl)
  next
    case (run existing cs skips pl s0)
    note ex = run(2) and sc = run(3) and pe = run(4,5)
    note fe = finishEntry_reports[OF pe(2)]
    have names: "\<forall>c \<in> set cs. fst c \<noteq> []" using scan_servable(2)[OF sc] by auto
    have none: "\<forall>sm \<in> planned emptyPlan. holdsSummary (syUsed s) sm" by (simp add: planned_def emptyPlan_def)
    have "ports.keeps t (syUsed s0) \<and> (\<forall>sm \<in> planned pl. holdsSummary (syUsed s0) sm) \<and>
        ports.keeps (syUsed s) (syUsed s0)"
      by (rule planFold_well[OF assms(1) assms(2)[OF ex] names pe(1)[unfolded planEntry_def] none])
    then show ?thesis using fe by simp
  qed
  then show "ports.keeps t (syUsed s1)" "\<forall>sm \<in> reportedBy e. holdsSummary (syUsed s1) sm"
    "ports.keeps (syUsed s) (syUsed s1)" by simp_all
qed

section \<open>A whole sync\<close>

lemma syncWildcard_reports:
  assumes "syncWildcard env opts cfg d s = ((e, nt), s1)"
  shows "reportedBy e = {}"
proof -
  have "reportedBy (startWildcard env cfg d fs) = {}" for fs
    by (simp add: reportedBy_def startWildcard_def emptyEntryResult_def Let_def)
  then show ?thesis
    using assms by (auto simp: syncWildcard_def Let_def split: if_splits prod.splits)
qed

lemma retireFold_reports:
  assumes "\<forall>e \<in> set (fst acc). P e" and "\<And>r. reportedBy r = {} \<Longrightarrow> P r"
  shows "\<forall>e \<in> set (fst (fold (retireStep env opts live previous) ns acc)). P e"
  using assms(1)
proof (induction ns arbitrary: acc)
  case (Cons n ns)
  have "reportedBy (fst (retireOne env opts m prev s)) = {}" for m prev s
    by (simp add: retireOne_def Let_def reportedBy_def emptyEntryResult_def split: prod.split)
  then have "\<forall>e \<in> set (fst (retireStep env opts live previous n acc)). P e"
    using Cons.prems assms(2)
    by (cases acc) (auto simp: retireStep_def Let_def case_prod_beta split: option.split)
  then show ?case using Cons.IH by simp
qed simp

text \<open>The file of an entry is read as it was when the sync began.\<close>

definition recorded :: "syncEnv \<Rightarrow> config \<Rightarrow> (int, string) gomap \<Rightarrow> files \<Rightarrow> discovery \<Rightarrow> bool" where
  "recorded env cfg t fs d \<longleftrightarrow>
     (\<forall>existing. decodeExisting env fs (ManagedPath (cPath cfg) d) = Inr existing \<longrightarrow> existingHeld t existing)"

lemma recorded_cong:
  assumes "fs (ManagedPath (cPath cfg) d) = fs1 (ManagedPath (cPath cfg) d)"
  shows "recorded env cfg t fs d = recorded env cfg t fs1 d"
  using assms by (simp add: recorded_def decodeExisting_def readFragment_def DecodeFragment_def)

lemma syncFold_well:
  assumes "ports.keeps t (syUsed s)"
    and "\<forall>d \<in> set ds. \<not> Wildcard d \<longrightarrow> recorded env cfg t (syFiles s) d"
    and "distinct (map (ManagedPath (cPath cfg)) (filter (\<lambda>d. \<not> Wildcard d) ds))"
    and "\<forall>d \<in> set ds. \<forall>p. seTmp env p \<noteq> ManagedPath (cPath cfg) d"
    and "\<forall>e \<in> set es. \<forall>sm \<in> reportedBy e. holdsSummary (syUsed s) sm"
    and "fold (syncStep env opts cfg) ds ((es, nts), s) = ((es1, nts1), s1)"
  shows "ports.keeps t (syUsed s1) \<and> (\<forall>e \<in> set es1. \<forall>sm \<in> reportedBy e. holdsSummary (syUsed s1) sm)"
  using assms
proof (induction ds arbitrary: es nts s)
  case (Cons d ds)
  show ?case
  proof (cases "Wildcard d")
    case True
    obtain e nt s2 where sw: "syncWildcard env opts cfg d s = ((e, nt), s2)" by (metis prod.exhaust)
    have u: "syUsed s2 = syUsed s" by (rule syncWildcard_spares(2)[OF sw])
    have f: "syFiles s2 x = syFiles s x" for x using syncWildcard_spares(1)[OF sw, of "{x}"] by (simp add: spares_def)
    then have rec: "\<forall>d' \<in> set ds. \<not> Wildcard d' \<longrightarrow> recorded env cfg t (syFiles s2) d'"
      using Cons.prems(2) recorded_cong[of "syFiles s2" cfg _ "syFiles s"] by auto
    have st: "syncStep env opts cfg d ((es, nts), s) = ((es @ [e], if nt \<noteq> [] then nts @ [nt] else nts), s2)"
      using True by (simp add: syncStep_def sw)
    show ?thesis
      by (rule Cons.IH[of s2 "es @ [e]" "if nt \<noteq> [] then nts @ [nt] else nts"])
        (use Cons.prems True rec st u syncWildcard_reports[OF sw] in auto)
  next
    case False
    obtain e nt s2 where se: "syncEntry env opts cfg d s = ((e, nt), s2)" by (metis prod.exhaust)
    have rd: "existingHeld t existing"
      if "decodeExisting env (syFiles s) (ManagedPath (cPath cfg) d) = Inr existing" for existing
      using Cons.prems(2) False that by (auto simp: recorded_def)
    note w = syncEntry_well[OF Cons.prems(1) rd se]
    have f: "syFiles s2 (ManagedPath (cPath cfg) d') = syFiles s (ManagedPath (cPath cfg) d')"
      if "d' \<in> set ds" "\<not> Wildcard d'" for d'
    proof -
      have "ManagedPath (cPath cfg) d \<noteq> ManagedPath (cPath cfg) d'" using Cons.prems(3) False that by auto
      moreover have "seTmp env (ManagedPath (cPath cfg) d) \<noteq> ManagedPath (cPath cfg) d'"
        using Cons.prems(4) that by auto
      ultimately show ?thesis
        using syncEntry_spares[OF se, of "{ManagedPath (cPath cfg) d'}"] by (auto simp: spares_def)
    qed
    then have rec: "\<forall>d' \<in> set ds. \<not> Wildcard d' \<longrightarrow> recorded env cfg t (syFiles s2) d'"
      using Cons.prems(2) recorded_cong[of "syFiles s2" cfg _ "syFiles s"] by auto
    have st: "syncStep env opts cfg d ((es, nts), s) = ((es @ [e], if nt \<noteq> [] then nts @ [nt] else nts), s2)"
      using False by (simp add: syncStep_def se)
    have rep: "\<forall>e' \<in> set (es @ [e]). \<forall>sm \<in> reportedBy e'. holdsSummary (syUsed s2) sm"
      using Cons.prems(5) w holdsSummary_keeps[OF w(3)] by auto
    show ?thesis
      by (rule Cons.IH[of s2 "es @ [e]" "if nt \<noteq> [] then nts @ [nt] else nts"])
        (use Cons.prems False rec rep st w in auto)
  qed
qed simp

lemma sync_ports_apart:
  assumes "Sync env opts cfg fs cl = (Inr res, fs1, cl1)"
    and "\<And>d. d \<in> set (discoveries cfg) \<Longrightarrow> \<not> Wildcard d \<Longrightarrow> recorded env cfg (initialUsed cfg) fs d"
    and "distinct (map (ManagedPath (cPath cfg)) (filter (\<lambda>d. \<not> Wildcard d) (discoveries cfg)))"
    and "\<And>p d. d \<in> set (discoveries cfg) \<Longrightarrow> seTmp env p \<noteq> ManagedPath (cPath cfg) d"
    and "e \<in> set (resEntries res)" "a \<in> reportedBy e"
  shows "smSupervisorPort a \<noteq> smApplicationPort a"
    and "\<And>e' b. e' \<in> set (resEntries res) \<Longrightarrow> b \<in> reportedBy e' \<Longrightarrow> smName a \<noteq> smName b \<Longrightarrow>
      {smSupervisorPort a, smApplicationPort a} \<inter> {smSupervisorPort b, smApplicationPort b} = {}"
    and "\<And>port. usedBy (initialUsed cfg) port \<noteq> [] \<Longrightarrow> usedBy (initialUsed cfg) port \<noteq> smName a \<Longrightarrow>
      port \<notin> {smSupervisorPort a, smApplicationPort a}"
proof -
  let ?t = "initialUsed cfg"
  have "\<exists>used. ports.keeps ?t used \<and> (\<forall>e \<in> set (resEntries res). \<forall>sm \<in> reportedBy e. holdsSummary used sm)"
    using assms(1)
  proof (cases rule: Sync_cases)
    case (run st acc)
    obtain es1 nts1 s1 where acc: "acc = ((es1, nts1), s1)" by (metis prod.exhaust)
    have w: "ports.keeps ?t (syUsed s1) \<and> (\<forall>e \<in> set es1. \<forall>sm \<in> reportedBy e. holdsSummary (syUsed s1) sm)"
      by (rule syncFold_well[OF _ _ assms(3) _ _ run(1)[unfolded acc, symmetric]])
        (use assms(2,4) in \<open>auto simp: ports.keeps_refl\<close>)
    have "\<forall>e \<in> set (fst (retireWildcards env (withGOOS env opts) cfg (ssWildcards st) s1)).
        \<forall>sm \<in> reportedBy e. holdsSummary (syUsed s1) sm"
      unfolding retireWildcards_def Let_def by (rule retireFold_reports) simp_all
    then show ?thesis using w run(5) acc by (intro exI[of _ "syUsed s1"]) auto
  qed simp
  then obtain used where u: "ports.keeps ?t used"
    "\<And>e sm. e \<in> set (resEntries res) \<Longrightarrow> sm \<in> reportedBy e \<Longrightarrow> holdsSummary used sm" by auto
  note a = u(2)[OF assms(5,6), unfolded holdsSummary_def]
  show "smSupervisorPort a \<noteq> smApplicationPort a" using a by simp
  show "{smSupervisorPort a, smApplicationPort a} \<inter> {smSupervisorPort b, smApplicationPort b} = {}"
    if "e' \<in> set (resEntries res)" "b \<in> reportedBy e'" "smName a \<noteq> smName b" for e' b
  proof -
    note b = u(2)[OF that(1,2), unfolded holdsSummary_def]
    have "p \<noteq> q" if "usedBy used p = smName a" "usedBy used q = smName b" for p q
      using ports.disjoint_owners[OF that] \<open>smName a \<noteq> smName b\<close> by simp
    then show ?thesis using a b by auto
  qed
  show "port \<notin> {smSupervisorPort a, smApplicationPort a}"
    if "usedBy ?t port \<noteq> []" "usedBy ?t port \<noteq> smName a" for port
    using ports.keeps_owner[OF u(1) refl that(1)] that(2) a by auto
qed


section \<open>One worktree, no Herd\<close>

definition oneOS :: osView where
  "oneOS =
     \<lparr>osHome = None, osCwd = ''/'', osStat = (\<lambda>_. Some Directory), osReadDir = (\<lambda>_. Some (Inr [(''a'', True)])),
      osReadFile = (\<lambda>_. None), osURL = (\<lambda>_. None), osLoopbackIP = (\<lambda>_. False),
      osGlob = (\<lambda>_ _. Some False)\<rparr>"

definition oneHerd :: herdWorld where
  "oneHerd =
     \<lparr>hwRun = (\<lambda>_ _. Inr []), hwRead = (\<lambda>_ _. NotExist), hwOS = oneOS, hwHostname = (\<lambda>_. None),
      hwIsIP = (\<lambda>_. False), hwStrings = (\<lambda>_ _. (True, [])), hwItems = (\<lambda>_. None)\<rparr>"

definition oneEnv :: syncEnv where
  "oneEnv =
     \<lparr>seOS = oneOS, seLinks = Some, seEnvOS = plainEnvOS, seShell = (\<lambda>_ _ _. TimedOut), seHerd = oneHerd,
      seDecode = (\<lambda>_. Inr \<lparr>rcProjects = [], rcMaxRunning = 0, rcDiscovery = []\<rparr>),
      seEncode = (\<lambda>_. Inr ''projects: {}''), seFault = (\<lambda>_. None), seTmp = (\<lambda>_. ''t''),
      seQuote = id, seDecodeState = (\<lambda>_. Inr \<lparr>ssWildcards = [], ssProxyNotes = []\<rparr>),
      seEncodeState = (\<lambda>_. Inr ''state''), seRemoveFails = (\<lambda>_. None), seGOOS = ''linux''\<rparr>"

definition oneEntry :: discovery where
  "oneEntry = emptyDiscovery\<lparr>dName := ''w'', dMode := ''proxy'', dDirectory := ''/w'',
     dSupervisorPortRange := [4000, 4001], dApplicationPortRange := [5000, 5001]\<rparr>"

definition oneConfig :: config where
  "oneConfig = \<lparr>cProjects = [], cMaxRunning = 0, cDiscovery = [Some oneEntry], cPath = ''/c/c.yaml''\<rparr>"

definition oneOpts :: syncOptions where
  "oneOpts = \<lparr>soHerd = False, soHerdNote = [], soHerdUnavailable = True, soGOOS = ''linux'', soDryRun = False\<rparr>"

definition oneSyncer :: syncer where
  "oneSyncer =
     \<lparr>syUsed = [], syState = \<lparr>ssWildcards = [], ssProxyNotes = []\<rparr>, syFiles = (\<lambda>_. NotExist), syCli = newCLI ''/h''\<rparr>"

lemma one_fields:
  "dName oneEntry = ''w''" "dDirectory oneEntry = ''/w''" "dRepository oneEntry = []" "dRequireFiles oneEntry = []"
  "dExclude oneEntry = None" "dSupervisorPortRange oneEntry = [4000, 4001]" "dApplicationPortRange oneEntry = [5000, 5001]"
  "dPortCommand oneEntry = []" "\<not> Wildcard oneEntry" "seOS oneEnv = oneOS" "seLinks oneEnv = Some"
  "cProjects oneConfig = []" "cPath oneConfig = ''/c/c.yaml''" "discoveries oneConfig = [oneEntry]"
  "soHerd oneOpts = False" "soDryRun oneOpts = False" "withGOOS oneEnv oneOpts = oneOpts"
  "seTmp oneEnv = (\<lambda>_. ''t'')" "seFault oneEnv = (\<lambda>_. None)" "seEncode oneEnv = (\<lambda>_. Inr ''projects: {}'')"
  by (simp_all add: oneEntry_def emptyDiscovery_def Wildcard_def ModeWildcard_def oneEnv_def oneConfig_def
      oneOpts_def withGOOS_def discoveries_def map_filter_simps)

lemma one_path: "ManagedPath ''/c/c.yaml'' oneEntry = ''/c/projects.d/w.yaml''"
  by (simp add: ManagedPath_def ProjectsDir_def ProjectsDirName_def FileName_def one_fields) code_simp

lemma one_state: "StatePath ''/c/c.yaml'' = ''/c/sync-state.yaml''"
  by code_simp

lemma one_scan: "scan oneOS Some oneEntry = Some ([(''a'', filepathJoin [''/w'', ''a''])], [])"
proof -
  have "IsDNSLabel ''a''" by code_simp
  then have "servable oneOS Some oneEntry ''a''"
    by (simp add: servable_def one_fields Let_def Excluded_def oneOS_def)
  then show ?thesis
    by (simp add: scan_def one_fields oneOS_def[THEN arg_cong, of osReadDir] scanEntry_eq)
qed

text \<open>Its project.\<close>

definition oneProject :: project where
  "oneProject = (templateFor oneEntry (''a'', filepathJoin [''/w'', ''a'']))
     \<lparr>pSupervisorPort := 4000, pApplicationPort := 5000\<rparr>"

lemma one_plan:
  assumes "syUsed s = []" "seOS env = oneOS" "seLinks env = Some"
  shows "\<exists>s1. planEntry env oneOpts oneConfig oneEntry [] [(''a'', filepathJoin [''/w'', ''a''])] s =
      (emptyPlan\<lparr>plFinal := [(''a'', oneProject)], plAdded := [summarize oneProject]\<rparr>, s1) \<and>
      syUsed s1 = [(5000, ''a''), (4000, ''a'')]"
  using assms
  by (simp add: planEntry_def planStep_def Let_def build_def claimName_def claimSite_def one_fields
      choosePort_def allocate_def usedBy_def note_built_def emptyPlan_def mapPut_def mapDelete_def upto.simps oneProject_def)

lemma one_sync:
  assumes "syUsed s = []" "syFiles s = (\<lambda>_. NotExist)"
  shows "\<exists>e nt s1. syncEntry oneEnv oneOpts oneConfig oneEntry s = ((e, nt), s1) \<and> reportedBy e \<noteq> {}"
proof -
  obtain s0 where pl: "planEntry oneEnv oneOpts oneConfig oneEntry [] [(''a'', filepathJoin [''/w'', ''a''])] s =
      (emptyPlan\<lparr>plFinal := [(''a'', oneProject)], plAdded := [summarize oneProject]\<rparr>, s0)"
    using one_plan[OF assms(1) one_fields(10,11)] by blast
  let ?pl = "emptyPlan\<lparr>plFinal := [(''a'', oneProject)], plAdded := [summarize oneProject]\<rparr>"
  obtain e nt s1 where fe: "finishEntry oneEnv oneOpts oneConfig oneEntry [] [] ?pl s0 = ((e, nt), s1)"
    by (metis prod.exhaust)
  have "syncEntry oneEnv oneOpts oneConfig oneEntry s = ((e, nt), s1)"
    by (simp add: syncEntry_def Let_def assms(2) IsManagedFile_def decodeExisting_def one_fields one_scan pl fe)
  moreover have "reportedBy e \<noteq> {}" using finishEntry_reports(2)[OF fe] by (simp add: planned_def)
  ultimately show ?thesis by blast
qed

lemma one_Sync:
  "\<exists>res fs1 cl1. Sync oneEnv oneOpts oneConfig (\<lambda>_. NotExist) (newCLI ''/h'') = (Inr res, fs1, cl1) \<and>
     (\<exists>e \<in> set (resEntries res). reportedBy e \<noteq> {})"
proof -
  have used: "initialUsed oneConfig = []" by (simp add: initialUsed_def one_fields usedByEntry_def)
  obtain e nt s1 where se: "syncEntry oneEnv oneOpts oneConfig oneEntry oneSyncer = ((e, nt), s1)"
    and e: "reportedBy e \<noteq> {}"
    using one_sync[of oneSyncer] by (auto simp: oneSyncer_def)
  obtain rs s2 where rw: "retireWildcards oneEnv oneOpts oneConfig [] s1 = (rs, s2)"
    by (cases "retireWildcards oneEnv oneOpts oneConfig [] s1")
  have "\<exists>fs2. saveState oneEnv p (syState s2) (syFiles s2) = (None, fs2)" for p
    by (cases "seEncodeState oneEnv (syState s2)")
      (auto simp: saveState_def writeFile_def writeAtomic_def oneEnv_def Let_def)
  then obtain fs2 where sv: "saveState oneEnv (StatePath ''/c/c.yaml'') (syState s2) (syFiles s2) = (None, fs2)"
    by blast
  show ?thesis
    using e by (simp add: Sync_def one_fields Let_def loadState_def used syncStep_def
        se[unfolded oneSyncer_def] rw sv)
qed


end
