(* ===== verification/SyncStable.thy ===== *)
theory SyncStable
  imports SyncPorts
begin

text \<open>
  What stays as it is between syncs: the ports of a registered worktree, the registration of one whose
  \<open>port_command\<close> fails, and, when nothing has changed, the whole file.
\<close>

section \<open>The marker\<close>

lemma spaceRune3_middle: "printable b \<Longrightarrow> \<not> spaceRune3 a b c"
  by (auto simp: printable_def spaceRune3_def)

lemma spaceWidthEnd_short:
  assumes "printable c"
  shows "spaceWidthEnd (p @ c # r) \<le> length r"
proof (cases r)
  case Nil
  have "spaceWidthEnd (p @ [c]) = 0" using assms by (intro spaceWidthEnd_printable) simp_all
  then show ?thesis using Nil by simp
next
  case (Cons x r1)
  show ?thesis
  proof (cases r1)
    case Nil
    have "drop (length (p @ [c, x]) - 2) (p @ [c, x]) = [c, x]" by simp
    then have two: "spaceWidth (drop (length (p @ [c, x]) - 2) (p @ [c, x])) = 0"
      using spaceWidth_printable[OF assms] by simp
    have three: "spaceWidth (drop (length (p @ [c, x]) - 3) (p @ [c, x])) \<noteq> 3" if "3 \<le> length (p @ [c, x])"
    proof -
      from that have "p \<noteq> []" by auto
      then obtain p1 a where "p = p1 @ [a]" by (metis append_butlast_last_id)
      then have "drop (length (p @ [c, x]) - 3) (p @ [c, x]) = [a, c, x]" by simp
      then show ?thesis using spaceRune3_middle[OF assms, of a x] by simp
    qed
    show ?thesis
      unfolding Cons Nil spaceWidthEnd_def using two three by (auto simp del: spaceWidth.simps)
  next
    case r1: (Cons y r2)
    show ?thesis
    proof (cases r2)
      case Nil
      have "drop (length (p @ [c, x, y]) - 3) (p @ [c, x, y]) = [c, x, y]" by simp
      then have "spaceWidth (drop (length (p @ [c, x, y]) - 3) (p @ [c, x, y])) = 0"
        using spaceWidth_printable[OF assms] by simp
      then show ?thesis unfolding Cons r1 Nil spaceWidthEnd_def by simp
    qed (simp add: spaceWidthEnd_def Cons r1)
  qed
qed

lemma trimRightSpace_keeps:
  assumes "printable c"
  shows "\<exists>r'. trimRightSpace (p @ c # r) = p @ c # r'"
proof (induction "length r" arbitrary: r rule: less_induct)
  case less
  show ?case
  proof (cases "spaceWidthEnd (p @ c # r) = 0")
    case True
    then show ?thesis using trimRightSpace_id by blast
  next
    case False
    let ?w = "spaceWidthEnd (p @ c # r)"
    have w: "?w \<le> length r" by (rule spaceWidthEnd_short[OF assms])
    then have eq: "take (length (p @ c # r) - ?w) (p @ c # r) = p @ c # take (length r - ?w) r"
      by (simp add: Suc_diff_le)
    have "length (take (length r - ?w) r) < length r" using False w by simp
    from less[OF this] obtain r' where "trimRightSpace (p @ c # take (length r - ?w) r) = p @ c # r'" by blast
    then show ?thesis using False eq by (subst trimRightSpace.simps) auto
  qed
qed

lemma managed_text: "hasPrefix (TrimSpace (managedMarker @ rest)) managedMarker"
proof -
  have m: "managedMarker = butlast managedMarker @ [CHR ''c'']" by (simp add: managedMarker_def)
  have l: "trimLeftSpace (managedMarker @ rest) = managedMarker @ rest"
    by (intro trimLeftSpace_id) (simp add: managedMarker_def asciiSpace_def spaceRune3_def)
  have "printable (CHR ''c'')" by (simp add: printable_def)
  from trimRightSpace_keeps[OF this, of "butlast managedMarker" rest]
  obtain r' where "trimRightSpace (butlast managedMarker @ CHR ''c'' # rest) = butlast managedMarker @ CHR ''c'' # r'"
    by blast
  then have "trimRightSpace (managedMarker @ rest) = managedMarker @ r'"
    using m by (metis append.assoc append_Cons append_Nil)
  then show ?thesis by (simp add: TrimSpace_def l)
qed

lemma ManagedHeader_marker: "\<exists>rest. ManagedHeader env d path = managedMarker @ rest"
  by (simp add: ManagedHeader_def)

lemma IsManagedFile_written:
  assumes "fs path = FileData (ManagedHeader env d cp @ body)"
  shows "IsManagedFile fs path = Inr True"
proof -
  obtain rest where "ManagedHeader env d cp = managedMarker @ rest" using ManagedHeader_marker by blast
  then show ?thesis using managed_text[of "rest @ body"] assms by (simp add: IsManagedFile_def Let_def)
qed

section \<open>Registered worktrees\<close>

text \<open>Nobody else defines the name.\<close>

definition ownName :: "config \<Rightarrow> discovery \<Rightarrow> string \<Rightarrow> bool" where
  "ownName cfg d n \<longleftrightarrow> (\<forall>p. map_of (cProjects cfg) n = Some p \<longrightarrow> pSource p = SourceOf d)"

definition withPorts :: "discovery \<Rightarrow> worktree \<Rightarrow> project \<Rightarrow> project" where
  "withPorts d c q =
     (templateFor d c)\<lparr>pSupervisorPort := pSupervisorPort q, pApplicationPort := pApplicationPort q\<rparr>"

lemma withPorts_idem: "withPorts d c (withPorts d c q) = withPorts d c q"
  by (simp add: withPorts_def)

lemma claimName_own:
  assumes "ownName cfg d (fst c)"
  shows "claimName env opts cfg d c (Some q) s = (None, s)"
  using assms by (auto simp: claimName_def claimSite_def ownName_def split: option.split)

lemma claimName_None_own:
  assumes "claimName env opts cfg d c prev s = (None, s1)"
  shows "ownName cfg d (fst c)"
  using assms by (auto simp: claimName_def ownName_def split: option.splits if_splits)

lemma registered_build:
  assumes "dPortCommand d = []" and "ownName cfg d (fst c)"
  shows "build env opts cfg d c (Some q) s = ((Some (withPorts d c q), None), s)"
  using assms by (simp add: build_def claimName_own choosePort_def Let_def withPorts_def)

text \<open>
  A registered worktree keeps its ports: without a \<open>port_command\<close>, building it again always succeeds,
  whatever else the sync has allocated, with the template as it is now and both ports as before; and it
  allocates nothing.
\<close>

theorem registered_ports_are_stable:
  assumes "dPortCommand d = []" and "ownName cfg d (fst c)"
  shows "build env opts cfg d c (Some q) s = ((Some (withPorts d c q), None), s)"
  using assms by (rule registered_build)


section \<open>A second sync\<close>

text \<open>A plan in which every worktree got its project.\<close>

definition planOf :: "(worktree \<times> project) list \<Rightarrow> (string, project) gomap \<Rightarrow> (string, project) gomap" where
  "planOf = fold (\<lambda>(c, p). mapPut (fst c) p)"

lemma map_of_planOf:
  assumes "distinct (map (fst \<circ> fst) ps)" "(c, p) \<in> set ps"
  shows "map_of (planOf ps m) (fst c) = Some p"
proof -
  have other: "fst c \<notin> set (map (fst \<circ> fst) qs) \<Longrightarrow> map_of (planOf qs m) (fst c) = map_of m (fst c)" for qs m c
    by (induction qs arbitrary: m) (auto simp: planOf_def map_of_mapPut)
  show ?thesis using assms
  proof (induction ps arbitrary: m)
    case (Cons x ps)
    obtain a q where x: "x = (a, q)" by (cases x)
    show ?case
    proof (cases "(c, p) \<in> set ps")
      case True
      then show ?thesis using Cons.IH[of "mapPut (fst a) q m"] Cons.prems by (simp add: planOf_def x)
    next
      case False
      then have "x = (c, p)" using Cons.prems(2) by simp
      moreover have "fst c \<notin> set (map (fst \<circ> fst) ps)" using Cons.prems(1) calculation by simp
      ultimately show ?thesis using other[of c ps "mapPut (fst c) p m"] by (simp add: planOf_def map_of_mapPut)
    qed
  qed simp
qed

lemma build_result:
  assumes "dPortCommand d = []" "build env opts cfg d c prev s = ((Some p, None), s1)"
  shows "p = withPorts d c p" "ownName cfg d (fst c)"
proof -
  obtain r s0 where cn: "claimName env opts cfg d c prev s = (r, s0)"
    by (cases "claimName env opts cfg d c prev s")
  have r: "r = None"
    using assms(2) cn by (cases r) (auto simp: build_def skipWith_def Let_def)
  show "ownName cfg d (fst c)" using claimName_None_own cn r by blast
  have "p = withPorts d c p" if "choosePort env d c prev ps sp s2 = ((Some p, None), s1)" for ps sp s2
    using that assms(1)
    by (auto simp: choosePort_def Let_def skipWith_def withPorts_def split: option.splits prod.splits)
  then show "p = withPorts d c p"
    using assms(2) cn r by (auto simp: build_def skipWith_def Let_def split: option.splits prod.splits)
qed

lemma note_built_cases:
  assumes "note_built n prev b pl = pl1"
  shows "(\<exists>sk. snd b = Some sk \<and> plSkipped pl1 = plSkipped pl @ [sk]) \<or>
    (snd b = None \<and> plSkipped pl1 = plSkipped pl)"
  using assms by (cases b) (auto simp: note_built_def Let_def split: option.splits if_splits)

lemma planFold_skips:
  "\<exists>sks. plSkipped (fst (fold (planStep env opts cfg d existing) cs acc)) = plSkipped (fst acc) @ sks"
proof (induction cs arbitrary: acc)
  case (Cons c cs)
  obtain pl s where acc: "acc = (pl, s)" by (cases acc)
  obtain b s1 where b: "build env opts cfg d c (map_of existing (fst c)) s = (b, s1)"
    by (cases "build env opts cfg d c (map_of existing (fst c)) s")
  have "\<exists>sks. plSkipped (fst (planStep env opts cfg d existing c acc)) = plSkipped (fst acc) @ sks"
    using note_built_cases[of "fst c" "map_of existing (fst c)" b pl, OF refl] by (auto simp: planStep_def acc b)
  then show ?case using Cons[of "planStep env opts cfg d existing c acc"] by auto
qed simp

lemma planFold_final:
  assumes "dPortCommand d = []"
    and "fold (planStep env opts cfg d existing) cs (pl, s) = (pl1, s1)" "plSkipped pl1 = plSkipped pl"
    and "\<And>c b s s1. c \<in> set cs \<Longrightarrow> build env opts cfg d c (map_of existing (fst c)) s \<noteq> ((None, None), s1)"
  shows "\<exists>ps. map fst ps = cs \<and> plFinal pl1 = planOf ps (plFinal pl) \<and>
    (\<forall>(c, p) \<in> set ps. p = withPorts d c p \<and> ownName cfg d (fst c))"
  using assms(2-4)
proof (induction cs arbitrary: pl s)
  case Nil
  then show ?case by (intro exI[of _ "[]"]) (simp add: planOf_def)
next
  case (Cons c cs)
  let ?prev = "map_of existing (fst c)"
  obtain gen sk s2 where b: "build env opts cfg d c ?prev s = ((gen, sk), s2)" by (metis prod.exhaust)
  let ?pl2 = "note_built (fst c) ?prev (gen, sk) pl"
  have st: "planStep env opts cfg d existing c (pl, s) = (?pl2, s2)" by (simp add: planStep_def b)
  obtain sks where sks: "plSkipped pl1 = plSkipped ?pl2 @ sks"
    using planFold_skips[of env opts cfg d existing cs "(?pl2, s2)"] Cons.prems(1) st by auto
  then have sk: "sk = None" "plSkipped ?pl2 = plSkipped pl" "plSkipped pl1 = plSkipped ?pl2"
    using note_built_cases[of "fst c" ?prev "(gen, sk)" pl] Cons.prems(2) by auto
  obtain p where p: "gen = Some p" using Cons.prems(3)[of c s s2] b sk(1) by (cases gen) auto
  have fin: "plFinal ?pl2 = mapPut (fst c) p (plFinal pl)"
    by (simp add: note_built_def sk(1) p Let_def split: option.split)
  have "\<exists>ps. map fst ps = cs \<and> plFinal pl1 = planOf ps (plFinal ?pl2) \<and>
      (\<forall>(c, p) \<in> set ps. p = withPorts d c p \<and> ownName cfg d (fst c))"
    by (rule Cons.IH[of ?pl2 s2]) (use Cons.prems st sk in auto)
  then obtain ps where ps: "map fst ps = cs" "plFinal pl1 = planOf ps (plFinal ?pl2)"
    "\<forall>(c, p) \<in> set ps. p = withPorts d c p \<and> ownName cfg d (fst c)" by blast
  have "p = withPorts d c p" "ownName cfg d (fst c)"
    using build_result[OF assms(1), of env opts cfg c ?prev s p s2] b sk(1) p by auto
  then show ?case using ps fin by (intro exI[of _ "(c, p) # ps"]) (simp add: planOf_def)
qed

lemma planFold_again:
  assumes "dPortCommand d = []"
    and "\<forall>(c, p) \<in> set ps. p = withPorts d c p \<and> ownName cfg d (fst c) \<and> map_of existing (fst c) = Some p"
  shows "\<exists>us. fold (planStep env opts cfg d existing) (map fst ps) (pl, s) =
    (pl\<lparr>plFinal := planOf ps (plFinal pl), plUnchanged := plUnchanged pl @ us\<rparr>, s)"
  using assms(2)
proof (induction ps arbitrary: pl)
  case Nil
  then show ?case by (intro exI[of _ "[]"]) (simp add: planOf_def)
next
  case (Cons x ps)
  obtain c p where x: "x = (c, p)" by (cases x)
  have cp: "p = withPorts d c p" "ownName cfg d (fst c)" "map_of existing (fst c) = Some p"
    using Cons.prems x by auto
  let ?pl1 = "pl\<lparr>plFinal := mapPut (fst c) p (plFinal pl), plUnchanged := plUnchanged pl @ [summarize p]\<rparr>"
  have "build env opts cfg d c (Some p) s = ((Some p, None), s)"
    using registered_build[OF assms(1) cp(2), of env opts p s] cp(1) by simp
  then have st: "planStep env opts cfg d existing c (pl, s) = (?pl1, s)"
    by (simp add: planStep_def cp(3) note_built_def Let_def projectEquivalent_refl)
  obtain us where "fold (planStep env opts cfg d existing) (map fst ps) (?pl1, s) =
      (?pl1\<lparr>plFinal := planOf ps (plFinal ?pl1), plUnchanged := plUnchanged ?pl1 @ us\<rparr>, s)"
    using Cons.IH[of ?pl1] Cons.prems by auto
  then show ?case using st x by (intro exI[of _ "summarize p # us"]) (simp add: planOf_def)
qed

text \<open>Something is decided, and never by the rules of the scan.\<close>

definition decided :: "project option \<times> skipped option \<Rightarrow> bool" where
  "decided b \<longleftrightarrow> (fst b \<noteq> None \<or> snd b \<noteq> None) \<and> (\<forall>k r. snd b = Some k \<longrightarrow> spReason k \<noteq> RuleRejected r)"

lemma skipWith_decided: "(\<And>r. reason \<noteq> RuleRejected r) \<Longrightarrow> decided (fst (skipWith c prev ps keep reason s))"
  by (simp add: skipWith_def decided_def Let_def)

lemma choosePort_decided: "decided (fst (choosePort env d c prev ps sp s))"
  by (auto simp: choosePort_def Let_def skipWith_decided decided_def[of "(Some _, None)"]
      split: sum.split option.split prod.split)

lemma build_decided: "decided (fst (build env opts cfg d c prev s))"
proof (cases "claimName env opts cfg d c prev s")
  case (Pair o0 s0)
  then have "reason \<noteq> RuleRejected r" if "o0 = Some reason" for reason r
    using that by (auto simp: claimName_def claimSite_def split: option.splits if_splits prod.splits sum.splits)
  then show ?thesis
    using Pair by (auto simp: build_def skipWith_decided choosePort_decided split: option.split prod.split)
qed

lemma build_some:
  assumes "build env opts cfg d c prev s = ((gen, sk), s1)"
  shows "gen \<noteq> None \<or> sk \<noteq> None" "sk = Some k \<Longrightarrow> spReason k \<noteq> RuleRejected r"
  using build_decided[of env opts cfg d c prev s] assms by (auto simp: decided_def)

lemma planFold_reasons:
  assumes "fold (planStep env opts cfg d existing) cs (pl, s) = (pl1, s1)"
    and "\<forall>k \<in> set (plSkipped pl). \<forall>r. spReason k \<noteq> RuleRejected r"
  shows "\<forall>k \<in> set (plSkipped pl1). \<forall>r. spReason k \<noteq> RuleRejected r"
  using assms
proof (induction cs arbitrary: pl s)
  case (Cons c cs)
  let ?prev = "map_of existing (fst c)"
  obtain gen sk s2 where b: "build env opts cfg d c ?prev s = ((gen, sk), s2)" by (metis prod.exhaust)
  let ?pl2 = "note_built (fst c) ?prev (gen, sk) pl"
  have st: "planStep env opts cfg d existing c (pl, s) = (?pl2, s2)" by (simp add: planStep_def b)
  have "\<forall>k \<in> set (plSkipped ?pl2). \<forall>r. spReason k \<noteq> RuleRejected r"
    using note_built_cases[of "fst c" ?prev "(gen, sk)" pl, OF refl] Cons.prems(2) build_some(2)[OF b]
    by auto
  then show ?case using Cons.IH[of ?pl2 s2] Cons.prems(1) st by simp
qed simp

section \<open>Writing and reading back\<close>

text \<open>
  What the YAML library promises of a file with this header: decoding gives the projects that were
  encoded (whose name and source are not part of the file).
\<close>

definition yamlFaithful :: "syncEnv \<Rightarrow> string \<Rightarrow> bool" where
  "yamlFaithful env header \<longleftrightarrow>
     (\<forall>m body. seEncode env m = Inr body \<longrightarrow>
        (\<exists>raw. seDecode env (header @ body) = Inr raw \<and> rcDiscovery raw = [] \<and>
           map_of (rcProjects raw) =
             (\<lambda>n. map_option (\<lambda>p. Some (p\<lparr>pName := [], pSource := []\<rparr>)) (map_of m n))))"

lemma readFragment_written:
  assumes "yamlFaithful env header" "seEncode env m = Inr body" "fs path = FileData (header @ body)"
  shows "\<exists>ex. readFragment env fs path = Inr ex \<and>
    (\<forall>n. map_of ex n = map_option (\<lambda>p. p\<lparr>pSource := [], pName := n\<rparr>) (map_of m n))"
proof -
  obtain raw where raw: "seDecode env (header @ body) = Inr raw" "rcDiscovery raw = []"
    "map_of (rcProjects raw) = (\<lambda>n. map_option (\<lambda>p. Some (p\<lparr>pName := [], pSource := []\<rparr>)) (map_of m n))"
    using assms(1,2) unfolding yamlFaithful_def by blast
  then show ?thesis
    using assms(3)
    by (simp add: readFragment_def DecodeFragment_def map_of_map_key option.map_comp comp_def)
qed

lemma writeFile_path:
  assumes "writeFile env path data fs = (None, fs1)"
  shows "fs1 path = FileData data"
  using assms by (auto simp: writeFile_def writeAtomic_def Let_def split: option.splits writeFault.splits)

lemma storeEntry_path:
  assumes "storeEntry env opts content res s = ((res1, True), s1)" "\<not> soDryRun opts" "content \<noteq> []"
  shows "syFiles s1 (erFile res) = FileData content"
  using assms writeFile_path
  by (auto simp: storeEntry_def Let_def contentsOf_def split: if_splits prod.splits option.splits readResult.splits)

lemma storeEntry_flags:
  assumes "storeEntry env opts content res s = ((res1, ok), s1)" "erErrors res = []"
  shows "erSkipped res1 = erSkipped res" "ok \<longleftrightarrow> erErrors res1 = []" "erAdded res1 = erAdded res"
  using assms by (auto simp: storeEntry_def Let_def split: if_splits prod.splits option.splits)

text \<open>An entry that ran without an error has left its projects in its file.\<close>

lemma syncEntry_clean:
  assumes "syncEntry env opts cfg d s = ((e, nt), s1)" "erErrors e = []" "\<not> soDryRun opts"
  obtains existing cs skips pl s0 body where
    "scan (seOS env) (seLinks env) d = Some (cs, skips)"
    "fold (planStep env opts cfg d existing) cs (emptyPlan, s) = (pl, s0)"
    "seEncode env (plFinal pl) = Inr body"
    "syFiles s1 (ManagedPath (cPath cfg) d) = FileData (ManagedHeader env d (cPath cfg) @ body)"
    "erSkipped e = map ruleSkip skips @ plSkipped pl" "erAdded e = plAdded pl"
  using assms(1)
proof (cases rule: syncEntry_cases)
  case (failed x)
  then show thesis using assms(2) by simp
next
  case (run existing cs skips pl s0)
  let ?h = "ManagedHeader env d (cPath cfg)"
  let ?res = "plannedEntry cfg d existing skips pl"
  from run(5) show thesis
  proof (cases rule: finishEntry_cases)
    case (render x)
    then show thesis using assms(2) by simp
  next
    case (unwritten content res1)
    have "erErrors res1 \<noteq> []" using storeEntry_flags(2)[OF unwritten(2)] by simp
    then show thesis using unwritten(3) assms(2) by simp
  next
    case (written content res1 s2 as n1)
    obtain body where body: "seEncode env (plFinal pl) = Inr body" "content = ?h @ body"
      using written(1) by (cases "seEncode env (plFinal pl)") (auto simp: render_def)
    have ne: "content \<noteq> []" using ManagedHeader_marker[of env d "cPath cfg"] body(2)
      by (auto simp: managedMarker_def)
    have "syFiles s1 = syFiles s2"
      using onlyHerd_herdActions[of env opts s2 d "plFinal pl" existing] written(3) by (simp add: onlyHerd_def)
    then have fl: "syFiles s1 (ManagedPath (cPath cfg) d) = FileData (?h @ body)"
      using storeEntry_path[OF written(2) assms(3) ne] body(2) by simp
    have sk: "erSkipped e = map ruleSkip skips @ plSkipped pl"
      using storeEntry_flags(1)[OF written(2)] written(4) by simp
    have ad: "erAdded e = plAdded pl"
      using storeEntry_flags(3)[OF written(2)] written(4) by simp
    show thesis by (rule that[OF run(3) run(4)[unfolded planEntry_def] body(1) fl sk ad])
  qed
qed

text \<open>The second plan, from the file the first one wrote.\<close>

lemma replan:
  assumes "dPortCommand d = []" "pSource (dTemplate d) = []" "distinct (map fst cs)"
    and "fold (planStep env opts cfg d existing) cs (emptyPlan, s) = (pl, s0)" "plSkipped pl = []"
    and "\<And>n p. map_of (cProjects cfg2) n = Some p \<Longrightarrow> pSource p \<noteq> SourceOf d \<Longrightarrow> map_of (cProjects cfg) n = Some p"
    and "\<forall>n. map_of ex n = map_option (\<lambda>p. p\<lparr>pSource := [], pName := n\<rparr>) (map_of (plFinal pl) n)"
  shows "\<exists>us. fold (planStep env opts2 cfg2 d ex) cs (emptyPlan, s2) =
      (emptyPlan\<lparr>plFinal := plFinal pl, plUnchanged := us\<rparr>, s2)"
    and "map_of (plFinal pl) n = None \<Longrightarrow> map_of ex n = None"
proof -
  have nn: "build env opts cfg d c prev x \<noteq> ((None, None), y)" for c prev x y
    using build_some(1)[of env opts cfg d c prev x None None y] by auto
  have "plSkipped pl = plSkipped emptyPlan" "plFinal emptyPlan = []" using assms(5) by (simp_all add: emptyPlan_def)
  with planFold_final[OF assms(1,4) this(1) nn]
  have "\<exists>ps. map fst ps = cs \<and> plFinal pl = planOf ps [] \<and>
      (\<forall>(c, p) \<in> set ps. p = withPorts d c p \<and> ownName cfg d (fst c))" by simp
  then obtain ps where ps: "map fst ps = cs" "plFinal pl = planOf ps []"
    "\<forall>(c, p) \<in> set ps. p = withPorts d c p \<and> ownName cfg d (fst c)"
    by (elim exE conjE) (rule that)
  have dist: "distinct (map (fst \<circ> fst) ps)" using assms(3) ps(1) by (metis map_map)
  have again: "p = withPorts d c p \<and> ownName cfg2 d (fst c) \<and> map_of ex (fst c) = Some p"
    if cp: "(c, p) \<in> set ps" for c p
  proof -
    have p: "p = withPorts d c p" "ownName cfg d (fst c)" using ps(3) cp by auto
    have "pName p = fst c" "pSource p = []"
      by (subst p(1), simp add: withPorts_def templateFor_def assms(2))+
    moreover have "map_of (plFinal pl) (fst c) = Some p" using map_of_planOf[OF dist cp] ps(2) by simp
    ultimately have old: "map_of ex (fst c) = Some p" using assms(7) by simp
    have "ownName cfg2 d (fst c)"
      unfolding ownName_def
    proof (intro allI impI)
      fix q assume q: "map_of (cProjects cfg2) (fst c) = Some q"
      show "pSource q = SourceOf d"
        using p(2) assms(6)[OF q] by (auto simp: ownName_def)
    qed
    with old show ?thesis by (intro conjI p(1))
  qed
  then have "\<forall>(c, p) \<in> set ps. p = withPorts d c p \<and> ownName cfg2 d (fst c) \<and> map_of ex (fst c) = Some p"
    by blast
  from planFold_again[OF assms(1) this, of env opts2 emptyPlan s2]
  show "\<exists>us. fold (planStep env opts2 cfg2 d ex) cs (emptyPlan, s2) =
      (emptyPlan\<lparr>plFinal := plFinal pl, plUnchanged := us\<rparr>, s2)"
    using ps by (auto simp: emptyPlan_def)
  show "map_of ex n = None" if "map_of (plFinal pl) n = None" using assms(7) that by simp
qed

lemma resync_unchanged:
  assumes "syncEntry env opts cfg d s = ((e, nt), s1)" "erErrors e = []" "\<not> soDryRun opts"
    and "\<forall>k \<in> set (erSkipped e). \<exists>r. spReason k = RuleRejected r"
    and "dPortCommand d = []" "pSource (dTemplate d) = []"
    and "\<And>cs skips. scan (seOS env) (seLinks env) d = Some (cs, skips) \<Longrightarrow> distinct (map fst cs)"
    and "yamlFaithful env (ManagedHeader env d (cPath cfg))"
    and "cPath cfg2 = cPath cfg"
    and "\<And>n p. map_of (cProjects cfg2) n = Some p \<Longrightarrow> pSource p \<noteq> SourceOf d \<Longrightarrow> map_of (cProjects cfg) n = Some p"
    and "syFiles s2 (ManagedPath (cPath cfg) d) = syFiles s1 (ManagedPath (cPath cfg) d)"
    and "syncEntry env opts2 cfg2 d s2 = ((e2, nt2), s3)"
  shows "\<not> erChanged e2" "erErrors e2 = []" "erAdded e2 = []" "erUpdated e2 = []" "erRemoved e2 = []"
    and "syFiles s3 = syFiles s2" "syUsed s3 = syUsed s2"
proof -
  let ?f = "ManagedPath (cPath cfg) d" and ?h = "ManagedHeader env d (cPath cfg)"
  obtain existing cs skips pl s0 body where run:
    "scan (seOS env) (seLinks env) d = Some (cs, skips)"
    "fold (planStep env opts cfg d existing) cs (emptyPlan, s) = (pl, s0)"
    "seEncode env (plFinal pl) = Inr body"
    "syFiles s1 ?f = FileData (?h @ body)"
    "erSkipped e = map ruleSkip skips @ plSkipped pl" "erAdded e = plAdded pl"
    by (rule syncEntry_clean[OF assms(1-3)])
  have "\<forall>k \<in> set (plSkipped pl). \<forall>r. spReason k \<noteq> RuleRejected r"
    by (rule planFold_reasons[OF run(2)]) (simp add: emptyPlan_def)
  moreover have "\<forall>k \<in> set (plSkipped pl). \<exists>r. spReason k = RuleRejected r" using assms(4) run(5) by simp
  ultimately have noskip: "plSkipped pl = []" by (cases "plSkipped pl") simp_all
  have f2: "syFiles s2 ?f = FileData (?h @ body)" using run(4) assms(11) by simp
  obtain ex where ex: "readFragment env (syFiles s2) ?f = Inr ex"
    "\<forall>n. map_of ex n = map_option (\<lambda>p. p\<lparr>pSource := [], pName := n\<rparr>) (map_of (plFinal pl) n)"
    using readFragment_written[of env ?h "plFinal pl" body "syFiles s2" ?f, OF assms(8) run(3) f2] by blast
  note rp = replan[OF assms(5,6) assms(7)[OF run(1)] run(2) noskip assms(10) ex(2)]
  obtain us where us: "fold (planStep env opts2 cfg2 d ex) cs (emptyPlan, s2) =
      (emptyPlan\<lparr>plFinal := plFinal pl, plUnchanged := us\<rparr>, s2)" using rp(1) by blast
  let ?pl2 = "emptyPlan\<lparr>plFinal := plFinal pl, plUnchanged := us\<rparr>"
  let ?res = "plannedEntry cfg2 d ex skips ?pl2"
  have fe: "finishEntry env opts2 cfg2 d ex skips ?pl2 s2 = ((e2, nt2), s3)"
    using assms(12) IsManagedFile_written[of "syFiles s2" ?f env d "cPath cfg" body, OF f2] ex(1) f2 run(1) us
    by (simp add: syncEntry_def startEntry_def emptyEntryResult_def decodeExisting_def planEntry_def assms(9) Let_def)
  have rd: "render env (ManagedHeader env d (cPath cfg2)) (plFinal ?pl2) = Inr (?h @ body)"
    by (simp add: render_def run(3) assms(9))
  have st: "storeEntry env opts2 (?h @ body) ?res s2 = ((?res\<lparr>erChanged := False\<rparr>, True), s2)"
    by (simp add: storeEntry_def Let_def contentsOf_def f2 assms(9))
  obtain as s4 where ha: "herdActions env opts2 d (plFinal pl) ex s2 = (as, s4)"
    by (cases "herdActions env opts2 d (plFinal pl) ex s2")
  have e2: "e2 = ?res\<lparr>erChanged := False, erHerd := as\<rparr>" "s3 = s4"
    using fe rd by (auto simp: finishEntry_def Let_def st ha)
  have "removedOf ex (plFinal pl) = []"
  proof -
    have "map_of (plFinal pl) n \<noteq> None" if "n \<in> set (sortedNames ex)" for n
    proof -
      have "map_of ex n \<noteq> None" using that by (simp add: sortedNames_def map_of_eq_None_iff)
      then show ?thesis using rp(2)[where n = n] by (rule contrapos_nn)
    qed
    then show ?thesis by (simp add: removedOf_def)
  qed
  then show "\<not> erChanged e2" "erErrors e2 = []" "erAdded e2 = []" "erUpdated e2 = []" "erRemoved e2 = []"
    by (simp_all add: e2 emptyPlan_def)
  show "syFiles s3 = syFiles s2" "syUsed s3 = syUsed s2"
    using onlyHerd_herdActions[of env opts2 s2 d "plFinal pl" ex] ha e2 by (simp_all add: onlyHerd_def)
qed


section \<open>Examples\<close>

theorem registered_ports_are_stable_witness:
  "fst (build oneEnv oneOpts oneConfig oneEntry (''a'', ''/w/a'') (Some (emptyProject\<lparr>pSupervisorPort := 4711\<rparr>)) oneSyncer) =
     (Some (withPorts oneEntry (''a'', ''/w/a'') (emptyProject\<lparr>pSupervisorPort := 4711\<rparr>)), None)"
proof -
  have "ownName oneConfig oneEntry ''a''" by (simp add: ownName_def one_fields)
  then show ?thesis
    using registered_ports_are_stable[of oneEntry oneConfig "(''a'', ''/w/a'')"] by (simp add: one_fields)
qed

definition askingEntry :: discovery where "askingEntry = oneEntry\<lparr>dPortCommand := ''port''\<rparr>"


text \<open>An encoder that knows one file.\<close>

definition stEnv :: syncEnv where
  "stEnv = oneEnv
     \<lparr>seEncode := (\<lambda>m. if m = [(''a'', oneProject)] then Inr ''a: {}'' else Inl ''unknown''),
      seDecode := (\<lambda>_. Inr \<lparr>rcProjects = [(''a'', Some (oneProject\<lparr>pName := [], pSource := []\<rparr>))],
        rcMaxRunning = 0, rcDiscovery = []\<rparr>)\<rparr>"

lemma st_fields:
  "seOS stEnv = oneOS" "seLinks stEnv = Some" "seFault stEnv = (\<lambda>_. None)" "seTmp stEnv = (\<lambda>_. ''t'')"
  by (simp_all add: stEnv_def oneEnv_def)

lemma st_faithful: "yamlFaithful stEnv h"
  by (auto simp: yamlFaithful_def stEnv_def split: if_splits)

lemma st_first:
  "\<exists>e nt s1. syncEntry stEnv oneOpts oneConfig oneEntry oneSyncer = ((e, nt), s1) \<and> erErrors e = [] \<and> erSkipped e = []"
proof -
  let ?pl = "emptyPlan\<lparr>plFinal := [(''a'', oneProject)], plAdded := [summarize oneProject]\<rparr>"
  obtain s0 where pl: "planEntry stEnv oneOpts oneConfig oneEntry [] [(''a'', filepathJoin [''/w'', ''a''])] oneSyncer = (?pl, s0)"
    using one_plan[of oneSyncer stEnv] st_fields by (auto simp: oneSyncer_def)
  have enc: "seEncode stEnv [(''a'', oneProject)] = Inr ''a: {}''" by (simp add: stEnv_def)
  obtain e nt s1 where fe: "finishEntry stEnv oneOpts oneConfig oneEntry [] [] ?pl s0 = ((e, nt), s1)"
    by (metis prod.exhaust)
  have sy: "syncEntry stEnv oneOpts oneConfig oneEntry oneSyncer = ((e, nt), s1)"
    by (simp add: syncEntry_def Let_def oneSyncer_def[THEN arg_cong, of syFiles] IsManagedFile_def
        decodeExisting_def st_fields one_scan pl fe)
  have "erErrors e = [] \<and> erSkipped e = []"
    using fe
  proof (cases rule: finishEntry_cases)
    case (render x)
    then show ?thesis by (simp add: render_def enc)
  next
    case (unwritten content res1)
    then show ?thesis
      by (auto simp: storeEntry_def Let_def writeFile_def writeAtomic_def st_fields split: if_splits)
  next
    case (written content res1 s2 as n1)
    then show ?thesis
      using storeEntry_flags[OF written(2)] by (simp add: emptyPlan_def)
  qed
  with sy show ?thesis by blast
qed


end
