(* ===== verification/SyncErrors.thy ===== *)
theory SyncErrors
  imports SyncStable
begin

text \<open>
  Removing a project, and two ways in which a sync or a removal leaves the configuration worse than it
  found it: two entries that find a worktree of the same name, and a managed file whose marker does not
  stand on its first line.
\<close>

section \<open>Removing a project\<close>

lemma readFragment_names:
  assumes "readFragment env fs path = Inr m" "map_of m n = Some p"
  shows "pName p = n"
  using assms
  by (auto simp: readFragment_def DecodeFragment_def map_of_map_key split: sum.splits if_splits option.splits)

text \<open>What a successful removal went through.\<close>

lemma Remove_ok:
  assumes "Remove env cfg name ro fs cl = (Inr res, fs1, cl1)"
  obtains p rel projects managed body where
    "map_of (cProjects cfg) name = Some p" "cutPrefix (pSource p) (ProjectsDirName @ ''/'') = Some rel"
    "rmName res = name" "rmSource res = pSource p" "rmFile res = removeFile cfg rel" "rmManaged res = managed"
    "readFragment env fs (removeFile cfg rel) = Inr projects"
    "hasManagedMarker fs (removeFile cfg rel) = Inr managed"
    "seEncode env (mapDelete name projects) = Inr body"
    "writeFile env (removeFile cfg rel)
       ((if managed then existingHeader fs (removeFile cfg rel) else []) @ body) fs = (None, fs1)"
proof -
  obtain p where p: "map_of (cProjects cfg) name = Some p"
    using assms by (auto simp: Remove_def split: if_splits option.splits)
  obtain rel where rel: "cutPrefix (pSource p) (ProjectsDirName @ ''/'') = Some rel"
    using assms p by (auto simp: Remove_def split: if_splits option.splits)
  let ?f = "removeFile cfg rel"
  obtain projects where pr: "readFragment env fs ?f = Inr projects"
    using assms p rel by (auto simp: Remove_def Let_def split: if_splits sum.splits)
  obtain managed where m: "hasManagedMarker fs ?f = Inr managed"
    using assms p rel pr by (auto simp: Remove_def Let_def split: if_splits sum.splits)
  let ?h = "if managed then existingHeader fs ?f else []"
  obtain body where b: "seEncode env (mapDelete name projects) = Inr body"
    using assms p rel pr m
    by (cases "seEncode env (mapDelete name projects)")
      (auto simp: Remove_def Let_def render_def split: if_splits)
  have r: "render env ?h (mapDelete name projects) = Inr (?h @ body)" by (simp add: render_def b)
  obtain err fs2 where w: "writeFile env ?f (?h @ body) fs = (err, fs2)"
    by (cases "writeFile env ?f (?h @ body) fs")
  obtain as cl2 where u: "removeUnproxy env cfg ro p fs2 cl = (as, cl2)"
    by (cases "removeUnproxy env cfg ro p fs2 cl")
  have e: "err = None" "fs2 = fs1" "res = \<lparr>rmName = name, rmSource = pSource p, rmFile = ?f,
       rmManaged = managed, rmHerd = as\<rparr>"
    using assms p rel pr m r w u by (auto simp: Remove_def Let_def split: if_splits option.splits)
  show thesis
    by (rule that[OF p rel _ _ _ _ pr m b]) (use e w in simp_all)
qed

lemma Remove_deletes:
  assumes "Remove env cfg name ro fs cl = (Inr res, fs1, cl1)"
    and "\<And>header. yamlFaithful env header"
  shows "\<exists>old new. readFragment env fs (rmFile res) = Inr old \<and> readFragment env fs1 (rmFile res) = Inr new \<and>
      map_of new = (\<lambda>n. if n = name then None else map_option (\<lambda>p. p\<lparr>pSource := []\<rparr>) (map_of old n))"
    and "\<And>q. q \<noteq> rmFile res \<Longrightarrow> q \<noteq> seTmp env (rmFile res) \<Longrightarrow> fs1 q = fs q"
    and "\<exists>p. map_of (cProjects cfg) name = Some p \<and> cutPrefix (pSource p) (ProjectsDirName @ ''/'') \<noteq> None"
proof -
  obtain p rel projects managed body where r:
    "map_of (cProjects cfg) name = Some p" "cutPrefix (pSource p) (ProjectsDirName @ ''/'') = Some rel"
    "rmName res = name" "rmSource res = pSource p" "rmFile res = removeFile cfg rel" "rmManaged res = managed"
    "readFragment env fs (removeFile cfg rel) = Inr projects"
    "hasManagedMarker fs (removeFile cfg rel) = Inr managed"
    "seEncode env (mapDelete name projects) = Inr body"
    "writeFile env (removeFile cfg rel)
       ((if managed then existingHeader fs (removeFile cfg rel) else []) @ body) fs = (None, fs1)"
    by (rule Remove_ok[OF assms(1)])
  let ?f = "removeFile cfg rel" and ?h = "if managed then existingHeader fs (removeFile cfg rel) else []"
  have f1: "fs1 ?f = FileData (?h @ body)" by (rule writeFile_path[OF r(10)])
  obtain new where new: "readFragment env fs1 ?f = Inr new"
    "\<forall>n. map_of new n = map_option (\<lambda>p. p\<lparr>pSource := [], pName := n\<rparr>) (map_of (mapDelete name projects) n)"
    using readFragment_written[of env ?h "mapDelete name projects" body fs1 ?f, OF assms(2) r(9) f1] by blast
  have "map_of new n = (if n = name then None else map_option (\<lambda>p. p\<lparr>pSource := []\<rparr>) (map_of projects n))" for n
  proof (cases "map_of projects n")
    case (Some q)
    have "q\<lparr>pSource := [], pName := n\<rparr> = q\<lparr>pSource := []\<rparr>"
      using readFragment_names[OF r(7) Some] by (cases q) simp
    then show ?thesis using new(2) Some by (simp add: map_of_mapDelete)
  qed (simp add: new(2) map_of_mapDelete)
  then show "\<exists>old new. readFragment env fs (rmFile res) = Inr old \<and> readFragment env fs1 (rmFile res) = Inr new \<and>
      map_of new = (\<lambda>n. if n = name then None else map_option (\<lambda>p. p\<lparr>pSource := []\<rparr>) (map_of old n))"
    using r(5,7) new(1) by (intro exI[of _ projects] exI[of _ new]) auto
  show "fs1 q = fs q" if "q \<noteq> rmFile res" "q \<noteq> seTmp env (rmFile res)" for q
    using writeFile_other[OF r(10)] that r(5) by simp
  show "\<exists>p. map_of (cProjects cfg) name = Some p \<and> cutPrefix (pSource p) (ProjectsDirName @ ''/'') \<noteq> None"
    using r(1,2) by auto
qed


text \<open>
  A removal that is refused or fails leaves every project in place: no file changes but the temporary
  one, and Herd is not touched; a project of the main file is always refused.
\<close>

theorem remove_failure_changes_nothing:
  assumes "Remove env cfg name ro fs cl = (Inl e, fs1, cl1)"
    and "\<And>p. seTmp env p \<notin> {q. fs q \<noteq> NotExist}"
  shows "fs1 = fs" and "cl1 = cl"
    and "\<And>p. map_of (cProjects cfg) name = Some p \<Longrightarrow> cutPrefix (pSource p) (ProjectsDirName @ ''/'') = None \<Longrightarrow>
      cPath cfg \<noteq> [] \<Longrightarrow> e = MainConfigError name (cPath cfg)"
proof -
  have wf: "fs2 = fs" if "writeFile env path data fs = (Some x, fs2)" for path data x fs2
    using that assms(2)
    by (auto simp: writeFile_def writeAtomic_def Let_def fun_upd_idem split: option.splits writeFault.splits)
  show "fs1 = fs" "cl1 = cl"
    using assms(1)
    by (auto simp: Remove_def Let_def split: if_splits option.splits sum.splits prod.splits dest: wf)
  show "e = MainConfigError name (cPath cfg)"
    if "map_of (cProjects cfg) name = Some p" "cutPrefix (pSource p) (ProjectsDirName @ ''/'') = None" "cPath cfg \<noteq> []" for p
    using assms(1) that by (simp add: Remove_def)
qed

text \<open>A file of two projects.\<close>

definition rmConfig :: config where
  "rmConfig = \<lparr>cProjects = [(''a'', emptyProject\<lparr>pName := ''a'', pSource := ''projects.d/w.yaml''\<rparr>)],
     cMaxRunning = 0, cDiscovery = [], cPath = ''/c/c.yaml''\<rparr>"

definition rmPath :: string where "rmPath = ''/c/projects.d/w.yaml''"

definition rmTwo :: "(string, project option) gomap" where
  "rmTwo = [(''a'', Some emptyProject), (''b'', Some emptyProject)]"

definition rmEnv :: syncEnv where
  "rmEnv = oneEnv
     \<lparr>seEncode := (\<lambda>m. if m = [(''b'', emptyProject\<lparr>pName := ''b''\<rparr>)] then Inr ''b: {}'' else Inl ''unknown''),
      seDecode := (\<lambda>t. Inr \<lparr>rcProjects = if t = ''two'' then rmTwo else tl rmTwo, rcMaxRunning = 0, rcDiscovery = []\<rparr>)\<rparr>"

definition rmOpts :: removeOptions where
  "rmOpts = \<lparr>roHerd = False, roHerdNote = [], roHerdUnavailable = False, roGOOS = ''linux'', roKeepHerd = True\<rparr>"

lemma rm_fields:
  "cPath rmConfig = ''/c/c.yaml''" "seFault rmEnv = (\<lambda>_. None)" "seTmp rmEnv = (\<lambda>_. ''t'')"
  "map_of (cProjects rmConfig) ''a'' = Some (emptyProject\<lparr>pName := ''a'', pSource := ''projects.d/w.yaml''\<rparr>)"
  "map_of (cProjects rmConfig) ''c'' = None" "roKeepHerd rmOpts"
  by (simp_all add: rmConfig_def rmEnv_def oneEnv_def rmOpts_def)

lemma rm_path: "cutPrefix ''projects.d/w.yaml'' (ProjectsDirName @ ''/'') = Some ''w.yaml''"
  "removeFile rmConfig ''w.yaml'' = rmPath"
proof -
  show "cutPrefix ''projects.d/w.yaml'' (ProjectsDirName @ ''/'') = Some ''w.yaml''"
    unfolding ProjectsDirName_def by code_simp
  have "filepathJoin [ProjectsDir ''/c/c.yaml'', ''w.yaml''] = ''/c/projects.d/w.yaml''" by code_simp
  then show "removeFile rmConfig ''w.yaml'' = rmPath"
    by (simp add: removeFile_def rm_fields rmPath_def)
qed

lemma rm_faithful: "yamlFaithful rmEnv h"
proof -
  have "h @ ''b: {}'' \<noteq> ''two''"
  proof
    assume "h @ ''b: {}'' = ''two''"
    then have "last (h @ ''b: {}'') = last ''two''" by simp
    then show False by simp
  qed
  then show ?thesis
    by (auto simp: yamlFaithful_def rmEnv_def rmTwo_def emptyProject_def split: if_splits)
qed

lemma rm_removes:
  assumes "fs rmPath = FileData ''two''"
  shows "\<exists>res fs1 cl1. Remove rmEnv rmConfig ''a'' rmOpts fs cl = (Inr res, fs1, cl1)"
proof -
  have "readFragment rmEnv fs rmPath = Inr [(''a'', emptyProject\<lparr>pName := ''a''\<rparr>), (''b'', emptyProject\<lparr>pName := ''b''\<rparr>)]"
    by (simp add: readFragment_def DecodeFragment_def assms rmEnv_def rmTwo_def)
  moreover have "\<exists>managed. hasManagedMarker fs rmPath = Inr managed" by (simp add: hasManagedMarker_def assms)
  moreover have "seEncode rmEnv (mapDelete ''a'' [(''a'', emptyProject\<lparr>pName := ''a''\<rparr>), (''b'', emptyProject\<lparr>pName := ''b''\<rparr>)]) =
      Inr ''b: {}''"
    by (simp add: mapDelete_def rmEnv_def)
  ultimately show ?thesis
    by (auto simp: Remove_def Let_def rm_fields rm_path render_def writeFile_def writeAtomic_def removeUnproxy_def)
qed


theorem remove_failure_changes_nothing_witness:
  "fst (snd (Remove rmEnv rmConfig ''c'' rmOpts ((\<lambda>_. NotExist)(rmPath := FileData ''two'')) (newCLI ''/h''))) rmPath =
     FileData ''two''"
proof -
  let ?fs = "(\<lambda>_. NotExist)(rmPath := FileData ''two'')"
  have r: "Remove rmEnv rmConfig ''c'' rmOpts ?fs (newCLI ''/h'') = (Inl (ErrNoSuchProject ''c''), ?fs, newCLI ''/h'')"
    by (simp add: Remove_def rm_fields)
  have "seTmp rmEnv p \<notin> {q. ?fs q \<noteq> NotExist}" for p by (simp add: rm_fields rmPath_def)
  from remove_failure_changes_nothing(1)[OF r this] r show ?thesis by simp
qed

section \<open>Two worktrees of one name\<close>

lemma note_built_added:
  assumes "builtNames = (\<lambda>pl. \<forall>sm \<in> set (plAdded pl). map_of (plFinal pl) (smName sm) \<noteq> None)"
    and "builtNames pl" "\<And>p. fst b = Some p \<Longrightarrow> prev = None \<Longrightarrow> pName p = n"
  shows "builtNames (note_built n prev b pl)"
  using assms(2,3) unfolding assms(1)
  by (cases b) (auto simp: note_built_def Let_def map_of_mapPut summarize_def split: option.splits if_splits)

lemma build_named:
  assumes "build env opts cfg d c None s = ((Some p, sk), s1)"
  shows "pName p = fst c"
proof -
  have cp: "pName p = fst c" if "choosePort env d c None ps sp s0 = ((Some p, sk), s1)" for ps sp s0
    using that by (auto simp: choosePort_def Let_def skipWith_def split: if_splits sum.splits option.splits prod.splits)
  show ?thesis
    using assms by (auto simp: build_def skipWith_def Let_def split: option.splits prod.splits dest: cp)
qed

lemma planFold_added:
  assumes "\<forall>sm \<in> set (plAdded (fst acc)). map_of (plFinal (fst acc)) (smName sm) \<noteq> None"
    and "pl1 = fst (fold (planStep env opts cfg d existing) cs acc)"
  shows "\<forall>sm \<in> set (plAdded pl1). map_of (plFinal pl1) (smName sm) \<noteq> None"
  using assms
proof (induction cs arbitrary: acc)
  case (Cons c cs)
  obtain pl s where acc: "acc = (pl, s)" by (cases acc)
  let ?prev = "map_of existing (fst c)"
  obtain b s2 where b: "build env opts cfg d c ?prev s = (b, s2)" by (cases "build env opts cfg d c ?prev s")
  have nm: "pName p = fst c" if "fst b = Some p" "?prev = None" for p
    using build_named[of env opts cfg d c s p "snd b" s2] b that by (cases b) simp
  have st: "planStep env opts cfg d existing c acc = (note_built (fst c) ?prev b pl, s2)"
    by (simp add: planStep_def acc b)
  have "\<forall>sm \<in> set (plAdded (note_built (fst c) ?prev b pl)).
      map_of (plFinal (note_built (fst c) ?prev b pl)) (smName sm) \<noteq> None"
    using note_built_added[OF refl, of pl b ?prev "fst c"] Cons.prems(1) nm acc by simp
  then show ?case using Cons.IH[of "planStep env opts cfg d existing c acc"] Cons.prems(2) st by simp
qed simp

text \<open>What an entry added is in its file.\<close>

lemma syncEntry_added:
  assumes "syncEntry env opts cfg d s = ((e, nt), s1)" "erErrors e = []" "\<not> soDryRun opts"
    and "sm \<in> set (erAdded e)" "yamlFaithful env (ManagedHeader env d (cPath cfg))"
  shows "\<exists>t raw. syFiles s1 (ManagedPath (cPath cfg) d) = FileData t \<and> seDecode env t = Inr raw \<and>
    map_of (rcProjects raw) (smName sm) \<noteq> None"
proof -
  obtain existing cs skips pl s0 body where run:
    "scan (seOS env) (seLinks env) d = Some (cs, skips)"
    "fold (planStep env opts cfg d existing) cs (emptyPlan, s) = (pl, s0)"
    "seEncode env (plFinal pl) = Inr body"
    "syFiles s1 (ManagedPath (cPath cfg) d) = FileData (ManagedHeader env d (cPath cfg) @ body)"
    "erSkipped e = map ruleSkip skips @ plSkipped pl" "erAdded e = plAdded pl"
    by (rule syncEntry_clean[OF assms(1-3)])
  have "\<forall>sm \<in> set (plAdded pl). map_of (plFinal pl) (smName sm) \<noteq> None"
    by (rule planFold_added[of "(emptyPlan, s)" pl env opts cfg d existing cs, unfolded run(2)])
      (simp_all add: emptyPlan_def)
  then have "map_of (plFinal pl) (smName sm) \<noteq> None" using assms(4) run(6) by simp
  moreover obtain raw where "seDecode env (ManagedHeader env d (cPath cfg) @ body) = Inr raw"
    "map_of (rcProjects raw) = (\<lambda>n. map_option (\<lambda>p. Some (p\<lparr>pName := [], pSource := []\<rparr>)) (map_of (plFinal pl) n))"
    using assms(5) run(3) unfolding yamlFaithful_def by blast
  ultimately show ?thesis using run(4) by auto
qed

text \<open>
  A sync in which two entries add a worktree of the same name leaves a configuration that does not load:
  each entry checks the name only against the configuration as it was before the sync, both files define
  the project, and the next load (the daemon's reload too) is refused.
\<close>

theorem same_name_breaks_the_config:
  assumes "syncEntry env opts cfg d1 s = ((e1, nt1), s1)" "erErrors e1 = []" "a1 \<in> set (erAdded e1)"
    and "syncEntry env opts cfg d2 s1 = ((e2, nt2), s2)" "erErrors e2 = []" "a2 \<in> set (erAdded e2)"
    and "smName a1 = smName a2" "\<not> soDryRun opts"
    and "\<And>header. yamlFaithful env header"
    and "syFiles s2 (ManagedPath (cPath cfg) d1) = syFiles s1 (ManagedPath (cPath cfg) d1)"
    and "listProjectFiles os (ProjectsDir (absPath os (cPath cfg))) = Inr fl"
    and "ManagedPath (cPath cfg) d1 \<in> set fl" "ManagedPath (cPath cfg) d2 \<in> set fl"
    and "fragmentSource (ManagedPath (cPath cfg) d1) \<noteq> fragmentSource (ManagedPath (cPath cfg) d2)"
  shows "\<exists>err. LoadWithOptions os (decodeFiles env (syFiles s2)) skip (cPath cfg) = Inl err"
proof (rule ccontr)
  assume "\<not> ?thesis"
  then obtain c where c: "LoadWithOptions os (decodeFiles env (syFiles s2)) skip (cPath cfg) = Inr c"
    by (cases "LoadWithOptions os (decodeFiles env (syFiles s2)) skip (cPath cfg)") auto
  let ?dec = "decodeFiles env (syFiles s2)"
  obtain raw where raw: "?dec (cPath cfg) = Inr raw"
    using c by (cases "?dec (cPath cfg)") (simp_all add: LoadWithOptions_def)
  note ok = load_merges[OF c raw assms(11)]
  obtain r1 p1 where r1: "?dec (ManagedPath (cPath cfg) d1) = Inr r1" "map_of (rcProjects r1) (smName a1) = Some p1"
    using syncEntry_added[OF assms(1,2,8,3,9)] assms(10) by (auto simp: decodeFiles_def)
  obtain r2 p2 where r2: "?dec (ManagedPath (cPath cfg) d2) = Inr r2" "map_of (rcProjects r2) (smName a1) = Some p2"
    using syncEntry_added[OF assms(4,5,8,6,9)] assms(7) by (auto simp: decodeFiles_def)
  have "map_of (cProjects c) (smName a1) = Some (loadProject os (fragmentSource (ManagedPath (cPath cfg) d1)) (smName a1) p1)"
    "map_of (cProjects c) (smName a1) = Some (loadProject os (fragmentSource (ManagedPath (cPath cfg) d2)) (smName a1) p2)"
    using ok assms(12,13) r1 r2 by blast+
  then have "pSource (loadProject os (fragmentSource (ManagedPath (cPath cfg) d1)) (smName a1) p1) =
      pSource (loadProject os (fragmentSource (ManagedPath (cPath cfg) d2)) (smName a1) p2)" by simp
  then show False using assms(14) by (simp add: loadProject_def)
qed

text \<open>Two entries over one directory.\<close>

definition otherEntry :: discovery where "otherEntry = oneEntry\<lparr>dName := ''v''\<rparr>"

definition otherProject :: project where
  "otherProject = oneProject\<lparr>pSupervisorPort := 4001, pApplicationPort := 5001\<rparr>"

definition snEnv :: syncEnv where
  "snEnv = oneEnv
     \<lparr>seEncode := (\<lambda>m. if m = [(''a'', oneProject)] then Inr ''1''
          else if m = [(''a'', otherProject)] then Inr ''2'' else Inl ''unknown''),
      seDecode := (\<lambda>t. Inr \<lparr>rcProjects = [(''a'', Some ((if last t = CHR ''1'' then oneProject else otherProject)
          \<lparr>pName := [], pSource := []\<rparr>))], rcMaxRunning = 0, rcDiscovery = []\<rparr>)\<rparr>"

lemma sn_fields:
  "seOS snEnv = oneOS" "seLinks snEnv = Some" "seFault snEnv = (\<lambda>_. None)" "seTmp snEnv = (\<lambda>_. ''t'')"
  "dName otherEntry = ''v''" "dDirectory otherEntry = ''/w''" "dSupervisorPortRange otherEntry = [4000, 4001]"
  "dApplicationPortRange otherEntry = [5000, 5001]" "dPortCommand otherEntry = []"
  by (simp_all add: snEnv_def oneEnv_def otherEntry_def one_fields)

lemma sn_faithful: "yamlFaithful snEnv h"
  by (auto simp: yamlFaithful_def snEnv_def split: if_splits)

lemma sn_paths: "ManagedPath ''/c/c.yaml'' otherEntry = ''/c/projects.d/v.yaml''"
  by (simp add: ManagedPath_def ProjectsDir_def ProjectsDirName_def FileName_def sn_fields) code_simp

lemma sn_scan: "scan oneOS Some otherEntry = Some ([(''a'', filepathJoin [''/w'', ''a''])], [])"
proof -
  have "IsDNSLabel ''a''" by code_simp
  then have "servable oneOS Some otherEntry ''a''"
    by (simp add: servable_def otherEntry_def one_fields Let_def Excluded_def oneOS_def)
  then show ?thesis
    by (simp add: scan_def sn_fields oneOS_def[THEN arg_cong, of osReadDir] scanEntry_eq)
qed

text \<open>An entry whose plan is one new project, on a fresh file.\<close>

lemma sn_entry:
  assumes "planEntry snEnv oneOpts oneConfig d [] [(''a'', filepathJoin [''/w'', ''a''])] s =
      (emptyPlan\<lparr>plFinal := [(''a'', p)], plAdded := [summarize p]\<rparr>, s0)"
    and "p \<in> {oneProject, otherProject}" "scan oneOS Some d = Some ([(''a'', filepathJoin [''/w'', ''a''])], [])"
    and "syFiles s (ManagedPath ''/c/c.yaml'' d) = NotExist"
  shows "\<exists>e nt s1. syncEntry snEnv oneOpts oneConfig d s = ((e, nt), s1) \<and> erErrors e = [] \<and>
    erAdded e = [summarize p] \<and> syUsed s1 = syUsed s0"
proof -
  let ?pl = "emptyPlan\<lparr>plFinal := [(''a'', p)], plAdded := [summarize p]\<rparr>"
  obtain e nt s1 where fe: "finishEntry snEnv oneOpts oneConfig d [] [] ?pl s0 = ((e, nt), s1)"
    by (metis prod.exhaust)
  have sy: "syncEntry snEnv oneOpts oneConfig d s = ((e, nt), s1)"
    by (simp add: syncEntry_def Let_def startEntry_def one_fields assms IsManagedFile_def decodeExisting_def sn_fields fe)
  have enc: "\<exists>body. seEncode snEnv [(''a'', p)] = Inr body" using assms(2) by (auto simp: snEnv_def)
  have "erErrors e = [] \<and> erAdded e = [summarize p]"
    using fe
  proof (cases rule: finishEntry_cases)
    case (render x)
    then show ?thesis using enc by (auto simp: render_def)
  next
    case (unwritten content res1)
    then show ?thesis
      by (auto simp: storeEntry_def Let_def writeFile_def writeAtomic_def sn_fields split: if_splits)
  next
    case (written content res1 s2 as n1)
    then show ?thesis using storeEntry_flags[OF written(2)] by simp
  qed
  with sy finishEntry_reports(1)[OF fe] show ?thesis by blast
qed

lemma sn_second:
  assumes "syUsed s = [(5000, ''a''), (4000, ''a'')]"
  shows "\<exists>s1. planEntry snEnv oneOpts oneConfig otherEntry [] [(''a'', filepathJoin [''/w'', ''a''])] s =
      (emptyPlan\<lparr>plFinal := [(''a'', otherProject)], plAdded := [summarize otherProject]\<rparr>, s1)"
proof -
  have "templateFor otherEntry c = templateFor oneEntry c" for c
    by (simp add: templateFor_def otherEntry_def PublicURL_def Wildcard_def HostOf_def)
  then show ?thesis
    using assms
    by (simp add: planEntry_def planStep_def Let_def build_def claimName_def claimSite_def one_fields sn_fields
        choosePort_def allocate_def usedBy_def note_built_def emptyPlan_def mapPut_def mapDelete_def upto.simps
        oneProject_def otherProject_def)
qed

theorem same_name_breaks_the_config_witness:
  "\<exists>s1 s2 x y err. syncEntry snEnv oneOpts oneConfig oneEntry oneSyncer = (x, s1) \<and>
     syncEntry snEnv oneOpts oneConfig otherEntry s1 = (y, s2) \<and>
     LoadWithOptions (oneOS\<lparr>osReadDir := (\<lambda>_. Some (Inr [(''v.yaml'', False), (''w.yaml'', False)]))\<rparr>)
       (decodeFiles snEnv (syFiles s2)) True ''/c/c.yaml'' = Inl err"
proof -
  let ?os = "oneOS\<lparr>osReadDir := (\<lambda>_. Some (Inr [(''v.yaml'', False), (''w.yaml'', False)]))\<rparr>"
  obtain s0 where p1: "planEntry snEnv oneOpts oneConfig oneEntry [] [(''a'', filepathJoin [''/w'', ''a''])] oneSyncer =
      (emptyPlan\<lparr>plFinal := [(''a'', oneProject)], plAdded := [summarize oneProject]\<rparr>, s0)"
      "syUsed s0 = [(5000, ''a''), (4000, ''a'')]"
    using one_plan[of oneSyncer snEnv] sn_fields by (auto simp: oneSyncer_def)
  obtain e1 nt1 s1 where r1: "syncEntry snEnv oneOpts oneConfig oneEntry oneSyncer = ((e1, nt1), s1)"
      "erErrors e1 = []" "erAdded e1 = [summarize oneProject]" "syUsed s1 = [(5000, ''a''), (4000, ''a'')]"
    using sn_entry[OF p1(1) _ one_scan] p1(2) by (auto simp: oneSyncer_def)
  have pp: "ManagedPath ''/c/c.yaml'' otherEntry \<noteq> ManagedPath ''/c/c.yaml'' oneEntry"
    by (simp add: one_path sn_paths)
  have f1: "syFiles s1 (ManagedPath ''/c/c.yaml'' otherEntry) = NotExist"
    using syncEntry_spares[OF r1(1), of "{ManagedPath ''/c/c.yaml'' otherEntry}"] pp
    by (simp add: one_fields sn_fields sn_paths spares_def oneSyncer_def)
  obtain s0' where p2: "planEntry snEnv oneOpts oneConfig otherEntry [] [(''a'', filepathJoin [''/w'', ''a''])] s1 =
      (emptyPlan\<lparr>plFinal := [(''a'', otherProject)], plAdded := [summarize otherProject]\<rparr>, s0')"
    using sn_second[OF r1(4)] by blast
  obtain e2 nt2 s2 where r2: "syncEntry snEnv oneOpts oneConfig otherEntry s1 = ((e2, nt2), s2)"
      "erErrors e2 = []" "erAdded e2 = [summarize otherProject]"
    using sn_entry[OF p2 _ sn_scan f1] by auto
  have nm: "smName (summarize oneProject) = smName (summarize otherProject)"
    by (simp add: summarize_def otherProject_def)
  have kept: "syFiles s2 (ManagedPath (cPath oneConfig) oneEntry) = syFiles s1 (ManagedPath (cPath oneConfig) oneEntry)"
    using syncEntry_spares[OF r2(1), of "{ManagedPath ''/c/c.yaml'' oneEntry}"] pp
    by (simp add: one_fields sn_fields one_path spares_def)
  have ls: "listProjectFiles ?os (ProjectsDir (absPath ?os (cPath oneConfig))) =
      Inr (sort [''/c/projects.d/v.yaml'', ''/c/projects.d/w.yaml''])"
  proof -
    have "absPath ?os ''/c/c.yaml'' = ''/c/c.yaml''"
      by (simp add: absPath_def IsAbs_def slash_def) code_simp
    moreover have "filepathJoin [ProjectsDir ''/c/c.yaml'', ''v.yaml''] = ''/c/projects.d/v.yaml''"
      "filepathJoin [ProjectsDir ''/c/c.yaml'', ''w.yaml''] = ''/c/projects.d/w.yaml''" by code_simp+
    moreover have "\<not> hasPrefix ''v.yaml'' ''.''" "\<not> hasPrefix ''w.yaml'' ''.''" "hasSuffix ''v.yaml'' ''.yaml''"
      "hasSuffix ''w.yaml'' ''.yaml''" by code_simp+
    ultimately show ?thesis by (simp add: listProjectFiles_def one_fields)
  qed
  have src: "fragmentSource (ManagedPath (cPath oneConfig) oneEntry) \<noteq> fragmentSource (ManagedPath (cPath oneConfig) otherEntry)"
    by (simp add: one_fields one_path sn_paths) code_simp
  have "\<exists>err. LoadWithOptions ?os (decodeFiles snEnv (syFiles s2)) True (cPath oneConfig) = Inl err"
    by (rule same_name_breaks_the_config[OF r1(1,2) _ r2(1,2) _ nm _ sn_faithful kept ls _ _ src])
      (simp_all add: r1(3) r2(3) one_fields one_path sn_paths)
  with r1(1) r2(1) show ?thesis by (auto simp: one_fields)
qed

section \<open>A marker that is not on the first line\<close>

text \<open>
  The check for the marker skips white space in front of it, the copying of the header does not: a managed
  file that begins with an empty line loses its header.
\<close>

lemma existingHeader_blank:
  assumes "fs path = FileData (CHR 0x0A # rest)"
  shows "existingHeader fs path = []"
proof -
  have "splitByte (CHR 0x0A) (CHR 0x0A # rest) = [] # splitByte (CHR 0x0A) rest"
    using splitByte_append[of "CHR 0x0A" "[]" rest] by simp
  then show ?thesis using assms by (simp add: existingHeader_def hasPrefix_def)
qed

text \<open>
  Removing a project from a managed file that begins with an empty line drops the marker: the file was
  managed before, and afterwards the next sync refuses it (unless what is left happens to be empty or to
  begin with the marker itself).
\<close>

theorem remove_can_drop_the_marker:
  assumes "Remove env cfg name ro fs cl = (Inr res, fs1, cl1)"
    and "fs (rmFile res) = FileData (CHR 0x0A # rest)"
    and "hasPrefix (TrimSpace (CHR 0x0A # rest)) managedMarker"
    and "\<And>m body. seEncode env m = Inr body \<Longrightarrow> TrimSpace body \<noteq> [] \<and> \<not> hasPrefix (TrimSpace body) managedMarker"
  shows "IsManagedFile fs (rmFile res) = Inr True" and "IsManagedFile fs1 (rmFile res) = Inr False"
proof -
  obtain p rel projects managed body where r:
    "map_of (cProjects cfg) name = Some p" "cutPrefix (pSource p) (ProjectsDirName @ ''/'') = Some rel"
    "rmName res = name" "rmSource res = pSource p" "rmFile res = removeFile cfg rel" "rmManaged res = managed"
    "readFragment env fs (removeFile cfg rel) = Inr projects"
    "hasManagedMarker fs (removeFile cfg rel) = Inr managed"
    "seEncode env (mapDelete name projects) = Inr body"
    "writeFile env (removeFile cfg rel)
       ((if managed then existingHeader fs (removeFile cfg rel) else []) @ body) fs = (None, fs1)"
    by (rule Remove_ok[OF assms(1)])
  have "existingHeader fs (removeFile cfg rel) = []"
    using existingHeader_blank[of fs "rmFile res" rest] assms(2) r(5) by simp
  then have "fs1 (rmFile res) = FileData body"
    using writeFile_path[OF r(10)] r(5) by (simp split: if_splits)
  then show "IsManagedFile fs1 (rmFile res) = Inr False"
    using assms(4)[OF r(9)] by (simp add: IsManagedFile_def Let_def)
  show "IsManagedFile fs (rmFile res) = Inr True" using assms(2,3) by (simp add: IsManagedFile_def Let_def)
qed

definition blankEnv :: syncEnv where
  "blankEnv = rmEnv\<lparr>seEncode := (\<lambda>_. Inr ''b: {}'')\<rparr>"

theorem remove_can_drop_the_marker_witness:
  "\<exists>res fs1 cl1. Remove blankEnv rmConfig ''a'' rmOpts
      ((\<lambda>_. NotExist)(rmPath := FileData (CHR 0x0A # managedMarker))) (newCLI ''/h'') = (Inr res, fs1, cl1) \<and>
     IsManagedFile fs1 (rmFile res) = Inr False"
proof -
  let ?fs = "(\<lambda>_. NotExist)(rmPath := FileData (CHR 0x0A # managedMarker))"
  have m: "hasPrefix (TrimSpace (CHR 0x0A # managedMarker)) managedMarker"
    unfolding managedMarker_def by code_simp
  have t: "TrimSpace ''b: {}'' \<noteq> [] \<and> \<not> hasPrefix (TrimSpace ''b: {}'') managedMarker"
    unfolding managedMarker_def by code_simp
  have "\<exists>ps. readFragment blankEnv ?fs rmPath = Inr ps"
    by (simp add: readFragment_def DecodeFragment_def blankEnv_def rmEnv_def)
  then obtain res fs1 cl1 where r: "Remove blankEnv rmConfig ''a'' rmOpts ?fs (newCLI ''/h'') = (Inr res, fs1, cl1)"
    "rmFile res = rmPath"
    by (auto simp: Remove_def Let_def rm_fields rm_path render_def writeFile_def writeAtomic_def removeUnproxy_def
        hasManagedMarker_def blankEnv_def)
  have f: "?fs (rmFile res) = FileData (CHR 0x0A # managedMarker)" using r(2) by simp
  have "IsManagedFile fs1 (rmFile res) = Inr False"
    by (rule remove_can_drop_the_marker(2)[OF r(1) f m]) (use t in \<open>auto simp: blankEnv_def\<close>)
  with r(1) show ?thesis by blast
qed

end
