(* ===== verification/SyncProps.thy ===== *)
theory SyncProps
  imports SyncFacts
begin

text \<open>
  What a sync promises: foreign files and a dry run, the herd listings, atomic writes, the wildcard
  registrations, and removing a project.
\<close>

section \<open>A concrete machine\<close>

definition spEntry :: discovery where
  "spEntry = emptyDiscovery\<lparr>dName := ''web'', dMode := ''proxy'', dDirectory := ''/w''\<rparr>"

definition spConfig :: config where
  "spConfig = \<lparr>cProjects = [], cMaxRunning = 0, cDiscovery = [Some spEntry], cPath = ''/c/config.yaml''\<rparr>"

definition spOS :: osView where
  "spOS =
     \<lparr>osHome = None, osCwd = ''/'', osStat = (\<lambda>_. None), osReadDir = (\<lambda>_. Some (Inr [])),
      osReadFile = (\<lambda>_. None), osURL = (\<lambda>_. None), osLoopbackIP = (\<lambda>_. False),
      osGlob = (\<lambda>_ _. Some False)\<rparr>"

definition spHerd :: herdWorld where
  "spHerd =
     \<lparr>hwRun = (\<lambda>_ _. Inr []), hwRead = (\<lambda>_ _. NotExist), hwOS = spOS, hwHostname = (\<lambda>_. None),
      hwIsIP = (\<lambda>_. False), hwStrings = (\<lambda>_ _. (True, [])), hwItems = (\<lambda>_. None)\<rparr>"

definition spEnv :: syncEnv where
  "spEnv =
     \<lparr>seOS = spOS, seLinks = Some, seEnvOS = plainEnvOS, seShell = (\<lambda>_ _ _. TimedOut), seHerd = spHerd,
      seDecode = (\<lambda>_. Inr \<lparr>rcProjects = [], rcMaxRunning = 0, rcDiscovery = []\<rparr>),
      seEncode = (\<lambda>_. Inr ''projects: {}''), seFault = (\<lambda>_. None), seTmp = (\<lambda>_. ''/tmp/t''),
      seQuote = id, seDecodeState = (\<lambda>_. Inr \<lparr>ssWildcards = [], ssProxyNotes = []\<rparr>),
      seEncodeState = (\<lambda>_. Inr ''state''), seRemoveFails = (\<lambda>_. None), seGOOS = ''linux''\<rparr>"

definition spOpts :: "bool \<Rightarrow> bool \<Rightarrow> syncOptions" where
  "spOpts herd dry =
     \<lparr>soHerd = herd, soHerdNote = [], soHerdUnavailable = False, soGOOS = ''linux'', soDryRun = dry\<rparr>"

definition spFile :: string where "spFile = ''/c/projects.d/web.yaml''"

lemma spFile_path: "ManagedPath (cPath spConfig) spEntry = spFile"
  by (simp add: spConfig_def spEntry_def spFile_def ManagedPath_def ProjectsDir_def ProjectsDirName_def FileName_def) code_simp

section \<open>Files\<close>

text \<open>
  C8. A sync never touches a file it does not manage: whatever happens in it, a file other than the
  state file and the temporaries keeps its contents unless it is the file of a proxy-mode entry and
  is empty, missing, or carries the marker.
\<close>

theorem sync_keeps_foreign_files:
  assumes "Sync env opts cfg fs cl = (r, fs1, cl1)"
    and "q \<noteq> StatePath (cPath cfg)" and "\<And>p. q \<noteq> seTmp env p"
    and "IsManagedFile fs q \<noteq> Inr True \<or>
      q \<notin> {ManagedPath (cPath cfg) d | d. d \<in> set (discoveries cfg) \<and> \<not> Wildcard d}"
  shows "fs1 q = fs q"
  using Sync_spares(3)[OF assms(1), of "{q}" q] assms(2-4) by (auto 4 3)

theorem sync_keeps_foreign_files_witness:
  "fst (snd (Sync spEnv (spOpts True False) spConfig ((\<lambda>_. NotExist)(spFile := FileData ''mine''))
     (newCLI ''/h''))) spFile = FileData ''mine''"
proof -
  let ?fs = "(\<lambda>_. NotExist)(spFile := FileData ''mine'')"
  have "IsManagedFile ?fs spFile = Inr False"
    by (simp add: IsManagedFile_def managedMarker_def) code_simp
  moreover have "spFile \<noteq> StatePath (cPath spConfig)" by code_simp
  moreover have "spFile \<noteq> seTmp spEnv p" for p by (simp add: spEnv_def spFile_def)
  ultimately show ?thesis
    using sync_keeps_foreign_files[of spEnv "spOpts True False" spConfig ?fs "newCLI ''/h''" _ _ _ spFile,
        OF prod.collapse[symmetric, THEN trans, OF arg_cong[OF prod.collapse[symmetric], of "Pair _"]]]
    by simp
qed

lemma Sync_dry_run:
  assumes "Sync env opts cfg fs cl = (r, fs1, cl1)" and "soDryRun opts"
  shows "fs1 = fs"
    and "\<exists>rs. clRuns cl1 = clRuns cl @ rs \<and> set rs \<subseteq> {[''paths''], [''links'']}"
  using Sync_spares(1,2)[OF assms(1), of "{}"] assms(2) herdMoves_listings[of "seHerd env" cl cl1] by auto

text \<open>
  C29. A dry run changes nothing: every file keeps its contents, and the only herd commands it runs are
  the two listings.
\<close>

theorem dry_run_changes_nothing:
  assumes "Sync env opts cfg fs cl = (r, fs1, cl1)" and "soDryRun opts"
  shows "fs1 = fs \<and> (\<exists>rs. clRuns cl1 = clRuns cl @ rs \<and> set rs \<subseteq> {[''paths''], [''links'']})"
  by (intro conjI) (fact Sync_dry_run[OF assms])+

theorem dry_run_changes_nothing_witness:
  "fst (snd (Sync spEnv (spOpts True True) spConfig (\<lambda>_. NotExist) (newCLI ''/h''))) = (\<lambda>_. NotExist) \<and>
   set (clRuns (snd (snd (Sync spEnv (spOpts True True) spConfig (\<lambda>_. NotExist) (newCLI ''/h''))))) \<subseteq>
     {[''paths''], [''links'']}"
proof -
  obtain r fs1 cl1 where s: "Sync spEnv (spOpts True True) spConfig (\<lambda>_. NotExist) (newCLI ''/h'') = (r, fs1, cl1)"
    by (metis prod.exhaust)
  have d: "soDryRun (spOpts True True)" by (simp add: spOpts_def)
  from dry_run_changes_nothing[OF s d] show ?thesis by (simp add: s newCLI_fields)
qed

text \<open>
  The listings are cached: whatever it does, a sync runs \<open>herd paths\<close> at most once and \<open>herd links\<close>
  at most once.
\<close>

theorem sync_lists_once:
  assumes "Sync env opts cfg fs cl = (r, fs1, cl1)" and "clRuns cl = []" "clPaths cl = None" "clLinks cl = None"
  shows "length (filter (\<lambda>run. run = [''paths'']) (clRuns cl1)) \<le> 1"
    and "length (filter (\<lambda>run. run = [''links'']) (clRuns cl1)) \<le> 1"
proof -
  have "listedOnce cl" using assms(2-4) by (simp add: listedOnce_def)
  with Sync_spares(1)[OF assms(1), of "{}"] have "listedOnce cl1"
    by (auto dest: herdMoves_listedOnce)
  then show "length (filter (\<lambda>run. run = [''paths'']) (clRuns cl1)) \<le> 1"
    "length (filter (\<lambda>run. run = [''links'']) (clRuns cl1)) \<le> 1"
    by (simp_all add: listedOnce_def)
qed

theorem sync_lists_once_witness:
  "length (filter (\<lambda>run. run = [''paths''])
     (clRuns (snd (snd (Sync spEnv (spOpts True False) spConfig (\<lambda>_. NotExist) (newCLI ''/h'')))))) \<le> 1"
proof -
  obtain r fs1 cl1 where s: "Sync spEnv (spOpts True False) spConfig (\<lambda>_. NotExist) (newCLI ''/h'') = (r, fs1, cl1)"
    by (metis prod.exhaust)
  from sync_lists_once(1)[OF s] show ?thesis by (simp add: s newCLI_fields)
qed

section \<open>Atomic writes\<close>

text \<open>What a reader of the directory sees, the temporary file set aside; and the write it should be.\<close>

definition visible :: "string \<Rightarrow> files \<Rightarrow> files" where
  "visible tmp fs = fs(tmp := NotExist)"

definition atomicWrite :: "string \<Rightarrow> string \<Rightarrow> files \<Rightarrow> files" where
  "atomicWrite path data fs = fs(path := FileData data)"

lemma writeAtomic_states:
  assumes "writeAtomic fault tmp path data fs = (err, states)" and "tmp \<noteq> path" and "fs tmp = NotExist"
  shows "\<forall>m \<in> set (butlast states). visible tmp m = fs"
    and "err = None \<Longrightarrow> states \<noteq> [] \<and> last states = atomicWrite path data fs"
    and "err \<noteq> None \<Longrightarrow> states = [] \<or> last states = fs"
    and "err \<noteq> None \<Longrightarrow> \<forall>m \<in> set states. m path = fs path"
proof -
  have fs: "fs(tmp := NotExist) = fs" using assms(3) by auto
  have tw: "(fs(tmp := x))(tmp := NotExist) = fs" for x using fs by simp
  show "\<forall>m \<in> set (butlast states). visible tmp m = fs"
    "err = None \<Longrightarrow> states \<noteq> [] \<and> last states = atomicWrite path data fs"
    "err \<noteq> None \<Longrightarrow> states = [] \<or> last states = fs"
    "err \<noteq> None \<Longrightarrow> \<forall>m \<in> set states. m path = fs path"
    using assms(1,2) fs tw
    by (auto simp: writeAtomic_def Let_def visible_def atomicWrite_def split: option.splits writeFault.splits)
qed



section \<open>Wildcard registrations\<close>

lemma unproxyAction_state:
  "syState (snd (unproxyAction env opts en p s)) = syState s"
  using unproxyAction_moves(4)[OF surjective_pairing] .

text \<open>What the retirement of one name does to the registrations.\<close>

lemma retireOne_registrations:
  assumes "retireOne env opts name prev s = (r, s1)"
  shows "\<exists>a. erHerd r = [a] \<and> erName r = name \<and>
     ssWildcards (syState s1) =
       (if haStatus a \<in> {HerdDone, HerdSkipped} \<and> map_of (ssWildcards (syState s)) name = Some prev
        then mapDelete name (ssWildcards (syState s)) else ssWildcards (syState s))"
proof -
  let ?p = "emptyProject\<lparr>pName := name, pPublicURL := ''https://'' @ wdBaseDomain prev,
                pSupervisorPort := wdSupervisorPort prev\<rparr>"
  obtain a s2 where ua: "unproxyAction env opts True ?p s = (a, s2)"
    by (cases "unproxyAction env opts True ?p s")
  have "syState s2 = syState s" using unproxyAction_state[of env opts True ?p s] ua by simp
  then show ?thesis
    using assms ua by (auto simp: retireOne_def Let_def emptyEntryResult_def)
qed

lemma retireStep_other:
  assumes "n \<noteq> name"
  shows "map_of (ssWildcards (syState (snd (retireStep env opts live previous n acc)))) name =
     map_of (ssWildcards (syState (snd acc))) name"
proof -
  obtain rs s where acc: "acc = (rs, s)" by (cases acc)
  obtain r s1 where ro: "retireOne env opts n (the (map_of previous n)) s = (r, s1)"
    by (cases "retireOne env opts n (the (map_of previous n)) s")
  show ?thesis
    using retireOne_registrations[OF ro] assms
    by (auto simp: acc retireStep_def Let_def ro map_of_mapDelete split: option.split)
qed

lemma retireFold_other:
  assumes "name \<notin> set ns"
  shows "map_of (ssWildcards (syState (snd (fold (retireStep env opts live previous) ns acc)))) name =
     map_of (ssWildcards (syState (snd acc))) name"
  using assms
proof (induction ns arbitrary: acc)
  case (Cons n ns)
  then have "n \<noteq> name" "name \<notin> set ns" by auto
  then show ?case
    using Cons.IH[of "retireStep env opts live previous n acc"] retireStep_other[of n name env opts live previous acc]
    by simp
qed simp

lemma retireFold_results:
  "\<exists>rs. fst (fold (retireStep env opts live previous) ns acc) = fst acc @ rs"
proof (induction ns arbitrary: acc)
  case (Cons n ns)
  let ?acc1 = "retireStep env opts live previous n acc"
  have "\<exists>rs. fst ?acc1 = fst acc @ rs"
    by (cases acc) (auto simp: retireStep_def Let_def split: option.split prod.split)
  with Cons[of ?acc1] show ?case by auto
qed simp

lemma retireFold_at:
  assumes "name \<in> set ns" "distinct ns" "map_of previous name = Some prev"
    and "\<And>d. map_of live name = Some d \<Longrightarrow> dBaseDomain d \<noteq> wdBaseDomain prev"
  shows "\<exists>r \<in> set (fst (fold (retireStep env opts live previous) ns acc)). \<exists>a.
     erHerd r = [a] \<and> erName r = name \<and>
     map_of (ssWildcards (syState (snd (fold (retireStep env opts live previous) ns acc)))) name =
       (if haStatus a \<in> {HerdDone, HerdSkipped} \<and> map_of (ssWildcards (syState (snd acc))) name = Some prev
        then None else map_of (ssWildcards (syState (snd acc))) name)"
  using assms(1,2)
proof (induction ns arbitrary: acc)
  case (Cons n ns)
  obtain rs s where acc: "acc = (rs, s)" by (cases acc)
  let ?acc1 = "retireStep env opts live previous n acc"
  show ?case
  proof (cases "n = name")
    case True
    obtain r s1 where ro: "retireOne env opts name prev s = (r, s1)"
      by (cases "retireOne env opts name prev s")
    have st: "?acc1 = (rs @ [r], s1)"
      using assms(3,4) by (auto simp: True acc retireStep_def Let_def ro split: option.split)
    obtain a where a: "erHerd r = [a]" "erName r = name" "ssWildcards (syState s1) =
       (if haStatus a \<in> {HerdDone, HerdSkipped} \<and> map_of (ssWildcards (syState s)) name = Some prev
        then mapDelete name (ssWildcards (syState s)) else ssWildcards (syState s))"
      using retireOne_registrations[OF ro] by blast
    have "r \<in> set (fst (fold (retireStep env opts live previous) ns ?acc1))"
      using retireFold_results[of env opts live previous ns ?acc1] st by auto
    moreover have "map_of (ssWildcards (syState (snd (fold (retireStep env opts live previous) ns ?acc1)))) name =
        map_of (ssWildcards (syState s1)) name"
      using Cons.prems(2) True retireFold_other[of name ns env opts live previous ?acc1] st by auto
    ultimately show ?thesis
      using a by (intro bexI[of _ r] exI[of _ a]) (simp_all add: acc map_of_mapDelete)
  next
    case False
    then have "name \<in> set ns" "distinct ns" using Cons.prems by auto
    from Cons.IH[OF this, of ?acc1] show ?thesis
      by (simp only: retireStep_other[OF False] fold_Cons comp_apply)
  qed
qed simp

text \<open>
  The registration of a wildcard proxy whose entry is gone (or has another domain) is forgotten exactly
  when its proxy is: when the removal succeeded or Herd has nothing to remove. Otherwise, on a dry run
  too, it stays recorded and the next sync tries again.
\<close>

theorem retire_forgets_only_removed:
  assumes "map_of previous name = Some prev" and "distinct (map fst previous)"
    and "\<And>d. map_of (liveWildcards cfg) name = Some d \<Longrightarrow> dBaseDomain d \<noteq> wdBaseDomain prev"
    and "map_of (ssWildcards (syState s)) name = Some prev"
    and "retireWildcards env opts cfg previous s = (rs, s1)"
  shows "\<exists>r \<in> set rs. \<exists>a. erName r = name \<and> erHerd r = [a] \<and>
    (map_of (ssWildcards (syState s1)) name = None \<longleftrightarrow> haStatus a \<in> {HerdDone, HerdSkipped}) \<and>
    (haStatus a \<notin> {HerdDone, HerdSkipped} \<longrightarrow> map_of (ssWildcards (syState s1)) name = Some prev)"
proof -
  let ?s0 = "s\<lparr>syState := (syState s)\<lparr>ssProxyNotes :=
      filter (\<lambda>(n, _). map_of (liveWildcards cfg) n \<noteq> None) (ssProxyNotes (syState s))\<rparr>\<rparr>"
  have "name \<in> set (sort (map fst previous))" using assms(1) by (force dest: map_of_SomeD)
  moreover have "distinct (sort (map fst previous))" using assms(2) by simp
  ultimately obtain r a where "r \<in> set rs" "erHerd r = [a]" "erName r = name"
    "map_of (ssWildcards (syState s1)) name =
       (if haStatus a \<in> {HerdDone, HerdSkipped} \<and> map_of (ssWildcards (syState ?s0)) name = Some prev
        then None else map_of (ssWildcards (syState ?s0)) name)"
    using retireFold_at[of name "sort (map fst previous)" previous prev "liveWildcards cfg" env opts "([], ?s0)"]
      assms(1,3,5) by (auto simp: retireWildcards_def Let_def)
  with assms(4) show ?thesis by (intro bexI[of _ r] exI[of _ a]) auto
qed

definition spOld :: wildcardState where
  "spOld = \<lparr>wdBaseDomain = ''old.test'', wdSupervisorPort = 4000\<rparr>"

definition spSyncer :: syncer where
  "spSyncer =
     \<lparr>syUsed = [], syState = \<lparr>ssWildcards = [(''web'', spOld)], ssProxyNotes = []\<rparr>,
      syFiles = (\<lambda>_. NotExist), syCli = newCLI ''/h''\<rparr>"

lemma spConfig_live: "liveWildcards spConfig = []"
  by (simp add: liveWildcards_def discoveries_def spConfig_def spEntry_def emptyDiscovery_def
      Wildcard_def ModeWildcard_def map_filter_simps)

theorem retire_forgets_only_removed_witness:
  "\<exists>r \<in> set (fst (retireWildcards spEnv (spOpts False False) spConfig [(''web'', spOld)] spSyncer)).
     erName r = ''web''"
proof -
  obtain rs s1 where r: "retireWildcards spEnv (spOpts False False) spConfig [(''web'', spOld)] spSyncer = (rs, s1)"
    by (cases "retireWildcards spEnv (spOpts False False) spConfig [(''web'', spOld)] spSyncer")
  have "map_of (ssWildcards (syState spSyncer)) ''web'' = Some spOld" by (simp add: spSyncer_def)
  from retire_forgets_only_removed[OF _ _ _ this r] show ?thesis
    by (auto simp: r spConfig_live)
qed

text \<open>
  A wildcard entry whose domain changed loses its old proxy when the new one is registered and the old
  one cannot be removed: the state has one registration per name, which the new proxy has already taken,
  so no later sync knows of the old one.
\<close>

theorem redomained_failure_is_forgotten:
  assumes "syncWildcard env opts cfg d s = ((res, note1), s1)" and "\<not> herdOff opts d"
    and "haStatus (hd (erHerd res)) = HerdDone"
    and "dBaseDomain d \<noteq> wdBaseDomain prev"
    and "retireWildcards env opts cfg [(dName d, prev)] s1 = (rs, s2)"
    and "r \<in> set rs" and "haStatus (hd (erHerd r)) = HerdManual"
    and "\<And>n. map_of (ssWildcards (syState s)) n = Some prev \<Longrightarrow> n = dName d"
  shows "prev \<notin> ran (map_of (ssWildcards (syState s2)))"
proof -
  obtain nt st where pn: "proxyNote env opts d (syState s) = (nt, st)"
    by (cases "proxyNote env opts d (syState s)")
  obtain a errs s0 where wa: "wildcardAction env opts d (s\<lparr>syState := st\<rparr>) = ((a, errs), s0)"
    by (metis prod.exhaust)
  have st: "ssWildcards st = ssWildcards (syState s)"
    using pn by (auto simp: proxyNote_def split: if_splits)
  have "syState s0 = st" using wildcardAction_onlyHerd[OF wa] by (simp add: onlyHerd_def)
  then have w1: "ssWildcards (syState s1) = mapPut (dName d) (listenerOf d) (ssWildcards (syState s))"
    using assms(1-3) pn wa st by (auto simp: syncWildcard_def Let_def split: if_splits)
  have new: "listenerOf d \<noteq> prev" using assms(4) by (auto simp: listenerOf_def)
  let ?s0 = "s1\<lparr>syState := (syState s1)\<lparr>ssProxyNotes :=
      filter (\<lambda>(n, _). map_of (liveWildcards cfg) n \<noteq> None) (ssProxyNotes (syState s1))\<rparr>\<rparr>"
  have keep: "map_of (ssWildcards (syState s2)) n = map_of (ssWildcards (syState s1)) n" for n
  proof (cases "n = dName d")
    case False
    then show ?thesis
      using retireFold_other[of n "[dName d]" env opts "liveWildcards cfg" "[(dName d, prev)]" "([], ?s0)"] assms(5)
      by (simp add: retireWildcards_def Let_def)
  next
    case True
    obtain q s3 where ro: "retireOne env opts (dName d) prev ?s0 = (q, s3)"
      by (cases "retireOne env opts (dName d) prev ?s0")
    have "ssWildcards (syState s3) = ssWildcards (syState s1)"
      using retireOne_registrations[OF ro] w1 new by (auto simp: map_of_mapPut)
    then show ?thesis
      using assms(5) ro by (auto simp: retireWildcards_def Let_def retireStep_def split: option.splits if_splits)
  qed
  show ?thesis
  proof
    assume "prev \<in> ran (map_of (ssWildcards (syState s2)))"
    then obtain n where n: "map_of (ssWildcards (syState s2)) n = Some prev" by (auto simp: ran_def)
    then show False using keep[of n] w1 new assms(8) by (auto simp: map_of_mapPut split: if_splits)
  qed
qed

text \<open>A machine on which \<open>herd unproxy\<close> fails.\<close>

definition spStuckHerd :: herdWorld where
  "spStuckHerd = spHerd
     \<lparr>hwRun := (\<lambda>_ args. if args ! 0 = ''unproxy'' then Inl ''failed'' else Inr []),
      hwRead := (\<lambda>_ p. if p = ''/h/Nginx/old.test'' then FileData ''proxy_pass http://127.0.0.1:4000;'' else NotExist),
      hwHostname := (\<lambda>_. Some ''old.test''),
      hwOS := spOS\<lparr>osURL := (\<lambda>_. Some (''http'', ''127.0.0.1:4000''))\<rparr>\<rparr>"

definition spStuckEnv :: syncEnv where "spStuckEnv = spEnv\<lparr>seHerd := spStuckHerd\<rparr>"

definition spMoved :: discovery where
  "spMoved = spEntry\<lparr>dMode := ''wildcard'', dBaseDomain := ''new.test'',
     dTemplate := emptyProject\<lparr>pSupervisorPort := 4100\<rparr>\<rparr>"

lemma sp_fields:
  "seHerd spStuckEnv = spStuckHerd" "hwRead spStuckHerd = (\<lambda>_ p. if p = ''/h/Nginx/old.test''
     then FileData ''proxy_pass http://127.0.0.1:4000;'' else NotExist)"
  "hwRun spStuckHerd = (\<lambda>_ args. if args ! 0 = ''unproxy'' then Inl ''failed'' else Inr [])"
  "hwHostname spStuckHerd = (\<lambda>_. Some ''old.test'')" "hwIsIP spStuckHerd = (\<lambda>_. False)"
  "osURL (hwOS spStuckHerd) = (\<lambda>_. Some (''http'', ''127.0.0.1:4000''))"
  "osStat (hwOS spStuckHerd) = (\<lambda>_. None)"
  "hwStrings spStuckHerd = (\<lambda>_ _. (True, []))"
  "soHerd (spOpts True False)" "\<not> soDryRun (spOpts True False)"
  "dName spMoved = ''web''" "dBaseDomain spMoved = ''new.test''" "dHerd spMoved = None" "SupervisorPort spMoved = 4100"
  by (simp_all add: spStuckEnv_def spStuckHerd_def spHerd_def spOS_def spOpts_def spMoved_def spEntry_def
      emptyDiscovery_def SupervisorPort_def Wildcard_def ModeWildcard_def)

lemma sp_eval:
  "filepathJoin [''/h'', ''Nginx'', ''old.test''] = ''/h/Nginx/old.test''"
  "filepathJoin [''/h'', ''Nginx'', ''new.test''] \<noteq> ''/h/Nginx/old.test''"
  "proxyTargets ''proxy_pass http://127.0.0.1:4000;'' = [''http://127.0.0.1:4000'']"
  "urlPort ''127.0.0.1:4000'' = ''4000''" "Atoi ''4000'' = Some 4000"
  "cleanPaths [] = []" "SiteName ''old.test'' = Some ''old''" "SiteName ''new.test'' = Some ''new''"
  "ToLower ''old.test'' = ''old.test''" "parseLinks spStuckHerd [] = []"
  by code_simp+

lemma sp_target:
  "ProxyTarget spStuckHerd c ''new.test'' = Inr (0, False)" "ProxyTarget spStuckHerd c ''old.test'' = Inr (4000, True)"
  if "clConfigDir c = ''/h''"
  using that by (simp_all add: ProxyTarget_def SiteFile_def sp_fields sp_eval map_filter_simps targetPort_def
      del: proxyTargets.simps)

lemma sp_moved:
  assumes "clConfigDir (syCli s) = ''/h''" "clPaths (syCli s) = None" "clLinks (syCli s) = None"
  shows "\<exists>a s1. wildcardAction spStuckEnv (spOpts True False) spMoved s = ((a, []), s1) \<and>
     haStatus a = HerdDone \<and> clConfigDir (syCli s1) = ''/h''"
  using assms
  by (simp add: wildcardAction_def Let_def sp_fields HerdEnabled_def siteNameOf_def sp_eval sp_target
      Conflict_def Paths_def Links_def run_def parsePaths_def runHerd_def Proxy_def errOf_def)

lemma sp_stuck:
  assumes "clConfigDir (syCli s) = ''/h''"
  shows "\<exists>a s1. unproxyAction spStuckEnv (spOpts True False) True (emptyProject\<lparr>pName := ''web'',
       pPublicURL := u, pSupervisorPort := 4000\<rparr>) s = (a, s1) \<and> haStatus a = HerdManual"
  using assms
  by (simp add: unproxyAction_def Let_def sp_fields SiteFromURL_def sp_eval sp_target runHerd_def Unproxy_def
      run_def errOf_def)

theorem redomained_failure_is_forgotten_witness:
  "\<exists>s1 s2. (\<exists>x. syncWildcard spStuckEnv (spOpts True False) spConfig spMoved spSyncer = (x, s1)) \<and>
     (\<exists>r. retireWildcards spStuckEnv (spOpts True False) spConfig [(''web'', spOld)] s1 = ([r], s2) \<and>
        haStatus (hd (erHerd r)) = HerdManual) \<and>
     spOld \<notin> ran (map_of (ssWildcards (syState s2)))"
proof -
  let ?o = "spOpts True False"
  obtain nt st where pn: "proxyNote spStuckEnv ?o spMoved (syState spSyncer) = (nt, st)"
    by (cases "proxyNote spStuckEnv ?o spMoved (syState spSyncer)")
  obtain a s0 where wa: "wildcardAction spStuckEnv ?o spMoved (spSyncer\<lparr>syState := st\<rparr>) = ((a, []), s0)"
    "haStatus a = HerdDone" "clConfigDir (syCli s0) = ''/h''"
    using sp_moved[of "spSyncer\<lparr>syState := st\<rparr>"] by (auto simp: spSyncer_def newCLI_def)
  have off: "\<not> herdOff ?o spMoved" by (simp add: herdOff_def herdQuiet_def sp_fields)
  obtain res note1 s1 where sw: "syncWildcard spStuckEnv ?o spConfig spMoved spSyncer = ((res, note1), s1)"
    by (metis prod.exhaust)
  have done_new: "haStatus (hd (erHerd res)) = HerdDone" "clConfigDir (syCli s1) = ''/h''"
    using sw off pn wa by (auto simp: syncWildcard_def Let_def)
  let ?s2 = "s1\<lparr>syState := (syState s1)\<lparr>ssProxyNotes := []\<rparr>\<rparr>"
  obtain b s3 where ua: "unproxyAction spStuckEnv ?o True (emptyProject\<lparr>pName := ''web'',
       pPublicURL := ''https://'' @ ''old.test'', pSupervisorPort := 4000\<rparr>) ?s2 = (b, s3)" "haStatus b = HerdManual"
    using sp_stuck[of ?s2 "''https://'' @ ''old.test''"] done_new by auto
  obtain r s4 where rw: "retireWildcards spStuckEnv ?o spConfig [(''web'', spOld)] s1 = ([r], s4)"
      "haStatus (hd (erHerd r)) = HerdManual"
    using ua by (simp add: retireWildcards_def Let_def spConfig_live retireStep_def retireOne_def spOld_def)
  have only: "n = dName spMoved" if "map_of (ssWildcards (syState spSyncer)) n = Some spOld" for n
    using that by (simp add: spSyncer_def sp_fields split: if_splits)
  have dom: "dBaseDomain spMoved \<noteq> wdBaseDomain spOld" by (simp add: sp_fields spOld_def)
  have "spOld \<notin> ran (map_of (ssWildcards (syState s4)))"
    using redomained_failure_is_forgotten[OF sw off done_new(1) dom, of "[r]" s4 r] rw only
    by (simp add: sp_fields)
  with sw rw show ?thesis by blast
qed

end
