(* ===== verification/DurationText.thy ===== *)
theory DurationText
  imports GoLib
begin

text \<open>
  The text form of a \<open>time.Duration\<close>: \<open>String\<close>, which the client of the control API puts into a lease's
  request, and \<open>ParseDuration\<close>, with which the server (and the flag package) reads it. Durations are
  integers of nanoseconds; the range of \<open>int64\<close> is checked where the code checks it. A fraction is
  evaluated exactly, the library evaluates it in \<open>float64\<close>: the two agree on every fraction of a second
  that \<open>String\<close> writes.
\<close>

section \<open>String\<close>

text \<open>\<open>fmtFrac\<close>: the \<open>prec\<close> low digits without trailing zeros, behind a point; and the rest.\<close>

fun fracDigits :: "nat \<Rightarrow> nat \<Rightarrow> string" where
  "fracDigits 0 v = []"
| "fracDigits (Suc prec) v =
     (let rest = fracDigits prec (v mod 10 ^ prec) in digitChar (v div 10 ^ prec mod 10) # rest)"

definition trimZeros :: "string \<Rightarrow> string" where
  "trimZeros s = rev (dropWhile (\<lambda>c. c = CHR ''0'') (rev s))"

definition fmtFrac :: "nat \<Rightarrow> nat \<Rightarrow> string" where
  "fmtFrac v prec =
     (let ds = trimZeros (fracDigits prec (v mod 10 ^ prec)) in if ds = [] then [] else CHR ''.'' # ds)"

definition microSign :: string where "microSign = [CHR 0xC2, CHR 0xB5]"

definition fmtUnits :: "nat \<Rightarrow> nat \<Rightarrow> string" where
  "fmtUnits u prec = showNat (u div 10 ^ prec) @ fmtFrac u prec"

definition durationAbs :: "nat \<Rightarrow> string" where
  "durationAbs u =
     (if u = 0 then ''0s''
      else if u < 10 ^ 3 then showNat u @ ''ns''
      else if u < 10 ^ 6 then fmtUnits u 3 @ microSign @ ''s''
      else if u < 10 ^ 9 then fmtUnits u 6 @ ''ms''
      else
        (let s = u div 10 ^ 9; m = s div 60; h = m div 60 in
         (if 0 < h then showNat h @ ''h'' else []) @
         (if 0 < m then showNat (m mod 60) @ ''m'' else []) @
         showNat (s mod 60) @ fmtFrac u 9 @ ''s''))"

definition DurationString :: "duration \<Rightarrow> string" where
  "DurationString d = (if d < 0 then CHR ''-'' # durationAbs (nat (- d)) else durationAbs (nat d))"

section \<open>ParseDuration\<close>

definition digitByte :: "char \<Rightarrow> bool" where "digitByte c \<longleftrightarrow> digitVal c \<noteq> None"

definition digitsVal :: "string \<Rightarrow> nat" where
  "digitsVal s = foldl (\<lambda>acc c. 10 * acc + (case digitVal c of Some d \<Rightarrow> d | None \<Rightarrow> 0)) 0 s"

definition unitMap :: "string \<Rightarrow> nat option" where
  "unitMap u =
     (if u = ''ns'' then Some 1
      else if u = ''us'' \<or> u = microSign @ ''s'' \<or> u = [CHR 0xCE, CHR 0xBC] @ ''s'' then Some (10 ^ 3)
      else if u = ''ms'' then Some (10 ^ 6)
      else if u = ''s'' then Some (10 ^ 9)
      else if u = ''m'' then Some (60 * 10 ^ 9)
      else if u = ''h'' then Some (3600 * 10 ^ 9)
      else None)"

text \<open>One number with its unit: its value and what follows. \<open>None\<close> is an error.\<close>

definition parseTerm :: "string \<Rightarrow> (nat \<times> string) option" where
  "parseTerm s =
     (let pre = takeWhile digitByte s; s1 = dropWhile digitByte s;
          (post, s2) = (case s1 of
             c # r \<Rightarrow> if c = CHR ''.'' then (takeWhile digitByte r, dropWhile digitByte r) else ([], s1)
           | [] \<Rightarrow> ([], s1));
          stop = (\<lambda>c. c = CHR ''.'' \<or> digitByte c);
          u = takeWhile (Not \<circ> stop) s2
      in if digitsVal pre > 2 ^ 63 \<or> (pre = [] \<and> post = []) \<or> u = [] then None
         else case unitMap u of
           None \<Rightarrow> None
         | Some unit \<Rightarrow>
             if digitsVal pre > 2 ^ 63 div unit then None
             else let v = digitsVal pre * unit + digitsVal post * unit div 10 ^ length post
                  in if v > 2 ^ 63 then None else Some (v, dropWhile (Not \<circ> stop) s2))"

lemma parseTerm_shorter: "parseTerm s = Some (v, r) \<Longrightarrow> length r < length s"
proof -
  assume p: "parseTerm s = Some (v, r)"
  obtain s2 where s2: "length s2 \<le> length s" "takeWhile (Not \<circ> (\<lambda>c. c = CHR ''.'' \<or> digitByte c)) s2 \<noteq> []"
    "r = dropWhile (Not \<circ> (\<lambda>c. c = CHR ''.'' \<or> digitByte c)) s2"
  proof -
    have l: "length (dropWhile digitByte t) \<le> length t" for t by (rule length_dropWhile_le)
    show thesis
    proof (cases "dropWhile digitByte s")
      case Nil
      with p show ?thesis by (auto simp: parseTerm_def Let_def split: if_splits option.splits)
    next
      case (Cons c t)
      with l[of s] l[of t] p that[of "if c = CHR ''.'' then dropWhile digitByte t else c # t"] show ?thesis
        by (auto simp: parseTerm_def Let_def split: if_splits option.splits)
    qed
  qed
  then have "length r < length s2"
    by (metis append_Nil2 length_append length_greater_0_conv less_add_same_cancel2 takeWhile_dropWhile_id)
  with s2(1) show ?thesis by simp
qed

function parseTerms :: "nat \<Rightarrow> string \<Rightarrow> nat option" where
  "parseTerms d s =
     (if s = [] then Some d
      else if \<not> (digitByte (hd s) \<or> hd s = CHR ''.'') then None
      else case parseTerm s of
        None \<Rightarrow> None
      | Some (v, r) \<Rightarrow> if d + v > 2 ^ 63 then None else parseTerms (d + v) r)"
  by pat_completeness auto
termination
  by (relation "measure (\<lambda>(d, s). length s)") (auto simp: parseTerm_shorter)

declare parseTerms.simps [simp del]

definition ParseDuration :: "string \<Rightarrow> duration option" where
  "ParseDuration s =
     (let (neg, r) = (case s of
        c # t \<Rightarrow> if c = CHR ''-'' \<or> c = CHR ''+'' then (c = CHR ''-'', t) else (False, s)
      | [] \<Rightarrow> (False, s))
      in if r = ''0'' then Some 0
         else if r = [] then None
         else case parseTerms 0 r of
           None \<Rightarrow> None
         | Some d \<Rightarrow> if neg then Some (- int d) else if d < 2 ^ 63 then Some (int d) else None)"

section \<open>Reading back what was written\<close>

definition charVal :: "char \<Rightarrow> nat" where
  "charVal c = (case digitVal c of Some d \<Rightarrow> d | None \<Rightarrow> 0)"

lemma digitsVal_simps: "digitsVal [] = 0" "digitsVal (s @ [c]) = 10 * digitsVal s + charVal c"
  by (simp_all add: digitsVal_def charVal_def)

lemma digitsVal_append: "digitsVal (s @ t) = digitsVal s * 10 ^ length t + digitsVal t"
proof (induction t rule: rev_induct)
  case (snoc c t)
  have "digitsVal (s @ t @ [c]) = 10 * digitsVal (s @ t) + charVal c"
    using digitsVal_simps(2)[of "s @ t"] by simp
  with snoc show ?case by (simp add: digitsVal_simps(2) algebra_simps)
qed (simp add: digitsVal_simps)

lemma digitsVal_single: "d < 10 \<Longrightarrow> digitsVal [digitChar d] = d"
  by (simp add: digitsVal_def digitVal_digitChar)

lemma digitByte_digitChar: "d < 10 \<Longrightarrow> digitByte (digitChar d)"
  by (simp add: digitByte_def digitVal_digitChar)

lemma showNat_value: "digitsVal (showNat n) = n"
proof (induction n rule: showNat.induct)
  case (1 n)
  then show ?case
    by (cases "n < 10") (subst showNat.simps, simp add: digitsVal_append digitsVal_single)+
qed

lemma showNat_decimal: "c \<in> set (showNat n) \<Longrightarrow> digitByte c"
proof (induction n rule: showNat.induct)
  case (1 n)
  then show ?case
    by (cases "n < 10") (subst (asm) (2) showNat.simps, auto simp: digitByte_digitChar)+
qed

lemma fracDigits_facts:
  "length (fracDigits prec v) = prec" "c \<in> set (fracDigits prec v) \<Longrightarrow> digitByte c"
  by (induction prec v rule: fracDigits.induct) (auto simp: Let_def digitByte_digitChar)

lemma fracDigits_value: "v < 10 ^ prec \<Longrightarrow> digitsVal (fracDigits prec v) = v"
proof (induction prec arbitrary: v)
  case (Suc prec)
  let ?q = "v div 10 ^ prec" and ?r = "v mod 10 ^ prec"
  have d: "?q < 10" using Suc.prems by (simp add: less_mult_imp_div_less)
  have r: "digitsVal (fracDigits prec ?r) = ?r" by (rule Suc.IH) simp
  have f: "fracDigits (Suc prec) v = [digitChar ?q] @ fracDigits prec ?r"
    using d by (simp add: Let_def)
  have "digitsVal (fracDigits (Suc prec) v) = ?q * 10 ^ prec + ?r"
    unfolding f digitsVal_append fracDigits_facts(1) r digitsVal_single[OF d] ..
  then show ?case by (simp only: div_mult_mod_eq)
qed (simp add: digitsVal_def)

lemma trimZeros_split: "\<exists>k. s = trimZeros s @ replicate k (CHR ''0'')"
proof -
  have "rev s = takeWhile (\<lambda>c. c = CHR ''0'') (rev s) @ dropWhile (\<lambda>c. c = CHR ''0'') (rev s)" by simp
  then have "s = trimZeros s @ rev (takeWhile (\<lambda>c. c = CHR ''0'') (rev s))"
    by (metis rev_append rev_rev_ident trimZeros_def)
  moreover have "rev (takeWhile (\<lambda>c. c = CHR ''0'') (rev s)) =
      replicate (length (takeWhile (\<lambda>c. c = CHR ''0'') (rev s))) (CHR ''0'')"
    by (intro replicate_eqI) (auto dest: set_takeWhileD)
  ultimately show ?thesis by metis
qed

lemma digitsVal_zeros: "digitsVal (replicate k (CHR ''0'')) = 0"
proof (induction k)
  case (Suc k)
  have "digitVal (CHR ''0'') = Some 0" by (simp add: digitVal_def)
  with Suc show ?case by (simp add: digitsVal_def)
qed (simp add: digitsVal_def)

text \<open>What the trimmed fraction contributes in a unit of \<open>10 ^ prec\<close>: the digits before trimming.\<close>

lemma trimmed_value:
  assumes "v < 10 ^ prec"
  shows "digitsVal (trimZeros (fracDigits prec v)) * 10 ^ prec div 10 ^ length (trimZeros (fracDigits prec v)) = v"
proof -
  let ?t = "trimZeros (fracDigits prec v)"
  obtain k where k: "fracDigits prec v = ?t @ replicate k (CHR ''0'')" using trimZeros_split by blast
  then have l: "prec = length ?t + k" by (metis fracDigits_facts(1) length_append length_replicate)
  have "digitsVal ?t * 10 ^ k = v"
    using arg_cong[OF k, of digitsVal] fracDigits_value[OF assms] by (simp add: digitsVal_append digitsVal_zeros)
  then have "digitsVal ?t * 10 ^ prec = v * 10 ^ length ?t"
    by (metis l mult.assoc mult.commute power_add)
  then show ?thesis by simp
qed

lemma trimmed_digits: "c \<in> set (trimZeros (fracDigits prec v)) \<Longrightarrow> digitByte c"
  by (metis Un_iff fracDigits_facts(2) set_append trimZeros_split)

lemma takeWhile_exact:
  "(\<And>c. c \<in> set a \<Longrightarrow> P c) \<Longrightarrow> b = [] \<or> \<not> P (hd b) \<Longrightarrow> takeWhile P (a @ b) = a \<and> dropWhile P (a @ b) = b"
  by (cases b) (auto simp: takeWhile_append dropWhile_append)

lemma dot_not_digit: "\<not> digitByte (CHR ''.'')"
  by (simp add: digitByte_def digitVal_def)

lemma parseTerm_written:
  assumes pre: "pre \<noteq> []" "\<And>c. c \<in> set pre \<Longrightarrow> digitByte c" and ds: "\<And>c. c \<in> set ds \<Longrightarrow> digitByte c"
    and ut: "ut \<noteq> []" "\<And>c. c \<in> set ut \<Longrightarrow> c \<noteq> CHR ''.'' \<and> \<not> digitByte c"
    and rest: "rest = [] \<or> digitByte (hd rest)"
    and unit: "unitMap ut = Some k" "digitsVal pre \<le> 2 ^ 63 div k" "digitsVal pre \<le> 2 ^ 63"
    and v: "v = digitsVal pre * k + digitsVal ds * k div 10 ^ length ds" "v \<le> 2 ^ 63"
  shows "parseTerm (pre @ (if ds = [] then [] else CHR ''.'' # ds) @ ut @ rest) = Some (v, rest)"
proof -
  let ?tail = "ut @ rest" and ?frac = "if ds = [] then [] else CHR ''.'' # ds"
  have hd_ut: "hd ?tail = hd ut" "?tail \<noteq> []" "hd ut \<in> set ut" using ut(1) by auto
  then have nd: "\<not> digitByte (hd ?tail)" "hd ?tail \<noteq> CHR ''.''" using ut(2) by auto
  have a: "takeWhile digitByte (pre @ ?frac @ ?tail) = pre" "dropWhile digitByte (pre @ ?frac @ ?tail) = ?frac @ ?tail"
    using takeWhile_exact[of pre digitByte "?frac @ ?tail"] pre(2) nd dot_not_digit by auto
  have b: "takeWhile digitByte (ds @ ?tail) = ds" "dropWhile digitByte (ds @ ?tail) = ?tail"
    using takeWhile_exact[of ds digitByte ?tail] ds nd by auto
  have c: "takeWhile (Not \<circ> (\<lambda>c. c = CHR ''.'' \<or> digitByte c)) ?tail = ut"
    "dropWhile (Not \<circ> (\<lambda>c. c = CHR ''.'' \<or> digitByte c)) ?tail = rest"
    using takeWhile_exact[of ut "Not \<circ> (\<lambda>c. c = CHR ''.'' \<or> digitByte c)" rest] ut(2) rest by auto
  obtain x t where x: "?tail = x # t" "x \<noteq> CHR ''.''" using hd_ut nd by (cases ?tail) auto
  have s: "(case ?frac @ ?tail of
      c # r \<Rightarrow> if c = CHR ''.'' then (takeWhile digitByte r, dropWhile digitByte r) else ([], ?frac @ ?tail)
    | [] \<Rightarrow> ([], ?frac @ ?tail)) = (ds, ?tail)"
    using x b by auto
  show ?thesis
    unfolding parseTerm_def Let_def a s prod.case c using pre(1) ut(1) unit v by simp
qed

lemma parseTerms_one:
  assumes "parseTerm s = Some (v, r)" "digitByte (hd s)" "s \<noteq> []" "d + v \<le> 2 ^ 63"
  shows "parseTerms d s = parseTerms (d + v) r"
  using assms by (subst parseTerms.simps) simp

lemma showNat_hd: "digitByte (hd (showNat n))" "digitByte (hd (showNat n @ s))"
  using showNat_decimal[of "hd (showNat n)" n] by simp_all

text \<open>A whole number of a unit, and a number with a fraction of \<open>prec\<close> digits.\<close>

lemma parse_whole:
  assumes "ut \<noteq> []" "\<And>c. c \<in> set ut \<Longrightarrow> c \<noteq> CHR ''.'' \<and> \<not> digitByte c" "rest = [] \<or> digitByte (hd rest)"
    and "unitMap ut = Some k" "0 < k" "d + n * k \<le> 2 ^ 63"
  shows "parseTerms d (showNat n @ ut @ rest) = parseTerms (d + n * k) rest"
proof (rule parseTerms_one)
  have n: "n \<le> 2 ^ 63 div k" "n \<le> 2 ^ 63"
    using assms(5,6) by (auto simp: less_eq_div_iff_mult_less_eq intro: order_trans[of n "n * k"])
  show "parseTerm (showNat n @ ut @ rest) = Some (n * k, rest)"
    using parseTerm_written[of "showNat n" "[]" ut rest k "n * k"] assms n showNat_decimal
    by (simp add: showNat_value digitsVal_def[of "[]"])
qed (use assms in \<open>simp_all add: showNat_hd\<close>)

lemma parse_fraction:
  assumes "ut \<noteq> []" "\<And>c. c \<in> set ut \<Longrightarrow> c \<noteq> CHR ''.'' \<and> \<not> digitByte c" "rest = [] \<or> digitByte (hd rest)"
    and "unitMap ut = Some (10 ^ prec)" "d + (n * 10 ^ prec + v mod 10 ^ prec) \<le> 2 ^ 63"
  shows "parseTerms d (showNat n @ fmtFrac v prec @ ut @ rest) =
    parseTerms (d + (n * 10 ^ prec + v mod 10 ^ prec)) rest"
proof (rule parseTerms_one)
  let ?ds = "trimZeros (fracDigits prec (v mod 10 ^ prec))"
  have n: "n \<le> 2 ^ 63 div 10 ^ prec" "n \<le> 2 ^ 63"
    using assms(5) by (auto simp: less_eq_div_iff_mult_less_eq intro: order_trans[of n "n * 10 ^ prec"])
  have v: "digitsVal ?ds * 10 ^ prec div 10 ^ length ?ds = v mod 10 ^ prec"
    by (rule trimmed_value) simp
  have f: "fmtFrac v prec = (if ?ds = [] then [] else CHR ''.'' # ?ds)" by (simp add: fmtFrac_def Let_def)
  show "parseTerm (showNat n @ fmtFrac v prec @ ut @ rest) = Some (n * 10 ^ prec + v mod 10 ^ prec, rest)"
    unfolding f
    by (rule parseTerm_written) (use assms n v in \<open>auto simp: showNat_value dest: showNat_decimal trimmed_digits\<close>)
qed (use assms in \<open>simp_all add: showNat_hd\<close>)

lemma unit_letters:
  "c \<in> set ''ns'' \<Longrightarrow> c \<noteq> CHR ''.'' \<and> \<not> digitByte c" "c \<in> set (microSign @ ''s'') \<Longrightarrow> c \<noteq> CHR ''.'' \<and> \<not> digitByte c"
  "c \<in> set ''ms'' \<Longrightarrow> c \<noteq> CHR ''.'' \<and> \<not> digitByte c" "c \<in> set ''s'' \<Longrightarrow> c \<noteq> CHR ''.'' \<and> \<not> digitByte c"
  "c \<in> set ''m'' \<Longrightarrow> c \<noteq> CHR ''.'' \<and> \<not> digitByte c" "c \<in> set ''h'' \<Longrightarrow> c \<noteq> CHR ''.'' \<and> \<not> digitByte c"
  by (auto simp: microSign_def digitByte_def digitVal_def)

lemma unitMap_simps:
  "unitMap ''ns'' = Some 1" "unitMap (microSign @ ''s'') = Some (10 ^ 3)" "unitMap ''ms'' = Some (10 ^ 6)"
  "unitMap ''s'' = Some (10 ^ 9)" "unitMap ''m'' = Some (60 * 10 ^ 9)" "unitMap ''h'' = Some (3600 * 10 ^ 9)"
  by (simp_all add: unitMap_def microSign_def)

lemma parseTerms_end: "parseTerms d [] = Some d"
  by (subst parseTerms.simps) simp

lemma div_mod_scale: "(m div 60 :: nat) * (60 * k) + m mod 60 * k = m * k"
  by (metis add_mult_distrib div_mult_mod_eq mult.assoc)

lemma parseTerms_durationAbs:
  assumes u: "u \<le> 2 ^ 63"
  shows "parseTerms 0 (durationAbs u) = Some u"
proof (cases "u = 0")
  case True
  have "showNat 0 = ''0''" by code_simp
  then have "durationAbs 0 = showNat 0 @ ''s''" by (simp add: durationAbs_def)
  with True show ?thesis
    using parse_whole[of "''s''" "[]" "10 ^ 9" 0 0] unit_letters(4) by (simp add: unitMap_simps parseTerms_end)
next
  case False
  consider "u < 10 ^ 3" | "10 ^ 3 \<le> u" "u < 10 ^ 6" | "10 ^ 6 \<le> u" "u < 10 ^ 9" | "10 ^ 9 \<le> u" by linarith
  then show ?thesis
  proof cases
    case 1
    then show ?thesis
      using parse_whole[of "''ns''" "[]" 1 0 u] unit_letters(1) u False
      by (simp add: durationAbs_def unitMap_simps parseTerms_end)
  next
    case 2
    then show ?thesis
      using parse_fraction[of "microSign @ ''s''" "[]" 3 0 "u div 10 ^ 3" u] unit_letters(2) u False
      by (simp add: durationAbs_def fmtUnits_def unitMap_simps parseTerms_end)
  next
    case 3
    then show ?thesis
      using parse_fraction[of "''ms''" "[]" 6 0 "u div 10 ^ 6" u] unit_letters(3) u False
      by (simp add: durationAbs_def fmtUnits_def unitMap_simps parseTerms_end)
  next
    case 4
    define s where "s = u div 10 ^ 9"
    define m where "m = s div 60"
    define h where "h = m div 60"
    have hm: "h * (3600 * 10 ^ 9) + m mod 60 * (60 * 10 ^ 9) = m * (60 * 10 ^ 9)"
      using div_mod_scale[of m "60 * 10 ^ 9"] by (simp add: h_def)
    have ms: "m * (60 * 10 ^ 9) + s mod 60 * 10 ^ 9 = s * 10 ^ 9"
      using div_mod_scale[of s "10 ^ 9"] by (simp add: m_def)
    have su: "s * 10 ^ 9 + u mod 10 ^ 9 = u" unfolding s_def by (rule div_mult_mod_eq)
    have last: "parseTerms (m * (60 * 10 ^ 9)) (showNat (s mod 60) @ fmtFrac u 9 @ ''s'') = Some u"
      using parse_fraction[of "''s''" "[]" 9 "m * (60 * 10 ^ 9)" "s mod 60" u] unit_letters(4) ms su u
      by (simp add: unitMap_simps parseTerms_end)
    have mid: "parseTerms (h * (3600 * 10 ^ 9))
        ((if 0 < m then showNat (m mod 60) @ ''m'' else []) @ showNat (s mod 60) @ fmtFrac u 9 @ ''s'') = Some u"
    proof (cases "0 < m")
      case True
      then show ?thesis
        using parse_whole[of "''m''" "showNat (s mod 60) @ fmtFrac u 9 @ ''s''" "60 * 10 ^ 9" "h * (3600 * 10 ^ 9)" "m mod 60"]
          unit_letters(5) showNat_hd last hm ms su u
        by (simp add: unitMap_simps)
    next
      case False
      with last show ?thesis by (simp add: h_def)
    qed
    have "parseTerms 0 ((if 0 < h then showNat h @ ''h'' else []) @
        (if 0 < m then showNat (m mod 60) @ ''m'' else []) @ showNat (s mod 60) @ fmtFrac u 9 @ ''s'') = Some u"
    proof (cases "0 < h")
      case True
      then have "0 < m" by (simp add: h_def)
      with True show ?thesis
        using parse_whole[of "''h''" "showNat (m mod 60) @ ''m'' @ showNat (s mod 60) @ fmtFrac u 9 @ ''s''" "3600 * 10 ^ 9" 0 h]
          unit_letters(6) showNat_hd mid hm ms su u
        by (simp add: unitMap_simps)
    next
      case False
      with mid show ?thesis by simp
    qed
    moreover have "durationAbs u = (if 0 < h then showNat h @ ''h'' else []) @
        (if 0 < m then showNat (m mod 60) @ ''m'' else []) @ showNat (s mod 60) @ fmtFrac u 9 @ ''s''"
      unfolding durationAbs_def Let_def h_def m_def s_def using 4 by simp
    ultimately show ?thesis by simp
  qed
qed

lemma durationAbs_shape: "\<exists>k x. durationAbs u = showNat k @ x \<and> x \<noteq> []"
proof -
  have z: "showNat 0 = ''0''" by code_simp
  consider "u = 0" | "0 < u" "u < 10 ^ 3" | "10 ^ 3 \<le> u" "u < 10 ^ 6" | "10 ^ 6 \<le> u" "u < 10 ^ 9" | "10 ^ 9 \<le> u"
    by linarith
  then show ?thesis
  proof cases
    case 1
    then show ?thesis by (intro exI[of _ 0] exI[of _ "''s''"]) (simp add: durationAbs_def z)
  next
    case 2
    then show ?thesis by (intro exI[of _ u] exI[of _ "''ns''"]) (simp add: durationAbs_def)
  next
    case 3
    then show ?thesis by (simp add: durationAbs_def fmtUnits_def) blast
  next
    case 4
    then show ?thesis by (simp add: durationAbs_def fmtUnits_def) blast
  next
    case 5
    then show ?thesis by (simp add: durationAbs_def Let_def) blast
  qed
qed

lemma ParseDuration_number:
  assumes "parseTerms 0 r = Some n" "r = c # t" "digitByte c" "r \<noteq> ''0''"
  shows "ParseDuration (CHR ''-'' # r) = Some (- int n) \<and> (n < 2 ^ 63 \<longrightarrow> ParseDuration r = Some (int n))"
proof -
  have "c \<noteq> CHR ''-''" "c \<noteq> CHR ''+''" using assms(3) by (auto simp: digitByte_def digitVal_def)
  with assms show ?thesis by (auto simp: ParseDuration_def)
qed

text \<open>
  \<open>ParseDuration\<close> reads back every duration that \<open>String\<close> writes.
\<close>

theorem duration_text_roundtrip:
  assumes "- (2 ^ 63) \<le> d" "d < 2 ^ 63"
  shows "ParseDuration (DurationString d) = Some d"
proof -
  obtain k x where s: "durationAbs (nat \<bar>d\<bar>) = showNat k @ x" "x \<noteq> []" using durationAbs_shape by blast
  have nz: "durationAbs (nat \<bar>d\<bar>) \<noteq> ''0''"
    using s by (cases "showNat k") (auto simp: append_eq_Cons_conv)
  obtain c t where c: "durationAbs (nat \<bar>d\<bar>) = c # t" "digitByte c"
    using s showNat_hd(1)[of k] by (cases "showNat k") auto
  have p: "parseTerms 0 (durationAbs (nat \<bar>d\<bar>)) = Some (nat \<bar>d\<bar>)"
    by (rule parseTerms_durationAbs) (use assms in \<open>simp add: nat_le_iff abs_le_iff\<close>)
  have neg: "ParseDuration (CHR ''-'' # durationAbs (nat \<bar>d\<bar>)) = Some (- int (nat \<bar>d\<bar>))"
    and pos: "d < 2 ^ 63 \<Longrightarrow> 0 \<le> d \<Longrightarrow> ParseDuration (durationAbs (nat \<bar>d\<bar>)) = Some (int (nat \<bar>d\<bar>))"
    using ParseDuration_number[OF p c nz] by (auto simp: nat_less_iff)
  show ?thesis
  proof (cases "d < 0")
    case True
    with neg show ?thesis by (simp add: DurationString_def abs_if)
  next
    case False
    with pos assms(2) show ?thesis by (simp add: DurationString_def abs_if)
  qed
qed

end
