(* ===== verification/Flags.thy ===== *)
theory Flags
  imports DurationText
begin

text \<open>
  The \<open>flag\<close> package of the standard library, as the command line uses it: a set of named flags of four
  kinds, parsed up to the first argument that is no flag. Its messages are values.
\<close>

section \<open>Values\<close>

definition ParseBool :: "string \<Rightarrow> bool option" where
  "ParseBool s =
     (if s \<in> {''1'', ''t'', ''T'', ''TRUE'', ''true'', ''True''} then Some True
      else if s \<in> {''0'', ''f'', ''F'', ''FALSE'', ''false'', ''False''} then Some False
      else None)"

text \<open>\<open>strconv.ParseInt\<close> with base 0 and 64 bits: a sign, a prefix that names the base, digits and underscores.\<close>

definition baseDigit :: "char \<Rightarrow> nat" where
  "baseDigit c =
     (let n = of_char (lowerByte c) in
      if 48 \<le> n \<and> n \<le> 57 then n - 48 else if 97 \<le> n \<and> n \<le> 122 then n - 87 else 36)"

fun readBase :: "nat \<Rightarrow> nat \<Rightarrow> string \<Rightarrow> nat option" where
  "readBase base acc [] = Some acc"
| "readBase base acc (c # s) =
     (if c = CHR ''_'' then readBase base acc s
      else if baseDigit c < base then readBase base (acc * base + baseDigit c) s
      else None)"

text \<open>\<open>underscoreOK\<close> after the sign and the prefix: \<open>prev\<close> is what came last.\<close>

datatype lastSeen = AtStart | SeenDigit | SeenUnderscore | SeenOther

fun underscores :: "bool \<Rightarrow> lastSeen \<Rightarrow> string \<Rightarrow> bool" where
  "underscores hex prev [] \<longleftrightarrow> prev \<noteq> SeenUnderscore"
| "underscores hex prev (c # s) \<longleftrightarrow>
     (if baseDigit c < 10 \<or> (hex \<and> baseDigit c < 16) then underscores hex SeenDigit s
      else if c = CHR ''_'' then prev = SeenDigit \<and> underscores hex SeenUnderscore s
      else prev \<noteq> SeenUnderscore \<and> underscores hex SeenOther s)"

definition basePrefix :: "string \<Rightarrow> (nat \<times> bool) \<times> string" where
  "basePrefix s =
     (case s of
        z # x # r \<Rightarrow>
          if z = CHR ''0'' \<and> r \<noteq> [] \<and> lowerByte x = CHR ''b'' then ((2, True), r)
          else if z = CHR ''0'' \<and> r \<noteq> [] \<and> lowerByte x = CHR ''o'' then ((8, True), r)
          else if z = CHR ''0'' \<and> r \<noteq> [] \<and> lowerByte x = CHR ''x'' then ((16, True), r)
          else if z = CHR ''0'' then ((8, False), x # r)
          else ((10, False), s)
      | _ \<Rightarrow> ((10, False), s))"

definition parseMagnitude :: "string \<Rightarrow> nat option" where
  "parseMagnitude s =
     (if s = [] then None
      else case basePrefix s of ((base, lettered), r) \<Rightarrow>
        (case readBase base 0 r of
           None \<Rightarrow> None
         | Some n \<Rightarrow>
             if CHR ''_'' \<in> set s \<and> \<not> underscores (base = 16) (if lettered then SeenDigit else AtStart)
                  (if lettered then r else s)
             then None else Some n))"

definition ParseInt0 :: "string \<Rightarrow> int option" where
  "ParseInt0 s =
     (case s of
        [] \<Rightarrow> None
      | c # r \<Rightarrow>
          if c = CHR ''-'' then (case parseMagnitude r of Some n \<Rightarrow> if n \<le> 2 ^ 63 then Some (- int n) else None | None \<Rightarrow> None)
          else (case parseMagnitude (if c = CHR ''+'' then r else s) of
                  Some n \<Rightarrow> if n < 2 ^ 63 then Some (int n) else None | None \<Rightarrow> None))"

section \<open>Flags\<close>

datatype flagKind = StringFlag | BoolFlag | IntFlag | DurationFlag

datatype flagValue = StringValue string | BoolValue bool | IntValue int | DurationValue duration

datatype flagError =
    BadSyntax string
  | HelpRequested
  | NotDefined string
  | NeedsArgument string
  | InvalidValue string string

definition setFlag :: "flagKind \<Rightarrow> string \<Rightarrow> flagValue option" where
  "setFlag kind v =
     (case kind of
        StringFlag \<Rightarrow> Some (StringValue v)
      | BoolFlag \<Rightarrow> map_option BoolValue (ParseBool v)
      | IntFlag \<Rightarrow> map_option IntValue (ParseInt0 v)
      | DurationFlag \<Rightarrow> map_option DurationValue (ParseDuration v))"

text \<open>One argument: the end of the flags, before or after it, or a flag with the value attached to it.\<close>

datatype argKind = Positional | Terminator | Malformed | FlagArg string "string option"

definition argOf :: "string \<Rightarrow> argKind" where
  "argOf s =
     (if length s < 2 \<or> hd s \<noteq> CHR ''-'' then Positional
      else if s = ''--'' then Terminator
      else
        let name = (if s ! 1 = CHR ''-'' then drop 2 s else drop 1 s) in
        if name = [] \<or> hd name = CHR ''-'' \<or> hd name = CHR ''='' then Malformed
        else (case cutByte (CHR ''='') name of
                Some (n, v) \<Rightarrow> FlagArg n (Some v)
              | None \<Rightarrow> FlagArg name None))"

type_synonym flagSpec = "(string \<times> flagKind) list"
type_synonym flagValues = "(string, flagValue) gomap"

definition storeFlag :: "string \<Rightarrow> flagKind \<Rightarrow> string \<Rightarrow> flagValues \<Rightarrow> flagError + flagValues" where
  "storeFlag name kind v vals =
     (case setFlag kind v of None \<Rightarrow> Inl (InvalidValue v name) | Some x \<Rightarrow> Inr (mapPut name x vals))"

text \<open>\<open>Parse\<close>: the flags set, and the arguments after them.\<close>

fun parseFlags :: "flagSpec \<Rightarrow> flagValues \<Rightarrow> string list \<Rightarrow> flagError + flagValues \<times> string list" where
  "parseFlags spec vals [] = Inr (vals, [])"
| "parseFlags spec vals (s # args) =
     (case argOf s of
        Positional \<Rightarrow> Inr (vals, s # args)
      | Terminator \<Rightarrow> Inr (vals, args)
      | Malformed \<Rightarrow> Inl (BadSyntax s)
      | FlagArg name attached \<Rightarrow>
          (case map_of spec name of
             None \<Rightarrow> Inl (if name = ''help'' \<or> name = ''h'' then HelpRequested else NotDefined name)
           | Some kind \<Rightarrow>
               (case attached of
                  Some v \<Rightarrow>
                    (case storeFlag name kind v vals of
                       Inl e \<Rightarrow> Inl e
                     | Inr vals1 \<Rightarrow> parseFlags spec vals1 args)
                | None \<Rightarrow>
                    if kind = BoolFlag then parseFlags spec (mapPut name (BoolValue True) vals) args
                    else (case args of
                            [] \<Rightarrow> Inl (NeedsArgument name)
                          | v # rest \<Rightarrow>
                              (case storeFlag name kind v vals of
                                 Inl e \<Rightarrow> Inl e
                               | Inr vals1 \<Rightarrow> parseFlags spec vals1 rest)))))"

text \<open>The variable of a flag, with its default.\<close>

definition stringFlag :: "string \<Rightarrow> flagValues \<Rightarrow> string" where
  "stringFlag name vals = (case map_of vals name of Some (StringValue v) \<Rightarrow> v | _ \<Rightarrow> [])"

definition boolFlag :: "string \<Rightarrow> flagValues \<Rightarrow> bool" where
  "boolFlag name vals = (case map_of vals name of Some (BoolValue b) \<Rightarrow> b | _ \<Rightarrow> False)"

definition intFlag :: "string \<Rightarrow> int \<Rightarrow> flagValues \<Rightarrow> int" where
  "intFlag name dflt vals = (case map_of vals name of Some (IntValue i) \<Rightarrow> i | _ \<Rightarrow> dflt)"

definition durationFlag :: "string \<Rightarrow> duration \<Rightarrow> flagValues \<Rightarrow> duration" where
  "durationFlag name dflt vals = (case map_of vals name of Some (DurationValue d) \<Rightarrow> d | _ \<Rightarrow> dflt)"

definition argAt :: "nat \<Rightarrow> string list \<Rightarrow> string" where
  "argAt i args = (if i < length args then args ! i else [])"

end
