(* ===== verification/ControlWire.thy ===== *)
theory ControlWire
  imports GoLib "HOL-Library.Monad_Syntax"
begin

text \<open>
  The messages of the control API (\<open>internal/control/control.go\<close>) and their JSON form: the structs as
  records, \<open>omitempty\<close> and \<open>omitzero\<close> as the tags have them, and decoding, which gives an absent field its
  zero value. JSON values are a tree; numbers of seconds (\<open>uptime_seconds\<close>, a \<open>float64\<close>) are kept as the
  duration they stand for. The text of a tree belongs to the codec of the transport (\<open>Control\<close>).
\<close>

section \<open>JSON values\<close>

datatype json =
    JString string
  | JInt int
  | JBool bool
  | JTime time
  | JSeconds duration
  | JList "json list"
  | JObject "(string \<times> json) list"

type_synonym fields = "(string \<times> json) list"

definition omitString :: "string \<Rightarrow> string \<Rightarrow> fields" where
  "omitString k s = (if s = [] then [] else [(k, JString s)])"

definition omitInt :: "string \<Rightarrow> int \<Rightarrow> fields" where
  "omitInt k i = (if i = 0 then [] else [(k, JInt i)])"

definition omitBool :: "string \<Rightarrow> bool \<Rightarrow> fields" where
  "omitBool k b = (if b then [(k, JBool True)] else [])"

definition omitTime :: "string \<Rightarrow> time \<Rightarrow> fields" where
  "omitTime k t = (if IsZero t then [] else [(k, JTime t)])"

definition omitSeconds :: "string \<Rightarrow> duration \<Rightarrow> fields" where
  "omitSeconds k d = (if d = 0 then [] else [(k, JSeconds d)])"

definition omitList :: "string \<Rightarrow> json list \<Rightarrow> fields" where
  "omitList k vs = (if vs = [] then [] else [(k, JList vs)])"

definition omitNil :: "string \<Rightarrow> json option \<Rightarrow> fields" where
  "omitNil k v = (case v of None \<Rightarrow> [] | Some j \<Rightarrow> [(k, j)])"

named_theorems omit_defs "the optional fields of an object"

lemmas [omit_defs] =
  omitString_def omitInt_def omitBool_def omitTime_def omitSeconds_def omitList_def omitNil_def

text \<open>Reading a field: \<open>None\<close> is a value of the wrong type.\<close>

definition getString :: "string \<Rightarrow> fields \<Rightarrow> string option" where
  "getString k fs = (case map_of fs k of None \<Rightarrow> Some [] | Some (JString s) \<Rightarrow> Some s | Some _ \<Rightarrow> None)"

definition getInt :: "string \<Rightarrow> fields \<Rightarrow> int option" where
  "getInt k fs = (case map_of fs k of None \<Rightarrow> Some 0 | Some (JInt i) \<Rightarrow> Some i | Some _ \<Rightarrow> None)"

definition getBool :: "string \<Rightarrow> fields \<Rightarrow> bool option" where
  "getBool k fs = (case map_of fs k of None \<Rightarrow> Some False | Some (JBool b) \<Rightarrow> Some b | Some _ \<Rightarrow> None)"

definition getTime :: "string \<Rightarrow> fields \<Rightarrow> time option" where
  "getTime k fs = (case map_of fs k of None \<Rightarrow> Some zeroTime | Some (JTime t) \<Rightarrow> Some t | Some _ \<Rightarrow> None)"

definition getSeconds :: "string \<Rightarrow> fields \<Rightarrow> duration option" where
  "getSeconds k fs = (case map_of fs k of None \<Rightarrow> Some 0 | Some (JSeconds d) \<Rightarrow> Some d | Some _ \<Rightarrow> None)"

fun allSome :: "'a option list \<Rightarrow> 'a list option" where
  "allSome [] = Some []"
| "allSome (None # xs) = None"
| "allSome (Some x # xs) = map_option ((#) x) (allSome xs)"

definition getList :: "(json \<Rightarrow> 'a option) \<Rightarrow> string \<Rightarrow> fields \<Rightarrow> 'a list option" where
  "getList f k fs =
     (case map_of fs k of None \<Rightarrow> Some [] | Some (JList vs) \<Rightarrow> allSome (map f vs) | Some _ \<Rightarrow> None)"

definition getPointer :: "(json \<Rightarrow> 'a option) \<Rightarrow> string \<Rightarrow> fields \<Rightarrow> 'a option option" where
  "getPointer f k fs = (case map_of fs k of None \<Rightarrow> Some None | Some v \<Rightarrow> map_option Some (f v))"

named_theorems get_defs "reading the fields of an object"

lemmas [get_defs] =
  getString_def getInt_def getBool_def getTime_def getSeconds_def getList_def getPointer_def

definition jsonString :: "json \<Rightarrow> string option" where
  "jsonString v = (case v of JString s \<Rightarrow> Some s | _ \<Rightarrow> None)"

section \<open>The messages\<close>

record apiProject =
  apName :: string
  apPublicURL :: string
  apHost :: string
  apSupervisorPort :: int
  apApplicationPort :: int
  apWorkingDirectory :: string
  apSource :: string
  apDynamic :: bool
  apState :: string
  apPID :: int
  apUptime :: duration
  apLastExit :: string
  apLastError :: string
  apAlwaysOn :: bool
  apInflight :: int
  apLastActivityAt :: time
  apLeaseUntil :: time
  apIdleStopAt :: time

definition encodeProject :: "apiProject \<Rightarrow> json" where
  "encodeProject p = JObject
     ([(''name'', JString (apName p)), (''public_url'', JString (apPublicURL p))] @
      omitString ''host'' (apHost p) @
      [(''supervisor_port'', JInt (apSupervisorPort p)), (''application_port'', JInt (apApplicationPort p))] @
      omitString ''working_directory'' (apWorkingDirectory p) @
      omitString ''source'' (apSource p) @
      omitBool ''dynamic'' (apDynamic p) @
      [(''state'', JString (apState p))] @
      omitInt ''pid'' (apPID p) @
      omitSeconds ''uptime_seconds'' (apUptime p) @
      omitString ''last_exit'' (apLastExit p) @
      omitString ''last_error'' (apLastError p) @
      omitBool ''always_on'' (apAlwaysOn p) @
      omitInt ''inflight_requests'' (apInflight p) @
      omitTime ''last_activity_at'' (apLastActivityAt p) @
      omitTime ''lease_until'' (apLeaseUntil p) @
      omitTime ''idle_stop_at'' (apIdleStopAt p))"

definition decodeProject :: "json \<Rightarrow> apiProject option" where
  "decodeProject v =
     (case v of
        JObject fs \<Rightarrow>
          do { name \<leftarrow> getString ''name'' fs; url \<leftarrow> getString ''public_url'' fs; host \<leftarrow> getString ''host'' fs;
               sup \<leftarrow> getInt ''supervisor_port'' fs; app \<leftarrow> getInt ''application_port'' fs;
               dir \<leftarrow> getString ''working_directory'' fs; src \<leftarrow> getString ''source'' fs;
               dyn \<leftarrow> getBool ''dynamic'' fs; state \<leftarrow> getString ''state'' fs; pid \<leftarrow> getInt ''pid'' fs;
               up \<leftarrow> getSeconds ''uptime_seconds'' fs; exit \<leftarrow> getString ''last_exit'' fs;
               err \<leftarrow> getString ''last_error'' fs; always \<leftarrow> getBool ''always_on'' fs;
               inflight \<leftarrow> getInt ''inflight_requests'' fs; activity \<leftarrow> getTime ''last_activity_at'' fs;
               lease \<leftarrow> getTime ''lease_until'' fs; stop \<leftarrow> getTime ''idle_stop_at'' fs;
               Some \<lparr>apName = name, apPublicURL = url, apHost = host, apSupervisorPort = sup,
                     apApplicationPort = app, apWorkingDirectory = dir, apSource = src, apDynamic = dyn,
                     apState = state, apPID = pid, apUptime = up, apLastExit = exit, apLastError = err,
                     apAlwaysOn = always, apInflight = inflight, apLastActivityAt = activity,
                     apLeaseUntil = lease, apIdleStopAt = stop\<rparr> }
      | _ \<Rightarrow> None)"

record apiBudget =
  abMaxRunning :: int
  abRunning :: int
  abNextEviction :: string

definition encodeBudget :: "apiBudget \<Rightarrow> json" where
  "encodeBudget b = JObject
     ([(''max_running'', JInt (abMaxRunning b)), (''running'', JInt (abRunning b))] @
      omitString ''next_eviction'' (abNextEviction b))"

definition decodeBudget :: "json \<Rightarrow> apiBudget option" where
  "decodeBudget v =
     (case v of
        JObject fs \<Rightarrow>
          do { m \<leftarrow> getInt ''max_running'' fs; r \<leftarrow> getInt ''running'' fs; n \<leftarrow> getString ''next_eviction'' fs;
               Some \<lparr>abMaxRunning = m, abRunning = r, abNextEviction = n\<rparr> }
      | _ \<Rightarrow> None)"

record apiWildcard =
  awName :: string
  awBaseDomain :: string
  awURLPattern :: string
  awDirectory :: string
  awSupervisorPort :: int
  awProjects :: int
  awRunning :: int
  awMaxRunning :: int
  awNextEviction :: string

definition encodeWildcard :: "apiWildcard \<Rightarrow> json" where
  "encodeWildcard w = JObject
     ([(''name'', JString (awName w)), (''base_domain'', JString (awBaseDomain w)),
       (''url_pattern'', JString (awURLPattern w)), (''directory'', JString (awDirectory w)),
       (''supervisor_port'', JInt (awSupervisorPort w)), (''projects'', JInt (awProjects w)),
       (''running'', JInt (awRunning w))] @
      omitInt ''max_running'' (awMaxRunning w) @
      omitString ''next_eviction'' (awNextEviction w))"

definition decodeWildcard :: "json \<Rightarrow> apiWildcard option" where
  "decodeWildcard v =
     (case v of
        JObject fs \<Rightarrow>
          do { name \<leftarrow> getString ''name'' fs; dom \<leftarrow> getString ''base_domain'' fs;
               pat \<leftarrow> getString ''url_pattern'' fs; dir \<leftarrow> getString ''directory'' fs;
               sup \<leftarrow> getInt ''supervisor_port'' fs; ps \<leftarrow> getInt ''projects'' fs; r \<leftarrow> getInt ''running'' fs;
               m \<leftarrow> getInt ''max_running'' fs; n \<leftarrow> getString ''next_eviction'' fs;
               Some \<lparr>awName = name, awBaseDomain = dom, awURLPattern = pat, awDirectory = dir,
                     awSupervisorPort = sup, awProjects = ps, awRunning = r, awMaxRunning = m,
                     awNextEviction = n\<rparr> }
      | _ \<Rightarrow> None)"

record apiStatus =
  asVersion :: string
  asPID :: int
  asStartedAt :: time
  asUptime :: duration
  asConfigPath :: string
  asLastReloadAt :: time
  asProjects :: "apiProject list"
  asWildcards :: "apiWildcard list"
  asBudget :: "apiBudget option"

definition encodeStatus :: "apiStatus \<Rightarrow> json" where
  "encodeStatus s = JObject
     ([(''version'', JString (asVersion s)), (''pid'', JInt (asPID s)), (''started_at'', JTime (asStartedAt s)),
       (''uptime_seconds'', JSeconds (asUptime s))] @
      omitString ''config_path'' (asConfigPath s) @
      omitTime ''last_reload_at'' (asLastReloadAt s) @
      [(''projects'', JList (map encodeProject (asProjects s)))] @
      omitList ''wildcards'' (map encodeWildcard (asWildcards s)) @
      omitNil ''budget'' (map_option encodeBudget (asBudget s)))"

definition decodeStatus :: "json \<Rightarrow> apiStatus option" where
  "decodeStatus v =
     (case v of
        JObject fs \<Rightarrow>
          do { version \<leftarrow> getString ''version'' fs; pid \<leftarrow> getInt ''pid'' fs; started \<leftarrow> getTime ''started_at'' fs;
               up \<leftarrow> getSeconds ''uptime_seconds'' fs; path \<leftarrow> getString ''config_path'' fs;
               reload \<leftarrow> getTime ''last_reload_at'' fs; ps \<leftarrow> getList decodeProject ''projects'' fs;
               ws \<leftarrow> getList decodeWildcard ''wildcards'' fs; b \<leftarrow> getPointer decodeBudget ''budget'' fs;
               Some \<lparr>asVersion = version, asPID = pid, asStartedAt = started, asUptime = up,
                     asConfigPath = path, asLastReloadAt = reload, asProjects = ps, asWildcards = ws,
                     asBudget = b\<rparr> }
      | _ \<Rightarrow> None)"

record apiDiff =
  adAdded :: "string list"
  adRemoved :: "string list"
  adChanged :: "string list"
  adUnchanged :: "string list"

definition nameArray :: "string list \<Rightarrow> json" where
  "nameArray ns = JList (map JString ns)"

definition encodeDiff :: "apiDiff \<Rightarrow> json" where
  "encodeDiff d = JObject
     [(''added'', nameArray (adAdded d)), (''removed'', nameArray (adRemoved d)), (''changed'', nameArray (adChanged d)),
      (''unchanged'', nameArray (adUnchanged d))]"

definition decodeDiff :: "json \<Rightarrow> apiDiff option" where
  "decodeDiff v =
     (case v of
        JObject fs \<Rightarrow>
          do { a \<leftarrow> getList jsonString ''added'' fs; r \<leftarrow> getList jsonString ''removed'' fs;
               c \<leftarrow> getList jsonString ''changed'' fs; u \<leftarrow> getList jsonString ''unchanged'' fs;
               Some \<lparr>adAdded = a, adRemoved = r, adChanged = c, adUnchanged = u\<rparr> }
      | _ \<Rightarrow> None)"

record apiReload =
  arConfigPath :: string
  arApplied :: bool
  arReloadedAt :: time
  arDiff :: apiDiff
  arWildcards :: "apiDiff option"
  arErrors :: "string list"

definition encodeReload :: "apiReload \<Rightarrow> json" where
  "encodeReload r = JObject
     ([(''config_path'', JString (arConfigPath r)), (''applied'', JBool (arApplied r))] @
      omitTime ''reloaded_at'' (arReloadedAt r) @
      [(''added'', nameArray (adAdded (arDiff r))), (''removed'', nameArray (adRemoved (arDiff r))),
       (''changed'', nameArray (adChanged (arDiff r))), (''unchanged'', nameArray (adUnchanged (arDiff r)))] @
      omitNil ''wildcards'' (map_option encodeDiff (arWildcards r)) @
      omitList ''errors'' (map JString (arErrors r)))"

definition decodeReload :: "json \<Rightarrow> apiReload option" where
  "decodeReload v =
     (case v of
        JObject fs \<Rightarrow>
          do { path \<leftarrow> getString ''config_path'' fs; applied \<leftarrow> getBool ''applied'' fs;
               at \<leftarrow> getTime ''reloaded_at'' fs; df \<leftarrow> decodeDiff (JObject fs);
               ws \<leftarrow> getPointer decodeDiff ''wildcards'' fs; es \<leftarrow> getList jsonString ''errors'' fs;
               Some \<lparr>arConfigPath = path, arApplied = applied, arReloadedAt = at, arDiff = df,
                     arWildcards = ws, arErrors = es\<rparr> }
      | _ \<Rightarrow> None)"

record apiLogs =
  alName :: string
  alLogFile :: string
  alLines :: "string list"

definition encodeLogs :: "apiLogs \<Rightarrow> json" where
  "encodeLogs l = JObject
     [(''name'', JString (alName l)), (''log_file'', JString (alLogFile l)), (''lines'', nameArray (alLines l))]"

definition decodeLogs :: "json \<Rightarrow> apiLogs option" where
  "decodeLogs v =
     (case v of
        JObject fs \<Rightarrow>
          do { name \<leftarrow> getString ''name'' fs; path \<leftarrow> getString ''log_file'' fs;
               ls \<leftarrow> getList jsonString ''lines'' fs;
               Some \<lparr>alName = name, alLogFile = path, alLines = ls\<rparr> }
      | _ \<Rightarrow> None)"

definition encodeError :: "string \<Rightarrow> json" where
  "encodeError e = JObject [(''error'', JString e)]"

definition decodeError :: "json \<Rightarrow> string option" where
  "decodeError v = (case v of JObject fs \<Rightarrow> getString ''error'' fs | _ \<Rightarrow> None)"

section \<open>Decoding gives back what was encoded\<close>

named_theorems wire_simps "decoding an encoded object"

lemma omit_other [wire_simps]:
  assumes "k \<noteq> k'"
  shows "map_of (omitString k' v0) k = None"
    "map_of (omitInt k' v1) k = None"
    "map_of (omitBool k' v2) k = None"
    "map_of (omitTime k' v3) k = None"
    "map_of (omitSeconds k' v4) k = None"
    "map_of (omitList k' v5) k = None"
    "map_of (omitNil k' v6) k = None"
  using assms by (auto simp: omit_defs split: option.split)

lemma get_skip [wire_simps]:
  assumes "map_of p k = None"
  shows "getString k (p @ fs) = getString k fs"
    "getInt k (p @ fs) = getInt k fs"
    "getBool k (p @ fs) = getBool k fs"
    "getTime k (p @ fs) = getTime k fs"
    "getSeconds k (p @ fs) = getSeconds k fs"
    "getList f k (p @ fs) = getList f k fs"
    "getPointer g k (p @ fs) = getPointer g k fs"
  using assms by (simp_all add: get_defs map_add_def)

lemma get_other [wire_simps]:
  assumes "k \<noteq> k'"
  shows "getString k ((k', v) # fs) = getString k fs"
    "getInt k ((k', v) # fs) = getInt k fs"
    "getBool k ((k', v) # fs) = getBool k fs"
    "getTime k ((k', v) # fs) = getTime k fs"
    "getSeconds k ((k', v) # fs) = getSeconds k fs"
    "getList f k ((k', v) # fs) = getList f k fs"
    "getPointer g k ((k', v) # fs) = getPointer g k fs"
  using assms by (simp_all add: get_defs)

lemma get_none [wire_simps]:
  assumes "map_of p k = None"
  shows "getString k p = Some []"
    "getInt k p = Some 0"
    "getBool k p = Some False"
    "getTime k p = Some zeroTime"
    "getSeconds k p = Some 0"
    "getList f k p = Some []"
    "getPointer g k p = Some None"
  using assms by (simp_all add: get_defs)

lemma get_here [wire_simps]:
  "getString k ((k, JString v1) # fs) = Some v1"
  "getInt k ((k, JInt v2) # fs) = Some v2"
  "getBool k ((k, JBool v3) # fs) = Some v3"
  "getTime k ((k, JTime v4) # fs) = Some v4"
  "getSeconds k ((k, JSeconds v5) # fs) = Some v5"
  "getList f k ((k, JList vs) # fs) = allSome (map f vs)"
  by (simp_all add: get_defs)

lemma get_omitted [wire_simps]:
  "getString k fs = Some [] \<Longrightarrow> getString k (omitString k v1 @ fs) = Some v1"
  "getInt k fs = Some 0 \<Longrightarrow> getInt k (omitInt k v2 @ fs) = Some v2"
  "getBool k fs = Some False \<Longrightarrow> getBool k (omitBool k v3 @ fs) = Some v3"
  "getTime k fs = Some zeroTime \<Longrightarrow> getTime k (omitTime k v4 @ fs) = Some v4"
  "getSeconds k fs = Some 0 \<Longrightarrow> getSeconds k (omitSeconds k v5 @ fs) = Some v5"
  "getList f k fs = Some [] \<Longrightarrow> getList f k (omitList k vs @ fs) = allSome (map f vs)"
  "getPointer g k fs = Some None \<Longrightarrow>
    getPointer g k (omitNil k v @ fs) = (case v of None \<Rightarrow> Some None | Some j \<Rightarrow> map_option Some (g j))"
  by (auto simp: get_defs omit_defs IsZero_def split: option.split)

lemmas get_last [wire_simps] = get_omitted[where fs = "[]", unfolded append_Nil2]

lemma allSome_map: "(\<And>x. x \<in> set xs \<Longrightarrow> f (g x) = Some x) \<Longrightarrow> allSome (map (\<lambda>x. f (g x)) xs) = Some xs"
  by (induction xs) auto

lemma names_back [wire_simps]: "allSome (map (\<lambda>n. jsonString (JString n)) ns) = Some ns"
  by (induction ns) (simp_all add: jsonString_def)

lemma decode_project: "decodeProject (encodeProject p) = Some p"
  by (simp add: decodeProject_def encodeProject_def wire_simps)

lemma decode_budget: "decodeBudget (encodeBudget b) = Some b"
  by (simp add: decodeBudget_def encodeBudget_def wire_simps)

lemma decode_wildcard: "decodeWildcard (encodeWildcard w) = Some w"
  by (simp add: decodeWildcard_def encodeWildcard_def wire_simps)

lemmas decode_lists [wire_simps] =
  allSome_map[where f = decodeProject, OF decode_project] allSome_map[where f = decodeWildcard, OF decode_wildcard]

lemma decode_status: "decodeStatus (encodeStatus s) = Some s"
proof -
  have "getPointer decodeBudget ''budget'' (omitNil ''budget'' (map_option encodeBudget b)) = Some b" for b
    by (cases b) (simp_all add: wire_simps decode_budget)
  then show ?thesis
    by (simp add: decodeStatus_def encodeStatus_def wire_simps comp_def)
qed

lemma decode_diff: "decodeDiff (encodeDiff d) = Some d"
  by (simp add: decodeDiff_def encodeDiff_def nameArray_def comp_def wire_simps)

lemma decode_reload: "decodeReload (encodeReload r) = Some r"
proof -
  have "getPointer decodeDiff ''wildcards'' (omitNil ''wildcards'' (map_option encodeDiff w) @
      omitList ''errors'' es) = Some w" for w es
    by (cases w) (simp_all add: wire_simps decode_diff)
  then show ?thesis
    by (simp add: decodeReload_def encodeReload_def decodeDiff_def[of "JObject _"] nameArray_def comp_def wire_simps)
qed

lemma decode_logs: "decodeLogs (encodeLogs l) = Some l"
  by (simp add: decodeLogs_def encodeLogs_def nameArray_def comp_def wire_simps)

lemma decode_error: "decodeError (encodeError e) = Some e"
  by (simp add: decodeError_def encodeError_def wire_simps)

end
