(* ===== verification/Control.thy ===== *)
theory Control
  imports ControlWire DurationText Provider Reload
begin

text \<open>
  The transport of the control API: the handler the daemon serves on its socket
  (\<open>internal/control/server.go\<close>) and the client of the command line (\<open>internal/control/client.go\<close>). A
  request is a method and a target (escaped path and query); the provider behind the handler is the record
  \<open>provider\<close> of operations on a state \<open>'s\<close>, the methods of the interface \<open>Provider\<close>; \<open>daemonProvider\<close> is the
  daemon's. The mux of the standard library is modelled for the patterns the handler registers.
\<close>

section \<open>Escaping\<close>

definition codeOf :: "char \<Rightarrow> nat" where "codeOf c = of_char c"

definition alphanumeric :: "char \<Rightarrow> bool" where
  "alphanumeric c \<longleftrightarrow>
     (let n = codeOf c in (97 \<le> n \<and> n \<le> 122) \<or> (65 \<le> n \<and> n \<le> 90) \<or> (48 \<le> n \<and> n \<le> 57))"

definition unreserved :: "char \<Rightarrow> bool" where
  "unreserved c \<longleftrightarrow> alphanumeric c \<or> c \<in> set ''-_.~''"

definition segmentByte :: "char \<Rightarrow> bool" where
  "segmentByte c \<longleftrightarrow> unreserved c \<or> c \<in> set ''$&+=:@''"

definition hexDigit :: "nat \<Rightarrow> char" where
  "hexDigit n = (if n < 10 then char_of (48 + n) else char_of (55 + n))"

definition percent :: "char \<Rightarrow> string" where
  "percent c = [CHR ''%'', hexDigit (codeOf c div 16), hexDigit (codeOf c mod 16)]"

definition PathEscape :: "string \<Rightarrow> string" where
  "PathEscape s = concat (map (\<lambda>c. if segmentByte c then [c] else percent c) s)"

definition QueryEscape :: "string \<Rightarrow> string" where
  "QueryEscape s =
     concat (map (\<lambda>c. if unreserved c then [c] else if c = CHR '' '' then ''+'' else percent c) s)"

definition hexVal :: "char \<Rightarrow> nat option" where
  "hexVal c =
     (let n = codeOf c in
      if 48 \<le> n \<and> n \<le> 57 then Some (n - 48)
      else if 97 \<le> n \<and> n \<le> 102 then Some (n - 87)
      else if 65 \<le> n \<and> n \<le> 70 then Some (n - 55)
      else None)"

text \<open>\<open>unescape\<close>; in a query a plus sign is a space.\<close>

fun unescape :: "bool \<Rightarrow> string \<Rightarrow> string option" where
  "unescape form [] = Some []"
| "unescape form (c # s) =
     (if c = CHR ''%''
      then (case s of
              a # b # r \<Rightarrow>
                (case (hexVal a, hexVal b) of
                   (Some x, Some y) \<Rightarrow> map_option ((#) (char_of (16 * x + y))) (unescape form r)
                 | _ \<Rightarrow> None)
            | _ \<Rightarrow> None)
      else map_option ((#) (if form \<and> c = CHR ''+'' then CHR '' '' else c)) (unescape form s))"

text \<open>\<open>Query().Get\<close>: the first value of a key; a pair that does not parse is dropped.\<close>

definition queryPair :: "string \<Rightarrow> (string \<times> string) option" where
  "queryPair p =
     (if p = [] \<or> CHR '';'' \<in> set p then None
      else let (k, v) = (case cutByte (CHR ''='') p of Some kv \<Rightarrow> kv | None \<Rightarrow> (p, [])) in
        case (unescape True k, unescape True v) of (Some k', Some v') \<Rightarrow> Some (k', v') | _ \<Rightarrow> None)"

definition queryGet :: "string \<Rightarrow> string \<Rightarrow> string" where
  "queryGet q key =
     (case map_of (List.map_filter queryPair (splitByte (CHR ''&'') q)) key of None \<Rightarrow> [] | Some v \<Rightarrow> v)"

section \<open>The provider\<close>

text \<open>
  An error of the provider: does it match \<open>ErrUnknownProject\<close>, and its text. A reload that panics gives
  \<open>None\<close>; the server of the standard library recovers and closes the connection.
\<close>

record apiFailure =
  afUnknown :: bool
  afText :: string

record 's provider =
  pvStatus :: "'s \<Rightarrow> apiStatus"
  pvReload :: "'s \<Rightarrow> (apiFailure + apiReload) option \<times> 's"
  pvStart :: "string \<Rightarrow> 's \<Rightarrow> (apiFailure + apiProject) \<times> 's"
  pvStop :: "string \<Rightarrow> 's \<Rightarrow> (apiFailure + apiProject) \<times> 's"
  pvRestart :: "string \<Rightarrow> 's \<Rightarrow> (apiFailure + apiProject) \<times> 's"
  pvRelease :: "string \<Rightarrow> 's \<Rightarrow> (apiFailure + apiProject) \<times> 's"
  pvLease :: "string \<Rightarrow> duration \<Rightarrow> 's \<Rightarrow> (apiFailure + apiProject) \<times> 's"
  pvLogs :: "string \<Rightarrow> int \<Rightarrow> 's \<Rightarrow> apiFailure + apiLogs"

section \<open>The server\<close>

text \<open>
  The text of JSON values, and the status of the mux's redirects (301 or 307, by the version of the
  standard library).
\<close>

record codec =
  cdEncode :: "json \<Rightarrow> string"
  cdDecode :: "string \<Rightarrow> json option"
  cdRedirect :: int

record httpResponse =
  hrCode :: int
  hrBody :: string
  hrLocation :: "string option"

definition writeJSON :: "codec \<Rightarrow> json \<Rightarrow> httpResponse" where
  "writeJSON cd v = \<lparr>hrCode = 200, hrBody = cdEncode cd v, hrLocation = None\<rparr>"

definition writeError :: "codec \<Rightarrow> int \<Rightarrow> string \<Rightarrow> httpResponse" where
  "writeError cd code e = \<lparr>hrCode = code, hrBody = cdEncode cd (encodeError e), hrLocation = None\<rparr>"

definition errorStatusCode :: "apiFailure \<Rightarrow> int" where
  "errorStatusCode e = (if afUnknown e then 404 else 500)"

definition answered :: "codec \<Rightarrow> ('a \<Rightarrow> json) \<Rightarrow> apiFailure + 'a \<Rightarrow> httpResponse" where
  "answered cd enc r =
     (case r of
        Inl e \<Rightarrow> writeError cd (errorStatusCode e) (afText e)
      | Inr v \<Rightarrow> writeJSON cd (enc v))"

datatype endpoint =
    StatusEndpoint | ReloadEndpoint | StartEndpoint | StopEndpoint | RestartEndpoint
  | ReleaseEndpoint | LeaseEndpoint | LogsEndpoint

text \<open>The patterns a path's segments match: method, endpoint and the value of \<open>{name}\<close>.\<close>

definition projectEndpoints :: "string \<Rightarrow> (string \<times> endpoint) list" where
  "projectEndpoints verb =
     (if verb = ''start'' then [(''POST'', StartEndpoint)]
      else if verb = ''stop'' then [(''POST'', StopEndpoint)]
      else if verb = ''restart'' then [(''POST'', RestartEndpoint)]
      else if verb = ''lease'' then [(''DELETE'', ReleaseEndpoint), (''POST'', LeaseEndpoint)]
      else if verb = ''logs'' then [(''GET'', LogsEndpoint)]
      else [])"

definition endpointsAt :: "string list \<Rightarrow> (string \<times> endpoint) list \<times> string" where
  "endpointsAt segs =
     (if segs = [''v1'', ''status''] then ([(''GET'', StatusEndpoint)], [])
      else if segs = [''v1'', ''reload''] then ([(''POST'', ReloadEndpoint)], [])
      else case segs of
        [a, b, name, verb] \<Rightarrow>
          if a = ''v1'' \<and> b = ''projects'' \<and> name \<noteq> [slash] then (projectEndpoints verb, name) else ([], [])
      | _ \<Rightarrow> ([], []))"

definition unescapeSegment :: "string \<Rightarrow> string" where
  "unescapeSegment s = (case unescape False s of None \<Rightarrow> s | Some t \<Rightarrow> t)"

definition segments :: "string \<Rightarrow> string list" where
  "segments path = map unescapeSegment (splitByte slash (drop 1 path))"

definition cleanPath :: "string \<Rightarrow> string" where
  "cleanPath p =
     (if p = [] then [slash]
      else let q = (if hd p = slash then p else slash # p); c = filepathClean q in
        if last q = slash \<and> c \<noteq> [slash] then c @ [slash] else c)"

datatype routed = Handle endpoint string | RedirectTo string | NoSuchPath | NoSuchMethod

definition muxRoute :: "string \<Rightarrow> string \<Rightarrow> routed" where
  "muxRoute m path =
     (if cleanPath path \<noteq> path then RedirectTo (cleanPath path)
      else case endpointsAt (segments path) of (es, name) \<Rightarrow>
        (case find (\<lambda>(method, _). method = m \<or> (method = ''GET'' \<and> m = ''HEAD'')) es of
           Some (_, e) \<Rightarrow> Handle e name
         | None \<Rightarrow> if es = [] then NoSuchPath else NoSuchMethod))"

text \<open>The handlers.\<close>

definition stay :: "'s \<Rightarrow> httpResponse \<Rightarrow> httpResponse option \<times> 's" where
  "stay s r = (Some r, s)"

definition replied :: "codec \<Rightarrow> ('a \<Rightarrow> json) \<Rightarrow> (apiFailure + 'a) \<times> 's \<Rightarrow> httpResponse option \<times> 's" where
  "replied cd enc = apfst (\<lambda>r. Some (answered cd enc r))"

definition leaseHandler :: "codec \<Rightarrow> 's provider \<Rightarrow> string \<Rightarrow> string \<Rightarrow> 's \<Rightarrow> httpResponse option \<times> 's" where
  "leaseHandler cd pv name q s =
     (case ParseDuration (queryGet q ''ttl'') of
        None \<Rightarrow> stay s (writeError cd 400 ''ttl must be a positive Go duration, e.g. ttl=30m'')
      | Some ttl \<Rightarrow>
          if ttl \<le> 0 then stay s (writeError cd 400 ''ttl must be a positive Go duration, e.g. ttl=30m'')
          else replied cd encodeProject (pvLease pv name ttl s))"

definition linesOf :: "string \<Rightarrow> int option" where
  "linesOf v =
     (if v = [] then Some 0
      else case Atoi v of Some n \<Rightarrow> if n < 0 then None else Some n | None \<Rightarrow> None)"

definition logsHandler :: "codec \<Rightarrow> 's provider \<Rightarrow> string \<Rightarrow> string \<Rightarrow> 's \<Rightarrow> httpResponse option \<times> 's" where
  "logsHandler cd pv name q s =
     stay s (case linesOf (queryGet q ''lines'') of
         None \<Rightarrow> writeError cd 400 ''lines must be a non-negative integer''
       | Some n \<Rightarrow> answered cd encodeLogs (pvLogs pv name n s))"

definition endpointHandler ::
    "codec \<Rightarrow> 's provider \<Rightarrow> endpoint \<Rightarrow> string \<Rightarrow> string \<Rightarrow> 's \<Rightarrow> httpResponse option \<times> 's" where
  "endpointHandler cd pv e name q s =
     (case e of
        StatusEndpoint \<Rightarrow> stay s (writeJSON cd (encodeStatus (pvStatus pv s)))
      | ReloadEndpoint \<Rightarrow> apfst (map_option (answered cd encodeReload)) (pvReload pv s)
      | StartEndpoint \<Rightarrow> replied cd encodeProject (pvStart pv name s)
      | StopEndpoint \<Rightarrow> replied cd encodeProject (pvStop pv name s)
      | RestartEndpoint \<Rightarrow> replied cd encodeProject (pvRestart pv name s)
      | ReleaseEndpoint \<Rightarrow> replied cd encodeProject (pvRelease pv name s)
      | LeaseEndpoint \<Rightarrow> leaseHandler cd pv name q s
      | LogsEndpoint \<Rightarrow> logsHandler cd pv name q s)"

definition withQuery :: "string \<Rightarrow> string \<Rightarrow> string" where
  "withQuery path q = (if q = [] then path else path @ CHR ''?'' # q)"

text \<open>\<open>NewHandler\<close>: one request, its target split at the question mark.\<close>

definition NewHandler :: "codec \<Rightarrow> 's provider \<Rightarrow> string \<Rightarrow> string \<Rightarrow> 's \<Rightarrow> httpResponse option \<times> 's" where
  "NewHandler cd pv m target s =
     (let (path, q) = (case cutByte (CHR ''?'') target of Some pq \<Rightarrow> pq | None \<Rightarrow> (target, [])) in
      case muxRoute m path of
        Handle e name \<Rightarrow> endpointHandler cd pv e name q s
      | RedirectTo p \<Rightarrow> stay s \<lparr>hrCode = cdRedirect cd, hrBody = [], hrLocation = Some (withQuery p q)\<rparr>
      | NoSuchPath \<Rightarrow> stay s \<lparr>hrCode = 404, hrBody = ''404 page not found'' @ [CHR 0x0A], hrLocation = None\<rparr>
      | NoSuchMethod \<Rightarrow> stay s \<lparr>hrCode = 405, hrBody = ''Method Not Allowed'' @ [CHR 0x0A], hrLocation = None\<rparr>)"

section \<open>The client\<close>

datatype 'a outcome =
    Answered 'a
  | APIError int string
  | DaemonUnreachable string
  | RequestEnded
  | Undecodable string

text \<open>
  What connecting gives: nothing is listening, the caller's context ends, or the connection is served by
  \<open>NewHandler\<close>.
\<close>

datatype dial = Refused string | CallerGone | Connected

text \<open>\<open>httpClient.Do\<close>: redirects are followed, at most ten; a 301 turns any method but GET and HEAD into GET.\<close>

fun fetch ::
    "(string \<Rightarrow> string \<Rightarrow> 's \<Rightarrow> httpResponse option \<times> 's) \<Rightarrow> nat \<Rightarrow> string \<Rightarrow> string \<Rightarrow> 's \<Rightarrow> (string + httpResponse) \<times> 's" where
  "fetch server n m target s =
     (case server m target s of
        (None, s1) \<Rightarrow> (Inl ''EOF'', s1)
      | (Some r, s1) \<Rightarrow>
          (case hrLocation r of
             None \<Rightarrow> (Inr r, s1)
           | Some loc \<Rightarrow>
               (case n of
                  0 \<Rightarrow> (Inl ''stopped after 10 redirects'', s1)
                | Suc k \<Rightarrow>
                    fetch server k (if hrCode r = 301 \<and> m \<noteq> ''HEAD'' then ''GET'' else m) loc s1)))"

declare fetch.simps [simp del]

definition statusText :: "int \<Rightarrow> string" where
  "statusText code =
     Itoa code @ '' '' @
     (if code = 400 then ''Bad Request'' else if code = 404 then ''Not Found''
      else if code = 405 then ''Method Not Allowed'' else ''Internal Server Error'')"

definition errorMessage :: "codec \<Rightarrow> httpResponse \<Rightarrow> string" where
  "errorMessage cd r =
     (let body = take 4096 (hrBody r);
          message = (case Option.bind (cdDecode cd body) decodeError of
            Some e \<Rightarrow> if e \<noteq> [] then e else TrimSpace body
          | None \<Rightarrow> TrimSpace body)
      in if message = [] then ''daemon answered '' @ statusText (hrCode r) else message)"

definition readAnswer :: "codec \<Rightarrow> (json \<Rightarrow> 'a option) \<Rightarrow> string \<Rightarrow> httpResponse \<Rightarrow> 'a outcome" where
  "readAnswer cd dec path r =
     (if hrCode r \<noteq> 200 then APIError (hrCode r) (errorMessage cd r)
      else case Option.bind (cdDecode cd (hrBody r)) dec of
        Some v \<Rightarrow> Answered v
      | None \<Rightarrow> Undecodable path)"

definition clientDo ::
    "codec \<Rightarrow> dial \<Rightarrow> (string \<Rightarrow> string \<Rightarrow> 's \<Rightarrow> httpResponse option \<times> 's) \<Rightarrow> (json \<Rightarrow> 'a option) \<Rightarrow> string \<Rightarrow> string \<Rightarrow> 's \<Rightarrow>
      'a outcome \<times> 's" where
  "clientDo cd dial server dec m target s =
     (case dial of
        Refused e \<Rightarrow> (DaemonUnreachable e, s)
      | CallerGone \<Rightarrow> (RequestEnded, s)
      | Connected \<Rightarrow>
          (case fetch server 9 m target s of
             (Inl e, s1) \<Rightarrow> (DaemonUnreachable e, s1)
           | (Inr r, s1) \<Rightarrow> (readAnswer cd dec target r, s1)))"

definition projectPath :: "string \<Rightarrow> string \<Rightarrow> string" where
  "projectPath name verb = ''/v1/projects/'' @ PathEscape name @ ''/'' @ verb"

text \<open>The methods of \<open>Client\<close>; \<open>calls\<close> is \<open>do\<close> with its connection.\<close>

definition clientStatus where
  "clientStatus cd dial server = clientDo cd dial server decodeStatus ''GET'' ''/v1/status''"

definition clientReload where
  "clientReload cd dial server = clientDo cd dial server decodeReload ''POST'' ''/v1/reload''"

definition projectAction where
  "projectAction cd dial server name verb = clientDo cd dial server decodeProject ''POST'' (projectPath name verb)"

definition clientLease where
  "clientLease cd dial server name ttl =
     clientDo cd dial server decodeProject ''POST''
       (projectPath name ''lease'' @ ''?ttl='' @ QueryEscape (DurationString ttl))"

definition clientRelease where
  "clientRelease cd dial server name = clientDo cd dial server decodeProject ''DELETE'' (projectPath name ''lease'')"

definition clientLogs where
  "clientLogs cd dial server name maxLines =
     clientDo cd dial server decodeLogs ''GET''
       (projectPath name ''logs'' @ (if 0 < maxLines then ''?lines='' @ Itoa maxLines else []))"

section \<open>The daemon as the provider\<close>

text \<open>What the daemon's operations take from outside at the time of a call, and the texts of its errors.\<close>

record daemonWorld =
  dwVersion :: string
  dwPID :: int
  dwStartedAt :: time
  dwNow :: time
  dwLogDir :: string
  dwWild :: wildWorld
  dwNet :: listens
  dwSettle :: "supervisor \<Rightarrow> supervisor"
  dwOthers :: "nat \<Rightarrow> daemon \<Rightarrow> daemon"
  dwStopFails :: "string option"
  dwSpawn :: spawnOutcome
  dwTicks :: ticks
  dwReplies :: replies
  dwLoad :: "string \<Rightarrow> loadError + config"
  dwSupText :: "supError \<Rightarrow> string"
  dwProviderText :: "providerError \<Rightarrow> string"
  dwLoadText :: "loadError \<Rightarrow> string list"
  dwReloadText :: "reloadError \<Rightarrow> string"
  dwUnavailableText :: "unavailable \<Rightarrow> string"

definition stateText :: "lifecycle \<Rightarrow> string" where
  "stateText st =
     (case st of lifecycle.Stopped \<Rightarrow> ''stopped'' | Starting \<Rightarrow> ''starting'' | Running \<Rightarrow> ''running''
      | Stopping \<Rightarrow> ''stopping'' | lifecycle.Failed \<Rightarrow> ''failed'')"

definition apiProjectOf :: "daemonWorld \<Rightarrow> projectStatus \<Rightarrow> apiProject" where
  "apiProjectOf w p =
     \<lparr>apName = stName p, apPublicURL = stPublicURL p, apHost = stHost p, apSupervisorPort = stSupervisorPort p,
      apApplicationPort = stApplicationPort p, apWorkingDirectory = stWorkingDirectory p,
      apSource = stSource p, apDynamic = stDynamic p, apState = stateText (stState p), apPID = stPID p,
      apUptime = stUptime p, apLastExit = stLastExit p,
      apLastError = (case stLastError p of None \<Rightarrow> [] | Some e \<Rightarrow> dwSupText w e), apAlwaysOn = stAlwaysOn p,
      apInflight = stInflight p, apLastActivityAt = stLastActivityAt p, apLeaseUntil = stLeaseUntil p,
      apIdleStopAt = stIdleStopAt p\<rparr>"

definition apiStatusOf :: "daemonWorld \<Rightarrow> statusResponse \<Rightarrow> apiStatus" where
  "apiStatusOf w s =
     \<lparr>asVersion = srVersion s, asPID = srPID s, asStartedAt = srStartedAt s, asUptime = srUptime s,
      asConfigPath = srConfigPath s, asLastReloadAt = srLastReloadAt s,
      asProjects = map (apiProjectOf w) (srProjects s),
      asWildcards = map (\<lambda>x. \<lparr>awName = wsName x, awBaseDomain = wsBaseDomain x, awURLPattern = wsURLPattern x,
          awDirectory = wsDirectory x, awSupervisorPort = wsSupervisorPort x, awProjects = int (wsProjects x),
          awRunning = int (wsRunning x), awMaxRunning = wsMaxRunning x, awNextEviction = wsNextEviction x\<rparr>)
        (srWildcards s),
      asBudget = Some \<lparr>abMaxRunning = bsMaxRunning (srBudget s), abRunning = int (bsRunning (srBudget s)),
        abNextEviction = bsNextEviction (srBudget s)\<rparr>\<rparr>"

definition apiFailureOf :: "daemonWorld \<Rightarrow> providerError \<Rightarrow> apiFailure" where
  "apiFailureOf w e =
     \<lparr>afUnknown = (case e of UnknownProject _ \<Rightarrow> True | _ \<Rightarrow> False), afText = dwProviderText w e\<rparr>"

definition apiProvided :: "daemonWorld \<Rightarrow> provided \<Rightarrow> (apiFailure + apiProject) \<times> daemon" where
  "apiProvided w = apfst (map_sum (apiFailureOf w) (apiProjectOf w))"

definition apiDiffOf :: "diff \<Rightarrow> apiDiff" where
  "apiDiffOf d =
     \<lparr>adAdded = dfAdded d, adRemoved = dfRemoved d, adChanged = dfChanged d, adUnchanged = dfUnchanged d\<rparr>"

text \<open>
  \<open>Reload\<close>: an answer for a configuration that loads or is rejected, an error for a daemon that cannot
  reload. The diff of a rejected reload is empty.
\<close>

definition apiReloadOf :: "daemonWorld \<Rightarrow> string \<Rightarrow> reloadResult \<Rightarrow> (apiFailure + apiReload) option" where
  "apiReloadOf w path r =
     (case r of
        Panicked \<Rightarrow> None
      | Unavailable u \<Rightarrow> Some (Inl \<lparr>afUnknown = False, afText = dwUnavailableText w u\<rparr>)
      | RejectedConfig e \<Rightarrow> Some (Inr
          \<lparr>arConfigPath = path, arApplied = False, arReloadedAt = zeroTime,
           arDiff = \<lparr>adAdded = [], adRemoved = [], adChanged = [], adUnchanged = []\<rparr>, arWildcards = None,
           arErrors = dwLoadText w e\<rparr>)
      | Applied x \<Rightarrow> Some (Inr
          \<lparr>arConfigPath = path, arApplied = True, arReloadedAt = dwNow w, arDiff = apiDiffOf (rsDiff x),
           arWildcards = map_option apiDiffOf (rsWildcards x), arErrors = map (dwReloadText w) (rsErrors x)\<rparr>))"

definition daemonProvider :: "daemonWorld \<Rightarrow> daemon provider" where
  "daemonProvider w =
     \<lparr>pvStatus = (\<lambda>d. apiStatusOf w (Status (dwVersion w) (dwPID w) (dwStartedAt w) (dwNow w) d)),
      pvReload = (\<lambda>d. apfst (apiReloadOf w (dmConfigPath d))
        (Reload (dwNet w) (dwSettle w) (dwOthers w 0) (dwNow w) (dwLoad w) d)),
      pvStart = (\<lambda>name d. apiProvided w
        (StartProject (dwNow w) (dwSpawn w) (dwTicks w) (dwReplies w) name d)),
      pvStop = (\<lambda>name d. apiProvided w
        (StopProject (wwOS (dwWild w)) (dwSettle w) (dwOthers w 0) (dwStopFails w) (dwNow w) name d)),
      pvRestart = (\<lambda>name d. apiProvided w
        (RestartProject (dwWild w) (dwNet w) (dwSettle w) (dwOthers w) (dwStopFails w) (dwNow w) (dwSpawn w)
          (dwTicks w) (dwReplies w) name d)),
      pvRelease = (\<lambda>name d. apiProvided w (ReleaseProjectLease (dwNow w) name d)),
      pvLease = (\<lambda>name ttl d. apiProvided w (LeaseProject (dwNow w) name ttl d)),
      pvLogs = (\<lambda>name n d. map_sum (apiFailureOf w)
        (\<lambda>l. \<lparr>alName = lrName l, alLogFile = lrLogFile l, alLines = lrLines l\<rparr>)
        (ProjectLogs (dwLogDir w) name n d))\<rparr>"

end
