(* ===== verification/Paths.thy ===== *)
theory Paths
  imports Validation
begin

text \<open>
  The default locations (\<open>internal/config/paths.go\<close>): the platform's directories from the environment, and
  the abbreviation of the home directory in help texts. \<open>sysView\<close> is what the code asks the platform.
\<close>

record paths =
  ptBaseDir :: string
  ptConfigFile :: string
  ptLogsDir :: string
  ptSocketPath :: string

record sysView =
  svGOOS :: string
  svGetenv :: "string \<Rightarrow> string"
  svHome :: "string + string"
  svUid :: int
  svDirExists :: "string \<Rightarrow> bool"

definition xdgDir :: "(string \<Rightarrow> string) \<Rightarrow> string \<Rightarrow> string \<Rightarrow> string" where
  "xdgDir getenv name fallback = (let v = getenv name in if IsAbs v then filepathClean v else fallback)"

definition runtimeDirFallback :: "int \<Rightarrow> (string \<Rightarrow> bool) \<Rightarrow> string" where
  "runtimeDirFallback uid dirExists =
     (let runDir = filepathJoin [''/run'', ''user'', Itoa uid]
      in if dirExists runDir then runDir else filepathJoin [''/tmp'', ''herd-wake-'' @ Itoa uid])"

definition defaultPaths ::
    "string \<Rightarrow> (string \<Rightarrow> string) \<Rightarrow> string \<Rightarrow> int \<Rightarrow> (string \<Rightarrow> bool) \<Rightarrow> paths" where
  "defaultPaths goos getenv home uid dirExists =
     (if goos = ''darwin''
      then let base = filepathJoin [home, ''Library'', ''Application Support'', ''herd-wake''] in
        \<lparr>ptBaseDir = base, ptConfigFile = filepathJoin [base, ''config.yaml''],
         ptLogsDir = filepathJoin [base, ''logs''], ptSocketPath = filepathJoin [base, ''herd-wake.sock'']\<rparr>
      else
        let configHome = xdgDir getenv ''XDG_CONFIG_HOME'' (filepathJoin [home, ''.config'']);
            stateHome = xdgDir getenv ''XDG_STATE_HOME'' (filepathJoin [home, ''.local'', ''state'']);
            runtimeDir = xdgDir getenv ''XDG_RUNTIME_DIR'' (runtimeDirFallback uid dirExists);
            base = filepathJoin [configHome, ''herd-wake'']
        in \<lparr>ptBaseDir = base, ptConfigFile = filepathJoin [base, ''config.yaml''],
            ptLogsDir = filepathJoin [stateHome, ''herd-wake'', ''logs''],
            ptSocketPath = filepathJoin [runtimeDir, ''herd-wake.sock'']\<rparr>)"

text \<open>\<open>Inl\<close> is the error of \<open>os.UserHomeDir\<close>.\<close>

definition DefaultPaths :: "sysView \<Rightarrow> string + paths" where
  "DefaultPaths sv =
     map_sum (\<lambda>e. ''resolve home directory: '' @ e)
       (\<lambda>home. defaultPaths (svGOOS sv) (svGetenv sv) home (svUid sv) (svDirExists sv)) (svHome sv)"

definition BaseDir :: "sysView \<Rightarrow> string + string" where "BaseDir sv = map_sum id ptBaseDir (DefaultPaths sv)"
definition DefaultPath :: "sysView \<Rightarrow> string + string" where "DefaultPath sv = map_sum id ptConfigFile (DefaultPaths sv)"
definition LogsDir :: "sysView \<Rightarrow> string + string" where "LogsDir sv = map_sum id ptLogsDir (DefaultPaths sv)"
definition SocketPath :: "sysView \<Rightarrow> string + string" where "SocketPath sv = map_sum id ptSocketPath (DefaultPaths sv)"

definition abbreviateHome :: "string \<Rightarrow> string \<Rightarrow> string" where
  "abbreviateHome path home =
     (let h = filepathClean home in
      if h = [] \<or> h = ''.'' \<or> h = [slash] then path
      else if path = h then ''~''
      else if hasPrefix path (h @ [slash]) then CHR ''~'' # drop (length h) path
      else path)"

definition DisplayDefaults :: "sysView \<Rightarrow> paths" where
  "DisplayDefaults sv =
     (case svHome sv of
        Inl _ \<Rightarrow> defaultPaths (svGOOS sv) (svGetenv sv) ''~'' (svUid sv) (svDirExists sv)
      | Inr home \<Rightarrow>
          (let p = defaultPaths (svGOOS sv) (svGetenv sv) home (svUid sv) (svDirExists sv) in
           \<lparr>ptBaseDir = abbreviateHome (ptBaseDir p) home, ptConfigFile = abbreviateHome (ptConfigFile p) home,
            ptLogsDir = abbreviateHome (ptLogsDir p) home, ptSocketPath = abbreviateHome (ptSocketPath p) home\<rparr>))"

section \<open>Abbreviating and expanding\<close>

lemma cleanStep_parts:
  "(\<And>c. c \<in> set cs \<Longrightarrow> slash \<notin> set c) \<Longrightarrow> (\<And>c. c \<in> set out \<Longrightarrow> c \<noteq> [] \<and> slash \<notin> set c) \<Longrightarrow>
    c \<in> set (foldl (cleanStep rooted) out cs) \<Longrightarrow> c \<noteq> [] \<and> slash \<notin> set c"
proof (induction cs arbitrary: out)
  case (Cons d cs)
  have step: "c \<noteq> [] \<and> slash \<notin> set c" if "c \<in> set (cleanStep rooted out d)" for c
    using that Cons.prems(1)[of d] Cons.prems(2)[of c] by (auto simp: slash_def split: if_splits list.splits)
  have "c \<in> set (foldl (cleanStep rooted) (cleanStep rooted out d) cs)"
    using Cons.prems(3) by (simp del: cleanStep.simps)
  then show ?case
    by (rule Cons.IH[rotated 2]) (rule Cons.prems(1), simp, rule step, assumption)
qed auto

lemma joinStrings_last:
  "cs \<noteq> [] \<Longrightarrow> (\<And>c. c \<in> set cs \<Longrightarrow> c \<noteq> [] \<and> slash \<notin> set c) \<Longrightarrow>
    joinStrings cs [slash] \<noteq> [] \<and> last (joinStrings cs [slash]) \<noteq> slash"
proof (induction cs "[slash]" rule: joinStrings.induct)
  case (2 c)
  then show ?case by (metis joinStrings.simps(2) last_in_set list.set_intros(1))
next
  case (3 c d cs)
  then show ?case by simp
qed simp

lemma filepathClean_last: "IsAbs p \<Longrightarrow> filepathClean p = [slash] \<or> last (filepathClean p) \<noteq> slash"
proof -
  assume "IsAbs p"
  let ?out = "rev (foldl (cleanStep True) [] (splitByte slash p))"
  have "c \<noteq> [] \<and> slash \<notin> set c" if "c \<in> set ?out" for c
    using cleanStep_parts[of "splitByte slash p" "[]" c True] splitByte_parts that by auto
  then have "?out = [] \<or> (joinStrings ?out [slash] \<noteq> [] \<and> last (joinStrings ?out [slash]) \<noteq> slash)"
    using joinStrings_last[of ?out] by blast
  then show ?thesis using \<open>IsAbs p\<close> by (auto simp: filepathClean_def Let_def)
qed

text \<open>A path of plain components is clean.\<close>

definition goodSegment :: "string \<Rightarrow> bool" where
  "goodSegment c \<longleftrightarrow> c \<noteq> [] \<and> c \<noteq> ''.'' \<and> c \<noteq> ''..'' \<and> slash \<notin> set c"

lemma splitByte_joined: "list_all goodSegment cs \<Longrightarrow> cs \<noteq> [] \<Longrightarrow> splitByte slash (joinStrings cs [slash]) = cs"
proof (induction cs "[slash]" rule: joinStrings.induct)
  case (2 c)
  then show ?case by (simp add: goodSegment_def splitByte_none)
next
  case (3 c d cs)
  then show ?case by (simp add: goodSegment_def splitByte_append)
qed simp

lemma cleanStep_good: "list_all goodSegment cs \<Longrightarrow> foldl (cleanStep True) out cs = rev cs @ out"
  by (induction cs arbitrary: out) (simp_all add: goodSegment_def)

lemma filepathClean_good:
  assumes "list_all goodSegment cs" "cs \<noteq> []"
  shows "filepathClean (slash # joinStrings cs [slash]) = slash # joinStrings cs [slash]"
  using assms by (simp add: filepathClean_def IsAbs_def splitByte_joined cleanStep_good)

text \<open>
  A path shown with the home directory abbreviated can be put into the configuration: expanding it gives the
  path back.
\<close>

theorem abbreviated_path_expands:
  assumes "filepathClean path = path" "IsAbs path" and "filepathClean home = home" "home \<noteq> []"
  shows "expandHome (Some home) (abbreviateHome path home) = path"
proof -
  have same: "expandHome (Some home) path = path"
    using assms(2) by (intro expandHome_id) (auto simp: IsAbs_def hasHomePrefix_def slash_def split: list.splits)
  have under: "expandHome (Some home) (CHR ''~'' # slash # r) = path" if r: "path = home @ slash # r" for r
  proof -
    have "r \<noteq> []"
    proof
      assume "r = []"
      with r assms(1) filepathClean_last[OF assms(2)] have "home @ [slash] = [slash]" by auto
      with assms(4) show False by simp
    qed
    with assms(1,4) r show ?thesis by (simp add: expandHome_def hasHomePrefix_def filepathJoin_def)
  qed
  consider "path = home" | r where "path = home @ slash # r" | "path \<noteq> home" "\<not> hasPrefix path (home @ [slash])"
    by (auto simp: hasPrefix_iff)
  then show ?thesis
  proof cases
    case 1
    then have "abbreviateHome path home \<in> {path, ''~''}" using assms(3) by (auto simp: abbreviateHome_def Let_def)
    with 1 same show ?thesis by (auto simp: expandHome_def)
  next
    case (2 r)
    have "hasPrefix path (home @ [slash])" using 2 by (simp add: hasPrefix_iff)
    then have "abbreviateHome path home \<in> {path, CHR ''~'' # slash # r}"
      using 2 assms(3) by (simp add: abbreviateHome_def Let_def)
    with same under[OF 2] show ?thesis by auto
  next
    case 3
    with same assms(3) show ?thesis by (simp add: abbreviateHome_def Let_def)
  qed
qed

theorem abbreviated_path_expands_witness:
  "expandHome (Some ''/home/u'') (abbreviateHome ''/home/u/.config/herd-wake'' ''/home/u'') = ''/home/u/.config/herd-wake''"
  by (rule abbreviated_path_expands; code_simp)

section \<open>The socket\<close>

lemma showNat_chars: "c \<in> set (showNat n) \<Longrightarrow> \<exists>d<10. c = digitChar d"
proof (induction n rule: showNat.induct)
  case (1 n)
  then show ?case
    by (cases "n < 10") (subst (asm) (2) showNat.simps, force)+
qed

lemma digitChar_plain: "d < 10 \<Longrightarrow> digitChar d \<noteq> slash \<and> digitChar d \<noteq> CHR ''.''"
  by (auto simp: digitChar_def slash_def dest!: arg_cong[where f = "of_char :: char \<Rightarrow> nat"])

lemma goodSegment_Itoa: "goodSegment (Itoa i)"
proof -
  have c: "c \<noteq> slash \<and> c \<noteq> CHR ''.''" if "c \<in> set (Itoa i)" for c
    using that showNat_chars digitChar_plain by (fastforce simp: Itoa_def slash_def split: if_splits)
  moreover have "Itoa i \<noteq> []" by (simp add: Itoa_def)
  moreover from calculation have "Itoa i \<noteq> ''.''" "Itoa i \<noteq> ''..''" by force+
  ultimately show ?thesis by (auto simp: goodSegment_def)
qed

lemma clean_runDir:
  "filepathJoin [''/run'', ''user'', Itoa uid] = slash # joinStrings [''run'', ''user'', Itoa uid] [slash]"
  "filepathClean (filepathJoin [''/run'', ''user'', Itoa uid]) = filepathJoin [''/run'', ''user'', Itoa uid]"
proof -
  have "list_all goodSegment [''run'', ''user'', Itoa uid]"
    using goodSegment_Itoa by (simp add: goodSegment_def slash_def)
  note c = filepathClean_good[OF this]
  have "Itoa uid \<noteq> []" using goodSegment_Itoa[of uid] by (simp add: goodSegment_def)
  with c show "filepathJoin [''/run'', ''user'', Itoa uid] = slash # joinStrings [''run'', ''user'', Itoa uid] [slash]"
    by (simp add: filepathJoin_def slash_def)
  with c show "filepathClean (filepathJoin [''/run'', ''user'', Itoa uid]) = filepathJoin [''/run'', ''user'', Itoa uid]"
    by simp
qed

text \<open>
  The daemon under the systemd user manager and a command line without \<open>XDG_RUNTIME_DIR\<close> meet at the same
  socket, as long as the user's runtime directory exists.
\<close>

theorem socket_found_without_xdg:
  assumes "goos \<noteq> ''darwin''" and "dirExists (filepathJoin [''/run'', ''user'', Itoa uid])"
    and "getenvD ''XDG_RUNTIME_DIR'' = filepathJoin [''/run'', ''user'', Itoa uid]"
    and "\<not> IsAbs (getenvC ''XDG_RUNTIME_DIR'')"
  shows "ptSocketPath (defaultPaths goos getenvC home uid dirExists) =
    ptSocketPath (defaultPaths goos getenvD home' uid dirExists)"
proof -
  have "IsAbs (filepathJoin [''/run'', ''user'', Itoa uid])" by (simp add: clean_runDir(1) IsAbs_def)
  with assms show ?thesis
    by (simp add: defaultPaths_def xdgDir_def runtimeDirFallback_def clean_runDir(2) Let_def)
qed

theorem socket_found_without_xdg_witness:
  "ptSocketPath (defaultPaths ''linux'' (\<lambda>_. []) ''/home/u'' 1000 (\<lambda>_. True)) =
   ptSocketPath (defaultPaths ''linux'' (\<lambda>_. ''/run/user/1000'') ''/root'' 1000 (\<lambda>_. True))"
  by (rule socket_found_without_xdg; code_simp)

end
