(* ===== verification/CliBase.thy ===== *)
theory CliBase
  imports Flags Control Paths SyncRun
begin

text \<open>
  What the commands of \<open>cmd/herd-wake\<close> share: the world they run in, their results (exit code, standard
  output, standard error), loading the configuration and finding the socket. The errors of the packages are
  values in their models; \<open>cliTexts\<close> has their texts, the texts of the flag package and of \<open>%q\<close>, and the
  layout of \<open>text/tabwriter\<close>. \<open>cwServe\<close> is \<open>daemon.New(...).Run(ctx)\<close> (\<open>Startup\<close>); \<open>cwDial\<close> and \<open>cwServer\<close>
  are what a connection to a socket meets (\<open>Control\<close>).
\<close>

record cliResult =
  crCode :: int
  crOut :: string
  crErr :: string

text \<open>The reload that \<open>sync\<close> and \<open>project:remove\<close> trigger.\<close>

record reloadOutcome =
  roAttempted :: bool
  roDaemonRunning :: bool
  roError :: string
  roResponse :: "apiReload option"

record cliTexts =
  txFlags :: "string \<Rightarrow> flagError \<Rightarrow> string"
  txQuote :: "string \<Rightarrow> string"
  txTable :: "string \<Rightarrow> string"
  txLoad :: "loadError \<Rightarrow> string"
  txNotExist :: "loadError \<Rightarrow> bool"
  txPanic :: string
  txRejection :: "rejection \<Rightarrow> string"
  txSyncFailure :: "syncFailure \<Rightarrow> string"
  txSyncError :: "syncError \<Rightarrow> string"
  txSkip :: "skipReason \<Rightarrow> string"
  txDetail :: "actionDetail \<Rightarrow> string"
  txRemove :: "removeError \<Rightarrow> string"
  txDecode :: string
  txContext :: string
  txSystem :: "string \<Rightarrow> string"
  txSyncJSON :: "syncResult \<Rightarrow> reloadOutcome \<Rightarrow> string"

record 's cliWorld =
  cwSys :: sysView
  cwEnv :: syncEnv
  cwTexts :: cliTexts
  cwNow :: time
  cwClock :: "time \<Rightarrow> string"
  cwVersion :: string
  cwGetwd :: "string + string"
  cwDetect :: detectIn
  cwDetectText :: string
  cwCodec :: codec
  cwDial :: "string \<Rightarrow> dial"
  cwServer :: "string \<Rightarrow> string \<Rightarrow> 's \<Rightarrow> httpResponse option \<times> 's"
  cwServe :: "config \<Rightarrow> string \<Rightarrow> string \<Rightarrow> string option"

text \<open>What commands change: the files, the Herd tool's state and the daemon behind the socket.\<close>

record 's machine =
  mcFiles :: files
  mcRuns :: "string list list"
  mcDaemon :: 's

section \<open>Text\<close>

definition line :: "string \<Rightarrow> string" where "line s = s @ [CHR 0x0A]"

definition padRight :: "nat \<Rightarrow> string \<Rightarrow> string" where
  "padRight n s = s @ replicate (n - length s) (CHR '' '')"

definition bullet :: "string \<Rightarrow> string" where "bullet s = line (''  - '' @ s)"

text \<open>The UTF-8 bytes of an arrow and of a dash.\<close>

definition arrow :: string where "arrow = [CHR 0xE2, CHR 0x86, CHR 0x92]"
definition dash :: string where "dash = [CHR 0xE2, CHR 0x80, CHR 0x94]"

definition exits :: "int \<Rightarrow> string \<Rightarrow> string \<Rightarrow> cliResult" where
  "exits code sout serr = \<lparr>crCode = code, crOut = sout, crErr = serr\<rparr>"

definition complain :: "string \<Rightarrow> string" where "complain s = line (''herd-wake: '' @ s)"

definition nameList :: "string list \<Rightarrow> string" where
  "nameList names = (if names = [] then ''(none)'' else joinStrings names '', '')"

text \<open>\<open>Round(time.Second)\<close>: half away from zero, within 64 bits.\<close>

definition roundSecond :: "duration \<Rightarrow> duration" where
  "roundSecond d =
     (let m = timeSecond in
      if d < 0
      then (let r = (- d) mod m in if r + r < m then d + r else max (- (2 ^ 63)) (d - m + r))
      else (let r = d mod m in if r + r < m then d - r else min (2 ^ 63 - 1) (d + m - r)))"

definition roundedText :: "duration \<Rightarrow> string" where
  "roundedText d = DurationString (roundSecond d)"

section \<open>The configuration and the socket\<close>

definition printMissingConfig :: "string \<Rightarrow> string" where
  "printMissingConfig path = concat 
    [line (''herd-wake: no config file found at '' @ path),
     line [],
     line ''Create one there to register your projects. A minimal example:'',
     line [],
     line ''  projects:'',
     line ''    dashboard:'',
     line ''      public_url: https://dashboard.test'',
     line ''      supervisor_port: 7101'',
     line ''      application_port: 17101'',
     line ''      working_directory: /Users/you/Code/dashboard'',
     line ''      command: npm run dev -- --host 127.0.0.1 --port 17101 --strictPort'',
     line [],
     line (''Additional projects may live in one file each under '' @ ProjectsDir path @ ''/*.yaml''),
     line ''(same layout, a projects: map per file); they are merged into the main file.'',
     line [],
     line ''A fully documented example ships with herd-wake as config.sample.yaml:'',
     line ''https://github.com/michael-hewitt/herd-wake/blob/main/config.sample.yaml'']"

text \<open>The configuration, or the result the command ends with; a load that panics ends the process with 2.\<close>

definition loadConfigWithOptions ::
    "'s cliWorld \<Rightarrow> files \<Rightarrow> bool \<Rightarrow> string \<Rightarrow> cliResult + config \<times> string" where
  "loadConfigWithOptions w fs skip flagPath =
     (case (if flagPath \<noteq> [] then Inr flagPath else DefaultPath (cwSys w)) of
        Inl e \<Rightarrow> Inl (exits 1 [] (complain e))
      | Inr path \<Rightarrow>
          (case LoadWithOptions (seOS (cwEnv w)) (decodeFiles (cwEnv w) fs) skip path of
             Inr cfg \<Rightarrow> Inr (cfg, path)
           | Inl e \<Rightarrow>
               if e = NilEntryPanic then Inl (exits 2 [] (txPanic (cwTexts w)))
               else if txNotExist (cwTexts w) e then Inl (exits 1 [] (printMissingConfig path))
               else Inl (exits 1 []
                   (complain (''config '' @ path @ '' is invalid:'') @
                    concat (map bullet (splitByte (CHR 0x0A) (txLoad (cwTexts w) e)))))))"

definition loadConfig :: "'s cliWorld \<Rightarrow> files \<Rightarrow> string \<Rightarrow> cliResult + config \<times> string" where
  "loadConfig w fs flagPath = loadConfigWithOptions w fs False flagPath"

definition resolveSocketPath :: "'s cliWorld \<Rightarrow> string \<Rightarrow> cliResult + string" where
  "resolveSocketPath w flagPath =
     (if flagPath \<noteq> [] then Inr flagPath
      else case SocketPath (cwSys w) of Inl e \<Rightarrow> Inl (exits 1 [] (complain e)) | Inr s \<Rightarrow> Inr s)"

text \<open>A command with its flags parsed; a message of the flag package ends it with 2.\<close>

definition withFlags ::
    "'s cliWorld \<Rightarrow> string \<Rightarrow> flagSpec \<Rightarrow> string list \<Rightarrow> (flagValues \<Rightarrow> string list \<Rightarrow> 's machine \<Rightarrow> cliResult \<times> 's machine) \<Rightarrow>
      's machine \<Rightarrow> cliResult \<times> 's machine" where
  "withFlags w command spec args body m =
     (case parseFlags spec [] args of
        Inl e \<Rightarrow> (exits 2 [] (txFlags (cwTexts w) command e), m)
      | Inr (vals, rest) \<Rightarrow> body vals rest m)"

definition configSpec :: flagSpec where "configSpec = [(''config'', StringFlag)]"
definition socketSpec :: flagSpec where "socketSpec = [(''socket'', StringFlag)]"

section \<open>Calling the daemon\<close>

text \<open>The error text of a call that gave no answer, and whether it is \<open>ErrDaemonUnreachable\<close>.\<close>

definition callError :: "cliTexts \<Rightarrow> string \<Rightarrow> 'a outcome \<Rightarrow> string" where
  "callError tx socket r =
     (case r of
        APIError code msg \<Rightarrow> msg
      | DaemonUnreachable e \<Rightarrow> ''connect to daemon on '' @ socket @ '': '' @ e
      | RequestEnded \<Rightarrow> ''request to daemon on '' @ socket @ '': '' @ txContext tx
      | Undecodable path \<Rightarrow> ''decode daemon response for '' @ path @ '': '' @ txDecode tx
      | Answered _ \<Rightarrow> [])"

fun unreachable :: "'a outcome \<Rightarrow> bool" where
  "unreachable (DaemonUnreachable e) = True"
| "unreachable r = False"

definition reportDaemonError :: "cliTexts \<Rightarrow> string \<Rightarrow> 'a outcome \<Rightarrow> string" where
  "reportDaemonError tx socket r =
     (if unreachable r
      then complain (''daemon is not running ('' @ callError tx socket r @ '')'') @ line ''Start it with: herd-wake start''
      else complain (callError tx socket r))"

definition calling ::
    "'s cliWorld \<Rightarrow> string \<Rightarrow> (codec \<Rightarrow> dial \<Rightarrow> (string \<Rightarrow> string \<Rightarrow> 's \<Rightarrow> httpResponse option \<times> 's) \<Rightarrow> 's \<Rightarrow> 'a outcome \<times> 's) \<Rightarrow>
      's machine \<Rightarrow> 'a outcome \<times> 's machine" where
  "calling w socket call m =
     (let (r, s) = call (cwCodec w) (cwDial w socket) (cwServer w) (mcDaemon m) in (r, m\<lparr>mcDaemon := s\<rparr>))"

end
