(* ===== verification/CliLocal.thy ===== *)
theory CliLocal
  imports CliBase EnvFile
begin

text \<open>
  The commands that work on the configuration and the files: \<open>projects\<close> and \<open>start\<close> (\<open>main.go\<close>), \<open>url\<close> (\<open>url.go\<close>),
  \<open>sync\<close> and \<open>project:remove\<close> (\<open>sync.go\<close>), the last two with the reload they ask the daemon for.
\<close>

section \<open>projects\<close>

definition fieldLine :: "string \<Rightarrow> string \<Rightarrow> string" where
  "fieldLine label value = line (''  '' @ padRight 19 label @ value)"

definition printEnvironment :: "project \<Rightarrow> string \<Rightarrow> string" where
  "printEnvironment p relativeTo =
     (if pEnvFile p = [] then []
      else fieldLine ''Env files:'' (joinStrings (pEnvFile p) '', '' @
        (if list_ex (\<lambda>f. \<not> IsAbs f) (pEnvFile p)
         then ''  (a relative path is read from '' @ relativeTo @ '', and may be absent)'' else []))) @
     (if pEnv p = [] then []
      else fieldLine ''Env:'' (joinStrings
        (map (\<lambda>n. n @ ''='' @ Display n (case map_of (pEnv p) n of Some v \<Rightarrow> v | None \<Rightarrow> []))
          (sort (map fst (pEnv p)))) '', '')) @
     (if DiagnosticLogsEnabled p then []
      else fieldLine ''Diagnostics:''
        ''process output hidden on the public 503/404 pages (diagnostic_logs: false)'')"

definition printProject :: "project \<Rightarrow> string" where
  "printProject p =
     line (pName p @ (if pAlwaysOn p then ''  (always on)'' else [])) @
     fieldLine ''Source:'' (pSource p) @
     fieldLine ''URL:'' (pPublicURL p) @
     (if pHost p \<noteq> []
      then fieldLine ''Host:'' (pHost p @ ''  (routed by Host header on the shared supervisor port)'') else []) @
     fieldLine ''Supervisor port:''
       (Itoa (pSupervisorPort p) @ ''  (herd proxy target '' @ pListenHost p @ '':'' @ Itoa (pSupervisorPort p) @ '')'') @
     fieldLine ''Application port:'' (Itoa (pApplicationPort p)) @
     fieldLine ''Working directory:'' (pWorkingDirectory p) @
     fieldLine ''Command:'' (pCommand p) @
     fieldLine ''Readiness:''
       (pReadinessStrategy p @ (if pReadinessStrategy p = ReadinessHTTP then '' '' @ pReadinessURL p else [])) @
     fieldLine ''Timeouts:''
       (''startup '' @ Itoa (pStartupTimeoutSeconds p) @ ''s, idle '' @ Itoa (pIdleTimeoutMinutes p) @ ''m'') @
     (if pRewriteHost p
      then fieldLine ''Upstream Host:'' (''127.0.0.1:'' @ Itoa (pApplicationPort p) @ '' (rewrite_host)'') else []) @
     printEnvironment p ''the working directory''"

definition intList :: "int list \<Rightarrow> string" where
  "intList xs = ''['' @ joinStrings (map Itoa xs) '' '' @ '']''"

definition printWildcard :: "discovery \<Rightarrow> string" where
  "printWildcard d =
     line (dName d @ ''  (wildcard discovery: worktrees served on demand)'') @
     fieldLine ''URL pattern:'' (URLPattern d) @
     fieldLine ''Worktrees:'' (dDirectory d @ ''/<label>'') @
     (let site = (case SiteName (dBaseDomain d) of Some s \<Rightarrow> s | None \<Rightarrow> []) in
      fieldLine ''Supervisor port:''
        (Itoa (SupervisorPort d) @ ''  ('' @ ProxyCommand site (SupervisorPort d) @ '')'')) @
     fieldLine ''Command:'' (pCommand (dTemplate d)) @
     (if dPortCommand d \<noteq> [] then fieldLine ''Port command:'' (dPortCommand d)
      else fieldLine ''Application ports:'' (intList (dApplicationPortRange d))) @
     (if 0 < dMaxRunning d
      then fieldLine ''Max running:'' (Itoa (dMaxRunning d) @ ''  (worktrees of this entry at once)'') else []) @
     printEnvironment (dTemplate d) ''the worktree it is read for''"

text \<open>Blocks with an empty line between them.\<close>

definition listProjects :: "config \<Rightarrow> string \<Rightarrow> string" where
  "listProjects cfg path =
     (let wild = filter Wildcard (discoveries cfg) in
      if cProjects cfg = [] \<and> wild = []
      then line (''No projects configured in '' @ path @ '' (or '' @ ProjectsDir path @ '')'')
      else
        (if 0 < cMaxRunning cfg
         then line (''max_running: '' @ Itoa (cMaxRunning cfg) @
           ''  (at most this many dev servers run at once; the least recently active is evicted for a new one)'') @ line []
         else []) @
        joinStrings (map (\<lambda>n. printProject (projectOf cfg n)) (ProjectNames cfg)) (line []) @
        concat (map (\<lambda>d. line [] @ printWildcard d) wild))"

definition runProjects :: "'s cliWorld \<Rightarrow> string list \<Rightarrow> 's machine \<Rightarrow> cliResult \<times> 's machine" where
  "runProjects w args = withFlags w ''projects'' configSpec args
     (\<lambda>vals rest m.
        (case loadConfig w (mcFiles m) (stringFlag ''config'' vals) of
           Inl r \<Rightarrow> (r, m)
         | Inr (cfg, path) \<Rightarrow> (exits 0 (listProjects cfg path) [], m)))"

section \<open>start\<close>

definition runStart :: "'s cliWorld \<Rightarrow> string list \<Rightarrow> 's machine \<Rightarrow> cliResult \<times> 's machine" where
  "runStart w args = withFlags w ''start'' (configSpec @ socketSpec @ [(''log-dir'', StringFlag)]) args
     (\<lambda>vals rest m.
        (case loadConfig w (mcFiles m) (stringFlag ''config'' vals) of
           Inl r \<Rightarrow> (r, m)
         | Inr (cfg, _) \<Rightarrow>
             (case resolveSocketPath w (stringFlag ''socket'' vals) of
                Inl r \<Rightarrow> (r, m)
              | Inr socket \<Rightarrow>
                  (case (if stringFlag ''log-dir'' vals \<noteq> [] then Inr (stringFlag ''log-dir'' vals)
                         else LogsDir (cwSys w)) of
                     Inl e \<Rightarrow> (exits 1 [] (complain e), m)
                   | Inr logDir \<Rightarrow>
                       (case cwServe w cfg socket logDir of
                          Some e \<Rightarrow> (exits 1 [] (complain e), m)
                        | None \<Rightarrow> (exits 0 [] [], m))))))"

section \<open>url\<close>

datatype dirError = Unresolved string | Unreadable string | NotDirectory string

definition canonicalDir ::
    "osView \<Rightarrow> (string \<Rightarrow> string option) \<Rightarrow> string \<Rightarrow> dirError + string" where
  "canonicalDir os links dir =
     (let apath = absPath os dir in
      case links apath of
        None \<Rightarrow> Inl (Unresolved apath)
      | Some resolved \<Rightarrow>
          (case osStat os resolved of
             None \<Rightarrow> Inl (Unreadable resolved)
           | Some k \<Rightarrow> if k \<noteq> Directory then Inl (NotDirectory apath) else Inr resolved))"

definition sameDir :: "osView \<Rightarrow> (string \<Rightarrow> string option) \<Rightarrow> string \<Rightarrow> string \<Rightarrow> bool" where
  "sameDir os links a b \<longleftrightarrow>
     a \<noteq> [] \<and> b \<noteq> [] \<and>
     (case (canonicalDir os links a, canonicalDir os links b) of (Inr ca, Inr cb) \<Rightarrow> ca = cb | _ \<Rightarrow> False)"

text \<open>What the entries say of a directory: the URL of the first that serves it, or the reasons.\<close>

fun entriesURL ::
    "osView \<Rightarrow> (string \<Rightarrow> string option) \<Rightarrow> (rejection \<Rightarrow> string) \<Rightarrow> (string \<Rightarrow> string) \<Rightarrow> string \<Rightarrow> discovery list \<Rightarrow>
      string list + string" where
  "entriesURL os links text quoted dir [] = Inl []"
| "entriesURL os links text quoted dir (d # ds) =
     (let label = filepathBase dir; more = entriesURL os links text quoted dir ds;
          named = ''discovery '' @ quoted (dName d) @ '': '' in
      if \<not> sameDir os links (dDirectory d) (filepathDir dir) then more
      else case snd (Check os links d label) of
        Some r \<Rightarrow> map_sum ((#) (named @ text r)) id more
      | None \<Rightarrow>
          if Wildcard d then Inr (PublicURL d label)
          else map_sum ((#) (named @ dir @ '' is a worktree it would register, but it is not in '' @ SourceOf d @
                 '' yet; run `herd-wake sync`'')) id more)"

definition resolveURL ::
    "osView \<Rightarrow> (string \<Rightarrow> string option) \<Rightarrow> (rejection \<Rightarrow> string) \<Rightarrow> (string \<Rightarrow> string) \<Rightarrow> config \<Rightarrow> string \<Rightarrow> string + string" where
  "resolveURL os links text quoted cfg dir =
     (case find (\<lambda>n. sameDir os links (pWorkingDirectory (projectOf cfg n)) dir) (ProjectNames cfg) of
        Some n \<Rightarrow> Inr (pPublicURL (projectOf cfg n))
      | None \<Rightarrow>
          (case entriesURL os links text quoted dir (discoveries cfg) of
             Inr url \<Rightarrow> Inr url
           | Inl reasons \<Rightarrow>
               Inl (if reasons = []
                    then ''no URL for '' @ dir @ '': it is not a registered project'' @ [CHR 0x27] @
                      ''s working_directory and not a subdirectory of any discovery entry'' @ [CHR 0x27] @ ''s directory''
                    else ''no URL for '' @ dir @ '':'' @ [CHR 0x0A] @ ''  - '' @
                      joinStrings reasons ([CHR 0x0A] @ ''  - ''))))"

definition dirErrorText :: "cliTexts \<Rightarrow> dirError \<Rightarrow> string" where
  "dirErrorText texts e =
     (case e of
        Unresolved apath \<Rightarrow> apath @ '': '' @ txSystem texts apath
      | Unreadable p \<Rightarrow> txSystem texts p
      | NotDirectory apath \<Rightarrow> apath @ '' is not a directory'')"

definition runURL :: "'s cliWorld \<Rightarrow> string list \<Rightarrow> 's machine \<Rightarrow> cliResult \<times> 's machine" where
  "runURL w args = withFlags w ''url'' configSpec args
     (\<lambda>vals rest m.
        if 1 < length rest
        then (exits 2 [] (complain ''usage: herd-wake url [--config path] [directory]''), m)
        else case (if argAt 0 rest \<noteq> [] then Inr (argAt 0 rest) else cwGetwd w) of
          Inl e \<Rightarrow> (exits 1 [] (complain e), m)
        | Inr given \<Rightarrow>
            (case canonicalDir (seOS (cwEnv w)) (seLinks (cwEnv w)) given of
               Inl e \<Rightarrow> (exits 1 [] (complain (dirErrorText (cwTexts w) e)), m)
             | Inr dir \<Rightarrow>
                 (case loadConfigWithOptions w (mcFiles m) True (stringFlag ''config'' vals) of
                    Inl r \<Rightarrow> (r, m)
                  | Inr (cfg, _) \<Rightarrow>
                      (case resolveURL (seOS (cwEnv w)) (seLinks (cwEnv w)) (txRejection (cwTexts w))
                              (txQuote (cwTexts w)) cfg dir of
                         Inl e \<Rightarrow> (exits 1 [] (complain e), m)
                       | Inr url \<Rightarrow> (exits 0 (line url) [], m)))))"

section \<open>The reload after a change\<close>

definition noReload :: reloadOutcome where
  "noReload = \<lparr>roAttempted = False, roDaemonRunning = False, roError = [], roResponse = None\<rparr>"

definition reloadFailed :: "reloadOutcome \<Rightarrow> bool" where
  "reloadFailed r \<longleftrightarrow>
     roAttempted r \<and> roDaemonRunning r \<and>
     (roError r \<noteq> [] \<or> (case roResponse r of Some x \<Rightarrow> \<not> arApplied x \<or> arErrors x \<noteq> [] | None \<Rightarrow> False))"

definition triggerReload :: "'s cliWorld \<Rightarrow> string \<Rightarrow> 's machine \<Rightarrow> reloadOutcome \<times> 's machine" where
  "triggerReload w socket m =
     (case calling w socket clientReload m of
        (Answered resp, m1) \<Rightarrow>
          (\<lparr>roAttempted = True, roDaemonRunning = True, roError = [], roResponse = Some resp\<rparr>, m1)
      | (r, m1) \<Rightarrow>
          (if unreachable r then noReload\<lparr>roAttempted := True\<rparr>
           else \<lparr>roAttempted = True, roDaemonRunning = True, roError = callError (cwTexts w) socket r, roResponse = None\<rparr>,
           m1))"

definition printReload :: "reloadOutcome \<Rightarrow> string" where
  "printReload r =
     (if \<not> roAttempted r then []
      else if \<not> roDaemonRunning r
      then line ''Daemon: not running; it reads the configuration when started (or run `herd-wake reload` later).''
      else if roError r \<noteq> [] then line (''Daemon: reload failed: '' @ roError r)
      else case roResponse r of
        None \<Rightarrow> []
      | Some x \<Rightarrow>
          if \<not> arApplied x
          then line (''Daemon: reload rejected, config '' @ arConfigPath x @ '' is invalid:'') @
            concat (map bullet (arErrors x)) @
            line ''Nothing was changed in the daemon; it keeps running with its previous configuration.''
          else line (''Daemon: reloaded '' @ dash @ '' added '' @ nameList (adAdded (arDiff x)) @ '', removed '' @
              nameList (adRemoved (arDiff x)) @ '', changed '' @ nameList (adChanged (arDiff x)) @ '', unchanged '' @
              nameList (adUnchanged (arDiff x))) @
            concat (map bullet (arErrors x)))"

section \<open>sync\<close>

definition labelFor :: "string \<Rightarrow> nat \<Rightarrow> string" where
  "labelFor label i = (if i = 0 then label @ '':'' else [])"

definition groupLine :: "string \<Rightarrow> nat \<Rightarrow> string \<Rightarrow> string" where
  "groupLine label i text = line (''  '' @ padRight 10 (labelFor label i) @ '' '' @ text)"

definition groupLines :: "string \<Rightarrow> string list \<Rightarrow> string" where
  "groupLines label texts = concat (map (\<lambda>(i, t). groupLine label i t) (enumerate 0 texts))"

definition summaryText :: "summary \<Rightarrow> string" where
  "summaryText p =
     smName p @ '' ('' @ smPublicURL p @ '', supervisor '' @ Itoa (smSupervisorPort p) @ '', application '' @
     Itoa (smApplicationPort p) @ '')'' @ (if smDetail p \<noteq> [] then '': '' @ smDetail p else [])"

definition printSummaries :: "string \<Rightarrow> summary list \<Rightarrow> string" where
  "printSummaries label ps = groupLines label (map summaryText ps)"

definition describeHerdAction :: "cliTexts \<Rightarrow> herdAction \<Rightarrow> string" where
  "describeHerdAction tx a =
     (if haAction a = ''proxy''
      then ''proxy '' @ haSite a @ '' '' @ arrow @ '' http://127.0.0.1:'' @ Itoa (haPort a)
      else haAction a @ '' '' @ haSite a) @
     (case haStatus a of
        HerdDone \<Rightarrow> '' (done''
      | HerdDryRun \<Rightarrow> '' (would run: '' @ haCommand a
      | HerdSkipped \<Rightarrow> '' (skipped''
      | HerdRefused \<Rightarrow> '' (refused''
      | HerdManual \<Rightarrow> '' (run by hand: '' @ haCommand a) @
     (if txDetail tx (haDetail a) \<noteq> [] then ''; '' @ txDetail tx (haDetail a) else []) @ '')''"

text \<open>\<open>erStale\<close>, the managed file left over, is the one notice there is.\<close>

definition staleNotice :: "string \<Rightarrow> string" where
  "staleNotice stale =
     stale @ '' exists (left over from proxy mode) and its projects are still registered; delete it, run `herd unproxy <worktree>` for each of them, and reload once you no longer need them''"

definition printEntry :: "cliTexts \<Rightarrow> bool \<Rightarrow> entryResult \<Rightarrow> string" where
  "printEntry tx dryRun e =
     (let to = '' '' @ arrow @ '' ''; named = ''Discovery '' @ txQuote tx (erName e) @ '' ('' in
      if erRetired e then line (named @ ''removed from the config)'' @ to @ ''wildcard '' @ erURLPattern e)
      else if erWildcard e
      then line (named @ erDirectory e @ '')'' @ to @ ''wildcard: '' @ erURLPattern e @ to @ erDirectory e @ ''/<label>'')
      else line (named @ erDirectory e @ '')'' @ to @ erFile e)) @
     concat (map (\<lambda>x. line (''  error:     '' @ txSyncError tx x)) (erErrors e)) @
     (case erStale e of None \<Rightarrow> [] | Some stale \<Rightarrow> line (''  notice:    '' @ staleNotice stale)) @
     printSummaries ''added'' (erAdded e) @ printSummaries ''updated'' (erUpdated e) @
     printSummaries ''unchanged'' (erUnchanged e) @ printSummaries ''removed'' (erRemoved e) @
     groupLines ''skipped'' (map (\<lambda>x. spName x @ '' '' @ dash @ '' '' @ txSkip tx (spReason x)) (erSkipped e)) @
     groupLines ''herd'' (map (describeHerdAction tx) (erHerd e)) @
     (if erErrors e \<noteq> [] \<or> erWildcard e then []
      else if dryRun \<and> erChanged e then line ''  file:      would be rewritten''
      else if dryRun then line ''  file:      up to date''
      else if erWritten e then line ''  file:      written''
      else line ''  file:      up to date'')"

definition wantedHerd :: "entryResult list \<Rightarrow> bool" where
  "wantedHerd es = list_ex (\<lambda>e. erHerd e \<noteq> []) es"

definition printSync :: "cliTexts \<Rightarrow> syncResult \<Rightarrow> reloadOutcome \<Rightarrow> string" where
  "printSync tx res r =
     (if resDryRun res then line ''Dry run: nothing was written and Herd was not changed.'' else []) @
     concat (map (printEntry tx (resDryRun res)) (resEntries res)) @
     concat (map (\<lambda>n. line (''Proxy: '' @ n)) (resProxyNotes res)) @
     (if resHerdNote res \<noteq> [] \<and> wantedHerd (resEntries res) then line (''Herd: '' @ resHerdNote res) else []) @
     (if ManualCommands res \<noteq> []
      then line ''Run these Herd commands yourself:'' @ concat (map (\<lambda>c. line (''  '' @ c)) (ManualCommands res)) else []) @
     (if resDryRun res then [] else printReload r)"

text \<open>The tool (if it may be used), a note why not, and whether there is none.\<close>

definition detectHerd :: "'s cliWorld \<Rightarrow> bool \<Rightarrow> (bool \<times> string \<times> bool) \<times> cli" where
  "detectHerd w disabled =
     (let (found, cl) = Detect ((cwDetect w)\<lparr>detGOOS := seGOOS (cwEnv w)\<rparr>) in
      (if disabled then (False, ''--no-herd: Herd left untouched'', False)
       else if found = None then (False, cwDetectText w, True)
       else (True, [], False), cl))"

definition herdState :: "cli \<Rightarrow> 's machine \<Rightarrow> cli" where
  "herdState cl m = cl\<lparr>clRuns := mcRuns m\<rparr>"

definition cliSyncOptions :: "'s cliWorld \<Rightarrow> flagValues \<Rightarrow> bool \<times> string \<times> bool \<Rightarrow> syncOptions" where
  "cliSyncOptions w vals detected =
     (case detected of (usable, remark, unavailable) \<Rightarrow>
        \<lparr>soHerd = usable, soHerdNote = remark, soHerdUnavailable = unavailable, soGOOS = seGOOS (cwEnv w),
         soDryRun = boolFlag ''dry-run'' vals\<rparr>)"

text \<open>The sync itself, on the machine.\<close>

definition syncMachine ::
    "'s cliWorld \<Rightarrow> flagValues \<Rightarrow> config \<Rightarrow> 's machine \<Rightarrow> (syncFailure + syncResult) \<times> 's machine" where
  "syncMachine w vals cfg m =
     (let (detected, cl) = detectHerd w (boolFlag ''no-herd'' vals);
          (res, fs, cl1) = Sync (cwEnv w) (cliSyncOptions w vals detected) cfg (mcFiles m) (herdState cl m)
      in (res, m\<lparr>mcFiles := fs, mcRuns := clRuns cl1\<rparr>))"

definition finishSync ::
    "'s cliWorld \<Rightarrow> flagValues \<Rightarrow> string \<Rightarrow> (syncFailure + syncResult) \<times> 's machine \<Rightarrow> cliResult \<times> 's machine" where
  "finishSync w vals socket sm =
     (case sm of
        (Inl e, m1) \<Rightarrow> (exits 1 [] (complain (txSyncFailure (cwTexts w) e)), m1)
      | (Inr r, m1) \<Rightarrow>
          (let (reload, m2) = (if boolFlag ''dry-run'' vals then (noReload, m1) else triggerReload w socket m1);
               shown = (if boolFlag ''json'' vals then txSyncJSON (cwTexts w) r reload
                        else printSync (cwTexts w) r reload)
           in (exits (if HasErrors r \<or> reloadFailed reload then 1 else 0) shown [], m2)))"

definition runSync :: "'s cliWorld \<Rightarrow> string list \<Rightarrow> 's machine \<Rightarrow> cliResult \<times> 's machine" where
  "runSync w args = withFlags w ''sync''
     (configSpec @ socketSpec @ [(''dry-run'', BoolFlag), (''no-herd'', BoolFlag), (''json'', BoolFlag)]) args
     (\<lambda>vals rest m.
        if rest \<noteq> []
        then (exits 2 [] (complain ''usage: herd-wake sync [--config path] [--socket path] [--dry-run] [--no-herd] [--json]''), m)
        else case loadConfigWithOptions w (mcFiles m) True (stringFlag ''config'' vals) of
          Inl r \<Rightarrow> (r, m)
        | Inr (cfg, path) \<Rightarrow>
            if cDiscovery cfg = []
            then (exits 1 [] (complain (''no discovery entries in '' @ path @
              ''; add a discovery: list to scan a directory of worktrees (see config.sample.yaml)'')), m)
            else (case resolveSocketPath w (stringFlag ''socket'' vals) of
                    Inl r \<Rightarrow> (r, m)
                  | Inr socket \<Rightarrow> finishSync w vals socket (syncMachine w vals cfg m)))"

section \<open>project:remove\<close>

definition herdCommandForProject :: "herdWorld \<Rightarrow> project option \<Rightarrow> string" where
  "herdCommandForProject hw p =
     (case p of
        None \<Rightarrow> ''herd unproxy <name>''
      | Some q \<Rightarrow>
          (case SiteFromURL hw (pPublicURL q) of
             (_, site, ok) \<Rightarrow> if ok then UnproxyCommand site else ''herd unproxy <name>''))"

definition removeMessage :: "'s cliWorld \<Rightarrow> config \<Rightarrow> string \<Rightarrow> string \<Rightarrow> removeError \<Rightarrow> cliResult" where
  "removeMessage w cfg path name e =
     (case e of
        ErrNoSuchProject _ \<Rightarrow>
          exits 0 [] (complain (''no project named '' @ txQuote (cwTexts w) name @ '' in '' @ path @ '' or '' @
            ProjectsDir path @ ''/; nothing to remove''))
      | MainConfigError _ _ \<Rightarrow>
          exits 1 [] (complain (txRemove (cwTexts w) e @ ''.'') @ line ''After removing it, run:'' @
            line (''  '' @ herdCommandForProject (seHerd (cwEnv w)) (map_of (cProjects cfg) name)) @
            line ''  herd-wake reload'')
      | _ \<Rightarrow> exits 1 [] (complain (txRemove (cwTexts w) e)))"

definition cliRemoveOptions :: "'s cliWorld \<Rightarrow> bool \<Rightarrow> bool \<times> string \<times> bool \<Rightarrow> removeOptions" where
  "cliRemoveOptions w keep detected =
     (case detected of (usable, remark, unavailable) \<Rightarrow>
        \<lparr>roHerd = usable, roHerdNote = remark, roHerdUnavailable = unavailable, roGOOS = seGOOS (cwEnv w),
         roKeepHerd = keep\<rparr>)"

definition removeMachine ::
    "'s cliWorld \<Rightarrow> bool \<Rightarrow> string \<Rightarrow> config \<Rightarrow> 's machine \<Rightarrow> (removeError + removeResult) \<times> 's machine" where
  "removeMachine w keep name cfg m =
     (let (found, cl) = detectHerd w False;
          detected = (if keep then (False, [], False) else found);
          (res, fs, cl1) = Remove (cwEnv w) cfg name (cliRemoveOptions w keep detected) (mcFiles m) (herdState cl m)
      in (res, m\<lparr>mcFiles := fs, mcRuns := clRuns cl1\<rparr>))"

definition printRemoved :: "cliTexts \<Rightarrow> string \<Rightarrow> removeResult \<Rightarrow> reloadOutcome \<Rightarrow> string" where
  "printRemoved tx name r reload =
     line (''Removed project '' @ txQuote tx name @ '' from '' @ rmFile r) @
     (if rmManaged r
      then line ''  (a discovery-managed file: the next `herd-wake sync` re-creates the project while its directory exists)''
      else []) @
     concat (map (\<lambda>a. line (''  herd: '' @ describeHerdAction tx a)) (rmHerd r)) @
     printReload reload"

definition runProjectRemove :: "'s cliWorld \<Rightarrow> string list \<Rightarrow> 's machine \<Rightarrow> cliResult \<times> 's machine" where
  "runProjectRemove w args = withFlags w ''project:remove''
     (configSpec @ socketSpec @ [(''keep-herd'', BoolFlag)]) args
     (\<lambda>vals rest m.
        if length rest \<noteq> 1 \<or> argAt 0 rest = []
        then (exits 2 [] (complain ''usage: herd-wake project:remove [--config path] [--socket path] [--keep-herd] <name>''), m)
        else case loadConfigWithOptions w (mcFiles m) True (stringFlag ''config'' vals) of
          Inl r \<Rightarrow> (r, m)
        | Inr (cfg, path) \<Rightarrow>
            (case resolveSocketPath w (stringFlag ''socket'' vals) of
               Inl r \<Rightarrow> (r, m)
             | Inr socket \<Rightarrow>
                 (let name = argAt 0 rest in
                  case removeMachine w (boolFlag ''keep-herd'' vals) name cfg m of
                    (Inl e, m1) \<Rightarrow> (removeMessage w cfg path name e, m1)
                  | (Inr r, m1) \<Rightarrow>
                      (let (reload, m2) = triggerReload w socket m1
                       in (exits (if reloadFailed reload then 1 else 0) (printRemoved (cwTexts w) name r reload) [], m2)))))"

end
