(* ===== verification/Cli.thy ===== *)
theory Cli
  imports CliLocal
begin

text \<open>
  The commands that ask the daemon (\<open>status\<close>, \<open>reload\<close>, \<open>project:*\<close>, \<open>logs\<close> in \<open>main.go\<close>), and \<open>run\<close>, which
  dispatches the arguments. The state of a project is the text the daemon sends (\<open>stateText\<close>).
\<close>

section \<open>status\<close>

definition describeBudget :: "int \<Rightarrow> int \<Rightarrow> string \<Rightarrow> string" where
  "describeBudget running maxRunning nextUp =
     (if maxRunning \<le> 0 then Itoa running @ '' (no max_running)''
      else Itoa running @ ''/'' @ Itoa maxRunning @ '' (max_running)'' @
        (if nextUp \<noteq> [] then ''; next eviction: '' @ nextUp
         else if maxRunning \<le> running then ''; nothing evictable'' else []))"

definition describeLastActivity :: "time \<Rightarrow> apiProject \<Rightarrow> string" where
  "describeLastActivity now p =
     (if IsZero (apLastActivityAt p) then ''-''
      else let ago = roundSecond (now - apLastActivityAt p) in
        DurationString (if ago < 0 then 0 else ago) @ '' ago'')"

definition describeIdleStop :: "time \<Rightarrow> (time \<Rightarrow> string) \<Rightarrow> apiProject \<Rightarrow> string" where
  "describeIdleStop now clock p =
     (if apState p \<noteq> stateText Running then ''-''
      else if apAlwaysOn p then ''never (always on)''
      else if 0 < apInflight p then ''held ('' @ Itoa (apInflight p) @ '' in flight)''
      else if \<not> IsZero (apLeaseUntil p) then ''leased until '' @ clock (apLeaseUntil p)
      else if \<not> IsZero (apIdleStopAt p)
      then (let rest = roundSecond (apIdleStopAt p - now) in
            ''in '' @ DurationString (if rest < 0 then 0 else rest) @ '' ('' @ clock (apIdleStopAt p) @ '')'')
      else ''-'')"

definition tabbed :: "string list \<Rightarrow> string" where
  "tabbed cells = line (joinStrings cells [CHR 0x09])"

definition statusHeader :: string where
  "statusHeader = tabbed [''PROJECT'', ''STATE'', ''PID'', ''UPTIME'', ''LAST ACTIVITY'', ''IDLE STOP'', ''LAST EXIT'',
     ''URL'', ''SUPERVISOR PORT'', ''UPSTREAM'', ''SOURCE'']"

definition statusRow :: "time \<Rightarrow> (time \<Rightarrow> string) \<Rightarrow> apiProject \<Rightarrow> string" where
  "statusRow now clock p =
     tabbed [apName p, apState p,
       (if apPID p \<noteq> 0 then Itoa (apPID p) else ''-''),
       (if apPID p \<noteq> 0 then roundedText (apUptime p) else ''-''),
       describeLastActivity now p, describeIdleStop now clock p,
       (if apLastExit p \<noteq> [] then apLastExit p else ''-''), apPublicURL p,
       Itoa (apSupervisorPort p) @ (if apHost p \<noteq> [] then '' ('' @ apHost p @ '')'' else []),
       ''127.0.0.1:'' @ Itoa (apApplicationPort p),
       (if apSource p = [] then ''-'' else apSource p) @ (if apDynamic p then '' (dynamic)'' else [])]"

definition printStatus :: "(string \<Rightarrow> string) \<Rightarrow> time \<Rightarrow> (time \<Rightarrow> string) \<Rightarrow> apiStatus \<Rightarrow> string" where
  "printStatus table now clock st =
     line (''herd-wake daemon running: pid '' @ Itoa (asPID st) @ '', uptime '' @ roundedText (asUptime st) @
       '', version '' @ asVersion st) @
     (if asConfigPath st \<noteq> []
      then line (''config: '' @ asConfigPath st @ '' ('' @
        (if IsZero (asLastReloadAt st) then ''not reloaded since start''
         else ''reloaded '' @ clock (asLastReloadAt st)) @ '')'') else []) @
     (case asBudget st of
        None \<Rightarrow> []
      | Some b \<Rightarrow> line (''running servers: '' @ describeBudget (abRunning b) (abMaxRunning b) (abNextEviction b))) @
     concat (map (\<lambda>c. line (''wildcard '' @ awName c @ '': '' @ awURLPattern c @ '' -> '' @ awDirectory c @
         ''/<label> (supervisor port '' @ Itoa (awSupervisorPort c) @ '', '' @ Itoa (awProjects c) @
         '' project(s) materialised, running '' @
         describeBudget (awRunning c) (awMaxRunning c) (awNextEviction c) @ '')'')) (asWildcards st)) @
     (if asProjects st = []
      then (if asWildcards st = [] then line ''No projects configured.''
            else line ''No projects running or registered yet; worktrees are materialised on their first request.'')
      else line [] @ table (statusHeader @ concat (map (statusRow now clock) (asProjects st))) @
        concat (map (\<lambda>p. if apLastError p = [] then []
          else line [] @ line (apName p @ '': '' @ apLastError p)) (asProjects st)))"

definition runStatus :: "'s cliWorld \<Rightarrow> string list \<Rightarrow> 's machine \<Rightarrow> cliResult \<times> 's machine" where
  "runStatus w args = withFlags w ''status'' (socketSpec @ [(''json'', BoolFlag)]) args
     (\<lambda>vals rest m.
        (case resolveSocketPath w (stringFlag ''socket'' vals) of
           Inl r \<Rightarrow> (r, m)
         | Inr socket \<Rightarrow>
             (case calling w socket clientStatus m of
                (Answered st, m1) \<Rightarrow>
                  (exits 0
                     (if boolFlag ''json'' vals then cdEncode (cwCodec w) (encodeStatus st)
                      else printStatus (txTable (cwTexts w)) (cwNow w) (cwClock w) st) [], m1)
              | (r, m1) \<Rightarrow> (exits 1 [] (reportDaemonError (cwTexts w) socket r), m1))))"

section \<open>reload\<close>

definition reloadGroup :: "string \<Rightarrow> string list \<Rightarrow> string" where
  "reloadGroup label names = line (''  '' @ padRight 10 (label @ '':'') @ '' '' @ nameList names)"

definition printReloaded :: "apiReload \<Rightarrow> string" where
  "printReloaded r =
     line (''Reloaded '' @ arConfigPath r) @
     reloadGroup ''added'' (adAdded (arDiff r)) @ reloadGroup ''removed'' (adRemoved (arDiff r)) @
     reloadGroup ''changed'' (adChanged (arDiff r)) @ reloadGroup ''unchanged'' (adUnchanged (arDiff r)) @
     (case arWildcards r of
        None \<Rightarrow> []
      | Some x \<Rightarrow> line (''  wildcard entries: added '' @ nameList (adAdded x) @ '', removed '' @ nameList (adRemoved x) @
          '', changed '' @ nameList (adChanged x) @ '', unchanged '' @ nameList (adUnchanged x)))"

definition reloadAnswer :: "apiReload \<Rightarrow> cliResult" where
  "reloadAnswer r =
     (if \<not> arApplied r
      then exits 1 [] (complain (''reload rejected: config '' @ arConfigPath r @ '' is invalid:'') @
        concat (map bullet (arErrors r)) @
        line ''Nothing was changed; the daemon keeps running with its previous configuration.'')
      else if arErrors r \<noteq> []
      then exits 1 (printReloaded r)
        (complain (Itoa (int (length (arErrors r))) @ '' problem(s) applying the reload:'') @ concat (map bullet (arErrors r)))
      else exits 0 (printReloaded r) [])"

definition runReload :: "'s cliWorld \<Rightarrow> string list \<Rightarrow> 's machine \<Rightarrow> cliResult \<times> 's machine" where
  "runReload w args = withFlags w ''reload'' socketSpec args
     (\<lambda>vals rest m.
        (case resolveSocketPath w (stringFlag ''socket'' vals) of
           Inl r \<Rightarrow> (r, m)
         | Inr socket \<Rightarrow>
             (case calling w socket clientReload m of
                (Answered resp, m1) \<Rightarrow> (reloadAnswer resp, m1)
              | (r, m1) \<Rightarrow> (exits 1 [] (reportDaemonError (cwTexts w) socket r), m1))))"

section \<open>Commands for one project\<close>

definition runProjectLease :: "'s cliWorld \<Rightarrow> string list \<Rightarrow> 's machine \<Rightarrow> cliResult \<times> 's machine" where
  "runProjectLease w args = withFlags w ''project:lease'' (socketSpec @ [(''ttl'', DurationFlag)]) args
     (\<lambda>vals rest m.
        let ttl = durationFlag ''ttl'' (30 * timeMinute) vals; name = argAt 0 rest in
        if length rest \<noteq> 1 \<or> name = []
        then (exits 2 [] (complain ''usage: herd-wake project:lease [--ttl duration] <name>''), m)
        else if ttl \<le> 0
        then (exits 2 [] (complain (''--ttl must be positive (got '' @ DurationString ttl @ '')'')), m)
        else case resolveSocketPath w (stringFlag ''socket'' vals) of
          Inl r \<Rightarrow> (r, m)
        | Inr socket \<Rightarrow>
            (case calling w socket (\<lambda>cd dial server. clientLease cd dial server name ttl) m of
               (Answered st, m1) \<Rightarrow>
                 (exits 0
                    (line (''Project '' @ txQuote (cwTexts w) name @ '' leased until '' @ cwClock w (apLeaseUntil st) @
                       '' (ttl '' @ DurationString ttl @ ''); it will not be idle-stopped before then.'') @
                     line (''Release early with: herd-wake project:release '' @ name)) [], m1)
             | (r, m1) \<Rightarrow> (exits 1 [] (reportDaemonError (cwTexts w) socket r), m1)))"

definition commandCall ::
    "string \<Rightarrow> string \<Rightarrow> codec \<Rightarrow> dial \<Rightarrow> (string \<Rightarrow> string \<Rightarrow> 's \<Rightarrow> httpResponse option \<times> 's) \<Rightarrow> 's \<Rightarrow>
      apiProject outcome \<times> 's" where
  "commandCall command name cd dial server =
     (if command = ''project:start'' then projectAction cd dial server name ''start''
      else if command = ''project:stop'' then projectAction cd dial server name ''stop''
      else if command = ''project:restart'' then projectAction cd dial server name ''restart''
      else clientRelease cd dial server name)"

definition runProjectCommand :: "'s cliWorld \<Rightarrow> string \<Rightarrow> string list \<Rightarrow> 's machine \<Rightarrow> cliResult \<times> 's machine" where
  "runProjectCommand w command args = withFlags w command socketSpec args
     (\<lambda>vals rest m.
        let name = argAt 0 rest; quoted = txQuote (cwTexts w) name in
        if length rest \<noteq> 1 \<or> name = []
        then (exits 2 [] (complain (''usage: herd-wake '' @ command @ '' <name>'')), m)
        else case resolveSocketPath w (stringFlag ''socket'' vals) of
          Inl r \<Rightarrow> (r, m)
        | Inr socket \<Rightarrow>
            (case calling w socket (commandCall command name) m of
               (Answered st, m1) \<Rightarrow>
                 (exits 0
                    (if command = ''project:release''
                     then line (''Released activity lease for project '' @ quoted @ ''; normal idle rules apply again.'')
                     else if apState st = stateText Running
                     then line (''Project '' @ quoted @ '' is running (pid '' @ Itoa (apPID st) @ '').'')
                     else line (''Project '' @ quoted @ '' is '' @ apState st @ ''.'')) [], m1)
             | (r, m1) \<Rightarrow>
                 (exits 1 [] (reportDaemonError (cwTexts w) socket r @
                    (if command \<in> {''project:start'', ''project:restart''} \<and> \<not> unreachable r
                     then line (''See recent output with: herd-wake logs '' @ name) else [])), m1)))"

definition runLogs :: "'s cliWorld \<Rightarrow> string list \<Rightarrow> 's machine \<Rightarrow> cliResult \<times> 's machine" where
  "runLogs w args = withFlags w ''logs'' (socketSpec @ [(''lines'', IntFlag)]) args
     (\<lambda>vals rest m.
        let name = argAt 0 rest in
        if length rest \<noteq> 1 \<or> name = []
        then (exits 2 [] (complain ''usage: herd-wake logs [--lines n] <name>''), m)
        else case resolveSocketPath w (stringFlag ''socket'' vals) of
          Inl r \<Rightarrow> (r, m)
        | Inr socket \<Rightarrow>
            (case calling w socket (\<lambda>cd dial server. clientLogs cd dial server name (intFlag ''lines'' 0 vals)) m of
               (Answered l, m1) \<Rightarrow>
                 (exits 0 (concat (map line (alLines l)))
                    ((if alLines l = []
                      then line (''No recent output captured for project '' @ txQuote (cwTexts w) name @ ''.'') else []) @
                     line (''Full log: '' @ alLogFile l)), m1)
             | (r, m1) \<Rightarrow> (exits 1 [] (reportDaemonError (cwTexts w) socket r), m1)))"

section \<open>Dispatch\<close>

definition usageText :: "paths \<Rightarrow> string" where
  "usageText dp = concat
    [line ''Usage: herd-wake <command>'',
     line [],
     line ''Commands:'',
     line ''  start                    Run the supervisor daemon in the foreground (Ctrl-C to stop, SIGHUP to reload)'',
     line ''  status                   Show daemon uptime, config path, and per-project state'',
     line ''  reload                   Re-read the config file and projects.d and apply the changes live'',
     line ''  sync                     Discover worktrees, update projects.d and Herd proxies, reload the daemon'',
     line ''  url [directory]          Print the public URL a directory is served at (default: the current directory)'',
     line ''  projects                 List registered projects from the config file and projects.d'',
     line (''  project:start <name>     Start a project'' @ [CHR 0x27] @ ''s dev server and wait until it is ready''),
     line (''  project:stop <name>      Gracefully stop a project'' @ [CHR 0x27] @ ''s dev server''),
     line (''  project:restart <name>   Stop (if needed) and start a project'' @ [CHR 0x27] @ ''s dev server''),
     line ''  project:lease <name>     Mark a project active so it is not idle-stopped (--ttl, default 30m)'',
     line (''  project:release <name>   Release a project'' @ [CHR 0x27] @ ''s activity lease early''),
     line ''  project:remove <name>    Remove a project from projects.d, drop its Herd proxy, reload the daemon'',
     line (''  logs <name>              Print a project'' @ [CHR 0x27] @ ''s recent dev-server output''),
     line ''  version                  Print the herd-wake version'',
     line [],
     line ''Options:'',
     line ''  --config <path>   Config file to load (start, projects, sync, url, project:remove); projects.d/ next to it is merged in'',
     line (''                    (default: '' @ ptConfigFile dp @ '')''),
     line ''  --socket <path>   Control socket to use (start, status, reload, sync, project:*, logs)'',
     line (''                    (default: '' @ ptSocketPath dp @ '')''),
     line ''  --log-dir <path>  Directory for per-project process logs (start)'',
     line (''                    (default: '' @ ptLogsDir dp @ '')''),
     line ''  --ttl <duration>  How long a lease lasts, e.g. 45m or 2h (project:lease; default 30m)'',
     line ''  --lines <n>       Maximum lines to print (logs; 0 = everything buffered)'',
     line ''  --dry-run         Compute and print what sync would change without writing or touching Herd (sync)'',
     line ''  --no-herd         Never run the herd CLI; print the Herd commands to run by hand (sync)'',
     line ''  --json            Print the result as JSON (sync, status)'',
     line (''  --keep-herd       Leave the project'' @ [CHR 0x27] @ ''s Herd proxy in place (project:remove)'')]"

definition runArgs :: "'s cliWorld \<Rightarrow> string list \<Rightarrow> 's machine \<Rightarrow> cliResult \<times> 's machine" where
  "runArgs w args m =
     (let usage = usageText (DisplayDefaults (cwSys w)) in
      case args of
        [] \<Rightarrow> (exits 2 [] usage, m)
      | command # rest \<Rightarrow>
          if command = ''version'' then (exits 0 (line (''herd-wake '' @ cwVersion w)) [], m)
          else if command = ''projects'' then runProjects w rest m
          else if command = ''start'' then runStart w rest m
          else if command = ''status'' then runStatus w rest m
          else if command = ''reload'' then runReload w rest m
          else if command = ''sync'' then runSync w rest m
          else if command = ''url'' then runURL w rest m
          else if command = ''project:remove'' then runProjectRemove w rest m
          else if command \<in> {''project:start'', ''project:stop'', ''project:restart'', ''project:release''}
          then runProjectCommand w command rest m
          else if command = ''project:lease'' then runProjectLease w rest m
          else if command = ''logs'' then runLogs w rest m
          else (exits 2 [] (complain (''unknown command '' @ txQuote (cwTexts w) command) @ usage), m))"

end
