(* ===== verification/ControlProps.thy ===== *)
theory ControlProps
  imports Control Paths
begin

text \<open>
  What the transport of the control API promises: a call over the socket is the call of the provider's
  method, with the same arguments, result and effect.
\<close>

section \<open>Escaping and back\<close>

lemma hexVal_hexDigit: "n < 16 \<Longrightarrow> hexVal (hexDigit n) = Some n"
  by (auto simp: hexVal_def hexDigit_def codeOf_def)

lemma codeOf_less: "codeOf c < 256"
  by (simp add: codeOf_def)

lemma char_halves: "char_of (16 * (codeOf c div 16) + codeOf c mod 16) = c" "char_of (codeOf c) = c"
  by (simp_all add: codeOf_def)

lemma unescape_percent: "unescape form (percent c @ s) = map_option ((#) c) (unescape form s)"
proof -
  have "codeOf c div 16 < 16" using codeOf_less[of c] by (simp add: less_mult_imp_div_less)
  then show ?thesis by (simp add: percent_def hexVal_hexDigit char_halves)
qed

lemma bytes_plain:
  "\<not> unreserved (CHR ''%'')" "\<not> unreserved (CHR ''+'')" "\<not> unreserved (CHR ''&'')" "\<not> unreserved (CHR ''='')"
  "\<not> unreserved (CHR '';'')" "\<not> segmentByte (CHR ''%'')" "\<not> segmentByte (CHR ''?'')" "\<not> segmentByte slash"
  by (simp_all add: unreserved_def segmentByte_def alphanumeric_def codeOf_def slash_def)

lemma unescape_PathEscape: "unescape False (PathEscape s) = Some s"
proof (induction s)
  case (Cons c s)
  then show ?case
    using unescape_percent[of False c "PathEscape s"] bytes_plain(6)
    by (cases "segmentByte c") (auto simp: PathEscape_def)
qed (simp add: PathEscape_def)

lemma unescape_QueryEscape: "unescape True (QueryEscape s) = Some s"
proof (induction s)
  case (Cons c s)
  then show ?case
    using unescape_percent[of True c "QueryEscape s"] bytes_plain(1,2)
    by (cases "unreserved c") (auto simp: QueryEscape_def)
qed (simp add: QueryEscape_def)

lemma hexDigit_bytes: "n < 16 \<Longrightarrow> alphanumeric (hexDigit n)"
  by (auto simp: hexDigit_def alphanumeric_def codeOf_def Let_def)

lemma percent_bytes: "set (percent c) \<subseteq> {CHR ''%''} \<union> Collect unreserved"
proof -
  have "codeOf c div 16 < 16" using codeOf_less[of c] by (simp add: less_mult_imp_div_less)
  then show ?thesis using hexDigit_bytes by (auto simp: percent_def unreserved_def)
qed

lemma PathEscape_bytes: "c \<in> set (PathEscape s) \<Longrightarrow> segmentByte c \<or> c = CHR ''%''"
  using percent_bytes by (auto simp: PathEscape_def segmentByte_def split: if_splits)

lemma QueryEscape_bytes: "c \<in> set (QueryEscape s) \<Longrightarrow> unreserved c \<or> c = CHR ''%'' \<or> c = CHR ''+''"
  using percent_bytes by (auto simp: QueryEscape_def split: if_splits)

lemma PathEscape_inj: "PathEscape s = PathEscape t \<Longrightarrow> s = t"
  by (metis option.inject unescape_PathEscape)

lemma queryGet_escaped:
  assumes "CHR ''='' \<notin> set k" "CHR ''&'' \<notin> set k" "CHR '';'' \<notin> set k" "unescape True k = Some k"
  shows "queryGet (k @ CHR ''='' # QueryEscape v) k = v"
proof -
  let ?q = "k @ CHR ''='' # QueryEscape v"
  have b: "CHR ''&'' \<notin> set (QueryEscape v)" "CHR '';'' \<notin> set (QueryEscape v)"
    using QueryEscape_bytes[of _ v] bytes_plain by force+
  then have "splitByte (CHR ''&'') ?q = [?q]" using assms(2) by (intro splitByte_none) auto
  moreover have "queryPair ?q = Some (k, v)"
    using assms b by (auto simp: queryPair_def unescape_QueryEscape)
  ultimately show ?thesis by (simp add: queryGet_def List.map_filter_def)
qed

lemma QueryEscape_plain: "list_all unreserved s \<Longrightarrow> QueryEscape s = s"
  by (induction s) (simp_all add: QueryEscape_def)

lemma Itoa_plain: "0 \<le> n \<Longrightarrow> QueryEscape (Itoa n) = Itoa n"
proof (rule QueryEscape_plain)
  assume n: "0 \<le> n"
  have "unreserved c" if "c \<in> set (showNat (nat n))" for c
    using showNat_decimal[OF that]
    by (simp add: digitByte_def digitVal_def unreserved_def alphanumeric_def codeOf_def Let_def split: if_splits)
  with n show "list_all unreserved (Itoa n)" by (simp add: Itoa_def list_all_iff)
qed

section \<open>Routing\<close>

lemma cleanPath_good:
  assumes "list_all goodSegment cs" "cs \<noteq> []"
  shows "cleanPath (slash # joinStrings cs [slash]) = slash # joinStrings cs [slash]"
  using filepathClean_good[OF assms] joinStrings_last[OF assms(2)] assms(1)
  by (auto simp: cleanPath_def goodSegment_def list_all_iff)

text \<open>The names a path can carry.\<close>

definition addressable :: "string \<Rightarrow> bool" where
  "addressable name \<longleftrightarrow> name \<notin> {[], ''.'', ''..'', [slash]}"

lemma goodSegment_escaped: "addressable name \<Longrightarrow> goodSegment (PathEscape name)"
proof -
  assume a: "addressable name"
  have e: "PathEscape [] = []" "PathEscape ''.'' = ''.''" "PathEscape ''..'' = ''..''"
    by (simp_all add: PathEscape_def segmentByte_def unreserved_def)
  have "slash \<notin> set (PathEscape name)" using PathEscape_bytes[of slash name] bytes_plain(8) by (auto simp: slash_def)
  then show ?thesis
    using a PathEscape_inj[of name "[]"] PathEscape_inj[of name "''.''"] PathEscape_inj[of name "''..''"] e
    by (auto simp: addressable_def goodSegment_def)
qed

definition verbs :: "string set" where
  "verbs = {''start'', ''stop'', ''restart'', ''lease'', ''logs''}"

lemma plain_segments:
  "goodSegment ''v1''" "goodSegment ''projects''" "goodSegment ''status''" "goodSegment ''reload''"
  "verb \<in> verbs \<Longrightarrow> goodSegment verb"
  by (auto simp: goodSegment_def slash_def verbs_def)

lemma projectPath_joined: "projectPath name verb = slash # joinStrings [''v1'', ''projects'', PathEscape name, verb] [slash]"
  by (simp add: projectPath_def slash_def)

lemma unescapeSegment_plain: "CHR ''%'' \<notin> set s \<Longrightarrow> unescapeSegment s = s"
proof -
  have "CHR ''%'' \<notin> set s \<Longrightarrow> unescape False s = Some s" for s by (induction s) auto
  then show "CHR ''%'' \<notin> set s \<Longrightarrow> unescapeSegment s = s" by (simp add: unescapeSegment_def)
qed

lemma route_project:
  assumes "addressable name" "verb \<in> verbs"
  shows "muxRoute m (projectPath name verb) =
    (case find (\<lambda>(method, _). method = m \<or> (method = ''GET'' \<and> m = ''HEAD'')) (projectEndpoints verb) of
       Some (_, e) \<Rightarrow> Handle e name | None \<Rightarrow> if projectEndpoints verb = [] then NoSuchPath else NoSuchMethod)"
proof -
  let ?cs = "[''v1'', ''projects'', PathEscape name, verb]"
  have g: "list_all goodSegment ?cs" "?cs \<noteq> []"
    using assms goodSegment_escaped plain_segments by auto
  have "segments (projectPath name verb) = map unescapeSegment ?cs"
    using splitByte_joined[OF g] by (simp only: segments_def projectPath_joined drop_Suc_Cons drop_0 One_nat_def)
  moreover have "CHR ''%'' \<notin> set verb" using assms(2) by (auto simp: verbs_def)
  ultimately have "segments (projectPath name verb) = [''v1'', ''projects'', name, verb]"
    by (simp add: unescapeSegment_plain) (simp add: unescapeSegment_def unescape_PathEscape)
  moreover have "endpointsAt [''v1'', ''projects'', name, verb] = (projectEndpoints verb, name)"
    using assms(1) by (simp add: endpointsAt_def addressable_def)
  ultimately show ?thesis
    using cleanPath_good[OF g] by (simp add: muxRoute_def projectPath_joined)
qed

lemma route_fixed:
  "muxRoute ''GET'' ''/v1/status'' = Handle StatusEndpoint []"
  "muxRoute ''POST'' ''/v1/reload'' = Handle ReloadEndpoint []"
  by code_simp+

lemma projectPath_target:
  assumes "verb \<in> verbs"
  shows "cutByte (CHR ''?'') (projectPath name verb) = None"
    "cutByte (CHR ''?'') (projectPath name verb @ CHR ''?'' # q) = Some (projectPath name verb, q)"
proof -
  have "CHR ''?'' \<notin> set (projectPath name verb)"
    using assms PathEscape_bytes[of "CHR ''?''" name] bytes_plain(7) by (auto simp: projectPath_def verbs_def)
  then show "cutByte (CHR ''?'') (projectPath name verb) = None"
    "cutByte (CHR ''?'') (projectPath name verb @ CHR ''?'' # q) = Some (projectPath name verb, q)"
    by (simp_all add: cutByte_None)
qed

section \<open>A remote call is a call of the provider\<close>

text \<open>The methods of the client, and the calls of the provider they stand for.\<close>

datatype apiCall =
    CallStatus | CallReload | CallStart string | CallStop string | CallRestart string
  | CallRelease string | CallLease string duration | CallLogs string int

datatype apiValue = StatusValue apiStatus | ReloadValue apiReload | ProjectValue apiProject | LogsValue apiLogs

definition localCall :: "'s provider \<Rightarrow> apiCall \<Rightarrow> 's \<Rightarrow> (apiFailure + apiValue) option \<times> 's" where
  "localCall pv call s =
     (let some = (\<lambda>r. apfst (\<lambda>x. Some (map_sum id ProjectValue x)) r) in
      case call of
        CallStatus \<Rightarrow> (Some (Inr (StatusValue (pvStatus pv s))), s)
      | CallReload \<Rightarrow> apfst (map_option (map_sum id ReloadValue)) (pvReload pv s)
      | CallStart name \<Rightarrow> some (pvStart pv name s)
      | CallStop name \<Rightarrow> some (pvStop pv name s)
      | CallRestart name \<Rightarrow> some (pvRestart pv name s)
      | CallRelease name \<Rightarrow> some (pvRelease pv name s)
      | CallLease name ttl \<Rightarrow> some (pvLease pv name ttl s)
      | CallLogs name n \<Rightarrow> (Some (map_sum id LogsValue (pvLogs pv name (max 0 n) s)), s))"

definition remoteCall ::
    "codec \<Rightarrow> dial \<Rightarrow> (string \<Rightarrow> string \<Rightarrow> 's \<Rightarrow> httpResponse option \<times> 's) \<Rightarrow> apiCall \<Rightarrow> 's \<Rightarrow> apiValue outcome \<times> 's" where
  "remoteCall cd dial server call s =
     (case call of
        CallStatus \<Rightarrow> apfst (map_outcome StatusValue) (clientStatus cd dial server s)
      | CallReload \<Rightarrow> apfst (map_outcome ReloadValue) (clientReload cd dial server s)
      | CallStart name \<Rightarrow> apfst (map_outcome ProjectValue) (projectAction cd dial server name ''start'' s)
      | CallStop name \<Rightarrow> apfst (map_outcome ProjectValue) (projectAction cd dial server name ''stop'' s)
      | CallRestart name \<Rightarrow> apfst (map_outcome ProjectValue) (projectAction cd dial server name ''restart'' s)
      | CallRelease name \<Rightarrow> apfst (map_outcome ProjectValue) (clientRelease cd dial server name s)
      | CallLease name ttl \<Rightarrow> apfst (map_outcome ProjectValue) (clientLease cd dial server name ttl s)
      | CallLogs name n \<Rightarrow> apfst (map_outcome LogsValue) (clientLogs cd dial server name n s))"

definition encodeValue :: "apiValue \<Rightarrow> json" where
  "encodeValue v =
     (case v of
        StatusValue x \<Rightarrow> encodeStatus x
      | ReloadValue x \<Rightarrow> encodeReload x
      | ProjectValue x \<Rightarrow> encodeProject x
      | LogsValue x \<Rightarrow> encodeLogs x)"

text \<open>What a call has to be for the URL to carry it.\<close>

definition callable :: "apiCall \<Rightarrow> bool" where
  "callable call \<longleftrightarrow>
     (case call of
        CallStatus \<Rightarrow> True | CallReload \<Rightarrow> True
      | CallStart name \<Rightarrow> addressable name | CallStop name \<Rightarrow> addressable name
      | CallRestart name \<Rightarrow> addressable name | CallRelease name \<Rightarrow> addressable name
      | CallLease name ttl \<Rightarrow> addressable name \<and> 0 < ttl \<and> ttl < 2 ^ 63
      | CallLogs name n \<Rightarrow> addressable name \<and> n < 2 ^ 63)"

text \<open>An answer the codec carries faithfully: a value, or an error with a text that fits the client's limit.\<close>

definition wireFaithful :: "codec \<Rightarrow> json \<Rightarrow> bool" where
  "wireFaithful cd v \<longleftrightarrow> cdDecode cd (cdEncode cd v) = Some v"

definition carriedAs :: "codec \<Rightarrow> ('a \<Rightarrow> json) \<Rightarrow> apiFailure + 'a \<Rightarrow> bool" where
  "carriedAs cd enc r \<longleftrightarrow>
     (case r of
        Inr v \<Rightarrow> wireFaithful cd (enc v)
      | Inl e \<Rightarrow> wireFaithful cd (encodeError (afText e)) \<and> afText e \<noteq> [] \<and>
          length (cdEncode cd (encodeError (afText e))) \<le> 4096)"

definition carried :: "codec \<Rightarrow> (apiFailure + apiValue) option \<Rightarrow> bool" where
  "carried cd r \<longleftrightarrow> (case r of None \<Rightarrow> True | Some x \<Rightarrow> carriedAs cd encodeValue x)"

text \<open>What the client returns for an answer of the provider.\<close>

definition answerOf :: "apiFailure + 'a \<Rightarrow> 'a outcome" where
  "answerOf r = (case r of Inr v \<Rightarrow> Answered v | Inl e \<Rightarrow> APIError (errorStatusCode e) (afText e))"

definition delivered :: "(apiFailure + apiValue) option \<Rightarrow> apiValue outcome" where
  "delivered r = (case r of None \<Rightarrow> DaemonUnreachable ''EOF'' | Some x \<Rightarrow> answerOf x)"

lemma deliver_as:
  "map_outcome f (answerOf r) = delivered (Some (map_sum id f r))"
  "(\<And>v. encodeValue (f v) = enc v) \<Longrightarrow> carried cd (Some (map_sum id f r)) = carriedAs cd enc r"
  by (simp_all add: delivered_def answerOf_def carried_def carriedAs_def split: sum.split)

lemma deliver_project: "carried cd (Some (map_sum id ProjectValue r)) = carriedAs cd encodeProject r"
  by (rule deliver_as(2)) (simp add: encodeValue_def)

lemmas deliver_simps = deliver_as(1) deliver_project

lemma fetch_answer:
  "server m target s = (Some r, s1) \<Longrightarrow> hrLocation r = None \<Longrightarrow> fetch server n m target s = (Inr r, s1)"
  by (subst fetch.simps) simp

lemma answered_fields: "hrLocation (answered cd enc r) = None"
  by (simp add: answered_def writeJSON_def writeError_def split: sum.split)

lemma read_answer:
  assumes "carriedAs cd enc r" "\<And>v. dec (enc v) = Some v"
  shows "readAnswer cd dec path (answered cd enc r) = answerOf r"
proof (cases r)
  case (Inl e)
  then show ?thesis using assms(1) decode_error[of "afText e"]
    by (simp add: carriedAs_def wireFaithful_def answered_def writeError_def readAnswer_def errorMessage_def answerOf_def
        errorStatusCode_def)
next
  case (Inr v)
  then show ?thesis using assms
    by (simp add: carriedAs_def wireFaithful_def answered_def writeJSON_def readAnswer_def answerOf_def)
qed

lemma do_answer:
  assumes "NewHandler cd pv m target s = (Some (answered cd enc r), s1)" "carriedAs cd enc r" "\<And>v. dec (enc v) = Some v"
  shows "clientDo cd Connected (NewHandler cd pv) dec m target s = (answerOf r, s1)"
  using read_answer[OF assms(2,3)]
  by (simp add: clientDo_def fetch_answer[of "NewHandler cd pv" m target s, OF assms(1) answered_fields])

lemma do_panic:
  assumes "NewHandler cd pv m target s = (None, s1)"
  shows "clientDo cd Connected (NewHandler cd pv) dec m target s = (DaemonUnreachable ''EOF'', s1)"
  using assms by (simp add: clientDo_def fetch.simps[of "NewHandler cd pv"])

lemma handle_project:
  assumes "addressable name" "verb \<in> verbs"
    and "find (\<lambda>(method, _). method = m \<or> (method = ''GET'' \<and> m = ''HEAD'')) (projectEndpoints verb) = Some (x, e)"
  shows "NewHandler cd pv m (projectPath name verb) s = endpointHandler cd pv e name [] s"
    and "NewHandler cd pv m (projectPath name verb @ CHR ''?'' # q) s = endpointHandler cd pv e name q s"
  using route_project[OF assms(1,2), of m] projectPath_target[OF assms(2)] assms(3)
  by (simp_all add: NewHandler_def)

text \<open>Each method of the client reaches the provider's.\<close>

lemma status_reaches:
  "wireFaithful cd (encodeStatus (pvStatus pv s)) \<Longrightarrow>
    clientStatus cd Connected (NewHandler cd pv) s = (Answered (pvStatus pv s), s)"
proof -
  assume c: "wireFaithful cd (encodeStatus (pvStatus pv s))"
  have "NewHandler cd pv ''GET'' ''/v1/status'' s = (Some (answered cd encodeStatus (Inr (pvStatus pv s))), s)"
    using route_fixed(1) by (simp add: NewHandler_def endpointHandler_def stay_def answered_def)
  from do_answer[OF this, of decodeStatus] c show ?thesis
    by (simp add: clientStatus_def decode_status carriedAs_def answerOf_def)
qed

lemma reload_handled:
  "NewHandler cd pv ''POST'' ''/v1/reload'' s = apfst (map_option (answered cd encodeReload)) (pvReload pv s)"
  using route_fixed(2) by (simp add: NewHandler_def endpointHandler_def)

lemma reload_reaches:
  assumes "pvReload pv s = (Some r, s1)" "carriedAs cd encodeReload r"
  shows "clientReload cd Connected (NewHandler cd pv) s = (answerOf r, s1)"
  using do_answer[OF _ assms(2), of pv "''POST''" "''/v1/reload''" s s1 decodeReload] assms(1)
  by (simp add: clientReload_def reload_handled decode_reload)

lemma reload_panics:
  assumes "pvReload pv s = (None, s1)"
  shows "clientReload cd Connected (NewHandler cd pv) s = (DaemonUnreachable ''EOF'', s1)"
  using do_panic[of cd pv "''POST''" "''/v1/reload''" s s1 decodeReload] assms
  by (simp add: clientReload_def reload_handled)

lemma project_reaches:
  assumes "addressable name" "verb \<in> verbs"
    and "find (\<lambda>(method, _). method = m \<or> (method = ''GET'' \<and> m = ''HEAD'')) (projectEndpoints verb) = Some (x, e)"
    and "endpointHandler cd pv e name [] s = (Some (answered cd encodeProject r), s1)" "carriedAs cd encodeProject r"
  shows "clientDo cd Connected (NewHandler cd pv) decodeProject m (projectPath name verb) s = (answerOf r, s1)"
  by (rule do_answer[OF _ assms(5) decode_project]) (simp add: handle_project(1)[OF assms(1-3)] assms(4))

lemma action_reaches:
  assumes "addressable name"
  shows "pvStart pv name s = (r, s1) \<Longrightarrow> carriedAs cd encodeProject r \<Longrightarrow>
      projectAction cd Connected (NewHandler cd pv) name ''start'' s = (answerOf r, s1)"
    and "pvStop pv name s = (r, s1) \<Longrightarrow> carriedAs cd encodeProject r \<Longrightarrow>
      projectAction cd Connected (NewHandler cd pv) name ''stop'' s = (answerOf r, s1)"
    and "pvRestart pv name s = (r, s1) \<Longrightarrow> carriedAs cd encodeProject r \<Longrightarrow>
      projectAction cd Connected (NewHandler cd pv) name ''restart'' s = (answerOf r, s1)"
    and "pvRelease pv name s = (r, s1) \<Longrightarrow> carriedAs cd encodeProject r \<Longrightarrow>
      clientRelease cd Connected (NewHandler cd pv) name s = (answerOf r, s1)"
proof -
  note r = project_reaches[OF assms, where cd = cd and pv = pv and s = s]
  note d = verbs_def projectEndpoints_def endpointHandler_def replied_def projectAction_def clientRelease_def
  show "projectAction cd Connected (NewHandler cd pv) name ''start'' s = (answerOf r, s1)"
    if "pvStart pv name s = (r, s1)" "carriedAs cd encodeProject r"
    using that r[of "''start''" "''POST''" "''POST''" StartEndpoint r s1] by (simp add: d)
  show "projectAction cd Connected (NewHandler cd pv) name ''stop'' s = (answerOf r, s1)"
    if "provider.pvStop pv name s = (r, s1)" "carriedAs cd encodeProject r"
    using that r[of "''stop''" "''POST''" "''POST''" StopEndpoint r s1] by (simp add: d)
  show "projectAction cd Connected (NewHandler cd pv) name ''restart'' s = (answerOf r, s1)"
    if "pvRestart pv name s = (r, s1)" "carriedAs cd encodeProject r"
    using that r[of "''restart''" "''POST''" "''POST''" RestartEndpoint r s1] by (simp add: d)
  show "clientRelease cd Connected (NewHandler cd pv) name s = (answerOf r, s1)"
    if "pvRelease pv name s = (r, s1)" "carriedAs cd encodeProject r"
    using that r[of "''lease''" "''DELETE''" "''DELETE''" ReleaseEndpoint r s1] by (simp add: d)
qed

lemma lease_reaches:
  assumes "addressable name" "0 < ttl" "ttl < 2 ^ 63" "pvLease pv name ttl s = (r, s1)" "carriedAs cd encodeProject r"
  shows "clientLease cd Connected (NewHandler cd pv) name ttl s = (answerOf r, s1)"
proof -
  let ?q = "''ttl='' @ QueryEscape (DurationString ttl)"
  have q: "queryGet ?q ''ttl'' = DurationString ttl" using queryGet_escaped[of "''ttl''"] by simp
  have "ParseDuration (DurationString ttl) = Some ttl" using assms(2,3) by (intro duration_text_roundtrip) auto
  then have "NewHandler cd pv ''POST'' (projectPath name ''lease'' @ CHR ''?'' # ?q) s = (Some (answered cd encodeProject r), s1)"
    using assms(1-4) q handle_project(2)[of name "''lease''" "''POST''" "''POST''" LeaseEndpoint cd pv ?q s]
    by (simp add: verbs_def projectEndpoints_def endpointHandler_def leaseHandler_def replied_def)
  from do_answer[OF this assms(5) decode_project] show ?thesis by (simp add: clientLease_def)
qed

lemma logs_reaches:
  assumes "addressable name" "n < 2 ^ 63" "carriedAs cd encodeLogs (pvLogs pv name (max 0 n) s)"
  shows "clientLogs cd Connected (NewHandler cd pv) name n s = (answerOf (pvLogs pv name (max 0 n) s), s)"
proof -
  let ?t = "projectPath name ''logs'' @ (if 0 < n then ''?lines='' @ Itoa n else [])"
  have "NewHandler cd pv ''GET'' ?t s = (Some (answered cd encodeLogs (pvLogs pv name (max 0 n) s)), s)"
  proof (cases "0 < n")
    case True
    have d: "Itoa n = QueryEscape (Itoa n)" "Atoi (Itoa n) = Some n"
      using True assms(2) Itoa_plain[of n] Atoi_showNat[of "nat n"] by (simp_all add: Itoa_def)
    then have "queryGet (''lines='' @ Itoa n) ''lines'' = Itoa n" using queryGet_escaped[of "''lines''" "Itoa n"] by simp
    moreover have "linesOf (Itoa n) = Some n" using d(2) True by (auto simp: linesOf_def Itoa_def)
    ultimately show ?thesis
      using True assms(1) handle_project(2)[of name "''logs''" "''GET''" "''GET''" LogsEndpoint cd pv "''lines='' @ Itoa n" s]
      by (simp add: verbs_def projectEndpoints_def endpointHandler_def logsHandler_def stay_def)
  next
    case False
    have "linesOf (queryGet [] ''lines'') = Some 0" by code_simp
    with False show ?thesis
      using assms(1) handle_project(1)[of name "''logs''" "''GET''" "''GET''" LogsEndpoint cd pv s]
      by (simp add: verbs_def projectEndpoints_def endpointHandler_def logsHandler_def stay_def)
  qed
  from do_answer[OF this assms(3) decode_logs] show ?thesis by (simp add: clientLogs_def)
qed

text \<open>
  C15. A call over the control socket is a call of the provider: the client's method reaches the provider's
  method of that name with the same project, duration and number of lines, has exactly its effect, and
  returns what it returned: the value, or an error with its text and the status 404 for an unknown project
  and 500 otherwise. It holds for every call a URL can carry (\<open>callable\<close>) and every answer the codec
  carries (\<open>carried\<close>: the client reads at most 4096 bytes of an error).
\<close>

theorem remote_call_is_local:
  assumes "callable call" and "carried cd (fst (localCall pv call s))"
  shows "remoteCall cd Connected (NewHandler cd pv) call s = apfst delivered (localCall pv call s)"
proof (cases call)
  case CallStatus
  with assms(2) show ?thesis
    using status_reaches[of cd pv s]
    by (simp add: remoteCall_def localCall_def carried_def carriedAs_def encodeValue_def delivered_def answerOf_def)
next
  case CallReload
  obtain r s1 where r: "pvReload pv s = (r, s1)" by fastforce
  with CallReload assms(2) deliver_as(2)[of ReloadValue encodeReload cd] show ?thesis
    using reload_reaches[of pv s _ s1 cd] reload_panics[of pv s s1 cd]
    by (cases r) (simp_all add: remoteCall_def localCall_def encodeValue_def deliver_as(1) delivered_def[of None])
next
  case (CallLogs name n)
  with assms deliver_as(2)[of LogsValue encodeLogs cd] show ?thesis
    using logs_reaches[of name n cd pv s]
    by (simp add: remoteCall_def localCall_def encodeValue_def deliver_as(1) callable_def)
next
  case (CallStart name)
  with assms show ?thesis
    using action_reaches(1)[of name pv s "fst (pvStart pv name s)" "snd (pvStart pv name s)" cd]
    by (simp add: remoteCall_def localCall_def deliver_simps callable_def apfst_def map_prod_def split_beta)
next
  case (CallStop name)
  with assms show ?thesis
    using action_reaches(2)[of name pv s "fst (provider.pvStop pv name s)" "snd (provider.pvStop pv name s)" cd]
    by (simp add: remoteCall_def localCall_def deliver_simps callable_def apfst_def map_prod_def split_beta)
next
  case (CallRestart name)
  with assms show ?thesis
    using action_reaches(3)[of name pv s "fst (pvRestart pv name s)" "snd (pvRestart pv name s)" cd]
    by (simp add: remoteCall_def localCall_def deliver_simps callable_def apfst_def map_prod_def split_beta)
next
  case (CallRelease name)
  with assms show ?thesis
    using action_reaches(4)[of name pv s "fst (pvRelease pv name s)" "snd (pvRelease pv name s)" cd]
    by (simp add: remoteCall_def localCall_def deliver_simps callable_def apfst_def map_prod_def split_beta)
next
  case (CallLease name ttl)
  with assms show ?thesis
    using lease_reaches[of name ttl pv s "fst (pvLease pv name ttl s)" "snd (pvLease pv name ttl s)" cd]
    by (simp add: remoteCall_def localCall_def deliver_simps callable_def apfst_def map_prod_def split_beta)
qed

text \<open>A provider of one project with a counter of the calls that changed it.\<close>

definition demoAnswer :: apiProject where
  "demoAnswer =
     \<lparr>apName = ''a b'', apPublicURL = [], apHost = [], apSupervisorPort = 7101, apApplicationPort = 5173,
      apWorkingDirectory = [], apSource = [], apDynamic = False, apState = ''running'', apPID = 12, apUptime = 0,
      apLastExit = [], apLastError = [], apAlwaysOn = False, apInflight = 0, apLastActivityAt = zeroTime,
      apLeaseUntil = 90000000000, apIdleStopAt = zeroTime\<rparr>"

definition demoProvider :: "nat provider" where
  "demoProvider =
     (let does = (\<lambda>name n. (if name = ''a b'' then Inr demoAnswer else Inl \<lparr>afUnknown = True, afText = ''unknown project''\<rparr>, Suc n))
      in \<lparr>pvStatus = (\<lambda>n. \<lparr>asVersion = [], asPID = 1, asStartedAt = 0, asUptime = 0, asConfigPath = [],
            asLastReloadAt = zeroTime, asProjects = [demoAnswer], asWildcards = [], asBudget = None\<rparr>), pvReload = (\<lambda>n. (None, n)), pvStart = does, pvStop = does, pvRestart = does,
          pvRelease = does, pvLease = (\<lambda>name ttl n. if ttl = 90000000000 then does name n else (Inr demoAnswer, 0)),
          pvLogs = (\<lambda>name n s. Inr \<lparr>alName = name, alLogFile = [], alLines = []\<rparr>)\<rparr>)"

definition demoCodec :: codec where
  "demoCodec =
     \<lparr>cdEncode = (\<lambda>_. ''{..}''),
      cdDecode = (\<lambda>t. if t = ''{..}'' then Some (encodeProject demoAnswer) else None), cdRedirect = 307\<rparr>"

theorem remote_call_is_local_witness:
  "remoteCall demoCodec Connected (NewHandler demoCodec demoProvider) (CallLease ''a b'' 90000000000) 4 =
     (Answered (ProjectValue demoAnswer), 5)"
proof -
  have l: "localCall demoProvider (CallLease ''a b'' 90000000000) 4 = (Some (Inr (ProjectValue demoAnswer)), 5)"
    by (simp add: localCall_def demoProvider_def Let_def)
  have "callable (CallLease ''a b'' 90000000000)" by (simp add: callable_def addressable_def slash_def)
  moreover have "carried demoCodec (fst (localCall demoProvider (CallLease ''a b'' 90000000000) 4))"
    by (simp add: l carried_def carriedAs_def wireFaithful_def encodeValue_def demoCodec_def)
  ultimately show ?thesis
    using remote_call_is_local[of "CallLease ''a b'' 90000000000" demoCodec demoProvider 4]
    by (simp add: l delivered_def answerOf_def)
qed

text \<open>
  A project named \<open>.\<close> or \<open>..\<close>, which the validation accepts, cannot be controlled: the mux cleans the path of
  the request, and every action on it ends in a 404 without reaching the daemon.
\<close>

theorem dot_names_never_reach:
  assumes "name \<in> {''.'', ''..''}" and "verb \<in> {''start'', ''stop'', ''restart''}"
    and "cdDecode cd (''404 page not found'' @ [CHR 0x0A]) = None"
  shows "projectAction cd Connected (NewHandler cd pv) name verb s = (APIError 404 ''404 page not found'', s)"
proof -
  let ?lost = "\<lparr>hrCode = 404, hrBody = ''404 page not found'' @ [CHR 0x0A], hrLocation = None\<rparr>"
  obtain p where r: "\<And>m. muxRoute m (projectPath name verb) = RedirectTo p" "\<And>m. muxRoute m p = NoSuchPath"
    and q: "cutByte (CHR ''?'') (projectPath name verb) = None" "cutByte (CHR ''?'') p = None" "withQuery p [] = p"
  proof -
    have "cleanPath (projectPath name verb) \<noteq> projectPath name verb \<and>
      cleanPath (cleanPath (projectPath name verb)) = cleanPath (projectPath name verb) \<and>
      fst (endpointsAt (segments (cleanPath (projectPath name verb)))) = [] \<and>
      cutByte (CHR ''?'') (projectPath name verb) = None \<and>
      cutByte (CHR ''?'') (cleanPath (projectPath name verb)) = None"
      using assms(1,2) by (elim insertE emptyE; simp only:) code_simp+
    then show thesis
      by (intro that[of "cleanPath (projectPath name verb)"]) (simp_all add: muxRoute_def withQuery_def split_beta)
  qed
  have "fetch (NewHandler cd pv) 8 m p s = (Inr ?lost, s)" for m
    by (rule fetch_answer) (simp_all add: NewHandler_def q r stay_def)
  then have "fetch (NewHandler cd pv) (Suc 8) ''POST'' (projectPath name verb) s = (Inr ?lost, s)"
    by (subst fetch.simps) (simp add: NewHandler_def q r stay_def)
  moreover have "errorMessage cd ?lost = ''404 page not found''"
  proof -
    have "TrimSpace (''404 page not found'' @ [CHR 0x0A]) = ''404 page not found''" by code_simp
    with assms(3) show ?thesis by (simp add: errorMessage_def)
  qed
  ultimately show ?thesis by (simp add: projectAction_def clientDo_def readAnswer_def eval_nat_numeral)
qed

theorem dot_names_never_reach_witness:
  "projectAction demoCodec Connected (NewHandler demoCodec demoProvider) ''..'' ''stop'' 4 =
     (APIError 404 ''404 page not found'', 4)"
  by (rule dot_names_never_reach) (simp_all add: demoCodec_def)

text \<open>
  A request whose lease is not a positive duration, or whose number of lines is not one, is refused with a 400
  and does not reach the provider.
\<close>

theorem bad_arguments_change_nothing:
  assumes "addressable name"
  shows "(case ParseDuration (queryGet q ''ttl'') of None \<Rightarrow> True | Some ttl \<Rightarrow> ttl \<le> 0) \<Longrightarrow>
      NewHandler cd pv ''POST'' (projectPath name ''lease'' @ CHR ''?'' # q) s =
        (Some (writeError cd 400 ''ttl must be a positive Go duration, e.g. ttl=30m''), s)"
    and "linesOf (queryGet q ''lines'') = None \<Longrightarrow>
      NewHandler cd pv ''GET'' (projectPath name ''logs'' @ CHR ''?'' # q) s =
        (Some (writeError cd 400 ''lines must be a non-negative integer''), s)"
proof -
  show "NewHandler cd pv ''POST'' (projectPath name ''lease'' @ CHR ''?'' # q) s =
        (Some (writeError cd 400 ''ttl must be a positive Go duration, e.g. ttl=30m''), s)"
    if "case ParseDuration (queryGet q ''ttl'') of None \<Rightarrow> True | Some ttl \<Rightarrow> ttl \<le> 0"
    using that handle_project(2)[OF assms, of "''lease''" "''POST''" "''POST''" LeaseEndpoint cd pv q s]
    by (auto simp: verbs_def projectEndpoints_def endpointHandler_def leaseHandler_def stay_def split: option.splits)
  show "NewHandler cd pv ''GET'' (projectPath name ''logs'' @ CHR ''?'' # q) s =
        (Some (writeError cd 400 ''lines must be a non-negative integer''), s)"
    if "linesOf (queryGet q ''lines'') = None"
    using that handle_project(2)[OF assms, of "''logs''" "''GET''" "''GET''" LogsEndpoint cd pv q s]
    by (simp add: verbs_def projectEndpoints_def endpointHandler_def logsHandler_def stay_def)
qed

end
