(* ===== verification/CliProps.thy ===== *)
theory CliProps
  imports Cli ControlProps
begin

text \<open>
  What the command line promises: a usage error changes nothing, the listing shows no secret, the URL printed
  for a directory leads to it, and the commands that ask the daemon do what the daemon's operations do and
  say how they ended.
\<close>

section \<open>Exit code 2\<close>

lemma load_error: "loadConfigWithOptions w fs skip p = Inl r \<Longrightarrow> crOut r = []"
  by (auto simp: loadConfigWithOptions_def exits_def split: sum.splits if_splits)

lemma socket_error: "resolveSocketPath w p = Inl r \<Longrightarrow> crOut r = [] \<and> crCode r = 1"
  by (auto simp: resolveSocketPath_def exits_def split: sum.splits if_splits)

text \<open>A body that changes nothing when it ends with 2.\<close>

definition refuses :: "cliResult \<times> 's machine \<Rightarrow> 's machine \<Rightarrow> bool" where
  "refuses x m \<longleftrightarrow> (crCode (fst x) = 2 \<longrightarrow> snd x = m \<and> crOut (fst x) = [])"

lemma refuses_exits [simp]: "refuses (exits c s e, m) m \<longleftrightarrow> (c = 2 \<longrightarrow> s = [])"
  "c \<noteq> 2 \<Longrightarrow> refuses (exits c s e, m1) m"
  by (simp_all add: refuses_def exits_def)

lemma refuses_quiet [simp]: "crOut r = [] \<Longrightarrow> refuses (r, m) m"
  by (simp add: refuses_def)

lemma refuses_flags:
  "(\<And>vals rest. refuses (body vals rest m) m) \<Longrightarrow> refuses (withFlags w c spec args body m) m"
  by (simp add: withFlags_def split: sum.split prod.split)

lemma refuses_loaded:
  "(\<And>cfg path. refuses (f cfg path) m) \<Longrightarrow>
    refuses (case loadConfigWithOptions w fs skip p of Inl r \<Rightarrow> (r, m) | Inr (cfg, path) \<Rightarrow> f cfg path) m"
  using load_error[of w fs skip p] by (auto split: sum.split prod.split)

lemma refuses_socket:
  "(\<And>s. refuses (f s) m) \<Longrightarrow> refuses (case resolveSocketPath w p of Inl r \<Rightarrow> (r, m) | Inr s \<Rightarrow> f s) m"
  using socket_error[of w p] by (auto split: sum.split)

lemma refuses_call:
  "(\<And>x m1. refuses (f x m1) m) \<Longrightarrow> (\<And>r m1. refuses (g r m1) m) \<Longrightarrow>
    refuses (case c of (Answered x, m1) \<Rightarrow> f x m1 | (r, m1) \<Rightarrow> g r m1) m"
  by (simp split: prod.split outcome.split)

lemma refuses_if: "refuses x m \<Longrightarrow> refuses y m \<Longrightarrow> refuses (if b then x else y) m"
  by simp

lemma refuses_each:
  "refuses (runProjects w args m) m" "refuses (runStart w args m) m" "refuses (runStatus w args m) m"
  "refuses (runReload w args m) m" "refuses (runSync w args m) m" "refuses (runURL w args m) m"
  "refuses (runProjectRemove w args m) m" "refuses (runProjectCommand w c args m) m"
  "refuses (runProjectLease w args m) m" "refuses (runLogs w args m) m"
proof -
  show "refuses (runProjects w args m) m"
    unfolding runProjects_def loadConfig_def by (intro refuses_flags refuses_loaded) simp
  show "refuses (runStart w args m) m"
    unfolding runStart_def loadConfig_def
    by (intro refuses_flags refuses_loaded refuses_socket) (simp split: sum.split option.split)
  show "refuses (runStatus w args m) m"
    unfolding runStatus_def by (intro refuses_flags refuses_socket refuses_call) simp_all
  have "refuses (reloadAnswer r, m1) m" for r and m1 :: "'a machine"
    by (simp add: reloadAnswer_def)
  then show "refuses (runReload w args m) m"
    unfolding runReload_def by (intro refuses_flags refuses_socket refuses_call) simp_all
  have f: "refuses (finishSync w vals s x) m" for vals s x
    by (simp add: finishSync_def split_beta split: sum.split)
  show "refuses (runSync w args m) m"
    unfolding runSync_def by (intro refuses_flags) (simp add: refuses_loaded refuses_socket f)
  show "refuses (runURL w args m) m"
    unfolding runURL_def
    by (intro refuses_flags) (simp add: refuses_loaded split: sum.split)
  have r: "refuses (removeMessage w cfg path name e, m1) m" for cfg path name e m1
    by (simp add: removeMessage_def split: removeError.split)
  have rm: "refuses (case x of (Inl e, m1) \<Rightarrow> (removeMessage w cfg path name e, m1)
      | (Inr r, m1) \<Rightarrow> (case triggerReload w s m1 of (reload, m2) \<Rightarrow>
          (exits (if reloadFailed reload then 1 else 0) (printRemoved tx name r reload) [], m2))) m" for x cfg path name s tx
    by (simp add: r split_beta split: sum.split)
  show "refuses (runProjectRemove w args m) m"
    unfolding runProjectRemove_def Let_def
    by (intro refuses_flags) (simp add: refuses_loaded refuses_socket rm)
  show "refuses (runProjectCommand w c args m) m"
    unfolding runProjectCommand_def Let_def
    by (intro refuses_flags refuses_if refuses_socket refuses_call) simp_all
  show "refuses (runProjectLease w args m) m"
    unfolding runProjectLease_def Let_def
    by (intro refuses_flags refuses_if refuses_socket refuses_call) simp_all
  show "refuses (runLogs w args m) m"
    unfolding runLogs_def Let_def
    by (intro refuses_flags refuses_if refuses_socket refuses_call) simp_all
qed

text \<open>
  C23. Exit code 2 means that nothing happened: the arguments were not understood, nothing was printed to the
  standard output, no file was written, no herd command ran and the daemon was not reached.
\<close>

theorem usage_errors_touch_nothing:
  assumes "runArgs w args m = (r, m1)" and "crCode r = 2"
  shows "m1 = m \<and> crOut r = []"
proof -
  have "refuses (runArgs w args m) m"
    unfolding runArgs_def Let_def by (cases args) (simp_all add: refuses_each)
  with assms show ?thesis by (simp add: refuses_def)
qed

text \<open>A machine with one worktree of a wildcard entry, and a daemon of one project behind the socket.\<close>

definition clOS :: osView where
  "clOS = wtOS\<lparr>osStat := (\<lambda>p. if p = ''/w'' then Some Directory else osStat wtOS p)\<rparr>"

definition clEntry :: discovery where
  "clEntry = wtEntry\<lparr>dMode := ''wildcard'', dBaseDomain := ''web.test''\<rparr>"

definition clConfig :: config where
  "clConfig = \<lparr>cProjects = [], cMaxRunning = 0, cDiscovery = [Some clEntry], cPath = ''/c.yaml''\<rparr>"

definition clHerd :: herdWorld where
  "clHerd =
     \<lparr>hwRun = (\<lambda>_ _. Inr []), hwRead = (\<lambda>_ _. NotExist), hwOS = clOS, hwHostname = (\<lambda>_. None),
      hwIsIP = (\<lambda>_. False), hwStrings = (\<lambda>_ _. (True, [])), hwItems = (\<lambda>_. None)\<rparr>"

definition clEnv :: syncEnv where
  "clEnv =
     \<lparr>seOS = clOS, seLinks = Some, seEnvOS = demoEnvOS, seShell = (\<lambda>_ _ _. TimedOut), seHerd = clHerd,
      seDecode = (\<lambda>_. Inr \<lparr>rcProjects = [], rcMaxRunning = 0, rcDiscovery = []\<rparr>),
      seEncode = (\<lambda>_. Inr ''projects: {}''), seFault = (\<lambda>_. None), seTmp = (\<lambda>_. ''/tmp/t''),
      seQuote = id, seDecodeState = (\<lambda>_. Inr \<lparr>ssWildcards = [], ssProxyNotes = []\<rparr>),
      seEncodeState = (\<lambda>_. Inr ''state''), seRemoveFails = (\<lambda>_. None), seGOOS = ''linux''\<rparr>"

definition clTexts :: cliTexts where
  "clTexts =
     \<lparr>txFlags = (\<lambda>_ _. ''flag''), txQuote = id, txTable = id, txLoad = (\<lambda>_. ''load''), txNotExist = (\<lambda>_. False),
      txPanic = ''panic'', txRejection = (\<lambda>_. ''rejected''), txSyncFailure = (\<lambda>_. ''sync''), txSyncError = (\<lambda>_. ''error''),
      txSkip = (\<lambda>_. ''skip''), txDetail = (\<lambda>_. []), txRemove = (\<lambda>_. ''remove''), txDecode = ''decode'',
      txContext = ''context'', txSystem = (\<lambda>_. ''errno''), txSyncJSON = (\<lambda>_ _. [])\<rparr>"

definition clSys :: sysView where
  "clSys =
     \<lparr>svGOOS = ''linux'', svGetenv = (\<lambda>_. []), svHome = Inr ''/h'', svUid = 501, svDirExists = (\<lambda>_. False)\<rparr>"

definition clWorld :: "nat cliWorld" where
  "clWorld =
     \<lparr>cwSys = clSys, cwEnv = clEnv, cwTexts = clTexts, cwNow = 0, cwClock = (\<lambda>_. ''15:04:05''), cwVersion = ''dev'',
      cwGetwd = Inr ''/w/feat'',
      cwDetect = \<lparr>detBinary = [], detConfigDir = [], detHome = [], detUserHome = None, detLookPath = (\<lambda>_. None),
        detGOOS = [], detBundled = (\<lambda>_. False)\<rparr>,
      cwDetectText = ''no herd'', cwCodec = demoCodec, cwDial = (\<lambda>_. Connected),
      cwServer = NewHandler demoCodec demoProvider, cwServe = (\<lambda>_ _ _. None)\<rparr>"

definition clMachine :: "nat machine" where
  "clMachine = \<lparr>mcFiles = (\<lambda>_. NotExist), mcRuns = [], mcDaemon = 4\<rparr>"

theorem usage_errors_touch_nothing_witness:
  "\<exists>r. runArgs clWorld [''logs'', ''--lines=many'', ''a''] clMachine = (r, clMachine) \<and> crCode r = 2 \<and> crOut r = []"
proof -
  have "argOf ''--lines=many'' = FlagArg ''lines'' (Some ''many'')" "ParseInt0 ''many'' = None" by code_simp+
  then have p: "parseFlags (socketSpec @ [(''lines'', IntFlag)]) [] [''--lines=many'', ''a''] = Inl (InvalidValue ''many'' ''lines'')"
    by (simp add: socketSpec_def storeFlag_def setFlag_def)
  obtain r m where r: "runArgs clWorld [''logs'', ''--lines=many'', ''a''] clMachine = (r, m)" by fastforce
  moreover have "runArgs clWorld [''logs'', ''--lines=many'', ''a''] clMachine = runLogs clWorld [''--lines=many'', ''a''] clMachine"
    by (simp add: runArgs_def)
  then have "crCode r = 2" using r unfolding runLogs_def withFlags_def p by (auto simp: exits_def)
  ultimately show ?thesis using usage_errors_touch_nothing[of clWorld "[''logs'', ''--lines=many'', ''a'']" clMachine r m] by blast
qed

section \<open>The listing\<close>

text \<open>Other values for the variables whose names are sensitive, in the projects and in the templates.\<close>

definition rewriteSecrets :: "(string \<Rightarrow> string \<Rightarrow> string) \<Rightarrow> project \<Rightarrow> project" where
  "rewriteSecrets f p =
     p\<lparr>pEnv := map (\<lambda>(n, v). (n, if Sensitive n then f n v else v)) (pEnv p)\<rparr>"

definition rewriteConfig :: "(string \<Rightarrow> string \<Rightarrow> string) \<Rightarrow> config \<Rightarrow> config" where
  "rewriteConfig f cfg =
     cfg\<lparr>cProjects := map (apsnd (rewriteSecrets f)) (cProjects cfg),
         cDiscovery := map (map_option (\<lambda>d. d\<lparr>dTemplate := rewriteSecrets f (dTemplate d)\<rparr>)) (cDiscovery cfg)\<rparr>"

lemma rewritten_env:
  "map fst (pEnv (rewriteSecrets f p)) = map fst (pEnv p)"
  "map_of (pEnv (rewriteSecrets f p)) n = map_option (\<lambda>v. if Sensitive n then f n v else v) (map_of (pEnv p) n)"
proof -
  show "map fst (pEnv (rewriteSecrets f p)) = map fst (pEnv p)" by (simp add: rewriteSecrets_def split_beta comp_def)
  have "map_of (map (\<lambda>(n, v). (n, if Sensitive n then f n v else v)) xs) n =
      map_option (\<lambda>v. if Sensitive n then f n v else v) (map_of xs n)" for xs by (induction xs) auto
  then show "map_of (pEnv (rewriteSecrets f p)) n = map_option (\<lambda>v. if Sensitive n then f n v else v) (map_of (pEnv p) n)"
    by (simp add: rewriteSecrets_def)
qed

lemma shown_env:
  "n \<in> fst ` set (pEnv p) \<Longrightarrow>
    Display n (case map_of (pEnv (rewriteSecrets f p)) n of Some v \<Rightarrow> v | None \<Rightarrow> []) =
    Display n (case map_of (pEnv p) n of Some v \<Rightarrow> v | None \<Rightarrow> [])"
  by (auto simp: rewritten_env Display_def split: option.split)

lemma environment_hides: "printEnvironment (rewriteSecrets f p) x = printEnvironment p x"
proof -
  have "map (\<lambda>n. n @ ''='' @ Display n (case map_of (pEnv (rewriteSecrets f p)) n of Some v \<Rightarrow> v | None \<Rightarrow> []))
      (sort (map fst (pEnv (rewriteSecrets f p)))) =
    map (\<lambda>n. n @ ''='' @ Display n (case map_of (pEnv p) n of Some v \<Rightarrow> v | None \<Rightarrow> [])) (sort (map fst (pEnv p)))"
    unfolding rewritten_env(1) by (rule map_cong) (simp_all add: shown_env)
  moreover have "pEnvFile (rewriteSecrets f p) = pEnvFile p" "(pEnv (rewriteSecrets f p) = []) = (pEnv p = [])"
    "DiagnosticLogsEnabled (rewriteSecrets f p) = DiagnosticLogsEnabled p"
    by (simp_all add: rewriteSecrets_def DiagnosticLogsEnabled_def)
  ultimately show ?thesis by (simp only: printEnvironment_def)
qed

lemma project_hides: "printProject (rewriteSecrets f p) = printProject p"
  unfolding printProject_def environment_hides by (simp add: rewriteSecrets_def)

lemma wildcard_hides: "printWildcard (d\<lparr>dTemplate := rewriteSecrets f (dTemplate d)\<rparr>) = printWildcard d"
  by (simp add: printWildcard_def environment_hides)
    (simp add: URLPattern_def SupervisorPort_def Wildcard_def rewriteSecrets_def)

lemma rewritten_entries:
  "filter Wildcard (discoveries (rewriteConfig f cfg)) =
    map (\<lambda>d. d\<lparr>dTemplate := rewriteSecrets f (dTemplate d)\<rparr>) (filter Wildcard (discoveries cfg))"
proof -
  have "filter Wildcard (List.map_filter id (map (map_option (\<lambda>d. d\<lparr>dTemplate := rewriteSecrets f (dTemplate d)\<rparr>)) es)) =
    map (\<lambda>d. d\<lparr>dTemplate := rewriteSecrets f (dTemplate d)\<rparr>) (filter Wildcard (List.map_filter id es))" for es
    by (induction es) (auto simp: List.map_filter_simps Wildcard_def split: option.split)
  then show ?thesis by (simp add: discoveries_def rewriteConfig_def)
qed

text \<open>
  C25. \<open>herd-wake projects\<close> shows no secret: its output does not depend on the value of any inline variable with a
  sensitive name, of a project or of the template of an entry. (It opens no env file.)
\<close>

theorem listing_hides_secrets: "listProjects (rewriteConfig f cfg) path = listProjects cfg path"
proof -
  have names: "ProjectNames (rewriteConfig f cfg) = ProjectNames cfg"
    by (simp add: ProjectNames_def rewriteConfig_def comp_def apsnd_def map_prod_def split_beta)
  have "map_of (map (apsnd g) xs) n = map_option g (map_of xs n)" for n and g :: "project \<Rightarrow> project" and xs :: "(string \<times> project) list"
    by (induction xs) auto
  then have "projectOf (rewriteConfig f cfg) n = rewriteSecrets f (projectOf cfg n)" if "n \<in> set (ProjectNames cfg)" for n
    using that by (auto simp: projectOf_def rewriteConfig_def ProjectNames_def dest!: weak_map_of_SomeI)
  then have "map (\<lambda>n. printProject (projectOf (rewriteConfig f cfg) n)) (ProjectNames cfg) =
      map (\<lambda>n. printProject (projectOf cfg n)) (ProjectNames cfg)"
    by (intro map_cong) (simp_all add: project_hides)
  moreover have "map (\<lambda>d. line [] @ printWildcard d) (filter Wildcard (discoveries (rewriteConfig f cfg))) =
      map (\<lambda>d. line [] @ printWildcard d) (filter Wildcard (discoveries cfg))"
    by (simp add: rewritten_entries wildcard_hides)
  moreover have "(filter Wildcard (discoveries (rewriteConfig f cfg)) = []) = (filter Wildcard (discoveries cfg) = [])"
    by (simp add: rewritten_entries)
  moreover have "(cProjects (rewriteConfig f cfg) = []) = (cProjects cfg = [])" "cMaxRunning (rewriteConfig f cfg) = cMaxRunning cfg"
    by (simp_all add: rewriteConfig_def)
  ultimately show ?thesis unfolding listProjects_def Let_def names by presburger
qed

section \<open>The URL of a directory\<close>

text \<open>
  What \<open>filepath.EvalSymlinks\<close> documents: resolving a path resolves its directory first, so two names of one
  directory give the same result for the same entry in it.
\<close>

definition resolvesSteps :: "(string \<Rightarrow> string option) \<Rightarrow> bool" where
  "resolvesSteps links \<longleftrightarrow>
     (\<forall>p q r c. links p = Some r \<longrightarrow> links q = Some r \<longrightarrow> goodSegment c \<longrightarrow>
        links (p @ slash # c) = links (q @ slash # c))"

text \<open>A clean absolute directory other than the root.\<close>

definition plainDir :: "string \<Rightarrow> bool" where
  "plainDir p \<longleftrightarrow> filepathClean p = p \<and> IsAbs p \<and> p \<noteq> [slash]"

lemma plainDir_child:
  assumes "plainDir p" "goodSegment c"
  shows "absPath os (p @ slash # c) = p @ slash # c" "filepathJoin [p, c] = p @ slash # c"
    "filepathDir (p @ slash # c) = p" "filepathBase (p @ slash # c) = c"
proof -
  have p: "filepathClean p = p" "IsAbs p" "p \<noteq> [slash]" "p \<noteq> []" using assms(1) by (auto simp: plainDir_def IsAbs_def)
  have c: "c \<noteq> []" "c \<noteq> ''.''" "c \<noteq> ''..''" "slash \<notin> set c" using assms(2) by (auto simp: goodSegment_def)
  note clean = filepathClean_child[OF p(1-3) c]
  have abs: "IsAbs (p @ slash # c)" using p(2) by (auto simp: IsAbs_def split: list.splits)
  then show "absPath os (p @ slash # c) = p @ slash # c" by (simp add: absPath_def clean)
  show "filepathJoin [p, c] = p @ slash # c" using p(4) c(1) clean by (simp add: filepathJoin_def Let_def)
  have r: "rev (p @ slash # c) = rev c @ slash # rev p" by simp
  have d: "dropWhile (\<lambda>x. x \<noteq> slash) (rev c @ slash # rev p) = slash # rev p"
    using c(4) by (subst dropWhile_append2) auto
  have "splitByte slash (s @ [slash]) = splitByte slash s @ [[]]" for s
    by (induction s) (auto split: list.splits)
  moreover have "IsAbs (p @ [slash])" using p(2) by (auto simp: IsAbs_def split: list.splits)
  ultimately have "filepathClean (p @ [slash]) = filepathClean p" using p(2) by (simp add: filepathClean_def)
  then show "filepathDir (p @ slash # c) = p" unfolding filepathDir_def r d by (simp add: p(1))
  have l: "splitByte slash (s @ slash # c) = splitByte slash s @ [c]" for s
    using c(4) by (induction s) (auto simp: splitByte_none split: list.splits)
  have "last c \<noteq> slash" using c(1,4) last_in_set by metis
  then have "rev c \<noteq> []" "hd (rev c) \<noteq> slash" using c(1) by (simp_all add: hd_rev)
  then have "dropTrailing slash (p @ slash # c) = p @ slash # c"
    by (cases "rev c") (auto simp: rev_swap)
  then show "filepathBase (p @ slash # c) = c" by (simp add: filepathBase_def l)
qed

lemma entriesURL_found:
  "entriesURL os links text quoted dir ds = Inr url \<Longrightarrow>
    \<exists>d \<in> set ds. Wildcard d \<and> sameDir os links (dDirectory d) (filepathDir dir) \<and>
      snd (Check os links d (filepathBase dir)) = None \<and> url = PublicURL d (filepathBase dir)"
proof (induction ds)
  case (Cons d ds)
  show ?case
  proof (cases "entriesURL os links text quoted dir ds")
    case (Inl rs)
    with Cons.prems show ?thesis by (auto simp: Let_def split: if_splits option.splits)
  next
    case (Inr u)
    show ?thesis
    proof (cases "u = url")
      case True
      with Inr Cons.IH show ?thesis by auto
    next
      case False
      with Cons.prems Inr show ?thesis by (auto simp: Let_def split: if_splits option.splits)
    qed
  qed
qed simp

lemma check_dir: "fst (Check os links d label) = filepathJoin [dDirectory d, label]"
  by (simp add: Check_def inspect_def newInspector_def Let_def split: option.split)

lemma check_label: "snd (Check os links d label) = None \<Longrightarrow> IsDNSLabel label"
  by (auto simp: Check_def split: if_splits)

lemma label_goodSegment: "IsDNSLabel l \<Longrightarrow> goodSegment l"
  using IsDNSLabel_chars[of l] by (auto simp: goodSegment_def slash_def IsDNSLabel_def)

text \<open>
  C24. The URL \<open>herd-wake url\<close> prints for a directory leads to it: it is the public URL of a project whose working
  directory is that directory, or the URL of a label that a wildcard entry accepts; the entry's listener
  reads that label back from the host of the URL, and the worktree it serves for it is the directory.
\<close>

theorem printed_url_leads_back:
  assumes "resolveURL os links text quoted cfg dir = Inr url"
    and "dir = parent @ slash # leaf" "plainDir parent" "goodSegment leaf" "canonicalDir os links dir = Inr dir"
    and "resolvesSteps links" "\<And>d. d \<in> set (discoveries cfg) \<Longrightarrow> plainDir (dDirectory d)"
  shows "(\<exists>n \<in> set (ProjectNames cfg). url = pPublicURL (projectOf cfg n) \<and>
      canonicalDir os links (pWorkingDirectory (projectOf cfg n)) = Inr dir) \<or>
    (\<exists>d \<in> set (discoveries cfg). Wildcard d \<and> url = ''https://'' @ HostOf d leaf \<and>
      Label d (HostOf d leaf) = Some leaf \<and> snd (Check os links d leaf) = None \<and>
      canonicalDir os links (fst (Check os links d leaf)) = Inr dir)"
proof -
  note path = plainDir_child[OF assms(3,4), folded assms(2)]
  show ?thesis
  proof (cases "find (\<lambda>n. sameDir os links (pWorkingDirectory (projectOf cfg n)) dir) (ProjectNames cfg)")
    case (Some n)
    then have "n \<in> set (ProjectNames cfg)" "sameDir os links (pWorkingDirectory (projectOf cfg n)) dir"
      by (auto simp: find_Some_iff)
    moreover from this(2) have "canonicalDir os links (pWorkingDirectory (projectOf cfg n)) = Inr dir"
      using assms(5) by (auto simp: sameDir_def split: sum.splits)
    ultimately show ?thesis using Some assms(1) by (auto simp: resolveURL_def)
  next
    case None
    then have "entriesURL os links text quoted dir (discoveries cfg) = Inr url"
      using assms(1) by (auto simp: resolveURL_def split: sum.splits)
    from entriesURL_found[OF this] obtain d where d: "d \<in> set (discoveries cfg)" "Wildcard d"
      "sameDir os links (dDirectory d) parent" "snd (Check os links d leaf) = None" "url = PublicURL d leaf"
      unfolding path(3,4) by blast
    have l: "IsDNSLabel leaf" by (rule check_label[OF d(4)])
    have pd: "plainDir (dDirectory d)" by (rule assms(7)[OF d(1)])
    obtain c where c: "canonicalDir os links (dDirectory d) = Inr c" "canonicalDir os links parent = Inr c"
      using d(3) by (auto simp: sameDir_def split: sum.splits)
    have "links (dDirectory d) = Some c" "links parent = Some c"
      using c pd assms(3) by (auto simp: canonicalDir_def Let_def absPath_def plainDir_def split: option.splits if_splits)
    then have "links (dDirectory d @ slash # leaf) = links dir"
      using assms(6,4) unfolding assms(2) resolvesSteps_def by blast
    moreover have "links dir = Some dir" "osStat os dir = Some Directory"
      using assms(5) path(1) by (auto simp: canonicalDir_def Let_def split: option.splits if_splits)
    ultimately have "canonicalDir os links (fst (Check os links d leaf)) = Inr dir"
      using plainDir_child(1,2)[OF pd assms(4)] by (simp add: check_dir canonicalDir_def)
    moreover have "Label d (HostOf d leaf) = Some leaf" using l by (simp add: Label_Some)
    moreover have "url = ''https://'' @ HostOf d leaf" using d(2,5) by (simp add: PublicURL_def)
    ultimately show ?thesis using d(1,2,4) by blast
  qed
qed

lemma cl_url: "resolveURL clOS Some text quoted clConfig ''/w/feat'' = Inr ''https://feat.web.test''"
proof -
  have b: "filepathBase ''/w/feat'' = ''feat''" "filepathDir ''/w/feat'' = ''/w''" "filepathClean ''/w'' = ''/w''" by code_simp+
  have dir: "canonicalDir clOS Some ''/w'' = Inr ''/w''"
    by (simp add: canonicalDir_def absPath_def IsAbs_def slash_def b(3) clOS_def)
  have "inspect clOS Some (newInspector Some clEntry) ''feat'' = (''/w/feat'', None, False)"
    by (simp add: inspect_def newInspector_def checkLinked_def clOS_def clEntry_def wtOS_def Excluded_def wt_paths Let_def
        readGitdir_def wt_gitdir resolvedOr_def hasPrefix_def IsAbs_def slash_def missingFiles_def wt_labels)
  then have "Check clOS Some clEntry ''feat'' = (''/w/feat'', None)" by (simp add: Check_def wt_labels)
  moreover have "dDirectory clEntry = ''/w''" "Wildcard clEntry" "PublicURL clEntry ''feat'' = ''https://feat.web.test''"
    by (simp_all add: clEntry_def Wildcard_def ModeWildcard_def PublicURL_def HostOf_def)
  ultimately show ?thesis
    by (simp add: resolveURL_def clConfig_def ProjectNames_def discoveries_def List.map_filter_simps b sameDir_def dir)
qed

theorem printed_url_leads_back_witness:
  "\<exists>d. Label d ''feat.web.test'' = Some ''feat'' \<and> canonicalDir clOS Some (fst (Check clOS Some d ''feat'')) = Inr ''/w/feat''"
proof -
  have b: "filepathClean ''/w'' = ''/w''" "filepathClean ''/w/feat'' = ''/w/feat''" by code_simp+
  have d: "discoveries clConfig = [clEntry]" "dDirectory clEntry = ''/w''"
    by (simp_all add: clConfig_def discoveries_def List.map_filter_simps clEntry_def)
  have p: "plainDir ''/w''" "goodSegment ''feat''" by (simp_all add: plainDir_def b IsAbs_def slash_def goodSegment_def)
  have c: "canonicalDir clOS Some ''/w/feat'' = Inr ''/w/feat''"
    by (simp add: canonicalDir_def absPath_def IsAbs_def slash_def b clOS_def wtOS_def)
  have "resolvesSteps Some" by (simp add: resolvesSteps_def)
  from printed_url_leads_back[OF cl_url[of "\<lambda>_. []" id] _ p c this] d p(1)
  obtain e where "''https://feat.web.test'' = ''https://'' @ HostOf e ''feat''" "Label e (HostOf e ''feat'') = Some ''feat''"
    "canonicalDir clOS Some (fst (Check clOS Some e ''feat'')) = Inr ''/w/feat''"
    by (auto simp: slash_def ProjectNames_def clConfig_def)
  then show ?thesis by (intro exI[of _ e]) simp
qed

section \<open>Commands that ask the daemon\<close>

text \<open>The socket leads to a daemon that serves the control API for the provider \<open>pv\<close>.\<close>

definition servedBy :: "'s cliWorld \<Rightarrow> string \<Rightarrow> 's provider \<Rightarrow> bool" where
  "servedBy w socket pv \<longleftrightarrow>
     socket \<noteq> [] \<and> cwDial w socket = Connected \<and> cwServer w = NewHandler (cwCodec w) pv"

definition commandProvided :: "'s provider \<Rightarrow> string \<Rightarrow> string \<Rightarrow> 's \<Rightarrow> (apiFailure + apiProject) \<times> 's" where
  "commandProvided pv command name =
     (if command = ''project:start'' then pvStart pv name
      else if command = ''project:stop'' then provider.pvStop pv name
      else if command = ''project:restart'' then pvRestart pv name
      else pvRelease pv name)"

lemma argOf_positional: "name \<noteq> [] \<Longrightarrow> hd name \<noteq> CHR ''-'' \<Longrightarrow> argOf name = Positional"
  by (simp add: argOf_def)

lemma argOf_flags: "argOf ''--socket'' = FlagArg ''socket'' None" "argOf ''--ttl'' = FlagArg ''ttl'' None"
  by code_simp+

lemma socket_flag:
  assumes "servedBy w socket pv"
  shows "map_of spec ''socket'' = Some StringFlag \<Longrightarrow>
      parseFlags spec [] (''--socket'' # socket # args) = parseFlags spec [(''socket'', StringValue socket)] args"
    and "resolveSocketPath w (stringFlag ''socket'' ((''socket'', StringValue socket) # vals)) = Inr socket"
  using assms
  by (simp_all add: argOf_flags storeFlag_def setFlag_def mapPut_def mapDelete_def stringFlag_def resolveSocketPath_def servedBy_def)

lemma command_reaches:
  assumes "servedBy w socket pv" "addressable name"
    and "command \<in> {''project:start'', ''project:stop'', ''project:restart'', ''project:release''}"
    and "commandProvided pv command name s = (r, s1)" "carriedAs (cwCodec w) encodeProject r"
  shows "commandCall command name (cwCodec w) (cwDial w socket) (cwServer w) s = (answerOf r, s1)"
proof -
  have w: "cwDial w socket = Connected" "cwServer w = NewHandler (cwCodec w) pv" using assms(1) by (simp_all add: servedBy_def)
  show ?thesis
    using assms(3)
  proof (elim insertE emptyE)
    assume "command = ''project:start''"
    with assms(4,5) show ?thesis
      by (simp add: commandCall_def commandProvided_def w action_reaches(1)[OF assms(2)])
  next
    assume "command = ''project:stop''"
    with assms(4,5) show ?thesis
      by (simp add: commandCall_def commandProvided_def w action_reaches(2)[OF assms(2)])
  next
    assume "command = ''project:restart''"
    with assms(4,5) show ?thesis
      by (simp add: commandCall_def commandProvided_def w action_reaches(3)[OF assms(2)])
  next
    assume "command = ''project:release''"
    with assms(4,5) show ?thesis
      by (simp add: commandCall_def commandProvided_def w action_reaches(4)[OF assms(2)])
  qed
qed

text \<open>
  C21. \<open>project:start\<close>, \<open>project:stop\<close>, \<open>project:restart\<close> and \<open>project:release\<close> do the operation of the daemon they name,
  once, on the project they name, and nothing else; they exit with 0 exactly when the operation succeeded.
\<close>

theorem project_command_acts:
  assumes "servedBy w socket pv" "addressable name" "hd name \<noteq> CHR ''-''"
    and "command \<in> {''project:start'', ''project:stop'', ''project:restart'', ''project:release''}"
    and "carriedAs (cwCodec w) encodeProject (fst (commandProvided pv command name (mcDaemon m)))"
    and "runArgs w [command, ''--socket'', socket, name] m = (res, m1)"
  shows "m1 = m\<lparr>mcDaemon := snd (commandProvided pv command name (mcDaemon m))\<rparr> \<and>
    (crCode res = 0 \<longleftrightarrow> (\<exists>p. fst (commandProvided pv command name (mcDaemon m)) = Inr p))"
proof -
  obtain r s1 where r: "commandProvided pv command name (mcDaemon m) = (r, s1)" by fastforce
  have n: "name \<noteq> []" using assms(2) by (simp add: addressable_def)
  have "argOf name = Positional" by (rule argOf_positional[OF n assms(3)])
  then have p: "parseFlags socketSpec [] [''--socket'', socket, name] = Inr ([(''socket'', StringValue socket)], [name])"
    using socket_flag(1)[OF assms(1), of socketSpec "[name]"] by (simp add: socketSpec_def)
  have call: "calling w socket (commandCall command name) m = (answerOf r, m\<lparr>mcDaemon := s1\<rparr>)"
    using command_reaches[OF assms(1,2,4) r] assms(5) r by (simp add: calling_def)
  have "runArgs w [command, ''--socket'', socket, name] m = runProjectCommand w command [''--socket'', socket, name] m"
    using assms(4) by (auto simp: runArgs_def)
  then have "(res, m1) = runProjectCommand w command [''--socket'', socket, name] m" using assms(6) by simp
  also have "snd \<dots> = m\<lparr>mcDaemon := s1\<rparr> \<and> (crCode (fst \<dots>) = 0 \<longleftrightarrow> (\<exists>p. r = Inr p))"
    unfolding runProjectCommand_def withFlags_def p
    using n call socket_flag(2)[OF assms(1), of "[]"]
    by (cases r) (simp_all add: argAt_def answerOf_def exits_def Let_def)
  finally show ?thesis using r by simp
qed

text \<open>
  C22. \<open>project:lease\<close> with a duration as Go writes it gives the project a lease of exactly that duration, and exits
  with 0 exactly when the daemon granted it.
\<close>

theorem lease_command_acts:
  assumes "servedBy w socket pv" "addressable name" "hd name \<noteq> CHR ''-''" "0 < ttl" "ttl < 2 ^ 63"
    and "carriedAs (cwCodec w) encodeProject (fst (pvLease pv name ttl (mcDaemon m)))"
    and "runArgs w [''project:lease'', ''--socket'', socket, ''--ttl'', DurationString ttl, name] m = (res, m1)"
  shows "m1 = m\<lparr>mcDaemon := snd (pvLease pv name ttl (mcDaemon m))\<rparr> \<and>
    (crCode res = 0 \<longleftrightarrow> (\<exists>p. fst (pvLease pv name ttl (mcDaemon m)) = Inr p))"
proof -
  obtain r s1 where r: "pvLease pv name ttl (mcDaemon m) = (r, s1)" by fastforce
  let ?spec = "socketSpec @ [(''ttl'', DurationFlag)]" and ?vals = "[(''socket'', StringValue socket), (''ttl'', DurationValue ttl)]"
  have n: "name \<noteq> []" using assms(2) by (simp add: addressable_def)
  have d: "ParseDuration (DurationString ttl) = Some ttl" using assms(4,5) by (intro duration_text_roundtrip) auto
  have "argOf name = Positional" by (rule argOf_positional[OF n assms(3)])
  then have "parseFlags ?spec [] [''--socket'', socket, ''--ttl'', DurationString ttl, name] =
      Inr (mapPut ''ttl'' (DurationValue ttl) [(''socket'', StringValue socket)], [name])"
    using socket_flag(1)[OF assms(1), of ?spec "[''--ttl'', DurationString ttl, name]"]
    by (simp add: socketSpec_def argOf_flags storeFlag_def setFlag_def d)
  moreover obtain vals where v: "mapPut ''ttl'' (DurationValue ttl) [(''socket'', StringValue socket)] = vals" by blast
  ultimately have p: "parseFlags ?spec [] [''--socket'', socket, ''--ttl'', DurationString ttl, name] = Inr (vals, [name])"
    by simp
  have f: "durationFlag ''ttl'' (30 * timeMinute) vals = ttl" "resolveSocketPath w (stringFlag ''socket'' vals) = Inr socket"
    using assms(1) by (simp_all add: v[symmetric] durationFlag_def stringFlag_def resolveSocketPath_def servedBy_def gomap_simps)
  have call: "calling w socket (\<lambda>cd dial server. clientLease cd dial server name ttl) m = (answerOf r, m\<lparr>mcDaemon := s1\<rparr>)"
    using lease_reaches[OF assms(2,4,5) r] assms(1,6) r by (simp add: calling_def servedBy_def)
  have "(res, m1) = runProjectLease w [''--socket'', socket, ''--ttl'', DurationString ttl, name] m"
    using assms(7) by (simp add: runArgs_def)
  also have "snd \<dots> = m\<lparr>mcDaemon := s1\<rparr> \<and> (crCode (fst \<dots>) = 0 \<longleftrightarrow> (\<exists>p. r = Inr p))"
    unfolding runProjectLease_def withFlags_def p
    using n call f assms(4) by (cases r) (simp_all add: argAt_def answerOf_def exits_def Let_def)
  finally show ?thesis using r by simp
qed

lemma cl_served: "servedBy clWorld ''/s'' demoProvider"
  by (simp add: servedBy_def clWorld_def)

lemma cl_carried: "carriedAs (cwCodec clWorld) encodeProject (Inr demoAnswer)"
  by (simp add: carriedAs_def wireFaithful_def clWorld_def demoCodec_def)

theorem project_command_acts_witness:
  "\<exists>res. runArgs clWorld [''project:stop'', ''--socket'', ''/s'', ''a b''] clMachine = (res, clMachine\<lparr>mcDaemon := 5\<rparr>) \<and>
     crCode res = 0"
proof -
  have c: "commandProvided demoProvider ''project:stop'' ''a b'' (mcDaemon clMachine) = (Inr demoAnswer, 5)"
    by (simp add: commandProvided_def demoProvider_def clMachine_def Let_def)
  obtain res m1 where r: "runArgs clWorld [''project:stop'', ''--socket'', ''/s'', ''a b''] clMachine = (res, m1)" by fastforce
  from project_command_acts[OF cl_served _ _ _ _ r] show ?thesis
    using r by (simp add: c cl_carried addressable_def slash_def)
qed

theorem lease_command_acts_witness:
  "\<exists>res. runArgs clWorld [''project:lease'', ''--socket'', ''/s'', ''--ttl'', DurationString 90000000000, ''a b''] clMachine =
     (res, clMachine\<lparr>mcDaemon := 5\<rparr>) \<and> crCode res = 0"
proof -
  have c: "pvLease demoProvider ''a b'' 90000000000 (mcDaemon clMachine) = (Inr demoAnswer, 5)"
    by (simp add: demoProvider_def clMachine_def Let_def)
  obtain res m1 where r: "runArgs clWorld [''project:lease'', ''--socket'', ''/s'', ''--ttl'', DurationString 90000000000, ''a b''] clMachine =
      (res, m1)" by fastforce
  from lease_command_acts[OF cl_served _ _ _ _ _ r] show ?thesis
    using r by (simp add: c cl_carried addressable_def slash_def)
qed

text \<open>
  A reload that panics in the daemon passes for a daemon that is not running: the connection is closed without an
  answer, which the client reports as unreachable, so \<open>herd-wake reload\<close> advises starting a daemon, and the reload at
  the end of \<open>sync\<close> and \<open>project:remove\<close> is no failure.
\<close>

theorem panicked_reload_passes_for_no_daemon:
  assumes "servedBy w socket pv" and "pvReload pv (mcDaemon m) = (None, s1)"
  shows "triggerReload w socket m = (noReload\<lparr>roAttempted := True\<rparr>, m\<lparr>mcDaemon := s1\<rparr>) \<and>
    \<not> reloadFailed (noReload\<lparr>roAttempted := True\<rparr>) \<and>
    runArgs w [''reload'', ''--socket'', socket] m =
      (exits 1 [] (complain (''daemon is not running (connect to daemon on '' @ socket @ '': EOF)'') @
         line ''Start it with: herd-wake start''), m\<lparr>mcDaemon := s1\<rparr>)"
proof -
  have c: "calling w socket clientReload m = (DaemonUnreachable ''EOF'' :: apiReload outcome, m\<lparr>mcDaemon := s1\<rparr>)"
    using assms(1) reload_panics[OF assms(2)] by (simp add: calling_def servedBy_def)
  have p: "parseFlags socketSpec [] [''--socket'', socket] = Inr ([(''socket'', StringValue socket)], [])"
    using socket_flag(1)[OF assms(1), of socketSpec "[]"] by (simp add: socketSpec_def)
  have "runArgs w [''reload'', ''--socket'', socket] m = runReload w [''--socket'', socket] m" by (simp add: runArgs_def)
  also have "\<dots> = (exits 1 [] (reportDaemonError (cwTexts w) socket (DaemonUnreachable ''EOF'' :: apiReload outcome)), m\<lparr>mcDaemon := s1\<rparr>)"
    unfolding runReload_def withFlags_def p using c socket_flag(2)[OF assms(1), of "[]"] by simp
  finally show ?thesis using c by (simp add: triggerReload_def reloadFailed_def noReload_def reportDaemonError_def callError_def)
qed

theorem panicked_reload_passes_for_no_daemon_witness:
  "fst (triggerReload clWorld ''/s'' clMachine) = noReload\<lparr>roAttempted := True\<rparr>"
proof -
  have "pvReload demoProvider (mcDaemon clMachine) = (None, 4)" by (simp add: demoProvider_def clMachine_def Let_def)
  from panicked_reload_passes_for_no_daemon[OF cl_served this] show ?thesis by simp
qed

end
