(* ===== verification/Startup.thy ===== *)
theory Startup
  imports ReloadFacts
begin

text \<open>
  The life of the daemon process (\<open>New\<close>, \<open>Run\<close>, the control socket in \<open>internal/daemon/daemon.go\<close>): claiming
  the socket, binding every listener or none, activating the projects, and the way out. The file at the
  socket's path is a \<open>sockNode\<close>; \<open>startWorld\<close> says how the file system and other processes answer.
\<close>

section \<open>The control socket\<close>

text \<open>Nothing there, something that is not a socket, or a socket with the process listening on it, if any.\<close>

datatype sockNode = NoNode | OtherNode | SocketNode "nat option"

datatype dirInfo = DirUnreadable string | DirLink | DirNot | DirOwned "int option"

record startWorld =
  swLstat :: "string option"
  swAnswers :: "nat \<Rightarrow> bool"
  swRemove :: "string option"
  swMkdir :: "string option"
  swDir :: dirInfo
  swUid :: int
  swListen :: "string option"

datatype startError =
    SocketUninspected string
  | NotASocket
  | AlreadyRunning nat
  | SocketInUse nat
  | StaleNotRemoved string
  | DirNotCreated string
  | DirNotInspected string
  | DirIsLink
  | DirIsNoDirectory
  | DirOfUser int
  | ControlNotBound string
  | ProjectNotBound string string
  | EntryNotBound string string

text \<open>
  \<open>claimSocket\<close>: what it finds, and the removal of a stale file. \<open>swLstat\<close> is an error of \<open>Lstat\<close> other than
  that nothing is there.
\<close>

datatype probe = ProbeFree | ProbeStale | ProbeRefused startError

definition probeSocket :: "startWorld \<Rightarrow> sockNode \<Rightarrow> probe" where
  "probeSocket w node =
     (case swLstat w of
        Some e \<Rightarrow> ProbeRefused (SocketUninspected e)
      | None \<Rightarrow>
          (case node of
             NoNode \<Rightarrow> ProbeFree
           | OtherNode \<Rightarrow> ProbeRefused NotASocket
           | SocketNode None \<Rightarrow> ProbeStale
           | SocketNode (Some k) \<Rightarrow>
               ProbeRefused (if swAnswers w k then AlreadyRunning k else SocketInUse k)))"

definition removeStale :: "startWorld \<Rightarrow> sockNode \<Rightarrow> startError option \<times> sockNode" where
  "removeStale w node =
     (case swRemove w of Some e \<Rightarrow> (Some (StaleNotRemoved e), node) | None \<Rightarrow> (None, NoNode))"

definition claimSocket :: "startWorld \<Rightarrow> sockNode \<Rightarrow> startError option \<times> sockNode" where
  "claimSocket w node =
     (case probeSocket w node of
        ProbeFree \<Rightarrow> (None, node)
      | ProbeRefused e \<Rightarrow> (Some e, node)
      | ProbeStale \<Rightarrow> removeStale w node)"

definition verifySocketDir :: "startWorld \<Rightarrow> startError option" where
  "verifySocketDir w =
     (case swDir w of
        DirUnreadable e \<Rightarrow> Some (DirNotInspected e)
      | DirLink \<Rightarrow> Some DirIsLink
      | DirNot \<Rightarrow> Some DirIsNoDirectory
      | DirOwned owner \<Rightarrow>
          (case owner of
             None \<Rightarrow> None
           | Some u \<Rightarrow> if u \<noteq> swUid w then Some (DirOfUser u) else None))"

definition listenControl :: "startWorld \<Rightarrow> nat \<Rightarrow> sockNode \<Rightarrow> startError + sockNode" where
  "listenControl w me node =
     (case swListen w of
        Some e \<Rightarrow> Inl (ControlNotBound e)
      | None \<Rightarrow>
          if node = NoNode then Inr (SocketNode (Some me))
          else Inl (ControlNotBound ''address already in use''))"

definition openControl :: "startWorld \<Rightarrow> nat \<Rightarrow> sockNode \<Rightarrow> startError + sockNode" where
  "openControl w me node =
     (case swMkdir w of
        Some e \<Rightarrow> Inl (DirNotCreated e)
      | None \<Rightarrow>
          (case verifySocketDir w of
             Some e \<Rightarrow> Inl e
           | None \<Rightarrow> listenControl w me node))"

definition removeSocketFile :: "startWorld \<Rightarrow> sockNode \<Rightarrow> sockNode" where
  "removeSocketFile w node = (if swRemove w = None then NoNode else node)"

section \<open>New\<close>

definition blankProject :: projectState where
  "blankProject =
     \<lparr>psProject = emptyProject, psProc = NewSupervisor emptyProject, psTracker = 0, psSwitch = None, psBind = None,
      psActive = False, psDynamic = False, psEntry = None, psRetired = False\<rparr>"

definition emptyDaemon :: "config \<Rightarrow> daemon" where
  "emptyDaemon cfg =
     \<lparr>dmConfigPath = cPath cfg, dmStates = [], dmProjects = (\<lambda>_. blankProject), dmTrackers = (\<lambda>_. NewTracker),
      dmSwitches = (\<lambda>_. Waiting), dmEntries = [],
      dmEntryStates = (\<lambda>_. \<lparr>esEntry = emptyDiscovery, esBind = None, esMaxRunning = 0\<rparr>), dmBindings = [],
      dmBinds = (\<lambda>_. \<lparr>bdAddr = [], bdRouter = newRouter, bdMembers = 0, bdEntry = None, bdOpen = False\<rparr>),
      dmMaxRunning = cMaxRunning cfg, dmDraining = False, dmRunning = False, dmNext = 0,
      dmLastReloadAt = zeroTime, dmReleases = [], dmStarts = []\<rparr>"

definition registerProject :: "config \<Rightarrow> string \<Rightarrow> daemon \<Rightarrow> daemon" where
  "registerProject cfg name d =
     (let (tr, d1) = newTrackerObj d; (i, d2) = newProjectState (projectOf cfg name) tr d1
      in d2\<lparr>dmStates := mapPut name i (dmStates d2)\<rparr>)"

definition registerEntry :: "discovery option \<Rightarrow> daemon \<Rightarrow> daemon" where
  "registerEntry entry d =
     (case entry of
        None \<Rightarrow> d
      | Some e \<Rightarrow>
          if Wildcard e
          then (let (es, d1) = newEntryState e d in d1\<lparr>dmEntries := mapPut (dName e) es (dmEntries d1)\<rparr>)
          else d)"

definition New :: "config \<Rightarrow> daemon" where
  "New cfg =
     fold registerEntry (cDiscovery cfg) (fold (registerProject cfg) (ProjectNames cfg) (emptyDaemon cfg))"

section \<open>Run\<close>

fun bindStates :: "listens \<Rightarrow> stId list \<Rightarrow> daemon \<Rightarrow> startError option \<times> daemon" where
  "bindStates net [] d = (None, d)"
| "bindStates net (i # is) d =
     (case attach net i (freshSwitch i d) of
        (Some e, d1) \<Rightarrow> (Some (ProjectNotBound (nameOf d i) e), d1)
      | (None, d1) \<Rightarrow> bindStates net is d1)"

fun bindEntries :: "listens \<Rightarrow> esId list \<Rightarrow> daemon \<Rightarrow> startError option \<times> daemon" where
  "bindEntries net [] d = (None, d)"
| "bindEntries net (e # es) d =
     (case bindEntry net e d of
        (Some err, d1) \<Rightarrow> (Some (EntryNotBound (dName (esEntry (dmEntryStates d e))) err), d1)
      | (None, d1) \<Rightarrow> bindEntries net es d1)"

text \<open>\<open>abort\<close>: every listener is closed.\<close>

definition allBindings :: "daemon \<Rightarrow> bindId list" where
  "allBindings d = map (\<lambda>a. the (map_of (dmBindings d) a)) (sort (map fst (dmBindings d)))"

definition closeListeners :: "daemon \<Rightarrow> daemon" where
  "closeListeners d = fold unbind (allBindings d) d"

definition activateAll :: "daemon \<Rightarrow> daemon" where
  "activateAll d = fold activate (sortedStatesLocked d) (d\<lparr>dmRunning := True\<rparr>)"

text \<open>From the start to serving, or to the error with which \<open>Run\<close> returns (before \<open>stopAll\<close>).\<close>

definition startDaemon ::
    "startWorld \<Rightarrow> nat \<Rightarrow> listens \<Rightarrow> daemon \<Rightarrow> sockNode \<Rightarrow> startError option \<times> daemon \<times> sockNode" where
  "startDaemon w me net d node =
     (case claimSocket w node of
        (Some e, n) \<Rightarrow> (Some e, d, n)
      | (None, n) \<Rightarrow>
          (case openControl w me n of
             Inl e \<Rightarrow> (Some e, d, n)
           | Inr n1 \<Rightarrow>
               (case bindStates net (sortedStatesLocked d) d of
                  (Some e, d1) \<Rightarrow> (Some e, closeListeners d1, NoNode)
                | (None, d1) \<Rightarrow>
                    (case bindEntries net (sortedEntriesLocked d1) d1 of
                       (Some e, d2) \<Rightarrow> (Some e, closeListeners d2, NoNode)
                     | (None, d2) \<Rightarrow> (None, activateAll d2, n1)))))"

definition drain :: "daemon \<Rightarrow> daemon" where
  "drain d = d\<lparr>dmDraining := True, dmProjects := (\<lambda>i. (dmProjects d i)\<lparr>psActive := False\<rparr>)\<rparr>"

text \<open>
  \<open>Run\<close>: \<open>life\<close> is what happens while the daemon serves, with the listener error that ends it, if it is not
  the end of the context. The socket goes when the control listener closes.
\<close>

datatype exitError = CouldNotStart startError | ServeFailed string

definition Run ::
    "startWorld \<Rightarrow> nat \<Rightarrow> listens \<Rightarrow> (supervisor \<Rightarrow> supervisor) \<Rightarrow> (daemon \<Rightarrow> string option \<times> daemon) \<Rightarrow>
      daemon \<Rightarrow> sockNode \<Rightarrow> exitError option \<times> daemon \<times> sockNode" where
  "Run w me net settle life d node =
     (case startDaemon w me net d node of
        (Some e, d1, n) \<Rightarrow> (Some (CouldNotStart e), stopAll settle d1, n)
      | (None, d1, n) \<Rightarrow>
          (let (err, d2) = life d1
           in (map_option ServeFailed err, stopAll settle (drain d2), NoNode)))"

definition reloadOnSIGHUP ::
    "listens \<Rightarrow> (supervisor \<Rightarrow> supervisor) \<Rightarrow> (daemon \<Rightarrow> daemon) \<Rightarrow> time \<Rightarrow> (string \<Rightarrow> loadError + config) \<Rightarrow>
      daemon \<Rightarrow> daemon" where
  "reloadOnSIGHUP net settle others now load d = snd (Reload net settle others now load d)"

section \<open>Several daemons at one path\<close>

text \<open>
  Daemons that start and stop at the same socket path, interleaved at the accesses to the file: the probe, the
  removal of a stale file, the listener, its closing (which unlinks the path) and the final removal. A daemon
  that crashes leaves its file behind.
\<close>

datatype phase = Idle | Removing | Binding | Up | Closed | Gone

record claimSys =
  clNode :: sockNode
  clPhase :: "nat \<Rightarrow> phase"

definition enter :: "nat \<Rightarrow> phase \<Rightarrow> claimSys \<Rightarrow> claimSys" where
  "enter k p s = s\<lparr>clPhase := (clPhase s)(k := p)\<rparr>"

inductive claimStep :: "startWorld \<Rightarrow> claimSys \<Rightarrow> claimSys \<Rightarrow> bool" for w where
  probe_free: "clPhase s k = Idle \<Longrightarrow> probeSocket w (clNode s) = ProbeFree \<Longrightarrow> claimStep w s (enter k Binding s)"
| probe_stale: "clPhase s k = Idle \<Longrightarrow> probeSocket w (clNode s) = ProbeStale \<Longrightarrow> claimStep w s (enter k Removing s)"
| probe_refused: "clPhase s k = Idle \<Longrightarrow> probeSocket w (clNode s) = ProbeRefused e \<Longrightarrow> claimStep w s (enter k Gone s)"
| remove_stale: "clPhase s k = Removing \<Longrightarrow> removeStale w (clNode s) = (None, n) \<Longrightarrow>
    claimStep w s (enter k Binding (s\<lparr>clNode := n\<rparr>))"
| bind_path: "clPhase s k = Binding \<Longrightarrow> openControl w k (clNode s) = Inr n \<Longrightarrow>
    claimStep w s (enter k Up (s\<lparr>clNode := n\<rparr>))"
| bind_refused: "clPhase s k = Binding \<Longrightarrow> openControl w k (clNode s) = Inl e \<Longrightarrow> claimStep w s (enter k Gone s)"
| close_path: "clPhase s k = Up \<Longrightarrow> claimStep w s (enter k Closed (s\<lparr>clNode := NoNode\<rparr>))"
| remove_path: "clPhase s k = Closed \<Longrightarrow>
    claimStep w s (enter k Gone (s\<lparr>clNode := removeSocketFile w (clNode s)\<rparr>))"
| crash: "clPhase s k = Up \<Longrightarrow>
    claimStep w s (enter k Gone (if clNode s = SocketNode (Some k) then s\<lparr>clNode := SocketNode None\<rparr> else s))"

end
