(* ===== verification/StartupProps.thy ===== *)
theory StartupProps
  imports Startup
begin

text \<open>
  What the start and the end of the daemon process promise: a daemon that serves satisfies the invariants the
  budget and the reload rest on, a start that fails leaves nothing open, and two ways in which daemons at one
  socket path cut each other off.
\<close>

section \<open>A daemon that serves is well formed\<close>

definition tableOk :: "config \<Rightarrow> string set \<Rightarrow> daemon \<Rightarrow> bool" where
  "tableOk cfg ns d \<longleftrightarrow>
     distinct (map fst (dmStates d)) \<and> fst ` set (dmStates d) = ns \<and>
     (\<forall>n i. map_of (dmStates d) n = Some i \<longrightarrow>
        psProject (dmProjects d i) = projectOf cfg n \<and> psProc (dmProjects d i) = NewSupervisor (projectOf cfg n) \<and>
        \<not> psDynamic (dmProjects d i) \<and> i < dmNext d) \<and>
     (\<forall>n m i. map_of (dmStates d) n = Some i \<longrightarrow> map_of (dmStates d) m = Some i \<longrightarrow> n = m) \<and>
     (\<forall>i. mirrored (procOf d i) \<and> \<not> psRetired (dmProjects d i))"

lemma tableOk_row:
  assumes "tableOk cfg ns d" "map_of (dmStates d) n = Some i"
  shows "psProject (dmProjects d i) = projectOf cfg n" "psProc (dmProjects d i) = NewSupervisor (projectOf cfg n)"
    "\<not> psDynamic (dmProjects d i)" "i < dmNext d"
  using assms unfolding tableOk_def by blast+

lemma tableOk_inj:
  "tableOk cfg ns d \<Longrightarrow> map_of (dmStates d) n = Some i \<Longrightarrow> map_of (dmStates d) m = Some i \<Longrightarrow> n = m"
  unfolding tableOk_def by blast

lemma tableOk_key: "tableOk cfg ns d \<Longrightarrow> map_of (dmStates d) n = Some i \<Longrightarrow> n \<in> ns"
  unfolding tableOk_def by (metis domI dom_map_of_conv_image_fst)

lemma tableOk_frame:
  assumes "tableOk cfg ns d" and m: "map_of (dmStates e) = map_of (dmStates d)"
    and "distinct (map fst (dmStates e))" "dmNext d \<le> dmNext e"
    and same: "\<And>j. psProject (dmProjects e j) = psProject (dmProjects d j)"
      "\<And>j. psProc (dmProjects e j) = psProc (dmProjects d j)" "\<And>j. psDynamic (dmProjects e j) = psDynamic (dmProjects d j)"
      "\<And>j. psRetired (dmProjects e j) = psRetired (dmProjects d j)"
  shows "tableOk cfg ns e"
  unfolding tableOk_def m same procOf_def
proof (intro conjI allI impI)
  have "fst ` set (dmStates e) = dom (map_of (dmStates e))" by (simp only: dom_map_of_conv_image_fst)
  also have "\<dots> = fst ` set (dmStates d)" by (simp only: m dom_map_of_conv_image_fst)
  finally show "fst ` set (dmStates e) = ns" using assms(1) by (simp only: tableOk_def)
next
  fix n i assume n: "map_of (dmStates d) n = Some i"
  show "psProject (dmProjects d i) = projectOf cfg n" "psProc (dmProjects d i) = NewSupervisor (projectOf cfg n)"
    "\<not> psDynamic (dmProjects d i)" by (rule tableOk_row[OF assms(1) n])+
  show "i < dmNext e" using tableOk_row(4)[OF assms(1) n] assms(4) by simp
next
  fix n k i assume "map_of (dmStates d) n = Some i" "map_of (dmStates d) k = Some i"
  then show "n = k" by (rule tableOk_inj[OF assms(1)])
next
  fix i show "mirrored (psProc (dmProjects d i))" "\<not> psRetired (dmProjects d i)"
    using assms(1) unfolding tableOk_def procOf_def by blast+
qed (rule assms(3))

lemma mirrored_New: "mirrored (NewSupervisor p)"
  by (simp add: mirrored_def NewSupervisor_def)

lemma tableOk_register:
  assumes "tableOk cfg ns d" "n \<notin> ns"
  shows "tableOk cfg (insert n ns) (registerProject cfg n d)"
proof -
  let ?i = "dmNext d + 1"
  let ?r = "registerProject cfg n d"
  have r: "dmStates ?r = mapPut n ?i (dmStates d)" "dmNext ?r = dmNext d + 2"
    "dmProjects ?r = (dmProjects d)(?i := blankProject\<lparr>psProject := projectOf cfg n,
       psProc := NewSupervisor (projectOf cfg n), psTracker := dmNext d\<rparr>)"
    by (simp_all add: registerProject_def newTrackerObj_def newProjectState_def setProject_def blankProject_def)
  have old: "i \<noteq> ?i" if "map_of (dmStates d) m = Some i" for m i
    using tableOk_row(4)[OF assms(1) that] by simp
  have n: "map_of (dmStates d) n = None" using assms by (auto simp: tableOk_def map_of_eq_None_iff)
  show ?thesis
    unfolding tableOk_def r procOf_def
  proof (intro conjI allI impI)
    show "distinct (map fst (mapPut n ?i (dmStates d)))"
      using assms(1) distinct_mapPut[of "dmStates d"] by (simp add: tableOk_def)
    show "fst ` set (mapPut n ?i (dmStates d)) = insert n ns" using assms(1) by (simp add: gomap_simps tableOk_def)
  next
    fix m i assume m: "map_of (mapPut n ?i (dmStates d)) m = Some i"
    let ?f = "(dmProjects d)(?i := blankProject\<lparr>psProject := projectOf cfg n,
       psProc := NewSupervisor (projectOf cfg n), psTracker := dmNext d\<rparr>)"
    have "psProject (?f i) = projectOf cfg m \<and> psProc (?f i) = NewSupervisor (projectOf cfg m) \<and>
        \<not> psDynamic (?f i) \<and> i < dmNext d + 2"
    proof (cases "m = n")
      case True
      with m show ?thesis by (simp add: gomap_simps blankProject_def)
    next
      case False
      with m have "map_of (dmStates d) m = Some i" by (simp add: gomap_simps)
      with old tableOk_row[OF assms(1), of m i] show ?thesis by simp
    qed
    then show "psProject (?f i) = projectOf cfg m" "psProc (?f i) = NewSupervisor (projectOf cfg m)"
      "\<not> psDynamic (?f i)" "i < dmNext d + 2" by auto
  next
    fix a b i assume "map_of (mapPut n ?i (dmStates d)) a = Some i" "map_of (mapPut n ?i (dmStates d)) b = Some i"
    then show "a = b"
      using old[of a i] old[of b i] tableOk_inj[OF assms(1), of a i b] by (simp add: gomap_simps split: if_splits)
  next
    fix i
    show "mirrored (psProc (((dmProjects d)(?i := blankProject\<lparr>psProject := projectOf cfg n,
       psProc := NewSupervisor (projectOf cfg n), psTracker := dmNext d\<rparr>)) i))"
      using assms(1) mirrored_New by (simp add: tableOk_def procOf_def)
    show "\<not> psRetired (((dmProjects d)(?i := blankProject\<lparr>psProject := projectOf cfg n,
       psProc := NewSupervisor (projectOf cfg n), psTracker := dmNext d\<rparr>)) i)"
      using assms(1) by (simp add: tableOk_def blankProject_def)
  qed
qed

lemma tableOk_registers:
  "tableOk cfg ns d \<Longrightarrow> distinct xs \<Longrightarrow> set xs \<inter> ns = {} \<Longrightarrow>
    tableOk cfg (set xs \<union> ns) (fold (registerProject cfg) xs d)"
proof (induction xs arbitrary: ns d)
  case (Cons x xs)
  then show ?case
    using Cons.IH[of "insert x ns" "registerProject cfg x d"] tableOk_register[of cfg ns d x] by simp
qed simp

text \<open>Changes that keep the table and the project records.\<close>

lemma tableOk_cong:
  assumes "tableOk cfg ns d" "dmStates e = dmStates d" "dmProjects e = dmProjects d" "dmNext d \<le> dmNext e"
  shows "tableOk cfg ns e"
  by (rule tableOk_frame[OF assms(1)]) (use assms in \<open>simp_all add: tableOk_def\<close>)

lemma tableOk_entries: "tableOk cfg ns d \<Longrightarrow> tableOk cfg ns (fold registerEntry es d)"
proof (induction es arbitrary: d)
  case (Cons e es)
  have "tableOk cfg ns (registerEntry e d)"
    by (rule tableOk_cong[OF Cons.prems]) (simp_all add: registerEntry_def newEntryState_def split: option.split)
  then show ?case using Cons.IH by simp
qed simp

lemma New_table: "wfConfig cfg \<Longrightarrow> tableOk cfg (set (ProjectNames cfg)) (New cfg)"
proof -
  assume wf: "wfConfig cfg"
  have "tableOk cfg {} (emptyDaemon cfg)"
    by (simp add: tableOk_def emptyDaemon_def blankProject_def procOf_def mirrored_New)
  from tableOk_registers[OF this distinct_ProjectNames[OF wf]]
  show ?thesis unfolding New_def by (intro tableOk_entries) simp
qed

section \<open>Binding\<close>

text \<open>A routed project: its switch hands requests to it, and to nobody else.\<close>

definition routed :: "daemon \<Rightarrow> stId \<Rightarrow> bool" where
  "routed d i \<longleftrightarrow> (\<exists>sw. psSwitch (dmProjects d i) = Some sw \<and> dmSwitches d sw = Handling i \<and> sw < dmNext d)"

lemma routed_touches: "routed d j \<Longrightarrow> touches {i} {dmNext d} d e \<Longrightarrow> j \<noteq> i \<Longrightarrow> routed e j"
  by (fastforce simp: routed_def touches_def)

lemma bind_one:
  assumes "attach net i (freshSwitch i d) = (None, e)" "tableOk cfg ns d" "map_of (dmStates d) n = Some i"
    and "pName (projectOf cfg n) = n"
  shows "tableOk cfg ns e" "map_of (dmStates e) = map_of (dmStates d)" "routed e i" "touches {i} {dmNext d} d e"
proof -
  let ?d = "freshSwitch i d"
  have t: "touches {i} {dmNext d} d ?d" by (rule touches_new(4))
  have a: "touches {i} {} ?d e" using touches_attach[of i ?d net] assms(1) by simp
  show te: "touches {i} {dmNext d} d e" using touches_seq[OF t touches_mono[OF a]] by simp
  obtain b where b: "dmProjects e i = (dmProjects ?d i)\<lparr>psBind := Some b\<rparr>" "dmSwitches e = dmSwitches ?d"
    using attach_record[OF assms(1)] by auto
  have f: "dmProjects ?d i = (dmProjects d i)\<lparr>psSwitch := Some (dmNext d)\<rparr>" "dmSwitches ?d (dmNext d) = Handling i"
    "dmStates ?d = dmStates d" "dmNext ?d = dmNext d + 1"
    by (simp_all add: freshSwitch_def setProject_def)
  have le: "dmNext d < dmNext e" using a f(4) by (simp add: touches_def)
  with b f show "routed e i" by (simp add: routed_def)
  have n: "nameOf ?d i = n" using assms(2-4) f(1) by (auto simp: nameOf_def tableOk_def)
  have s: "dmStates e = mapPut n i (dmStates d)" using attach_states[of net i ?d] assms(1) f(3) n by simp
  then show m: "map_of (dmStates e) = map_of (dmStates d)" using assms(3) by (simp add: gomap_simps fun_upd_idem)
  have p: "dmProjects e j = (if j = i then (dmProjects d i)\<lparr>psSwitch := Some (dmNext d), psBind := Some b\<rparr> else dmProjects d j)" for j
    using te b f(1) by (simp add: touches_def)
  show "tableOk cfg ns e"
  proof (rule tableOk_frame[OF assms(2) m])
    show "distinct (map fst (dmStates e))"
      unfolding s by (rule distinct_mapPut) (use assms(2) in \<open>simp only: tableOk_def\<close>)
  qed (use le in \<open>simp_all add: p\<close>)
qed

lemma bind_states:
  "bindStates net is d = (None, e) \<Longrightarrow> tableOk cfg ns d \<Longrightarrow> wfConfig cfg \<Longrightarrow> ns = set (ProjectNames cfg) \<Longrightarrow>
    (\<And>j. j \<in> set is \<Longrightarrow> \<exists>n. map_of (dmStates d) n = Some j) \<Longrightarrow> (\<And>j. j \<in> S \<Longrightarrow> routed d j) \<Longrightarrow>
    tableOk cfg ns e \<and> map_of (dmStates e) = map_of (dmStates d) \<and> (\<forall>j \<in> S \<union> set is. routed e j)"
proof (induction "is" arbitrary: d S)
  case (Cons i "is")
  obtain d1 where a: "attach net i (freshSwitch i d) = (None, d1)" "bindStates net is d1 = (None, e)"
    using Cons.prems(1) by (auto split: prod.splits option.splits)
  obtain n where n: "map_of (dmStates d) n = Some i" using Cons.prems(5)[of i] by auto
  then have "n \<in> set (ProjectNames cfg)" using tableOk_key[OF Cons.prems(2)] Cons.prems(4) by simp
  then have pn: "pName (projectOf cfg n) = n"
    using Cons.prems(3) by (auto simp: in_ProjectNames wfConfig_def projectOf_def)
  note one = bind_one[OF a(1) Cons.prems(2) n pn]
  have "tableOk cfg ns e \<and> map_of (dmStates e) = map_of (dmStates d1) \<and> (\<forall>j \<in> insert i S \<union> set is. routed e j)"
  proof (rule Cons.IH[OF a(2) one(1) Cons.prems(3,4)])
    show "\<exists>n. map_of (dmStates d1) n = Some j" if "j \<in> set is" for j
      using Cons.prems(5) that one(2) by simp
    show "routed d1 j" if "j \<in> insert i S" for j
      using that one(3) routed_touches[OF Cons.prems(6) one(4)] by (cases "j = i") auto
  qed
  with one(2) show ?case by auto
qed simp

lemma bind_entries:
  "bindEntries net es d = (None, e) \<Longrightarrow>
    dmStates e = dmStates d \<and> dmProjects e = dmProjects d \<and> dmSwitches e = dmSwitches d \<and> dmNext d \<le> dmNext e"
proof (induction es arbitrary: d)
  case (Cons x es)
  obtain d1 where d1: "bindEntry net x d = (None, d1)" "bindEntries net es d1 = (None, e)"
    using Cons.prems by (auto split: prod.splits option.splits)
  have "dmStates d1 = dmStates d \<and> dmProjects d1 = dmProjects d \<and> dmSwitches d1 = dmSwitches d \<and> dmNext d \<le> dmNext d1"
    using d1(1) by (auto simp: bindEntry_def listen_def daemon_defs split: option.splits sum.splits)
  with Cons.IH[OF d1(2)] show ?case by auto
qed simp

lemma activate_fold:
  "dmStates (fold activate is d) = dmStates d" "dmSwitches (fold activate is d) = dmSwitches d"
  "dmNext (fold activate is d) = dmNext d"
  "dmProjects (fold activate is d) i = (dmProjects d i)\<lparr>psActive := psActive (dmProjects d i) \<or> i \<in> set is\<rparr>"
  by (induction "is" arbitrary: d) (auto simp: activate_def setProject_def Let_def)


definition suProject :: project where
  "suProject = emptyProject\<lparr>pName := ''a'', pListenHost := ''127.0.0.1'', pSupervisorPort := 7101\<rparr>"

definition suConfig :: config where
  "suConfig = \<lparr>cProjects = [(''a'', suProject)], cMaxRunning = 0, cDiscovery = [], cPath = ''/c.yaml''\<rparr>"

definition suWorld :: startWorld where
  "suWorld =
     \<lparr>swLstat = None, swAnswers = (\<lambda>_. True), swRemove = None, swMkdir = None, swDir = DirOwned (Some 501),
      swUid = 501, swListen = None\<rparr>"

lemma su_starts: "\<exists>d. startDaemon suWorld 7 (\<lambda>_ _. None) (New suConfig) (SocketNode None) = (None, d, SocketNode (Some 7))"
  by (simp add: startDaemon_def claimSocket_def probeSocket_def removeStale_def suWorld_def openControl_def
      verifySocketDir_def listenControl_def New_def suConfig_def ProjectNames_def registerProject_def
      emptyDaemon_def newTrackerObj_def newProjectState_def sortedStatesLocked_def sortedEntriesLocked_def
      attach_def attachTo_def freshSwitch_def listen_def daemon_defs gomap_simps mapPut_def mapDelete_def
      split: option.split prod.split)


section \<open>A start that fails\<close>

text \<open>Every open listener is in the table of listeners.\<close>

definition openKnown :: "daemon \<Rightarrow> bool" where
  "openKnown d \<longleftrightarrow> (\<forall>b. bdOpen (dmBinds d b) \<longrightarrow> (\<exists>a. map_of (dmBindings d) a = Some b))"

definition sameProjects :: "daemon \<Rightarrow> daemon \<Rightarrow> bool" where
  "sameProjects d e \<longleftrightarrow>
     (\<forall>i. psProject (dmProjects e i) = psProject (dmProjects d i) \<and> psRetired (dmProjects e i) = psRetired (dmProjects d i)) \<and>
     procOf e = procOf d"

lemma sameProjects_trans: "sameProjects d e \<Longrightarrow> sameProjects e f \<Longrightarrow> sameProjects d f"
  by (simp add: sameProjects_def)

lemma openKnown_cong:
  "openKnown d \<Longrightarrow> (\<And>b. bdOpen (dmBinds e b) = bdOpen (dmBinds d b)) \<Longrightarrow> dmBindings e = dmBindings d \<Longrightarrow> openKnown e"
  by (simp add: openKnown_def)

lemma openKnown_add:
  assumes "openKnown d" "map_of (dmBindings d) addr = None" "dmBindings e = mapPut addr n (dmBindings d)"
    and "\<And>b. bdOpen (dmBinds e b) \<Longrightarrow> b \<noteq> n \<Longrightarrow> bdOpen (dmBinds d b)"
  shows "openKnown e"
  unfolding openKnown_def
proof (intro allI impI)
  fix b assume o: "bdOpen (dmBinds e b)"
  show "\<exists>a. map_of (dmBindings e) a = Some b"
  proof (cases "b = n")
    case True
    then show ?thesis by (intro exI[of _ addr]) (simp add: assms(3) gomap_simps)
  next
    case False
    then obtain a where "map_of (dmBindings d) a = Some b" using assms(1) assms(4)[OF o] by (auto simp: openKnown_def)
    then show ?thesis using assms(2) by (intro exI[of _ a]) (auto simp: assms(3) gomap_simps)
  qed
qed

lemma attach_open:
  assumes "attach net i d = (r, e)" "openKnown d"
  shows "openKnown e" "dmEntryStates e = dmEntryStates d" "dmEntries e = dmEntries d" "sameProjects d e"
    "fst ` set (dmBindings e) \<subseteq> insert (listenAddr (psProject (dmProjects d i))) (fst ` set (dmBindings d))"
proof -
  let ?addr = "listenAddr (psProject (dmProjects d i))"
  have to: "bdOpen (dmBinds (attachTo b i d1) c) = bdOpen (dmBinds d1 c)" "dmBindings (attachTo b i d1) = dmBindings d1"
    "dmEntryStates (attachTo b i d1) = dmEntryStates d1" "dmEntries (attachTo b i d1) = dmEntries d1"
    "sameProjects d1 (attachTo b i d1)" for b c d1
    by (auto simp: attachTo_def daemon_defs sameProjects_def procOf_def fun_eq_iff split: option.split)
  have "openKnown e \<and> dmEntryStates e = dmEntryStates d \<and> dmEntries e = dmEntries d \<and> sameProjects d e \<and>
    fst ` set (dmBindings e) \<subseteq> insert ?addr (fst ` set (dmBindings d))"
  proof (cases "map_of (dmBindings d) ?addr")
    case (Some b)
    with assms have "e = attachTo b i d" by (simp add: attach_def Let_def)
    with to assms(2) show ?thesis by (auto simp: openKnown_def)
  next
    case None
    show ?thesis
    proof (cases "net (dmNext d) ?addr")
      case (Some err)
      with None assms show ?thesis by (auto simp: attach_def listen_def Let_def sameProjects_def)
    next
      case free: None
      let ?b = "dmNext d"
      let ?d1 = "setBinding ?b \<lparr>bdAddr = ?addr, bdRouter = newRouter, bdMembers = 0, bdEntry = None, bdOpen = True\<rparr>
          (d\<lparr>dmNext := ?b + 1\<rparr>)"
      let ?d2 = "?d1\<lparr>dmBindings := mapPut ?addr ?b (dmBindings ?d1)\<rparr>"
      have e: "e = attachTo ?b i ?d2" using None free assms(1) by (simp add: attach_def listen_def Let_def)
      have "openKnown ?d2" by (rule openKnown_add[OF assms(2) None, where n = ?b]) (auto simp: setBinding_def)
      moreover have "sameProjects d ?d2" by (simp add: sameProjects_def setBinding_def procOf_def fun_eq_iff)
      ultimately show ?thesis
        using e sameProjects_trans[OF _ to(5)] by (auto simp: to openKnown_def setBinding_def gomap_simps)
    qed
  qed
  then show "openKnown e" "dmEntryStates e = dmEntryStates d" "dmEntries e = dmEntries d" "sameProjects d e"
    "fst ` set (dmBindings e) \<subseteq> insert ?addr (fst ` set (dmBindings d))" by blast+
qed

lemma bindStates_open:
  "bindStates net is d = (r, e) \<Longrightarrow> openKnown d \<Longrightarrow> fst ` set (dmBindings d) \<subseteq> A \<Longrightarrow>
    (\<And>i. i \<in> set is \<Longrightarrow> listenAddr (psProject (dmProjects d i)) \<in> A) \<Longrightarrow>
    openKnown e \<and> dmEntryStates e = dmEntryStates d \<and> dmEntries e = dmEntries d \<and> sameProjects d e \<and>
    fst ` set (dmBindings e) \<subseteq> A"
proof (induction "is" arbitrary: d)
  case (Cons i "is")
  obtain r1 d1 where a: "attach net i (freshSwitch i d) = (r1, d1)" by fastforce
  have f: "openKnown (freshSwitch i d)" "sameProjects d (freshSwitch i d)" "dmEntryStates (freshSwitch i d) = dmEntryStates d"
    "dmEntries (freshSwitch i d) = dmEntries d" "dmBindings (freshSwitch i d) = dmBindings d"
    using Cons.prems(2) by (auto simp: openKnown_def freshSwitch_def daemon_defs sameProjects_def procOf_def fun_eq_iff)
  have addr: "listenAddr (psProject (dmProjects (freshSwitch i d) i)) \<in> A"
    using Cons.prems(4)[of i] f(2) by (simp add: sameProjects_def)
  note o = attach_open[OF a f(1)]
  have d1: "openKnown d1" "dmEntryStates d1 = dmEntryStates d" "dmEntries d1 = dmEntries d" "sameProjects d d1"
    "fst ` set (dmBindings d1) \<subseteq> A"
  proof -
    have "listenAddr (psProject (dmProjects (freshSwitch i d) i)) \<in> A" by (rule addr)
    with o(5) f(5) Cons.prems(3) show "fst ` set (dmBindings d1) \<subseteq> A" by (metis insert_subset order_trans)
  qed (use o(1-4) f(2-4) sameProjects_trans in auto)
  show ?case
  proof (cases r1)
    case (Some err)
    with a Cons.prems(1) have "e = d1" by simp
    with d1 show ?thesis by simp
  next
    case None
    with a Cons.prems(1) have "bindStates net is d1 = (r, e)" by simp
    from Cons.IH[OF this d1(1,5)] have "openKnown e \<and> dmEntryStates e = dmEntryStates d1 \<and> dmEntries e = dmEntries d1 \<and>
        sameProjects d1 e \<and> fst ` set (dmBindings e) \<subseteq> A"
      using Cons.prems(4) d1(4) by (simp add: sameProjects_def)
    with d1 sameProjects_trans[of d d1 e] show ?thesis by simp
  qed
qed (simp add: sameProjects_def)

lemma bindEntries_open:
  "bindEntries net es d = (r, e) \<Longrightarrow> openKnown d \<Longrightarrow>
    distinct (map (\<lambda>x. entryAddr (esEntry (dmEntryStates d x))) es) \<Longrightarrow>
    (\<And>x. x \<in> set es \<Longrightarrow> entryAddr (esEntry (dmEntryStates d x)) \<notin> fst ` set (dmBindings d)) \<Longrightarrow>
    openKnown e \<and> sameProjects d e"
proof (induction es arbitrary: d)
  case (Cons x es)
  let ?addr = "\<lambda>y. entryAddr (esEntry (dmEntryStates d y))"
  obtain r1 d1 where b: "bindEntry net x d = (r1, d1)" by fastforce
  have no: "map_of (dmBindings d) (?addr x) = None" using Cons.prems(4)[of x] by (simp add: map_of_eq_None_iff)
  show ?case
  proof (cases r1)
    case (Some err)
    with b Cons.prems(1,2) show ?thesis
      by (auto simp: bindEntry_def listen_def Let_def sameProjects_def split: option.splits sum.splits)
  next
    case None
    have d1: "sameProjects d d1" "dmBindings d1 = mapPut (?addr x) (dmNext d) (dmBindings d)"
      "\<And>y. esEntry (dmEntryStates d1 y) = esEntry (dmEntryStates d y)"
      "\<And>c. bdOpen (dmBinds d1 c) \<Longrightarrow> c \<noteq> dmNext d \<Longrightarrow> bdOpen (dmBinds d c)"
      using b None
      by (auto simp: bindEntry_def listen_def daemon_defs sameProjects_def procOf_def fun_eq_iff
          split: option.splits sum.splits if_splits)
    have k1: "openKnown d1" by (rule openKnown_add[OF Cons.prems(2) no d1(2,4)])
    have "bindEntries net es d1 = (r, e)" using b None Cons.prems(1) by simp
    then have "openKnown e \<and> sameProjects d1 e"
    proof (rule Cons.IH[OF _ k1])
      show "distinct (map (\<lambda>y. entryAddr (esEntry (dmEntryStates d1 y))) es)"
        using Cons.prems(3) by (simp add: d1(3))
      fix y assume y: "y \<in> set es"
      then have "?addr y \<noteq> ?addr x" "?addr y \<notin> fst ` set (dmBindings d)"
        using Cons.prems(3,4) by (auto simp: rev_image_eqI)
      then show "entryAddr (esEntry (dmEntryStates d1 y)) \<notin> fst ` set (dmBindings d1)"
        by (simp add: d1(2,3) gomap_simps)
    qed
    with d1(1) sameProjects_trans show ?thesis by blast
  qed
qed (simp add: sameProjects_def)

lemma unbind_fold:
  "bdOpen (dmBinds (fold unbind bs d) b) \<longleftrightarrow> bdOpen (dmBinds d b) \<and> b \<notin> set bs"
  "sameProjects d (fold unbind bs d)"
  by (induction bs arbitrary: d) (auto simp: unbind_def setBinding_def sameProjects_def procOf_def)

lemma closeListeners_closed: "openKnown d \<Longrightarrow> \<not> bdOpen (dmBinds (closeListeners d) b)"
proof
  assume k: "openKnown d" and "bdOpen (dmBinds (closeListeners d) b)"
  then have b: "bdOpen (dmBinds d b)" "b \<notin> set (allBindings d)"
    by (auto simp: closeListeners_def unbind_fold)
  then obtain a where a: "map_of (dmBindings d) a = Some b" using k by (auto simp: openKnown_def)
  then have "a \<in> set (sort (map fst (dmBindings d)))" by (force dest: map_of_SomeD)
  with a b(2) show False by (force simp: allBindings_def)
qed

definition clearAddresses :: "daemon \<Rightarrow> bool" where
  "clearAddresses d \<longleftrightarrow>
     (let addr = \<lambda>x. entryAddr (esEntry (dmEntryStates d x)) in
      distinct (map addr (sortedEntriesLocked d)) \<and>
      (\<forall>i \<in> set (sortedStatesLocked d). \<forall>x \<in> set (sortedEntriesLocked d).
         listenAddr (psProject (dmProjects d i)) \<noteq> addr x))"

text \<open>
  C12. A start that fails leaves nothing behind: no listener stays open, no process has been started, and the
  socket path is as it was or empty; when another process accepts connections there, as it was.
\<close>

theorem failed_start_leaves_nothing_open:
  assumes "startDaemon w me net d node = (Some err, e, n)"
    and "dmBindings d = []" "\<And>b. \<not> bdOpen (dmBinds d b)" "clearAddresses d"
  shows "(\<forall>b. \<not> bdOpen (dmBinds e b)) \<and> procOf e = procOf d \<and> (n = node \<or> n = NoNode) \<and>
    (\<forall>k. node = SocketNode (Some k) \<longrightarrow> n = node)"
proof -
  let ?A = "(\<lambda>i. listenAddr (psProject (dmProjects d i))) ` set (sortedStatesLocked d)"
  obtain c n0 where c: "claimSocket w node = (c, n0)" by fastforce
  have n0: "n0 = node \<or> n0 = NoNode" "node = SocketNode (Some k) \<Longrightarrow> c \<noteq> None \<and> n0 = node" for k
    using c by (auto simp: claimSocket_def probeSocket_def removeStale_def split: sockNode.splits option.splits)
  have k: "openKnown d" using assms(3) by (simp add: openKnown_def)
  show ?thesis
  proof (cases c)
    case (Some x)
    with assms c n0 show ?thesis by (auto simp: startDaemon_def)
  next
    case free: None
    then have live: "node \<noteq> SocketNode (Some k)" for k using n0(2) by blast
    show ?thesis
    proof (cases "openControl w me n0")
      case (Inl x)
      with assms c free n0(1) live show ?thesis by (auto simp: startDaemon_def)
    next
      case (Inr n1)
      obtain r1 d1 where b1: "bindStates net (sortedStatesLocked d) d = (r1, d1)" by fastforce
      have s1: "openKnown d1" "dmEntryStates d1 = dmEntryStates d" "dmEntries d1 = dmEntries d" "sameProjects d d1"
        "fst ` set (dmBindings d1) \<subseteq> ?A"
        using bindStates_open[OF b1 k, of ?A] assms(2) by auto
      show ?thesis
      proof (cases r1)
        case (Some x)
        with assms(1) c free Inr b1 have "e = closeListeners d1" "n = NoNode" by (auto simp: startDaemon_def)
        with s1 live closeListeners_closed unbind_fold(2)[of d1] show ?thesis
          by (simp add: sameProjects_def closeListeners_def)
      next
        case None
        obtain r2 d2 where b2: "bindEntries net (sortedEntriesLocked d1) d1 = (r2, d2)" by fastforce
        have es: "sortedEntriesLocked d1 = sortedEntriesLocked d" using s1(3) by (simp add: sortedEntriesLocked_def)
        have "openKnown d2 \<and> sameProjects d1 d2"
          by (rule bindEntries_open[OF b2 s1(1)])
            (use assms(4) s1(2,5) es in \<open>force simp: clearAddresses_def Let_def\<close>)+
        moreover from this None assms(1) c free Inr b1 b2 have "e = closeListeners d2" "n = NoNode"
          by (auto simp: startDaemon_def split: option.splits)
        ultimately show ?thesis
          using s1(4) live closeListeners_closed unbind_fold(2)[of d2] by (simp add: sameProjects_def closeListeners_def)
      qed
    qed
  qed
qed

theorem failed_start_leaves_nothing_open_witness:
  "\<exists>e. startDaemon suWorld 7 (\<lambda>_ _. Some ''in use'') (New suConfig) NoNode =
       (Some (ProjectNotBound ''a'' ''in use''), e, NoNode) \<and> (\<forall>b. \<not> bdOpen (dmBinds e b))"
proof -
  obtain e where e: "startDaemon suWorld 7 (\<lambda>_ _. Some ''in use'') (New suConfig) NoNode =
       (Some (ProjectNotBound ''a'' ''in use''), e, NoNode)"
    by (simp add: startDaemon_def claimSocket_def probeSocket_def suWorld_def openControl_def
      verifySocketDir_def listenControl_def New_def suConfig_def suProject_def ProjectNames_def registerProject_def
      projectOf_def nameOf_def emptyDaemon_def newTrackerObj_def newProjectState_def sortedStatesLocked_def
      sortedEntriesLocked_def attach_def freshSwitch_def listen_def daemon_defs gomap_simps mapPut_def mapDelete_def
      split: option.split prod.split)
  have "dmBindings (New suConfig) = []" "\<not> bdOpen (dmBinds (New suConfig) b)" "clearAddresses (New suConfig)" for b
    by (simp_all add: New_def suConfig_def ProjectNames_def registerProject_def emptyDaemon_def newTrackerObj_def
        newProjectState_def daemon_defs clearAddresses_def sortedEntriesLocked_def)
  from failed_start_leaves_nothing_open[OF e this] e show ?thesis by blast
qed

section \<open>The end of Run\<close>

lemma New_fresh:
  "dmBindings (New cfg) = [] \<and> \<not> bdOpen (dmBinds (New cfg) b) \<and> retiredOk (New cfg)"
proof -
  let ?P = "\<lambda>d. dmBindings d = [] \<and> (\<forall>b. \<not> bdOpen (dmBinds d b)) \<and> (\<forall>i. mirrored (procOf d i)) \<and>
    (\<forall>i. \<not> psRetired (dmProjects d i))"
  have p: "?P (fold (registerProject cfg) ns d)" if "?P d" for ns d
    using that
  proof (induction ns arbitrary: d)
    case (Cons n ns)
    have "?P (registerProject cfg n d)"
      using Cons.prems by (simp add: registerProject_def newTrackerObj_def newProjectState_def setProject_def procOf_def mirrored_New)
    then show ?case using Cons.IH by simp
  qed simp
  have e: "?P (fold registerEntry es d)" if "?P d" for es d
    using that
  proof (induction es arbitrary: d)
    case (Cons x es)
    have "?P (registerEntry x d)"
      using Cons.prems by (simp add: registerEntry_def newEntryState_def procOf_def split: option.split)
    then show ?case using Cons.IH by simp
  qed simp
  have "?P (emptyDaemon cfg)" by (simp add: emptyDaemon_def procOf_def blankProject_def mirrored_New)
  from e[OF p[OF this]] show ?thesis unfolding New_def by (simp add: retiredOk_def)
qed

lemma openKnown_New: "openKnown (New cfg)"
  using New_fresh by (simp add: openKnown_def)

lemma bindEntries_same: "bindEntries net es d = (r, e) \<Longrightarrow> dmProjects e = dmProjects d"
proof (induction es arbitrary: d)
  case (Cons x es)
  obtain r1 d1 where b: "bindEntry net x d = (r1, d1)" by fastforce
  have "dmProjects d1 = dmProjects d"
    using b by (auto simp: bindEntry_def listen_def daemon_defs split: option.splits sum.splits)
  with b Cons show ?case by (cases r1) auto
qed simp

lemma startDaemon_same:
  assumes "startDaemon w me net d node = (r, e, n)" "openKnown d"
  shows "sameProjects d e"
proof -
  obtain r1 d1 where b1: "bindStates net (sortedStatesLocked d) d = (r1, d1)" by fastforce
  obtain r2 d2 where b2: "bindEntries net (sortedEntriesLocked d1) d1 = (r2, d2)" by fastforce
  have s1: "sameProjects d d1" using bindStates_open[OF b1 assms(2), of UNIV] by simp
  have s2: "sameProjects d d2"
    using s1 bindEntries_same[OF b2] by (simp add: sameProjects_def procOf_def fun_eq_iff)
  have c: "sameProjects x (closeListeners x)" for x by (simp add: closeListeners_def unbind_fold)
  have a: "sameProjects x (activateAll x)" for x
    by (simp add: sameProjects_def activateAll_def activate_fold procOf_def fun_eq_iff)
  have "e = d \<or> e = closeListeners d1 \<or> e = closeListeners d2 \<or> e = activateAll d2"
    using assms(1) b1 b2 by (auto simp: startDaemon_def split: prod.splits option.splits sum.splits)
  moreover have "sameProjects d d" by (simp add: sameProjects_def)
  ultimately show ?thesis using s1 s2 c a sameProjects_trans by metis
qed

lemma in_sortedStates_of:
  assumes "map_of (dmStates d) name = Some i"
  shows "i \<in> set (sortedStatesLocked d)"
proof -
  have "name \<in> fst ` set (dmStates d)" using assms by (metis domI dom_map_of_conv_image_fst)
  then have "the (map_of (dmStates d) name) \<in> set (sortedStatesLocked d)"
    unfolding sortedStatesLocked_def by simp
  with assms show ?thesis by simp
qed

lemma stopAll_out:
  assumes "settles settle" "retiredOk d" "map_of (dmStates (stopAll settle d)) name = Some i"
  shows "outOfService (procOf (stopAll settle d) i)"
proof -
  let ?items = "map (\<lambda>i. (i, False)) (sortedStatesLocked d)"
  let ?d1 = "retireAll settle ?items d"
  let ?f = "\<lambda>e d'. if esBind (dmEntryStates d' e) \<noteq> None then unbindEntry e d' else d'"
  have e: "stopAll settle d = fold ?f (sortedEntriesLocked ?d1) ?d1" by (simp add: stopAll_def Let_def)
  have t: "touches {} {} x (fold ?f es x)" for x es
    by (rule touches_fold) (simp add: touches_entries(2))
  have st: "dmStates (fold ?f es x) = dmStates x" for x es
    by (rule states_fold) simp
  from t[of ?d1] have p: "dmProjects (stopAll settle d) = dmProjects ?d1" unfolding e using touches_none by blast
  have "map_of (dmStates d) name = Some i" using assms(3) unfolding e st by simp
  then have "i \<in> set (sortedStatesLocked d)" by (rule in_sortedStates_of)
  then have "i \<in> fst ` set ?items" by force
  then have "psRetired (dmProjects ?d1 i)" "retiredOk ?d1" using retireAll_spec[OF assms(1,2), of ?items] by blast+
  then show ?thesis using p by (simp add: retiredOk_def procOf_def)
qed

lemma outOfService_spawns:
  "supStep\<^sup>*\<^sup>* s t \<Longrightarrow> outOfService s \<Longrightarrow> sSpawns t = sSpawns s \<and> outOfService t"
proof (induction rule: rtranclp_induct)
  case (step y z)
  then show ?case using retired_step[OF step(2)] outOfService_step[OF step(2)] by (simp add: outOfService_def)
qed simp


lemma started_states:
  assumes "startDaemon w me net (New cfg) node = (None, d, n)" and "wfConfig cfg"
  shows "map_of (dmStates d) = map_of (dmStates (New cfg))"
proof -
  obtain d1 d2 where s: "bindStates net (sortedStatesLocked (New cfg)) (New cfg) = (None, d1)"
    "bindEntries net (sortedEntriesLocked d1) d1 = (None, d2)" "d = activateAll d2"
    using assms(1) by (auto simp: startDaemon_def split: prod.splits option.splits sum.splits)
  note t0 = New_table[OF assms(2)]
  have "\<exists>n. map_of (dmStates (New cfg)) n = Some j" if "j \<in> set (sortedStatesLocked (New cfg))" for j
    using that t0 in_sortedStates[of "New cfg" j] by (force simp: tableOk_def)
  then have "map_of (dmStates d1) = map_of (dmStates (New cfg))"
    using bind_states[OF s(1) t0 assms(2) refl, of "{}"] by auto
  with bind_entries[OF s(2)] show ?thesis by (simp add: s(3) activateAll_def activate_fold)
qed

lemma su_ends:
  "\<exists>e i. Run suWorld 7 (\<lambda>_ _. None) (\<lambda>s. s) (\<lambda>d. (None, d)) (New suConfig) (SocketNode None) = (None, e, NoNode) \<and>
     map_of (dmStates e) ''a'' = Some i"
proof -
  obtain d where d: "startDaemon suWorld 7 (\<lambda>_ _. None) (New suConfig) (SocketNode None) = (None, d, SocketNode (Some 7))"
    using su_starts by blast
  have "wfConfig suConfig" by (simp add: wfConfig_def suConfig_def suProject_def)
  from started_states[OF d this] have "map_of (dmStates d) ''a'' = Some 1"
    by (simp add: New_def suConfig_def ProjectNames_def registerProject_def emptyDaemon_def newTrackerObj_def
        newProjectState_def daemon_defs gomap_simps)
  moreover have "dmStates (stopAll (\<lambda>s. s) x) = dmStates x" for x
    unfolding stopAll_def Let_def by (subst states_fold) simp_all
  ultimately show ?thesis using d by (auto simp: Run_def drain_def)
qed


section \<open>Daemons at one path\<close>

text \<open>The changes of the file that are not the daemon's own serving: a claim in progress and a close.\<close>

definition changing :: "claimSys \<Rightarrow> nat set" where
  "changing s = {k. clPhase s k \<in> {Removing, Binding, Closed}}"

text \<open>Steps of daemons of which at most one claims or leaves the path at any time.\<close>

definition aloneStep :: "startWorld \<Rightarrow> claimSys \<Rightarrow> claimSys \<Rightarrow> bool" where
  "aloneStep w s t \<longleftrightarrow> claimStep w s t \<and> (\<exists>k. changing t \<subseteq> {k})"

definition freshPath :: "claimSys \<Rightarrow> bool" where
  "freshPath s \<longleftrightarrow> (\<forall>k. clPhase s k = Idle) \<and> (\<forall>k. clNode s \<noteq> SocketNode (Some k))"

definition ownsPath :: "claimSys \<Rightarrow> bool" where
  "ownsPath s \<longleftrightarrow>
     (\<forall>k. clPhase s k = Up \<longleftrightarrow> clNode s = SocketNode (Some k)) \<and>
     (\<forall>k. clPhase s k = Removing \<longrightarrow> clNode s = SocketNode None) \<and>
     (\<forall>k. clPhase s k \<in> {Binding, Closed} \<longrightarrow> clNode s = NoNode) \<and>
     (\<exists>k. changing s \<subseteq> {k})"

lemma enter_simps [simp]:
  "clNode (enter k p s) = clNode s" "clPhase (enter k p s) j = (if j = k then p else clPhase s j)"
  by (simp_all add: enter_def)

lemma openControl_node: "openControl w k n = Inr m \<Longrightarrow> n = NoNode \<and> m = SocketNode (Some k)"
  by (auto simp: openControl_def listenControl_def split: option.splits if_splits)

lemma alone_two: "changing s \<subseteq> {a} \<Longrightarrow> j \<in> changing s \<Longrightarrow> k \<in> changing s \<Longrightarrow> j = k"
  by blast

lemma ownsPath_step:
  assumes "ownsPath s" "aloneStep w s t"
  shows "ownsPath t"
proof -
  obtain a where a: "changing t \<subseteq> {a}" using assms(2) by (auto simp: aloneStep_def)
  have one: "j = k" if "clPhase t j \<in> {Removing, Binding, Closed}" "clPhase t k \<in> {Removing, Binding, Closed}" for j k
    using alone_two[OF a] that by (simp add: changing_def)
  have up: "clNode s = SocketNode (Some j) \<Longrightarrow> clPhase s j = Up" for j
    using assms(1) by (simp add: ownsPath_def)
  have "claimStep w s t" using assms(2) by (simp add: aloneStep_def)
  then show ?thesis
  proof cases
    case (probe_free k)
    then show ?thesis using assms(1) a one[of k] unfolding ownsPath_def
      by (auto simp: probeSocket_def split: sockNode.splits option.splits if_splits)
  next
    case (probe_stale k)
    then show ?thesis using assms(1) a one[of k] unfolding ownsPath_def
      by (auto simp: probeSocket_def split: sockNode.splits option.splits if_splits)
  next
    case (probe_refused k e)
    then have "clNode s \<noteq> SocketNode (Some k)" using up[of k] by auto
    with probe_refused show ?thesis using assms(1) a unfolding ownsPath_def by auto
  next
    case (remove_stale k n)
    have n: "n = NoNode" "clNode s = SocketNode None"
      using remove_stale(2,3) assms(1) by (auto simp: removeStale_def ownsPath_def split: option.splits)
    have "clPhase s j \<noteq> Up \<and> clPhase s j \<noteq> Binding \<and> clPhase s j \<noteq> Closed" for j
      using assms(1) n(2) by (simp add: ownsPath_def)
    moreover have "clPhase s j \<noteq> Removing" if "j \<noteq> k" for j
    proof
      assume "clPhase s j = Removing"
      with that have "clPhase t j = Removing" "clPhase t k = Binding" by (simp_all add: remove_stale(1))
      with one[of j k] that show False by simp
    qed
    ultimately have ph: "clPhase t j \<noteq> Up \<and> clPhase t j \<noteq> Removing" for j using remove_stale(1) by simp
    have "clNode t = NoNode" using remove_stale(1) n(1) by simp
    with ph a show ?thesis unfolding ownsPath_def by (intro conjI) auto
  next
    case (bind_path k n)
    note n = openControl_node[OF bind_path(3)]
    obtain c where "changing s \<subseteq> {c}" using assms(1) by (auto simp: ownsPath_def)
    from alone_two[OF this] have "clPhase s j \<notin> {Removing, Binding, Closed}" if "j \<noteq> k" for j
      using that bind_path(2) by (auto simp: changing_def)
    moreover have "clPhase s j \<noteq> Up" for j using assms(1) n by (simp add: ownsPath_def)
    ultimately have ph: "clPhase t j \<notin> {Removing, Binding, Closed} \<and> (clPhase t j = Up \<longleftrightarrow> k = j)" for j
      using bind_path(1) by simp
    have "clNode t = SocketNode (Some k)" using bind_path(1) n by simp
    with ph a show ?thesis unfolding ownsPath_def by (intro conjI) auto
  next
    case (bind_refused k e)
    then show ?thesis using assms(1) a unfolding ownsPath_def by auto
  next
    case (close_path k)
    then show ?thesis using assms(1) a one[of k] unfolding ownsPath_def by auto
  next
    case (remove_path k)
    then show ?thesis using assms(1) a unfolding ownsPath_def by (auto simp: removeSocketFile_def)
  next
    case (crash k)
    then show ?thesis using assms(1) a unfolding ownsPath_def by auto
  qed
qed

interpretation lonePath: inductive_invariant freshPath "aloneStep w" ownsPath
proof
  show "ownsPath s" if "freshPath s" for s using that by (auto simp: freshPath_def ownsPath_def changing_def)
  show "ownsPath t" if "ownsPath s" "aloneStep w s t" for s t using ownsPath_step that .
qed


text \<open>Two daemons at a path.\<close>

definition duel :: "sockNode \<Rightarrow> phase \<Rightarrow> phase \<Rightarrow> claimSys" where
  "duel n a b = \<lparr>clNode = n, clPhase = (\<lambda>k. if k = 1 then a else if k = 2 then b else Idle)\<rparr>"

lemma duel_simps [simp]:
  "clNode (duel n a b) = n" "clPhase (duel n a b) 1 = a" "clPhase (duel n a b) (Suc 0) = a" "clPhase (duel n a b) 2 = b"
  "enter 1 p (duel n a b) = duel n p b" "enter 2 p (duel n a b) = duel n a p"
  "(duel n a b)\<lparr>clNode := m\<rparr> = duel m a b"
  by (auto simp: duel_def enter_def fun_eq_iff)

lemma su_claims:
  "probeSocket suWorld NoNode = ProbeFree" "probeSocket suWorld (SocketNode None) = ProbeStale"
  "removeStale suWorld n = (None, NoNode)" "openControl suWorld k NoNode = Inr (SocketNode (Some k))"
  "removeSocketFile suWorld n = NoNode"
  by (simp_all add: probeSocket_def removeStale_def removeSocketFile_def openControl_def verifySocketDir_def
      listenControl_def suWorld_def)

lemma duel_steps:
  "claimStep suWorld (duel NoNode Idle b) (duel NoNode Binding b)"
  "claimStep suWorld (duel NoNode a Idle) (duel NoNode a Binding)"
  "claimStep suWorld (duel (SocketNode None) Idle b) (duel (SocketNode None) Removing b)"
  "claimStep suWorld (duel (SocketNode None) a Idle) (duel (SocketNode None) a Removing)"
  "claimStep suWorld (duel n Removing b) (duel NoNode Binding b)"
  "claimStep suWorld (duel n a Removing) (duel NoNode a Binding)"
  "claimStep suWorld (duel NoNode Binding b) (duel (SocketNode (Some 1)) Up b)"
  "claimStep suWorld (duel NoNode a Binding) (duel (SocketNode (Some 2)) a Up)"
  "claimStep suWorld (duel n Up b) (duel NoNode Closed b)"
  "claimStep suWorld (duel n Closed b) (duel NoNode Gone b)"
proof -
  note c = claimStep.intros
  show "claimStep suWorld (duel NoNode Idle b) (duel NoNode Binding b)"
    using c(1)[where s = "duel NoNode Idle b" and k = 1 and w = suWorld] by (simp add: su_claims del: One_nat_def)
  show "claimStep suWorld (duel NoNode a Idle) (duel NoNode a Binding)"
    using c(1)[where s = "duel NoNode a Idle" and k = 2 and w = suWorld] by (simp add: su_claims del: One_nat_def)
  show "claimStep suWorld (duel (SocketNode None) Idle b) (duel (SocketNode None) Removing b)"
    using c(2)[where s = "duel (SocketNode None) Idle b" and k = 1 and w = suWorld] by (simp add: su_claims del: One_nat_def)
  show "claimStep suWorld (duel (SocketNode None) a Idle) (duel (SocketNode None) a Removing)"
    using c(2)[where s = "duel (SocketNode None) a Idle" and k = 2 and w = suWorld] by (simp add: su_claims del: One_nat_def)
  show "claimStep suWorld (duel n Removing b) (duel NoNode Binding b)"
    using c(4)[where s = "duel n Removing b" and k = 1 and w = suWorld] by (simp add: su_claims del: One_nat_def)
  show "claimStep suWorld (duel n a Removing) (duel NoNode a Binding)"
    using c(4)[where s = "duel n a Removing" and k = 2 and w = suWorld] by (simp add: su_claims del: One_nat_def)
  show "claimStep suWorld (duel NoNode Binding b) (duel (SocketNode (Some 1)) Up b)"
    using c(5)[where s = "duel NoNode Binding b" and k = 1 and w = suWorld] by (simp add: su_claims del: One_nat_def)
  show "claimStep suWorld (duel NoNode a Binding) (duel (SocketNode (Some 2)) a Up)"
    using c(5)[where s = "duel NoNode a Binding" and k = 2 and w = suWorld] by (simp add: su_claims del: One_nat_def)
  show "claimStep suWorld (duel n Up b) (duel NoNode Closed b)"
    using c(7)[where s = "duel n Up b" and k = 1 and w = suWorld] by (simp del: One_nat_def)
  show "claimStep suWorld (duel n Closed b) (duel NoNode Gone b)"
    using c(8)[where s = "duel n Closed b" and k = 1 and w = suWorld] by (simp add: su_claims del: One_nat_def)
qed

lemma duel_changing: "b \<in> {Idle, Up, Gone} \<Longrightarrow> changing (duel n a b) \<subseteq> {1}"
  by (auto simp: changing_def duel_def split: if_splits)

lemma duel_starts: "n \<in> {NoNode, SocketNode None} \<Longrightarrow> freshPath (duel n Idle Idle)"
  by (auto simp: freshPath_def duel_def)

lemma one_serves: "reachable freshPath (aloneStep suWorld) (duel (SocketNode (Some 1)) Up Idle)"
proof -
  have "reachable freshPath (aloneStep suWorld) (duel NoNode Idle Idle)"
    by (rule reach_init) (simp add: duel_starts)
  moreover have "aloneStep suWorld (duel NoNode Idle Idle) (duel NoNode Binding Idle)"
    "aloneStep suWorld (duel NoNode Binding Idle) (duel (SocketNode (Some 1)) Up Idle)"
    unfolding aloneStep_def using duel_steps(1,7) duel_changing by blast+
  ultimately show ?thesis by (meson reach_step)
qed


text \<open>
  Without that the daemons cut each other off. Two daemons that find the same stale socket both remove it: the
  second one removes the socket the first has bound by then, and both serve. And a daemon that ends removes
  the file at the path once more after its listener is closed: the socket of a successor that has bound it in
  between, which goes on serving where no client reaches it.
\<close>

theorem racing_daemons_cut_each_other_off:
  "(\<exists>s. reachable freshPath (claimStep suWorld) s \<and> clPhase s 1 = Up \<and> clPhase s 2 = Up \<and>
      clNode s = SocketNode (Some 2)) \<and>
   (\<exists>s. reachable freshPath (claimStep suWorld) s \<and> clPhase s 1 = Gone \<and> clPhase s 2 = Up \<and> clNode s = NoNode)"
proof
  let ?R = "reachable freshPath (claimStep suWorld)"
  have 0: "?R (duel n Idle Idle)" if "n \<in> {NoNode, SocketNode None}" for n
    using that by (intro reach_init duel_starts)
  have "?R (duel (SocketNode None) Removing Removing)"
    using 0[of "SocketNode None"] duel_steps(3,4) by (meson reach_step insertI1 insertI2)
  then have "?R (duel (SocketNode (Some 1)) Up Removing)" using duel_steps(5,7) by (meson reach_step)
  then have "?R (duel (SocketNode (Some 2)) Up Up)" using duel_steps(6,8) by (meson reach_step)
  then show "\<exists>s. ?R s \<and> clPhase s 1 = Up \<and> clPhase s 2 = Up \<and> clNode s = SocketNode (Some 2)"
    by (intro exI[of _ "duel (SocketNode (Some 2)) Up Up"]) simp
  have "?R (duel (SocketNode (Some 1)) Up Idle)"
    using 0[of NoNode] duel_steps(1,7) by (meson reach_step insertI1)
  then have "?R (duel NoNode Closed Idle)" using duel_steps(9) by (meson reach_step)
  then have "?R (duel (SocketNode (Some 2)) Closed Up)" using duel_steps(2,8) by (meson reach_step)
  then have "?R (duel NoNode Gone Up)" using duel_steps(10) by (meson reach_step)
  then show "\<exists>s. ?R s \<and> clPhase s 1 = Gone \<and> clPhase s 2 = Up \<and> clNode s = NoNode"
    by (intro exI[of _ "duel NoNode Gone Up"]) simp
qed

end
