(* ===== verification/WebSocket.thy ===== *)
theory WebSocket
  imports GoLib "HOL-Library.Word"
begin

text \<open>
  The WebSocket endpoints the tests drive through the proxy (\<open>internal/testproc/ws.go\<close>): the frame codec on
  bytes, the echo handler and the client. A connection is the bytes the peer will have sent before it is
  gone, the bytes written so far, and the number of writes that still succeed (\<open>None\<close> when all do). SHA-1 and
  base64 are parameters.
\<close>

unbundle bit_operations_syntax

type_synonym byte = "8 word"

section \<open>Constants\<close>

definition wsMagicGUID :: string where
  "wsMagicGUID = ''258EAFA5-E914-47DA-95CA-C5AB0DC85B11''"

definition maxWSPayload :: nat where
  "maxWSPayload = 2 ^ 20"

definition wsOpText :: byte where "wsOpText = 0x1"
definition wsOpBinary :: byte where "wsOpBinary = 0x2"
definition wsOpClose :: byte where "wsOpClose = 0x8"
definition wsOpPing :: byte where "wsOpPing = 0x9"
definition wsOpPong :: byte where "wsOpPong = 0xA"

lemmas ws_ops = wsOpText_def wsOpBinary_def wsOpClose_def wsOpPing_def wsOpPong_def

definition bytesOf :: "string \<Rightarrow> byte list" where
  "bytesOf s = map of_char s"

definition WSDropMessage :: "byte list" where
  "WSDropMessage = bytesOf ''testproc-drop-connection''"

section \<open>Connections\<close>

record wsConn =
  wcIn :: "byte list"
  wcOut :: "byte list"
  wcRoom :: "nat option"
  wcRandom :: "nat \<Rightarrow> 32 word"
  wcDraws :: nat

text \<open>\<open>Write\<close>: whether it succeeded.\<close>

definition writeConn :: "byte list \<Rightarrow> wsConn \<Rightarrow> bool \<times> wsConn" where
  "writeConn bs c =
     (case wcRoom c of
        None \<Rightarrow> (True, c\<lparr>wcOut := wcOut c @ bs\<rparr>)
      | Some 0 \<Rightarrow> (False, c)
      | Some (Suc n) \<Rightarrow> (True, c\<lparr>wcOut := wcOut c @ bs, wcRoom := Some n\<rparr>))"

text \<open>\<open>io.ReadFull\<close> of \<open>n\<close> bytes.\<close>

definition readFull :: "nat \<Rightarrow> byte list \<Rightarrow> (byte list \<times> byte list) option" where
  "readFull n input = (if length input < n then None else Some (take n input, drop n input))"

text \<open>\<open>binary.BigEndian\<close>: the low \<open>k\<close> bytes of a number, and back.\<close>

fun bigEndian :: "nat \<Rightarrow> nat \<Rightarrow> byte list" where
  "bigEndian 0 n = []"
| "bigEndian (Suc k) n = bigEndian k (n div 256) @ [word_of_nat n]"

definition bigEndianValue :: "byte list \<Rightarrow> nat" where
  "bigEndianValue bs = foldl (\<lambda>a b. 256 * a + unat b) 0 bs"

section \<open>Frames\<close>

text \<open>The payload under the mask.\<close>

definition maskPayload :: "byte list \<Rightarrow> byte list \<Rightarrow> byte list" where
  "maskPayload key payload = map (\<lambda>i. payload ! i XOR key ! (i AND 3)) [0..<length payload]"

text \<open>The header up to the length; the mask bit is set in its second byte.\<close>

definition frameHeader :: "byte \<Rightarrow> nat \<Rightarrow> byte list" where
  "frameHeader opcode n =
     (0x80 OR opcode) #
       (if n < 126 then [word_of_nat n]
        else if n < 2 ^ 16 then [126, word_of_nat (n div 256), word_of_nat n]
        else 127 # bigEndian 8 n)"

definition markMasked :: "byte list \<Rightarrow> byte list" where
  "markMasked header = header[1 := (header ! 1) OR 0x80]"

definition writeWSFrame :: "byte \<Rightarrow> bool \<Rightarrow> byte list \<Rightarrow> wsConn \<Rightarrow> bool \<times> wsConn" where
  "writeWSFrame opcode masked payload c =
     (let header = frameHeader opcode (length payload);
          key = bigEndian 4 (unat (wcRandom c (wcDraws c)));
          (header1, payload1, c1) =
            (if masked then (markMasked header @ key, maskPayload key payload, c\<lparr>wcDraws := Suc (wcDraws c)\<rparr>)
             else (header, payload, c));
          (ok, c2) = writeConn header1 c1
      in if \<not> ok then (False, c2) else writeConn payload1 c2)"

datatype wsError = ShortRead | FragmentedFrame | PayloadTooLarge nat

text \<open>\<open>readWSFrame\<close> on the bytes that are still to come: the frame, and the bytes after it.\<close>

definition frameLength :: "byte \<Rightarrow> byte list \<Rightarrow> (nat \<times> byte list) option" where
  "frameLength h rest =
     (let n = unat (h AND 0x7F) in
      if n = 126 then map_option (apfst bigEndianValue) (readFull 2 rest)
      else if n = 127 then map_option (apfst bigEndianValue) (readFull 8 rest)
      else Some (n, rest))"

definition readWSFrame :: "byte list \<Rightarrow> wsError + byte \<times> byte list \<times> byte list" where
  "readWSFrame input =
     (case readFull 2 input of
        None \<Rightarrow> Inl ShortRead
      | Some (h, rest) \<Rightarrow>
          if h ! 0 AND 0x80 = 0 then Inl FragmentedFrame
          else
            let opcode = h ! 0 AND 0x0F; masked = (h ! 1 AND 0x80 \<noteq> 0) in
            (case frameLength (h ! 1) rest of
               None \<Rightarrow> Inl ShortRead
             | Some (n, rest1) \<Rightarrow>
                 if n > maxWSPayload then Inl (PayloadTooLarge n)
                 else
                   (case (if masked then readFull 4 rest1 else Some ([], rest1)) of
                      None \<Rightarrow> Inl ShortRead
                    | Some (key, rest2) \<Rightarrow>
                        (case readFull n rest2 of
                           None \<Rightarrow> Inl ShortRead
                         | Some (payload, rest3) \<Rightarrow>
                             Inr (opcode, if masked then maskPayload key payload else payload, rest3)))))"

lemma readWSFrame_shorter: "readWSFrame input = Inr (opcode, payload, rest) \<Longrightarrow> length rest < length input"
  by (auto simp: readWSFrame_def readFull_def frameLength_def Let_def split: if_splits option.splits)

lemma writeConn_in [simp]: "wcIn (snd (writeConn bs c)) = wcIn c"
  by (auto simp: writeConn_def split: option.split nat.split)

lemma writeWSFrame_in [simp]: "wcIn (snd (writeWSFrame opcode masked payload c)) = wcIn c"
  by (cases masked) (simp_all add: writeWSFrame_def Let_def split_beta)

lemma writeWSFrame_in_eq: "(ok, c2) = writeWSFrame opcode masked payload c \<Longrightarrow> wcIn c2 = wcIn c"
  by (metis writeWSFrame_in snd_conv)

section \<open>The echo handler\<close>

text \<open>The loop on an open tunnel, until it is dropped, closed or dead.\<close>

function echoLoop :: "wsConn \<Rightarrow> wsConn" where
  "echoLoop c =
     (case readWSFrame (wcIn c) of
        Inl e \<Rightarrow> c
      | Inr (opcode, payload, rest) \<Rightarrow>
          let c1 = c\<lparr>wcIn := rest\<rparr> in
          if opcode = wsOpText \<or> opcode = wsOpBinary
          then (if payload = WSDropMessage then c1
                else case writeWSFrame opcode False payload c1 of
                  (ok, c2) \<Rightarrow> if ok then echoLoop c2 else c2)
          else if opcode = wsOpPing
          then (case writeWSFrame wsOpPong False payload c1 of
                  (ok, c2) \<Rightarrow> if ok then echoLoop c2 else c2)
          else if opcode = wsOpClose then snd (writeWSFrame wsOpClose False payload c1)
          else echoLoop c1)"
  by pat_completeness auto

termination
  by (relation "measure (\<lambda>c. length (wcIn c))") (auto dest!: readWSFrame_shorter writeWSFrame_in_eq)

declare echoLoop.simps [simp del]

record wsLib =
  wlSHA1 :: "byte list \<Rightarrow> byte list"
  wlBase64 :: "byte list \<Rightarrow> string"

definition wsAccept :: "wsLib \<Rightarrow> string \<Rightarrow> string" where
  "wsAccept lib key = wlBase64 lib (wlSHA1 lib (bytesOf (key @ wsMagicGUID)))"

record wsRequest =
  wrMethod :: string
  wrPath :: string
  wrHost :: string
  wrUpgrade :: string
  wrKey :: string

datatype hijack = NoHijacker | HijackFails | Hijacked wsConn

datatype wsReply = PlainReply int string | NoReply | Tunnelled wsConn

definition crlf :: string where
  "crlf = [CHR 0x0D, CHR 0x0A]"

definition switchingProtocols :: "wsLib \<Rightarrow> string \<Rightarrow> string" where
  "switchingProtocols lib key =
     ''HTTP/1.1 101 Switching Protocols'' @ crlf @ ''Upgrade: websocket'' @ crlf @ ''Connection: Upgrade'' @ crlf @
     ''Sec-WebSocket-Accept: '' @ wsAccept lib key @ crlf @ crlf"

definition WSEchoHandler :: "wsLib \<Rightarrow> int \<Rightarrow> wsRequest \<Rightarrow> hijack \<Rightarrow> wsReply" where
  "WSEchoHandler lib pid r hj =
     (if \<not> EqualFold (wrUpgrade r) ''websocket'' \<or> wrKey r = []
      then PlainReply 200 (''ok '' @ wrMethod r @ '' '' @ wrPath r @ '' host='' @ wrHost r @ '' pid='' @ Itoa pid @ [CHR 0x0A])
      else case hj of
        NoHijacker \<Rightarrow> PlainReply 500 (''response writer cannot hijack'' @ [CHR 0x0A])
      | HijackFails \<Rightarrow> NoReply
      | Hijacked c \<Rightarrow>
          (case writeConn (bytesOf (switchingProtocols lib (wrKey r))) c of
             (ok, c1) \<Rightarrow> Tunnelled (if ok then echoLoop c1 else c1)))"

section \<open>The client\<close>

record wsResponse =
  rsCode :: int
  rsStatus :: string
  rsBody :: string
  rsAccept :: string
  rsProtocol :: string

record dialWorld =
  dwDial :: "string option"
  dwDeadline :: "string option"
  dwRandom :: "nat \<times> nat"
  dwWrite :: "string option"
  dwResponse :: "string \<Rightarrow> string + wsResponse"
  dwClear :: "string option"
  dwQuote :: "string \<Rightarrow> string"

definition handshakeKey :: "wsLib \<Rightarrow> dialWorld \<Rightarrow> string" where
  "handshakeKey lib w = wlBase64 lib (bigEndian 8 (fst (dwRandom w)) @ bigEndian 8 (snd (dwRandom w)))"

definition handshakeRequest :: "string \<Rightarrow> string \<Rightarrow> string \<Rightarrow> string \<Rightarrow> string" where
  "handshakeRequest path host key subprotocol =
     ''GET '' @ (if path = [] then ''/'' else path) @ '' HTTP/1.1'' @ crlf @ ''Host: '' @ host @ crlf @
     ''Upgrade: websocket'' @ crlf @ ''Connection: Upgrade'' @ crlf @ ''Sec-WebSocket-Key: '' @ key @ crlf @
     (if subprotocol \<noteq> [] then ''Sec-WebSocket-Protocol: '' @ subprotocol @ crlf else []) @
     ''Sec-WebSocket-Version: 13'' @ crlf @ crlf"

text \<open>\<open>DialWSProtocol\<close>: the error, if any; what the server answers depends on the request it is sent.\<close>

definition DialWSProtocol :: "wsLib \<Rightarrow> dialWorld \<Rightarrow> string \<Rightarrow> string \<Rightarrow> string \<Rightarrow> string \<Rightarrow> string option" where
  "DialWSProtocol lib w addr host path subprotocol =
     (case dwDial w of
        Some e \<Rightarrow> Some (''dial '' @ addr @ '': '' @ e)
      | None \<Rightarrow>
     (case dwDeadline w of
        Some e \<Rightarrow> Some e
      | None \<Rightarrow>
     (case dwWrite w of
        Some e \<Rightarrow> Some (''write handshake: '' @ e)
      | None \<Rightarrow>
     (let key = handshakeKey lib w in
      case dwResponse w (handshakeRequest path host key subprotocol) of
        Inl e \<Rightarrow> Some (''read handshake response: '' @ e)
      | Inr r \<Rightarrow>
          if rsCode r \<noteq> 101 then Some (''handshake status '' @ rsStatus r @ '': '' @ take 512 (rsBody r))
          else if rsAccept r \<noteq> wsAccept lib key
          then Some (''Sec-WebSocket-Accept = '' @ dwQuote w (rsAccept r) @ '', want '' @ dwQuote w (wsAccept lib key))
          else if rsProtocol r \<noteq> [] \<and> rsProtocol r \<noteq> subprotocol
          then Some (''Sec-WebSocket-Protocol = '' @ dwQuote w (rsProtocol r) @ '', want '' @ dwQuote w subprotocol)
          else dwClear w))))"

definition DialWS :: "wsLib \<Rightarrow> dialWorld \<Rightarrow> string \<Rightarrow> string \<Rightarrow> string \<Rightarrow> string option" where
  "DialWS lib w addr host path = DialWSProtocol lib w addr host path []"

definition WriteText :: "byte list \<Rightarrow> wsConn \<Rightarrow> bool \<times> wsConn" where
  "WriteText msg c = writeWSFrame wsOpText True msg c"

datatype readTextError = FrameError wsError | ClosedByPeer | PongNotWritten

function ReadText :: "wsConn \<Rightarrow> (readTextError + byte list) \<times> wsConn" where
  "ReadText c =
     (case readWSFrame (wcIn c) of
        Inl e \<Rightarrow> (Inl (FrameError e), c)
      | Inr (opcode, payload, rest) \<Rightarrow>
          let c1 = c\<lparr>wcIn := rest\<rparr> in
          if opcode = wsOpText \<or> opcode = wsOpBinary then (Inr payload, c1)
          else if opcode = wsOpClose then (Inl ClosedByPeer, c1)
          else if opcode = wsOpPing
          then (case writeWSFrame wsOpPong True payload c1 of
                  (ok, c2) \<Rightarrow> if ok then ReadText c2 else (Inl PongNotWritten, c2))
          else ReadText c1)"
  by pat_completeness auto

termination
  by (relation "measure (\<lambda>c. length (wcIn c))") (auto dest!: readWSFrame_shorter writeWSFrame_in_eq)

declare ReadText.simps [simp del]

text \<open>\<open>Close\<close>, up to the closing of the connection: the close frame, then frames until the peer's close.\<close>

function awaitClose :: "byte list \<Rightarrow> byte list" where
  "awaitClose input =
     (case readWSFrame input of
        Inl e \<Rightarrow> input
      | Inr (opcode, payload, rest) \<Rightarrow> if opcode = wsOpClose then rest else awaitClose rest)"
  by pat_completeness auto

termination
  by (relation "measure length") (auto dest!: readWSFrame_shorter)

declare awaitClose.simps [simp del]

definition CloseWS :: "wsConn \<Rightarrow> wsConn" where
  "CloseWS c = (let c1 = snd (writeWSFrame wsOpClose True [] c) in c1\<lparr>wcIn := awaitClose (wcIn c1)\<rparr>)"

end
