(* ===== verification/WebSocketProps.thy ===== *)
theory WebSocketProps
  imports WebSocket
begin

text \<open>
  The frame codec's round trip for every opcode, length and mask, and the session of the client with the echo
  handler composed from it.
\<close>

unbundle bit_operations_syntax

section \<open>Bytes\<close>

lemma bigEndian_length [simp]: "length (bigEndian k n) = k"
  by (induction k arbitrary: n) auto

lemma bigEndian_value [simp]: "bigEndianValue (bigEndian k n) = n mod 256 ^ k"
proof (induction k arbitrary: n)
  case (Suc k)
  have "bigEndianValue (bigEndian (Suc k) n) = 256 * bigEndianValue (bigEndian k (n div 256)) + n mod 256"
    by (simp add: bigEndianValue_def unsigned_of_nat take_bit_eq_mod)
  also have "\<dots> = n mod (256 * 256 ^ k)" by (simp add: Suc mod_mult2_eq)
  finally show ?case by simp
qed (simp add: bigEndianValue_def)

lemma readFull_append [simp]: "length xs = n \<Longrightarrow> readFull n (xs @ ys) = Some (xs, ys)"
  by (simp add: readFull_def)

lemma readFull_2 [simp]: "readFull 2 (a # b # xs) = Some ([a, b], xs)"
  by (simp add: readFull_def)

lemma unmask [simp]: "maskPayload key (maskPayload key p) = p"
  by (rule nth_equalityI) (simp_all add: maskPayload_def xor.assoc)

lemma maskPayload_length [simp]: "length (maskPayload key p) = length p"
  by (simp add: maskPayload_def)

text \<open>The bits of the two header bytes.\<close>

lemma length_bits:
  assumes "m < 128"
  shows "unat (word_of_nat m AND 0x7F :: byte) = m" "word_of_nat m AND 0x80 = (0 :: byte)"
    "unat ((word_of_nat m OR 0x80) AND 0x7F :: byte) = m" "(word_of_nat m OR 0x80) AND 0x80 \<noteq> (0 :: byte)"
proof -
  have "list_all (\<lambda>m. unat (word_of_nat m AND 0x7F :: byte) = m \<and> word_of_nat m AND 0x80 = (0 :: byte) \<and>
      unat ((word_of_nat m OR 0x80) AND 0x7F :: byte) = m \<and> (word_of_nat m OR 0x80) AND 0x80 \<noteq> (0 :: byte)) [0..<128]"
    by code_simp
  with assms show "unat (word_of_nat m AND 0x7F :: byte) = m" "word_of_nat m AND 0x80 = (0 :: byte)"
    "unat ((word_of_nat m OR 0x80) AND 0x7F :: byte) = m" "(word_of_nat m OR 0x80) AND 0x80 \<noteq> (0 :: byte)"
    by (simp_all add: list_all_iff)
qed

lemma opcode_bits:
  assumes "unat opcode < 16"
  shows "(0x80 OR opcode) AND 0x0F = opcode" "(0x80 OR opcode) AND 0x80 \<noteq> (0 :: byte)"
proof -
  have "list_all (\<lambda>m. (0x80 OR word_of_nat m) AND 0x0F = (word_of_nat m :: byte) \<and>
      (0x80 OR word_of_nat m) AND 0x80 \<noteq> (0 :: byte)) [0..<16]" by code_simp
  moreover have "opcode = word_of_nat (unat opcode)" by simp
  ultimately show "(0x80 OR opcode) AND 0x0F = opcode" "(0x80 OR opcode) AND 0x80 \<noteq> (0 :: byte)"
    using assms unfolding list_all_iff by (metis atLeastLessThan_iff set_upt zero_le)+
qed

section \<open>The round trip\<close>

definition lengthCode :: "nat \<Rightarrow> nat" where
  "lengthCode n = (if n < 126 then n else if n < 2 ^ 16 then 126 else 127)"

definition lengthExt :: "nat \<Rightarrow> byte list" where
  "lengthExt n = (if n < 126 then [] else if n < 2 ^ 16 then [word_of_nat (n div 256), word_of_nat n] else bigEndian 8 n)"

lemma header_shape: "frameHeader opcode n = (0x80 OR opcode) # word_of_nat (lengthCode n) # lengthExt n"
  by (simp add: frameHeader_def lengthCode_def lengthExt_def)

lemma lengthCode_less: "lengthCode n < 128"
  by (simp add: lengthCode_def)

lemma length_read:
  assumes "unat (b AND 0x7F) = lengthCode n" "n < 2 ^ 64"
  shows "frameLength b (lengthExt n @ rest) = Some (n, rest)"
proof -
  have "bigEndianValue [word_of_nat (n div 256), word_of_nat n] = n" if "n < 2 ^ 16"
    using that by (simp add: bigEndianValue_def unsigned_of_nat take_bit_eq_mod)
  moreover have "bigEndianValue (bigEndian 8 n) = n" using assms(2) by simp
  ultimately show ?thesis using assms(1)
    by (auto simp: frameLength_def lengthCode_def lengthExt_def apfst_def map_prod_def readFull_append[of "bigEndian 8 n" 8])
qed

text \<open>The bytes of a frame, under a mask or not.\<close>

definition frameBytes :: "byte \<Rightarrow> byte list option \<Rightarrow> byte list \<Rightarrow> byte list" where
  "frameBytes opcode key payload =
     (case key of
        None \<Rightarrow> frameHeader opcode (length payload) @ payload
      | Some k \<Rightarrow> markMasked (frameHeader opcode (length payload)) @ k @ maskPayload k payload)"

lemma frame_read:
  assumes "unat opcode < 16" "length payload < 2 ^ 64" "\<And>k. key = Some k \<Longrightarrow> length k = 4"
  shows "readWSFrame (frameBytes opcode key payload @ rest) =
    (if length payload \<le> maxWSPayload then Inr (opcode, payload, rest) else Inl (PayloadTooLarge (length payload)))"
proof (cases key)
  case None
  note b = length_bits(1,2)[OF lengthCode_less, of "length payload"]
  show ?thesis using opcode_bits[OF assms(1)] b(2) length_read[OF b(1) assms(2)]
    by (simp add: None frameBytes_def header_shape readWSFrame_def Let_def)
next
  case (Some k)
  note b = length_bits(3,4)[OF lengthCode_less, of "length payload"]
  show ?thesis using opcode_bits[OF assms(1)] b(2) length_read[OF b(1) assms(2)] assms(3)[OF Some]
    by (simp add: Some frameBytes_def header_shape markMasked_def readWSFrame_def Let_def)
qed

text \<open>A healthy connection: every write succeeds.\<close>

definition drawnKey :: "bool \<Rightarrow> wsConn \<Rightarrow> byte list option" where
  "drawnKey masked c = (if masked then Some (bigEndian 4 (unat (wcRandom c (wcDraws c)))) else None)"

definition drawn :: "bool \<Rightarrow> wsConn \<Rightarrow> wsConn" where
  "drawn masked c = (if masked then c\<lparr>wcDraws := Suc (wcDraws c)\<rparr> else c)"

lemma frame_written:
  "wcRoom c = None \<Longrightarrow>
    writeWSFrame opcode masked payload c =
      (True, (drawn masked c)\<lparr>wcOut := wcOut c @ frameBytes opcode (drawnKey masked c) payload\<rparr>)"
  by (simp add: writeWSFrame_def writeConn_def frameBytes_def drawnKey_def drawn_def Let_def)

lemma drawnKey_length: "drawnKey masked c = Some k \<Longrightarrow> length k = 4"
  by (auto simp: drawnKey_def split: if_splits)

lemma frame_sent:
  "writeWSFrame opcode masked payload c = (True, d) \<Longrightarrow> wcOut d = wcOut c @ frameBytes opcode (drawnKey masked c) payload"
  by (auto simp: writeWSFrame_def writeConn_def frameBytes_def drawnKey_def Let_def split: if_splits option.splits nat.splits)

text \<open>
  C33. What one side writes as a frame the other side reads as that frame: for every opcode, mask and length,
  whatever bytes follow, the reader gets the opcode and the payload and stands right behind the frame; a
  payload above the cap is refused with its length.
\<close>

theorem ws_frame_roundtrip:
  assumes "writeWSFrame opcode masked payload c = (True, d)" "unat opcode < 16" "length payload < 2 ^ 64"
  shows "\<exists>bs. wcOut d = wcOut c @ bs \<and>
    (\<forall>rest. readWSFrame (bs @ rest) =
      (if length payload \<le> maxWSPayload then Inr (opcode, payload, rest) else Inl (PayloadTooLarge (length payload))))"
  using frame_sent[OF assms(1)] frame_read[where key = "drawnKey masked c", OF assms(2,3) drawnKey_length]
  by (intro exI conjI allI)

definition idleConn :: wsConn where
  "idleConn = \<lparr>wcIn = [], wcOut = [], wcRoom = None, wcRandom = (\<lambda>_. 0xDEADBEEF), wcDraws = 0\<rparr>"

theorem ws_frame_roundtrip_witness:
  "readWSFrame (wcOut (snd (writeWSFrame wsOpBinary True ([7, 8, 9]) idleConn)) @ [1, 2]) =
     Inr (wsOpBinary, [7, 8, 9], [1, 2])"
proof -
  let ?w = "writeWSFrame wsOpBinary True ([7, 8, 9]) idleConn"
  have "wcRoom idleConn = None" by (simp add: idleConn_def)
  then have w: "?w = (True, snd ?w)" by (simp add: frame_written prod_eq_iff)
  from ws_frame_roundtrip[OF w] have "\<exists>bs. wcOut (snd ?w) = wcOut idleConn @ bs \<and>
      (\<forall>rest. readWSFrame (bs @ rest) = Inr (wsOpBinary, [7, 8, 9], rest))"
    by (simp add: wsOpBinary_def maxWSPayload_def)
  then show ?thesis by (auto simp: idleConn_def)
qed

section \<open>A session\<close>

text \<open>A client that sends its messages, and one that reads as many as it has sent.\<close>

fun sendAll :: "byte list list \<Rightarrow> wsConn \<Rightarrow> wsConn" where
  "sendAll [] c = c"
| "sendAll (m # ms) c = sendAll ms (snd (WriteText m c))"

fun readTexts :: "nat \<Rightarrow> wsConn \<Rightarrow> byte list list \<times> wsConn" where
  "readTexts 0 c = ([], c)"
| "readTexts (Suc n) c =
     (case ReadText c of
        (Inl e, c1) \<Rightarrow> ([], c1)
      | (Inr m, c1) \<Rightarrow> apfst ((#) m) (readTexts n c1))"

definition maskedFrames :: "byte list list \<Rightarrow> byte list list \<Rightarrow> byte list" where
  "maskedFrames ks ms = concat (map2 (\<lambda>k m. frameBytes wsOpText (Some k) m) ks ms)"

lemma sendAll_bytes:
  "wcRoom c = None \<Longrightarrow> \<exists>ks. length ks = length ms \<and> (\<forall>k \<in> set ks. length k = 4) \<and>
     wcOut (sendAll ms c) = wcOut c @ maskedFrames ks ms \<and> wcRoom (sendAll ms c) = None"
proof (induction ms arbitrary: c)
  case (Cons m ms)
  let ?k = "bigEndian 4 (unat (wcRandom c (wcDraws c)))" and ?d = "snd (WriteText m c)"
  have d: "wcOut ?d = wcOut c @ frameBytes wsOpText (Some ?k) m" "wcRoom ?d = None"
    using Cons.prems by (simp_all add: WriteText_def frame_written drawnKey_def drawn_def)
  from Cons.IH[OF d(2)] obtain ks where "length ks = length ms" "\<forall>k \<in> set ks. length k = 4"
    "wcOut (sendAll ms ?d) = wcOut ?d @ maskedFrames ks ms" "wcRoom (sendAll ms ?d) = None" by blast
  with d(1) show ?case by (intro exI[of _ "?k # ks"]) (simp add: maskedFrames_def)
qed (simp add: maskedFrames_def)

lemma echo_text:
  "readWSFrame (wcIn c) = Inr (wsOpText, m, rest) \<Longrightarrow> m \<noteq> WSDropMessage \<Longrightarrow> wcRoom c = None \<Longrightarrow>
    echoLoop c = echoLoop (c\<lparr>wcIn := rest, wcOut := wcOut c @ frameBytes wsOpText None m\<rparr>)"
  by (subst echoLoop.simps) (simp add: frame_written drawnKey_def drawn_def)

lemma echo_close:
  "readWSFrame (wcIn c) = Inr (wsOpClose, m, rest) \<Longrightarrow> wcRoom c = None \<Longrightarrow>
    echoLoop c = c\<lparr>wcIn := rest, wcOut := wcOut c @ frameBytes wsOpClose None m\<rparr>"
  by (subst echoLoop.simps) (simp add: ws_ops frame_written drawnKey_def drawn_def)

lemma text_read:
  assumes "length m \<le> maxWSPayload"
  shows "readWSFrame (frameBytes wsOpText None m @ rest) = Inr (wsOpText, m, rest)"
    "length k = 4 \<Longrightarrow> readWSFrame (frameBytes wsOpText (Some k) m @ rest) = Inr (wsOpText, m, rest)"
  using assms frame_read[of wsOpText m None rest] frame_read[of wsOpText m "Some k" rest]
  by (simp_all add: wsOpText_def maxWSPayload_def)

lemma close_read:
  "readWSFrame (frameBytes wsOpClose None []) = Inr (wsOpClose, [], [])"
  "length k = 4 \<Longrightarrow> readWSFrame (frameBytes wsOpClose (Some k) []) = Inr (wsOpClose, [], [])"
  using frame_read[of wsOpClose "[]" None "[]"] frame_read[of wsOpClose "[]" "Some k" "[]"]
  by (simp_all add: wsOpClose_def maxWSPayload_def)

lemma echo_all:
  "length ks = length ms \<Longrightarrow> \<forall>k \<in> set ks. length k = 4 \<Longrightarrow>
    \<forall>m \<in> set ms. length m \<le> maxWSPayload \<and> m \<noteq> WSDropMessage \<Longrightarrow> wcRoom c = None \<Longrightarrow>
    wcIn c = maskedFrames ks ms @ rest \<Longrightarrow>
    echoLoop c = echoLoop (c\<lparr>wcIn := rest, wcOut := wcOut c @ concat (map (frameBytes wsOpText None) ms)\<rparr>)"
proof (induction ks ms arbitrary: c rule: list_induct2)
  case (Cons k ks m ms)
  have "readWSFrame (wcIn c) = Inr (wsOpText, m, maskedFrames ks ms @ rest)"
    using Cons.prems by (simp add: maskedFrames_def text_read)
  with echo_text[OF this] Cons.prems Cons.IH show ?case by simp
next
  case Nil
  then have "c\<lparr>wcIn := rest\<rparr> = c" by (cases c) (simp add: maskedFrames_def)
  then show ?case by simp
qed

lemma read_all:
  "\<forall>m \<in> set ms. length m \<le> maxWSPayload \<Longrightarrow> wcIn c = concat (map (frameBytes wsOpText None) ms) @ rest \<Longrightarrow>
    readTexts (length ms) c = (ms, c\<lparr>wcIn := rest\<rparr>)"
proof (induction ms arbitrary: c)
  case (Cons m ms)
  then have "ReadText c = (Inr m, c\<lparr>wcIn := concat (map (frameBytes wsOpText None) ms) @ rest\<rparr>)"
    by (subst ReadText.simps) (simp add: text_read)
  with Cons show ?case by simp
qed simp

text \<open>
  A session: whatever messages up to the cap a client sends (none of them the one that makes the server drop
  the connection) before its close frame, the echo handler consumes them all and answers so that the client
  reads exactly these messages, in order, and then the close; and \<open>Close\<close> finds the peer's close frame.
\<close>

theorem ws_session_echoes:
  assumes "\<forall>m \<in> set ms. length m \<le> maxWSPayload \<and> m \<noteq> WSDropMessage"
    and "wcRoom c = None" "wcOut c = []" "wcRoom s = None" "wcOut s = []"
    and "wcIn s = wcOut (snd (writeWSFrame wsOpClose True [] (sendAll ms c)))"
  shows "wcIn (echoLoop s) = [] \<and>
    (\<exists>d. readTexts (length ms) (c\<lparr>wcIn := wcOut (echoLoop s)\<rparr>) = (ms, d) \<and> fst (ReadText d) = Inl ClosedByPeer \<and>
      wcIn (CloseWS d) = [])"
proof -
  from sendAll_bytes[OF assms(2)] obtain ks where k: "length ks = length ms" "\<forall>k \<in> set ks. length k = 4"
    "wcOut (sendAll ms c) = maskedFrames ks ms" "wcRoom (sendAll ms c) = None" using assms(3) by auto
  obtain key where key: "length key = 4" "wcIn s = maskedFrames ks ms @ frameBytes wsOpClose (Some key) []"
  proof (rule that)
    let ?key = "bigEndian 4 (unat (wcRandom (sendAll ms c) (wcDraws (sendAll ms c))))"
    show "length ?key = 4" by simp
    show "wcIn s = maskedFrames ks ms @ frameBytes wsOpClose (Some ?key) []"
      using assms(6) k(3,4) by (simp add: frame_written drawnKey_def drawn_def)
  qed
  let ?t = "s\<lparr>wcIn := frameBytes wsOpClose (Some key) [], wcOut := concat (map (frameBytes wsOpText None) ms)\<rparr>"
  have "readWSFrame (wcIn ?t) = Inr (wsOpClose, [], [])" using close_read(2)[OF key(1)] by simp
  from echo_close[OF this] echo_all[OF k(1,2) assms(1,4) key(2)] assms(4,5)
  have e: "wcIn (echoLoop s) = []"
    "wcOut (echoLoop s) = concat (map (frameBytes wsOpText None) ms) @ frameBytes wsOpClose None []" by simp_all
  let ?d = "c\<lparr>wcIn := frameBytes wsOpClose None []\<rparr>"
  have r: "readTexts (length ms) (c\<lparr>wcIn := wcOut (echoLoop s)\<rparr>) = (ms, ?d)"
    using read_all[of ms "c\<lparr>wcIn := wcOut (echoLoop s)\<rparr>" "frameBytes wsOpClose None []"] assms(1) e(2) by simp
  note c = close_read(1)
  then have "fst (ReadText ?d) = Inl ClosedByPeer" by (subst ReadText.simps) (simp add: ws_ops)
  moreover have "wcIn (CloseWS ?d) = []" using c by (simp add: CloseWS_def Let_def awaitClose.simps)
  ultimately show ?thesis using e(1) r by blast
qed

theorem ws_session_echoes_witness:
  "\<exists>s d. wcIn (echoLoop s) = [] \<and> readTexts 2 (idleConn\<lparr>wcIn := wcOut (echoLoop s)\<rparr>) = ([bytesOf ''hi'', []], d)"
proof -
  let ?ms = "[bytesOf ''hi'', []]"
  obtain s :: wsConn where s: "wcRoom s = None" "wcOut s = []" "wcIn s = wcOut (snd (writeWSFrame wsOpClose True [] (sendAll ?ms idleConn)))"
    by (rule that[of "idleConn\<lparr>wcIn := wcOut (snd (writeWSFrame wsOpClose True [] (sendAll ?ms idleConn)))\<rparr>"])
      (simp_all add: idleConn_def)
  have c: "wcRoom idleConn = None" "wcOut idleConn = []" by (simp_all add: idleConn_def)
  have "\<forall>m \<in> set ?ms. length m \<le> maxWSPayload \<and> m \<noteq> WSDropMessage"
    by (simp add: maxWSPayload_def WSDropMessage_def bytesOf_def)
  from ws_session_echoes[OF this c s] have "wcIn (echoLoop s) = [] \<and>
      (\<exists>d. readTexts (length ?ms) (idleConn\<lparr>wcIn := wcOut (echoLoop s)\<rparr>) = (?ms, d))" by blast
  moreover have "length ?ms = 2" by simp
  ultimately show ?thesis by metis
qed

end
