(* ===== verification/Spec2Isabelle.thy ===== *)
theory Spec2Isabelle
  imports RingBuffer Backoff LogFile SupervisorStop ProcessIO StopGate Monitor ConfigFile EnvFile Proxy Budget
    ReloadProps WildcardProps ProviderProps SyncErrors SyncProps CliProps StartupProps WebSocketProps
begin

text \<open>
  herd-wake: an on-demand supervisor for development servers.

  \<^bold>\<open>The program.\<close> A daemon listens on loopback ports. A request for a project that is not running starts
  the project's development server, is held until the server is ready and is then forwarded to it; a
  server that has been idle long enough is stopped again. Projects come from a configuration file and
  the fragments beside it; worktrees of a wildcard entry become projects at their first request. A
  reload applies the difference between two configurations to the running daemon, a budget bounds how
  many servers run at once, and \<open>herd-wake sync\<close> writes the fragments for the worktrees it finds and keeps
  the Herd proxies that lead to the daemon. The command line reaches the daemon over HTTP on a unix socket.

  \<^bold>\<open>The theories\<close>, in the order of the code's dependencies, with the files under \<open>src/\<close> they model:

  \<^item> \<open>Prelude\<close>, \<open>GoLib\<close>: times and durations, association lists for Go maps, reachable states and the locale
    \<open>inductive_invariant\<close>; the functions of Go's \<open>strings\<close>, \<open>strconv\<close> and \<open>path/filepath\<close> the code calls.
    Strings are lists of bytes. Durations are unbounded nanoseconds except where the code lets them wrap
    (\<open>IdleTimeout\<close>).
  \<^item> \<open>RingBuffer\<close> (\<open>process/ring.go\<close>), \<open>Backoff\<close> (\<open>backoffDelay\<close> of \<open>process/supervisor.go\<close>, \<open>resolveBackoff\<close> of
    \<open>daemon/wildcard.go\<close>), \<open>LogFile\<close> (\<open>process/logfile.go\<close>).
  \<^item> \<open>ProjectConfig\<close>, \<open>Validation\<close>, \<open>DiscoveryConfig\<close>, \<open>ConfigFile\<close> (\<open>config/config.go\<close>, \<open>config/discovery.go\<close>,
    \<open>config/envfiles.go\<close>, \<open>config/paths.go\<close>): the \<open>Project\<close> and \<open>Discovery\<close> structs as records, their defaults, the
    checks of one project, of one entry and across them, and the loader that merges the fragments.
  \<^item> \<open>EnvFile\<close> (\<open>envfile/envfile.go\<close>): the parser and the environment of a child process.
  \<^item> \<open>Supervisor\<close>, \<open>SupervisorInv\<close>, \<open>SupervisorStop\<close> (\<open>process/supervisor.go\<close>): the state of a \<open>Supervisor\<close> as a record, one
    function per critical section (starting, the goroutine that waits for the process, the probes, the
    stages of a stop), and \<open>supStep\<close>, the relation that interleaves them; channels are sequence numbers and
    the outcomes sent to them a list of the state. \<open>ownStep\<close> is the part of it that needs no caller, for the
    termination of a stop. \<open>ProcessIO\<close>: the pump of the output, a probe, the polling of a stopped group.
  \<^item> \<open>Tracker\<close> (\<open>idle/tracker.go\<close>), \<open>StopGate\<close> (its lock-free handshake with the proxy, at the granularity of
    single atomic operations), \<open>Monitor\<close> (\<open>idle/monitor.go\<close>).
  \<^item> \<open>Proxy\<close> (\<open>proxy/ondemand.go\<close>, \<open>proxy/proxy.go\<close>): one request as a trace of events, given what the world
    answers; the diagnostics. \<open>Router\<close> (\<open>daemon/router.go\<close>, the handler switch of \<open>daemon/daemon.go\<close>).
  \<^item> \<open>DaemonState\<close>, \<open>Budget\<close>, \<open>Service\<close>, \<open>Reload\<close>, \<open>ReloadFacts\<close>, \<open>ReloadProps\<close> (\<open>daemon/state.go\<close>,
    \<open>daemon/budget.go\<close>, \<open>daemon/daemon.go\<close>, \<open>daemon/reload.go\<close>): the daemon's tables as one record over a heap of
    project, entry, listener and switch objects, the reservations with their evictions, putting
    projects in and out of service, and the reload. What other goroutines do while an operation waits
    without a lock is an argument (\<open>env\<close>) that the properties constrain by name.
  \<^item> \<open>Resolver\<close>, \<open>Wildcard\<close>, \<open>WildcardProps\<close> (\<open>daemon/wildcard.go\<close>): the single flight of a label's resolution as
    interleaved steps, and what one resolution does. \<open>WorktreeScan\<close> (\<open>discovery/scan.go\<close>), \<open>PortCommand\<close>
    (\<open>discovery/portcmd.go\<close>).
  \<^item> \<open>Provider\<close>, \<open>ProviderProps\<close> (\<open>daemon/state.go\<close>, \<open>control/control.go\<close>): the operations of the control API.
  \<^item> \<open>DurationText\<close> (the text of \<open>time.Duration\<close>, both ways), \<open>ControlWire\<close> (\<open>control/control.go\<close>: the JSON objects
    of the answers; URL escaping), \<open>Control\<close>, \<open>ControlProps\<close> (\<open>control/server.go\<close>, \<open>control/client.go\<close>): the mux with
    its handlers over a record \<open>provider\<close> of the operations, and the client, composed by \<open>remoteCall\<close>.
  \<^item> \<open>Paths\<close> (\<open>config/paths.go\<close>): where the files are by default.
  \<^item> \<open>Startup\<close>, \<open>StartupProps\<close> (\<open>New\<close>, \<open>Run\<close> and the control socket in \<open>daemon/daemon.go\<close>): the life of the daemon
    process; \<open>claimStep\<close> interleaves several daemons at one socket path at the accesses to the file.
  \<^item> \<open>Herd\<close> (\<open>herd/herd.go\<close>), \<open>Sync\<close>, \<open>SyncRun\<close>, \<open>SyncFacts\<close>, \<open>SyncPorts\<close>, \<open>SyncStable\<close>, \<open>SyncErrors\<close>,
    \<open>SyncProps\<close> (\<open>discovery/discovery.go\<close>, \<open>discovery/wildcard.go\<close>, \<open>discovery/remove.go\<close>): the Herd tool's
    site files and cached listings, the sync of every entry and the removal of a project, on the files of
    the configuration directory given as a map.
  \<^item> \<open>Flags\<close> (the parser of Go's \<open>flag\<close> package), \<open>CliBase\<close>, \<open>CliLocal\<close>, \<open>Cli\<close>, \<open>CliProps\<close> (\<open>cmd/herd-wake\<close>): every
    command as a function from its arguments and the machine (the files, the runs of the herd tool, the
    daemon behind the socket) to its exit code, its output and the machine afterwards; \<open>runArgs\<close> is \<open>run\<close>.

  \<^item> \<open>WebSocket\<close>, \<open>WebSocketProps\<close> (\<open>testproc/ws.go\<close>): the endpoints with which the tests drive a tunnel through the
    proxy, on connections given as streams of bytes; frames are read and written on \<open>8 word\<close>s. The loops on a
    connection end because each frame they read shortens what is left of the input.

  \<^bold>\<open>Interfaces.\<close> \<open>inductive_invariant\<close> is interpreted for the supervisor, the stop gate, the handler switch,
  the resolver and the claims of the control socket; \<open>line_log\<close> for the ring; \<open>routing\<close> for
  the router's table; \<open>activity\<close> for the two kinds of activity of a tracker; \<open>slot_process\<close> for the two ways a reservation starts a process; \<open>table_fold\<close> for the
  three loops that rebuild the tables in a reload; \<open>port_table\<close> for the ports of a sync.

  \<^bold>\<open>What the lemmas show.\<close> Each operation's behaviour on its branches, in the theory of the component; the
  invariants by rule induction over the interleavings; the properties, each after a text block that begins
  with its number. Some of them show behaviour that is not intended: these say so in their text.

  \<^bold>\<open>Bounds.\<close> The loops of the code are structural recursions, folds, or (on the output of a process and on a connection)
  recursions with the length of the remaining input as their measure, so every function of the model is total; \<open>reserveLoop\<close> and \<open>evictLoop\<close> recurse on the attempts and the candidates the code bounds them by.
  \<open>fetch\<close> has the ten requests the HTTP client follows redirects for as its fuel, and answers
  with the client's error after them.
  Integers of the configuration are unbounded; the places where a width matters are the
  idle timeout, the durations of leases and the bytes of a frame.

  \<^bold>\<open>Parameters.\<close> The operating system (files, processes, ports), the YAML codec, the URL and IP parsers,
  the shell, the herd tool and \<open>fmt\<close>'s quoting are records of
  functions. The encoder and decoder of the sync are assumed inverse only where a property names it.

  For the command line also: the texts of other packages' errors, the column alignment of \<open>tabwriter\<close>, the messages of the \<open>flag\<close>
  package, the clock and the JSON text codec. The properties over the socket assume of the codec that it decodes
  what it encoded, for the answer at hand, and that an error's text fits the 4096 bytes the client reads.

  \<^bold>\<open>Not modelled.\<close> Time-outs of contexts, the goroutines that accept and copy bytes, the HTML of the diagnostic
  pages, and \<open>main\<close> with its signal handling around \<open>run\<close>; the other helper processes of the tests
  (\<open>testproc\<close>) and the version string, which are not part of the running program.
\<close>

end
